(* ===== verification/Loom_Prelude.thy ===== *)
theory Loom_Prelude
  imports Main "HOL-Library.Word"
begin

text \<open>
  Shared vocabulary of the development: the machine integer types of the Rust
  sources, the vector operations of the Rust standard library that several
  components use (bounds-checked reads, \<open>resize\<close>, \<open>insert\<close>, \<open>remove\<close>,
  \<open>swap_remove\<close>, \<open>binary_search\<close>), and the generic lemmas about them.
\<close>

type_synonym u8 = "8 word"
type_synonym u32 = "32 word"
type_synonym u64 = "64 word"

text \<open>A signed 64-bit integer is a 64-bit word read through \<^const>\<open>sint\<close>.\<close>

type_synonym i64 = "64 word"

named_theorems vec_simps \<open>rewrite rules for the vector operations\<close>

section \<open>Vector operations\<close>

text \<open>\<open>slice::get\<close>: a bounds-checked read.\<close>

definition get_opt :: "'a list \<Rightarrow> nat \<Rightarrow> 'a option" where
  "get_opt xs i = (if i < length xs then Some (xs ! i) else None)"

lemma get_opt_Some_iff [vec_simps]: "get_opt xs i = Some x \<longleftrightarrow> i < length xs \<and> xs ! i = x"
  by (auto simp: get_opt_def)

lemma get_opt_None_iff [vec_simps]: "get_opt xs i = None \<longleftrightarrow> length xs \<le> i"
  by (auto simp: get_opt_def)

lemma get_opt_Nil [simp]: "get_opt [] i = None"
  by (simp add: get_opt_def)

lemma get_opt_update [vec_simps]:
  "get_opt (xs[i := x]) j = (if i = j \<and> i < length xs then Some x else get_opt xs j)"
  by (auto simp: get_opt_def)

text \<open>\<open>Vec::resize\<close> used to grow a vector: the code guards it with a length test.\<close>

definition grow :: "'a list \<Rightarrow> nat \<Rightarrow> 'a \<Rightarrow> 'a list" where
  "grow xs n x = (if length xs < n then xs @ replicate (n - length xs) x else xs)"

lemma length_grow [vec_simps]: "length (grow xs n x) = max (length xs) n"
  by (auto simp: grow_def)

lemma grow_id [simp]: "n \<le> length xs \<Longrightarrow> grow xs n x = xs"
  by (simp add: grow_def)

lemma nth_grow [vec_simps]:
  "i < max (length xs) n \<Longrightarrow> grow xs n x ! i = (if i < length xs then xs ! i else x)"
  by (auto simp: grow_def nth_append)

lemma set_grow: "set (grow xs n x) \<subseteq> insert x (set xs)"
  by (auto simp: grow_def)

lemma get_opt_grow [vec_simps]:
  "get_opt (grow xs n x) i =
     (if i < length xs then Some (xs ! i) else if i < n then Some x else None)"
  by (auto simp: get_opt_def length_grow nth_grow)

lemma ball_set_take_map:
  "i \<le> length xs \<Longrightarrow> (\<forall>y \<in> set (take i (map f xs)). P y) \<longleftrightarrow> (\<forall>j < i. P (f (xs ! j)))"
  by (auto simp: all_set_conv_all_nth)

subsection \<open>Insertion, removal and binary search\<close>

definition insert_at :: "'a list \<Rightarrow> nat \<Rightarrow> 'a \<Rightarrow> 'a list" where
  "insert_at xs i x = take i xs @ x # drop i xs"

definition remove_at :: "'a list \<Rightarrow> nat \<Rightarrow> 'a list" where
  "remove_at xs i = take i xs @ drop (Suc i) xs"

text \<open>
  \<open>slice::binary_search_by_key\<close>: \<^term>\<open>Inr i\<close> is a match at \<open>i\<close>, \<^term>\<open>Inl i\<close> the
  position where the key can be inserted.
\<close>

function bsearch_loop :: "('a \<Rightarrow> 'k::linorder) \<Rightarrow> 'a list \<Rightarrow> 'k \<Rightarrow> nat \<Rightarrow> nat \<Rightarrow> nat + nat" where
  "bsearch_loop f xs k lo hi =
     (if lo < hi
      then let mid = (lo + hi) div 2
           in if f (xs ! mid) = k then Inr mid
              else if f (xs ! mid) < k then bsearch_loop f xs k (Suc mid) hi
              else bsearch_loop f xs k lo mid
      else Inl lo)"
  by pat_completeness auto
termination
  by (relation "measure (\<lambda>(f, xs, k, lo, hi). hi - lo)") auto

declare bsearch_loop.simps [simp del]

definition bsearch :: "('a \<Rightarrow> 'k::linorder) \<Rightarrow> 'a list \<Rightarrow> 'k \<Rightarrow> nat + nat" where
  "bsearch f xs k = bsearch_loop f xs k 0 (length xs)"

definition key_sorted :: "('a \<Rightarrow> 'k::linorder) \<Rightarrow> 'a list \<Rightarrow> bool" where
  "key_sorted f xs \<longleftrightarrow> sorted_wrt (<) (map f xs)"

lemma key_sorted_nth: "key_sorted f xs \<Longrightarrow> i < j \<Longrightarrow> j < length xs \<Longrightarrow> f (xs ! i) < f (xs ! j)"
  by (auto simp: key_sorted_def sorted_wrt_iff_nth_less)

lemma key_sorted_inj: "key_sorted f xs \<Longrightarrow> inj_on f (set xs)"
  by (simp add: key_sorted_def strict_sorted_iff distinct_map)

lemma bsearch_loop_spec:
  assumes "key_sorted f xs" and "lo \<le> hi" and "hi \<le> length xs"
    and "\<forall>j < lo. f (xs ! j) < k" and "\<forall>j. hi \<le> j \<and> j < length xs \<longrightarrow> k < f (xs ! j)"
  shows "(case bsearch_loop f xs k lo hi of
      Inr i \<Rightarrow> i < length xs \<and> f (xs ! i) = k
    | Inl i \<Rightarrow> i \<le> length xs \<and> (\<forall>j < i. f (xs ! j) < k) \<and> (\<forall>j. i \<le> j \<and> j < length xs \<longrightarrow> k < f (xs ! j)))"
  using assms
proof (induction f xs k lo hi rule: bsearch_loop.induct)
  case (1 f xs k lo hi)
  show ?case
  proof (cases "lo < hi")
    case False
    then show ?thesis using 1(3-) by (subst bsearch_loop.simps) auto
  next
    case True
    define mid where "mid = (lo + hi) div 2"
    have mid: "lo \<le> mid" "mid < hi" "mid < length xs" using True 1(5) by (auto simp: mid_def)
    consider "f (xs ! mid) = k" | "f (xs ! mid) < k" | "k < f (xs ! mid)" by fastforce
    then show ?thesis
    proof cases
      case 1
      then show ?thesis using True mid by (subst bsearch_loop.simps) (simp add: mid_def [symmetric])
    next
      case 2
      have "\<forall>j < Suc mid. f (xs ! j) < k"
        using key_sorted_nth [OF 1(3), of _ mid] mid 2 by (auto simp: less_Suc_eq intro: less_trans)
      then show ?thesis
        using 1(1) [OF True mid_def] 2 mid 1(3-) True
        by (subst bsearch_loop.simps) (simp add: mid_def [symmetric])
    next
      case 3
      have "k < f (xs ! j)" if "mid \<le> j" "j < length xs" for j
        using key_sorted_nth [OF 1(3), of mid j] that 3 by (cases "j = mid") (auto intro: less_trans)
      moreover have "f (xs ! mid) \<noteq> k" "\<not> f (xs ! mid) < k" using 3 by auto
      ultimately show ?thesis
        using 1(2) [OF True mid_def] mid 1(3-) True
        by (subst bsearch_loop.simps) (simp add: mid_def [symmetric])
    qed
  qed
qed

lemma bsearch_spec:
  assumes "key_sorted f xs"
  shows "(case bsearch f xs k of
      Inr i \<Rightarrow> i < length xs \<and> f (xs ! i) = k
    | Inl i \<Rightarrow> i \<le> length xs \<and> (\<forall>j < i. f (xs ! j) < k) \<and> (\<forall>j. i \<le> j \<and> j < length xs \<longrightarrow> k < f (xs ! j)))"
  unfolding bsearch_def by (rule bsearch_loop_spec [OF assms]) auto

lemma bsearch_found:
  "key_sorted f xs \<Longrightarrow> bsearch f xs k = Inr i \<Longrightarrow> i < length xs \<and> f (xs ! i) = k"
  using bsearch_spec [of f xs k] by simp

lemma bsearch_missing:
  assumes "key_sorted f xs" and "bsearch f xs k = Inl i"
  shows "i \<le> length xs" and "k \<notin> f ` set xs" and "f x = k \<Longrightarrow> key_sorted f (insert_at xs i x)"
proof -
  have spec: "i \<le> length xs" "\<forall>j < i. f (xs ! j) < k" "\<forall>j. i \<le> j \<and> j < length xs \<longrightarrow> k < f (xs ! j)"
    using bsearch_spec [OF assms(1), of k] assms(2) by simp_all
  show "i \<le> length xs" by (rule spec)
  have "f (xs ! j) \<noteq> k" if "j < length xs" for j
    using spec(2) [rule_format, of j] spec(3) [rule_format, of j] that by (cases "j < i") auto
  then show "k \<notin> f ` set xs" by (metis imageE in_set_conv_nth)
  have low: "f y < k" if "y \<in> set (take i xs)" for y
    using that spec(1,2) by (auto simp: in_set_conv_nth)
  have high: "k < f y" if "y \<in> set (drop i xs)" for y
    using that spec(1,3) by (auto simp: in_set_conv_nth)
  have "sorted_wrt (<) (map f (take i xs @ drop i xs))" using assms(1) by (simp add: key_sorted_def)
  then have "sorted_wrt (<) (map f (take i xs))" "sorted_wrt (<) (map f (drop i xs))"
    unfolding map_append sorted_wrt_append by blast+
  then show "key_sorted f (insert_at xs i x)" if "f x = k"
    using low high that by (force simp: key_sorted_def insert_at_def sorted_wrt_append intro: less_trans)
qed

lemma bsearch_iff:
  assumes "key_sorted f xs"
  shows "(\<exists>i. bsearch f xs k = Inr i) \<longleftrightarrow> k \<in> f ` set xs"
proof (cases "bsearch f xs k")
  case (Inl i)
  then show ?thesis using bsearch_missing(2) [OF assms Inl] by simp
next
  case (Inr i)
  then show ?thesis using bsearch_found [OF assms Inr] by auto
qed

lemma set_insert_at [vec_simps]: "set (insert_at xs i x) = insert x (set xs)"
  by (metis append_take_drop_id insert_at_def list.set(2) set_append Un_insert_right)

lemma length_insert_at [simp]: "length (insert_at xs i x) = Suc (length xs)"
  by (simp add: insert_at_def)

lemma set_remove_at:
  assumes "distinct xs" "i < length xs"
  shows "set (remove_at xs i) = set xs - {xs ! i}"
proof -
  have xs: "xs = take i xs @ xs ! i # drop (Suc i) xs" using assms(2) by (simp add: id_take_nth_drop)
  then have "distinct (take i xs @ xs ! i # drop (Suc i) xs)" using assms(1) by simp
  then have "xs ! i \<notin> set (take i xs) \<union> set (drop (Suc i) xs)" by simp
  moreover have "set xs = set (take i xs) \<union> insert (xs ! i) (set (drop (Suc i) xs))"
    by (subst xs) simp
  ultimately show ?thesis by (auto simp: remove_at_def)
qed

lemma length_remove_at: "i < length xs \<Longrightarrow> length (remove_at xs i) = length xs - 1"
  by (simp add: remove_at_def)

lemma key_sorted_remove_at: "key_sorted f xs \<Longrightarrow> key_sorted f (remove_at xs i)"
proof -
  assume "key_sorted f xs"
  moreover have "xs = take i xs @ (take 1 (drop i xs) @ drop (Suc i) xs)"
    by (metis append_take_drop_id drop_drop plus_1_eq_Suc)
  ultimately have "sorted_wrt (<) (map f (take i xs) @ map f (take 1 (drop i xs)) @ map f (drop (Suc i) xs))"
    by (metis key_sorted_def map_append)
  then show ?thesis by (auto simp: key_sorted_def remove_at_def sorted_wrt_append)
qed

lemma key_sorted_distinct: "key_sorted f xs \<Longrightarrow> distinct xs"
  by (simp add: key_sorted_def strict_sorted_iff distinct_map)

lemma key_sorted_update:
  "key_sorted f xs \<Longrightarrow> i < length xs \<Longrightarrow> f x = f (xs ! i) \<Longrightarrow> key_sorted f (xs[i := x])"
  by (simp add: key_sorted_def map_update) (metis length_map list_update_id nth_map)

subsection \<open>Ordered maps\<close>

text \<open>
  \<open>BTreeMap\<close>: an association list in ascending key order, read with
  \<^const>\<open>map_of\<close>.
\<close>

type_synonym ('k, 'v) btree = "('k \<times> 'v) list"

fun bt_insert :: "'k::linorder \<Rightarrow> 'v \<Rightarrow> ('k, 'v) btree \<Rightarrow> ('k, 'v) btree" where
  "bt_insert k v [] = [(k, v)]"
| "bt_insert k v ((k', v') # m) =
     (if k < k' then (k, v) # (k', v') # m
      else if k = k' then (k, v) # m
      else (k', v') # bt_insert k v m)"

definition bt_remove :: "'k \<Rightarrow> ('k, 'v) btree \<Rightarrow> ('k, 'v) btree" where
  "bt_remove k m = filter (\<lambda>e. fst e \<noteq> k) m"

definition bt_ok :: "('k::linorder, 'v) btree \<Rightarrow> bool" where
  "bt_ok m \<longleftrightarrow> key_sorted fst m"

lemma set_bt_insert: "set (map fst (bt_insert k v m)) = insert k (set (map fst m))"
  by (induction m rule: bt_insert.induct) auto

lemma bt_ok_Cons: "bt_ok (e # m) \<longleftrightarrow> (\<forall>k \<in> set (map fst m). fst e < k) \<and> bt_ok m"
  by (auto simp: bt_ok_def key_sorted_def)

lemma bt_ok_Nil [simp]: "bt_ok []"
  by (simp add: bt_ok_def key_sorted_def)

lemma bt_ok_insert [simp]: "bt_ok m \<Longrightarrow> bt_ok (bt_insert k v m)"
proof (induction m)
  case (Cons e m)
  then show ?case
    using set_bt_insert [of k v m] by (cases e) (auto simp: bt_ok_Cons dest: less_trans)
qed (simp add: bt_ok_Cons)

lemma map_of_bt_insert [simp]: "bt_ok m \<Longrightarrow> map_of (bt_insert k v m) = (map_of m)(k \<mapsto> v)"
proof (induction m)
  case (Cons e m)
  then show ?case by (cases e) (auto simp: bt_ok_Cons fun_eq_iff)
qed simp

lemma bt_ok_remove [simp]: "bt_ok m \<Longrightarrow> bt_ok (bt_remove k m)"
  by (auto simp: bt_ok_def key_sorted_def bt_remove_def sorted_wrt_map sorted_wrt_filter)

lemma map_of_bt_remove [simp]: "map_of (bt_remove k m) = (map_of m)(k := None)"
  by (induction m) (auto simp: bt_remove_def fun_eq_iff)

lemma bt_ok_distinct: "bt_ok m \<Longrightarrow> distinct (map fst m)"
  by (simp add: bt_ok_def key_sorted_def strict_sorted_iff)

section \<open>Results\<close>

text \<open>\<open>Result\<close> as a sum: the error on the left. The question mark of Rust is a bind.\<close>

definition e_bind :: "'e + 'a \<Rightarrow> ('a \<Rightarrow> 'e + 'b) \<Rightarrow> 'e + 'b" where
  "e_bind r f = (case r of Inl e \<Rightarrow> Inl e | Inr a \<Rightarrow> f a)"

definition e_if :: "bool \<Rightarrow> 'e \<Rightarrow> 'e + unit" where
  "e_if ok e = (if ok then Inr () else Inl e)"

definition e_opt :: "'e \<Rightarrow> 'a option \<Rightarrow> 'e + 'a" where
  "e_opt e x = (case x of None \<Rightarrow> Inl e | Some a \<Rightarrow> Inr a)"

primrec e_all :: "('a \<Rightarrow> 'e + 'b) \<Rightarrow> 'a list \<Rightarrow> 'e + 'b list" where
  "e_all f [] = Inr []"
| "e_all f (x # xs) = e_bind (f x) (\<lambda>y. e_bind (e_all f xs) (\<lambda>ys. Inr (y # ys)))"

named_theorems e_simps \<open>successful results of composed computations\<close>

lemma e_bind_Inr [e_simps]: "e_bind r f = Inr b \<longleftrightarrow> (\<exists>a. r = Inr a \<and> f a = Inr b)"
  by (cases r) (auto simp: e_bind_def)

lemma e_bind_value: "e_bind (Inr a) f = f a" "e_bind (Inl e) f = Inl e"
  by (simp_all add: e_bind_def)

lemma e_bind_assoc: "e_bind (e_bind r f) g = e_bind r (\<lambda>a. e_bind (f a) g)"
  by (cases r) (simp_all add: e_bind_def)

lemma e_if_Inr [e_simps]: "e_if ok e = Inr u \<longleftrightarrow> ok"
  by (simp add: e_if_def)

lemma e_opt_Inr [e_simps]: "e_opt e x = Inr a \<longleftrightarrow> x = Some a"
  by (auto simp: e_opt_def split: option.split)

lemma e_all_Inr: "e_all f xs = Inr ys \<longleftrightarrow> list_all2 (\<lambda>x y. f x = Inr y) xs ys"
  by (induction xs arbitrary: ys) (auto simp: e_simps list_all2_Cons1)

lemma e_all_unit: "(\<exists>ys. e_all f xs = Inr ys) \<longleftrightarrow> (\<forall>x \<in> set xs. \<exists>y. f x = Inr y)"
  by (induction xs) (auto simp: e_simps)

section \<open>Searching a list\<close>

text \<open>\<open>Iterator::position\<close>.\<close>

primrec position :: "('a \<Rightarrow> bool) \<Rightarrow> 'a list \<Rightarrow> nat option" where
  "position P [] = None"
| "position P (x # xs) = (if P x then Some 0 else map_option Suc (position P xs))"

lemma position_Some_iff:
  "position P xs = Some i \<longleftrightarrow> i < length xs \<and> P (xs ! i) \<and> (\<forall>j < i. \<not> P (xs ! j))"
proof (induction xs arbitrary: i)
  case (Cons x xs)
  then show ?case by (cases i) (auto simp: less_Suc_eq_0_disj)
qed simp

lemma position_None_iff: "position P xs = None \<longleftrightarrow> (\<forall>x \<in> set xs. \<not> P x)"
  by (induction xs) auto

end
