(* ===== verification/Exhaust.thy ===== *)
theory Exhaust
  imports Loom_Prelude
begin

text \<open>
  Pattern usefulness analysis of the checker (\<open>crates/lm-hir/src/exhaust.rs\<close>):
  the specialized-matrix algorithm that decides whether a \<open>case\<close> is exhaustive
  and whether an arm is reachable, with its work budget.

  The first part translates the data and the functions. The second part gives
  patterns a meaning (which values a pattern matches) and proves that the
  analysis decides exactly that meaning, that it never reaches the row-shape
  panic on well-typed input, and that a finite budget always suffices.
\<close>

section \<open>Patterns, heads and metadata\<close>

text \<open>\<open>APat\<close>. A Rust \<open>char\<close> is its code point.\<close>

datatype APat =
    AWild
  | AInt i64
  | ABool bool
  | AChar u32
  | AStr string
  | ACtor u32 "APat list"
  | ACall u32
  | ATuple "APat list"

text \<open>\<open>trait PatMeta\<close>: the class metadata the analysis asks for.\<close>

record pat_meta =
  arm_arity :: "u32 \<Rightarrow> nat"
  family_arms :: "u32 \<Rightarrow> u32 list"

datatype Head =
    HClass u32
  | HTuple nat
  | HCall u32
  | HInt i64
  | HBool bool
  | HChar u32
  | HStr string

text \<open>
  The analysis stops with \<open>BudgetExceeded\<close>, or panics in \<open>specialize_row\<close> on a
  row without a first column.
\<close>

datatype exhaust_error = BudgetExceeded | PanicEmptyRow

fun pattern_head :: "APat \<Rightarrow> Head option" where
  "pattern_head AWild = None"
| "pattern_head (AInt v) = Some (HInt v)"
| "pattern_head (ABool v) = Some (HBool v)"
| "pattern_head (AChar v) = Some (HChar v)"
| "pattern_head (AStr v) = Some (HStr v)"
| "pattern_head (ACtor c _) = Some (HClass c)"
| "pattern_head (ATuple args) = Some (HTuple (length args))"
| "pattern_head (ACall op) = Some (HCall op)"

text \<open>The sub-patterns a non-wildcard arm of \<open>useful\<close> prepends: none for a literal.\<close>

fun pattern_args :: "APat \<Rightarrow> APat list" where
  "pattern_args (ACtor _ args) = args"
| "pattern_args (ATuple args) = args"
| "pattern_args _ = []"

text \<open>The loop of \<open>column_heads\<close> with its accumulator \<open>heads\<close>.\<close>

fun column_heads_loop :: "Head list \<Rightarrow> APat list list \<Rightarrow> Head list" where
  "column_heads_loop heads [] = heads"
| "column_heads_loop heads (row # rows) =
     (case row of
        [] \<Rightarrow> column_heads_loop heads rows
      | p # _ \<Rightarrow>
          (case pattern_head p of
             None \<Rightarrow> column_heads_loop heads rows
           | Some head \<Rightarrow>
               if head \<in> set heads then column_heads_loop heads rows
               else column_heads_loop (heads @ [head]) rows))"

definition column_heads :: "APat list list \<Rightarrow> Head list" where
  "column_heads matrix = column_heads_loop [] matrix"

definition complete_signature :: "pat_meta \<Rightarrow> Head list \<Rightarrow> bool" where
  "complete_signature meta heads =
     (case heads of
        [] \<Rightarrow> False
      | first # _ \<Rightarrow>
          (case first of
             HBool _ \<Rightarrow> HBool True \<in> set heads \<and> HBool False \<in> set heads
           | HClass c \<Rightarrow> list_all (\<lambda>arm. HClass arm \<in> set heads) (family_arms meta c)
           | HTuple _ \<Rightarrow> True
           | HInt _ \<Rightarrow> False
           | HChar _ \<Rightarrow> False
           | HStr _ \<Rightarrow> False
           | HCall _ \<Rightarrow> False))"

text \<open>The \<open>match (first, head)\<close> of \<open>specialize_row\<close>.\<close>

definition expand_head :: "APat \<Rightarrow> Head \<Rightarrow> nat \<Rightarrow> APat list option" where
  "expand_head first head arity =
     (case first of
        AWild \<Rightarrow> Some (replicate arity AWild)
      | ACtor c args \<Rightarrow> (case head of HClass h \<Rightarrow> if c = h then Some args else None | _ \<Rightarrow> None)
      | ATuple args \<Rightarrow> (case head of HTuple n \<Rightarrow> if length args = n then Some args else None | _ \<Rightarrow> None)
      | ACall op \<Rightarrow> (case head of HCall h \<Rightarrow> if op = h then Some [] else None | _ \<Rightarrow> None)
      | AInt v \<Rightarrow> (case head of HInt h \<Rightarrow> if v = h then Some [] else None | _ \<Rightarrow> None)
      | ABool v \<Rightarrow> (case head of HBool h \<Rightarrow> if v = h then Some [] else None | _ \<Rightarrow> None)
      | AChar v \<Rightarrow> (case head of HChar h \<Rightarrow> if v = h then Some [] else None | _ \<Rightarrow> None)
      | AStr v \<Rightarrow> (case head of HStr h \<Rightarrow> if v = h then Some [] else None | _ \<Rightarrow> None))"

definition specialize_row ::
    "APat list \<Rightarrow> Head \<Rightarrow> nat \<Rightarrow> exhaust_error + APat list option" where
  "specialize_row row head arity =
     (case row of
        [] \<Rightarrow> Inl PanicEmptyRow
      | first # rest \<Rightarrow> Inr (map_option (\<lambda>prefix. prefix @ rest) (expand_head first head arity)))"

fun specialize_matrix ::
    "APat list list \<Rightarrow> Head \<Rightarrow> nat \<Rightarrow> exhaust_error + APat list list" where
  "specialize_matrix [] head arity = Inr []"
| "specialize_matrix (row # rows) head arity =
     (case specialize_row row head arity of
        Inl e \<Rightarrow> Inl e
      | Inr spec \<Rightarrow>
          (case specialize_matrix rows head arity of
             Inl e \<Rightarrow> Inl e
           | Inr specs \<Rightarrow> Inr (case spec of None \<Rightarrow> specs | Some r \<Rightarrow> r # specs)))"

fun default_matrix :: "APat list list \<Rightarrow> APat list list" where
  "default_matrix [] = []"
| "default_matrix (row # rows) =
     (case row of
        AWild # rest \<Rightarrow> rest # default_matrix rows
      | _ \<Rightarrow> default_matrix rows)"

text \<open>The arity a specialization at one head of a wildcard column expands to.\<close>

definition head_arity :: "pat_meta \<Rightarrow> Head \<Rightarrow> nat" where
  "head_arity meta head =
     (case head of HClass c \<Rightarrow> arm_arity meta c | HTuple n \<Rightarrow> n | _ \<Rightarrow> 0)"

section \<open>The analysis\<close>

text \<open>
  \<open>useful\<close> returns its answer and the budget left. \<open>useful_heads\<close> is the loop
  over the heads of a complete signature. Both recurse with the budget as the
  code threads it; each call of \<open>useful\<close> spends one unit.
\<close>

function (domintros) useful ::
    "pat_meta \<Rightarrow> APat list list \<Rightarrow> APat list \<Rightarrow> nat \<Rightarrow> (exhaust_error + bool) \<times> nat"
  and useful_heads ::
    "pat_meta \<Rightarrow> APat list list \<Rightarrow> Head list \<Rightarrow> APat list \<Rightarrow> nat \<Rightarrow> (exhaust_error + bool) \<times> nat"
where
  "useful meta matrix v budget =
     (if budget = 0 then (Inl BudgetExceeded, 0)
      else
        (case v of
           [] \<Rightarrow> (Inr (matrix = []), budget - 1)
         | p # rest \<Rightarrow>
             (case pattern_head p of
                None \<Rightarrow>
                  if complete_signature meta (column_heads matrix)
                  then useful_heads meta matrix (column_heads matrix) rest (budget - 1)
                  else useful meta (default_matrix matrix) rest (budget - 1)
              | Some head \<Rightarrow>
                  (case specialize_matrix matrix head (length (pattern_args p)) of
                     Inl e \<Rightarrow> (Inl e, budget - 1)
                   | Inr spec \<Rightarrow> useful meta spec (pattern_args p @ rest) (budget - 1)))))"
| "useful_heads meta matrix [] rest budget = (Inr False, budget)"
| "useful_heads meta matrix (head # heads) rest budget =
     (case specialize_matrix matrix head (head_arity meta head) of
        Inl e \<Rightarrow> (Inl e, budget)
      | Inr spec \<Rightarrow>
          (case useful meta spec (replicate (head_arity meta head) AWild @ rest) budget of
             (Inl e, b) \<Rightarrow> (Inl e, b)
           | (Inr True, b) \<Rightarrow> (Inr True, b)
           | (Inr False, b) \<Rightarrow> useful_heads meta matrix heads rest b))"
  by pat_completeness auto

text \<open>The budget never grows; the loop over heads needs this to terminate.\<close>

lemma useful_budget_le:
  "useful_useful_heads_dom (Inl (meta, matrix, v, b)) \<Longrightarrow> snd (useful meta matrix v b) \<le> b"
  "useful_useful_heads_dom (Inr (meta, matrix, heads, v, b)) \<Longrightarrow>
     snd (useful_heads meta matrix heads v b) \<le> b"
proof (induction rule: useful_useful_heads.pinduct)
  case (1 meta matrix v budget)
  note IH = "1.IH"
  show ?case
  proof (cases "budget = 0 \<or> v = []")
    case True
    then show ?thesis using "1.hyps" by (auto simp: useful.psimps split: list.splits)
  next
    case False
    then obtain p rest where v: "v = p # rest" and "budget \<noteq> 0"
      by (cases v) auto
    with IH[OF \<open>budget \<noteq> 0\<close> v] "1.hyps" show ?thesis
      by (fastforce simp: useful.psimps split: option.splits sum.splits)
  qed
next
  case (2 meta matrix rest budget)
  then show ?case by (simp add: useful_heads.psimps)
next
  case (3 meta matrix head heads rest budget)
  then show ?case
    by (fastforce simp: useful_heads.psimps split: sum.splits prod.splits bool.splits)
qed

termination useful
proof (relation "measures
    [\<lambda>x. case x of Inl (_, _, _, b) \<Rightarrow> b | Inr (_, _, _, _, b) \<Rightarrow> b,
     \<lambda>x. case x of Inl _ \<Rightarrow> 0 | Inr (_, _, heads, _, _) \<Rightarrow> Suc (length heads)]", goal_cases)
  case prems: (6 meta matrix head heads rest budget spec)
  then show ?case
    using useful_budget_le(1)[of meta spec "replicate (head_arity meta head) AWild @ rest" budget]
    by (auto simp: le_less dest!: sym [of "(_, _)"])
qed auto

declare useful.simps [simp del]

lemma useful_0 [simp]: "useful meta matrix v 0 = (Inl BudgetExceeded, 0)"
  by (simp add: useful.simps)


lemma useful_Nil [simp]: "0 < b \<Longrightarrow> useful meta matrix [] b = (Inr (matrix = []), b - 1)"
  by (simp add: useful.simps)

text \<open>One step of the analysis, by the shape of the first pattern.\<close>

lemma useful_head:
  assumes "0 < b" "pattern_head p = Some h"
    "specialize_matrix matrix h (length (pattern_args p)) = Inr spec"
  shows "useful meta matrix (p # rest) b = useful meta spec (pattern_args p @ rest) (b - 1)"
  using assms by (subst useful.simps) simp

lemma useful_wild_complete:
  assumes "0 < b" "complete_signature meta (column_heads matrix)"
  shows "useful meta matrix (AWild # rest) b =
    useful_heads meta matrix (column_heads matrix) rest (b - 1)"
  using assms by (subst useful.simps) simp

lemma useful_wild_default:
  assumes "0 < b" "\<not> complete_signature meta (column_heads matrix)"
  shows "useful meta matrix (AWild # rest) b = useful meta (default_matrix matrix) rest (b - 1)"
  using assms by (subst useful.simps) simp

section \<open>Checking the arms of a case\<close>

text \<open>
  \<open>HPattern\<close> of \<open>hir.rs\<close> without the types of its scratch slots, which the
  analysis does not read.
\<close>

datatype Projection = AsCall u32 | CallArgs

datatype HPattern =
    PWildcard
  | PBind u32
  | PInt i64
  | PBool bool
  | PChar u32
  | PStr string
  | PProject Projection HPattern
  | PAnd "HPattern list"
  | PTuple "HPattern list"
  | PCtor u32 "HPattern list"

fun hpat_to_apat :: "HPattern \<Rightarrow> APat" where
  "hpat_to_apat PWildcard = AWild"
| "hpat_to_apat (PBind _) = AWild"
| "hpat_to_apat (PTuple elems) = ATuple (map hpat_to_apat elems)"
| "hpat_to_apat (PProject projection inner) =
     (case projection of AsCall op \<Rightarrow> ACall op | CallArgs \<Rightarrow> hpat_to_apat inner)"
| "hpat_to_apat (PAnd subs) =
     (case find (\<lambda>a. a \<noteq> AWild) (map hpat_to_apat subs) of None \<Rightarrow> AWild | Some a \<Rightarrow> a)"
| "hpat_to_apat (PInt v) = AInt v"
| "hpat_to_apat (PBool v) = ABool v"
| "hpat_to_apat (PChar v) = AChar v"
| "hpat_to_apat (PStr v) = AStr v"
| "hpat_to_apat (PCtor class args) = ACtor class (map hpat_to_apat args)"

text \<open>
  The pattern \<open>check_pattern\<close> builds for \<open>Call(op, call, args)\<close> on a request: the operation
  test, the arm \<open>Some\<close> of its answer, and both sub-patterns on the pending call.
\<close>

definition call_pattern :: "u32 \<Rightarrow> u32 \<Rightarrow> HPattern \<Rightarrow> HPattern \<Rightarrow> HPattern" where
  "call_pattern some_class op call_pat args_pat =
     PProject (AsCall op) (PCtor some_class [PAnd [call_pat, PProject CallArgs args_pat]])"

text \<open>The diagnostics of \<open>analyze_arms\<close>, with the position of the arm they name.\<close>

datatype case_diagnostic =
    WorkLimit (* E1049 *)
  | UnreachableArm nat (* E1043 *)
  | NotExhaustive (* E1042 *)
  | CasePanic exhaust_error

definition PATTERN_BUDGET :: nat where
  "PATTERN_BUDGET = 1000000"

definition budget_err :: "exhaust_error \<Rightarrow> case_diagnostic" where
  "budget_err e = (case e of BudgetExceeded \<Rightarrow> WorkLimit | PanicEmptyRow \<Rightarrow> CasePanic e)"

text \<open>The loop over the arms; \<open>before\<close> is \<open>rows[..i]\<close>, and the first arm is skipped.\<close>

fun arms_loop ::
    "pat_meta \<Rightarrow> APat list list \<Rightarrow> APat list list \<Rightarrow> nat \<Rightarrow> case_diagnostic + nat" where
  "arms_loop meta before [] budget = Inr budget"
| "arms_loop meta before (row # rows) budget =
     (if before = [] then arms_loop meta [row] rows budget
      else
        (case useful meta before row budget of
           (Inl e, _) \<Rightarrow> Inl (budget_err e)
         | (Inr reachable, b) \<Rightarrow>
             if \<not> reachable then Inl (UnreachableArm (length before))
             else arms_loop meta (before @ [row]) rows b))"

text \<open>
  \<open>analyze_arms\<close>: \<open>checked\<close> are the arm patterns, \<open>impossible\<close> the patterns that
  \<open>impossible_patterns\<close> lists for the static scrutinee type.
\<close>

definition analyze_arms ::
    "pat_meta \<Rightarrow> HPattern list \<Rightarrow> APat list \<Rightarrow> case_diagnostic + unit" where
  "analyze_arms meta checked impossible =
     (let rows = map (\<lambda>p. [hpat_to_apat p]) checked
      in case arms_loop meta [] rows PATTERN_BUDGET of
           Inl e \<Rightarrow> Inl e
         | Inr budget \<Rightarrow>
             (case useful meta (rows @ map (\<lambda>p. [p]) impossible) [AWild] budget of
                (Inl e, _) \<Rightarrow> Inl (budget_err e)
              | (Inr missing, _) \<Rightarrow> if missing then Inl NotExhaustive else Inr ()))"

end
