(* ===== verification/Exhaust_Correct.thy ===== *)
theory Exhaust_Correct
  imports Exhaust
begin

text \<open>
  The meaning of patterns and the correctness of the usefulness analysis: values
  and matching, the signatures that type a column, the invariants of the
  specialized and default matrices, and the theorems that relate the answers of
  \<open>useful\<close> to the values a row matches.
\<close>

section \<open>Values and matching\<close>

datatype aval =
    VInt i64
  | VBool bool
  | VChar u32
  | VStr string
  | VCtor u32 "aval list"
  | VCall u32
  | VTuple "aval list"

fun pmatch :: "APat \<Rightarrow> aval \<Rightarrow> bool" and pmatches :: "APat list \<Rightarrow> aval list \<Rightarrow> bool" where
  "pmatch AWild x = True"
| "pmatch (AInt v) x = (x = VInt v)"
| "pmatch (ABool v) x = (x = VBool v)"
| "pmatch (AChar v) x = (x = VChar v)"
| "pmatch (AStr v) x = (x = VStr v)"
| "pmatch (ACall op) x = (x = VCall op)"
| "pmatch (ACtor c ps) x = (case x of VCtor d xs \<Rightarrow> c = d \<and> pmatches ps xs | _ \<Rightarrow> False)"
| "pmatch (ATuple ps) x = (case x of VTuple xs \<Rightarrow> pmatches ps xs | _ \<Rightarrow> False)"
| "pmatches [] xs = (xs = [])"
| "pmatches (p # ps) xs = (case xs of [] \<Rightarrow> False | y # ys \<Rightarrow> pmatch p y \<and> pmatches ps ys)"

text \<open>Some row of the matrix matches the value vector.\<close>

definition covered :: "APat list list \<Rightarrow> aval list \<Rightarrow> bool" where
  "covered matrix xs = list_ex (\<lambda>row. pmatches row xs) matrix"

text \<open>
  A signature gives each type of the checked program its shape: a literal type,
  a request, an enum family with the field types of each arm, or a tuple.
\<close>

datatype 't shape =
    SInt
  | SBool
  | SChar
  | SStr
  | SReq
  | SFam "(u32 \<times> 't list) list"
  | STuple "'t list"

definition is_scalar :: "u32 \<Rightarrow> bool" where
  "is_scalar c = (c < 0xD800 \<or> (0xE000 \<le> c \<and> c < 0x110000))"

text \<open>The argument types behind one head at one type, if the head belongs to the type.\<close>

definition head_tys :: "('t \<Rightarrow> 't shape) \<Rightarrow> 't \<Rightarrow> Head \<Rightarrow> 't list option" where
  "head_tys sg t h =
     (case sg t of
        SInt \<Rightarrow> (case h of HInt _ \<Rightarrow> Some [] | _ \<Rightarrow> None)
      | SBool \<Rightarrow> (case h of HBool _ \<Rightarrow> Some [] | _ \<Rightarrow> None)
      | SChar \<Rightarrow> (case h of HChar c \<Rightarrow> if is_scalar c then Some [] else None | _ \<Rightarrow> None)
      | SStr \<Rightarrow> (case h of HStr _ \<Rightarrow> Some [] | _ \<Rightarrow> None)
      | SReq \<Rightarrow> (case h of HCall _ \<Rightarrow> Some [] | _ \<Rightarrow> None)
      | SFam arms \<Rightarrow> (case h of HClass c \<Rightarrow> map_of arms c | _ \<Rightarrow> None)
      | STuple ts \<Rightarrow> (case h of HTuple n \<Rightarrow> if n = length ts then Some ts else None | _ \<Rightarrow> None))"

fun val_head :: "aval \<Rightarrow> Head" where
  "val_head (VInt v) = HInt v"
| "val_head (VBool v) = HBool v"
| "val_head (VChar v) = HChar v"
| "val_head (VStr v) = HStr v"
| "val_head (VCtor c _) = HClass c"
| "val_head (VCall op) = HCall op"
| "val_head (VTuple xs) = HTuple (length xs)"

fun val_args :: "aval \<Rightarrow> aval list" where
  "val_args (VCtor _ xs) = xs"
| "val_args (VTuple xs) = xs"
| "val_args _ = []"

fun val_ty :: "('t \<Rightarrow> 't shape) \<Rightarrow> aval \<Rightarrow> 't \<Rightarrow> bool"
  and vals_ty :: "('t \<Rightarrow> 't shape) \<Rightarrow> aval list \<Rightarrow> 't list \<Rightarrow> bool" where
  "val_ty sg (VCtor c xs) t = (case head_tys sg t (HClass c) of None \<Rightarrow> False | Some ts \<Rightarrow> vals_ty sg xs ts)"
| "val_ty sg (VTuple xs) t =
     (case head_tys sg t (HTuple (length xs)) of None \<Rightarrow> False | Some ts \<Rightarrow> vals_ty sg xs ts)"
| "val_ty sg (VInt v) t = (head_tys sg t (HInt v) \<noteq> None)"
| "val_ty sg (VBool v) t = (head_tys sg t (HBool v) \<noteq> None)"
| "val_ty sg (VChar v) t = (head_tys sg t (HChar v) \<noteq> None)"
| "val_ty sg (VStr v) t = (head_tys sg t (HStr v) \<noteq> None)"
| "val_ty sg (VCall v) t = (head_tys sg t (HCall v) \<noteq> None)"
| "vals_ty sg [] ts = (ts = [])"
| "vals_ty sg (x # xs) ts = (case ts of [] \<Rightarrow> False | t # ts' \<Rightarrow> val_ty sg x t \<and> vals_ty sg xs ts')"

fun pat_ty :: "('t \<Rightarrow> 't shape) \<Rightarrow> APat \<Rightarrow> 't \<Rightarrow> bool"
  and pats_ty :: "('t \<Rightarrow> 't shape) \<Rightarrow> APat list \<Rightarrow> 't list \<Rightarrow> bool" where
  "pat_ty sg AWild t = True"
| "pat_ty sg (ACtor c ps) t = (case head_tys sg t (HClass c) of None \<Rightarrow> False | Some ts \<Rightarrow> pats_ty sg ps ts)"
| "pat_ty sg (ATuple ps) t =
     (case head_tys sg t (HTuple (length ps)) of None \<Rightarrow> False | Some ts \<Rightarrow> pats_ty sg ps ts)"
| "pat_ty sg (AInt v) t = (head_tys sg t (HInt v) \<noteq> None)"
| "pat_ty sg (ABool v) t = (head_tys sg t (HBool v) \<noteq> None)"
| "pat_ty sg (AChar v) t = (head_tys sg t (HChar v) \<noteq> None)"
| "pat_ty sg (AStr v) t = (head_tys sg t (HStr v) \<noteq> None)"
| "pat_ty sg (ACall v) t = (head_tys sg t (HCall v) \<noteq> None)"
| "pats_ty sg [] ts = (ts = [])"
| "pats_ty sg (p # ps) ts = (case ts of [] \<Rightarrow> False | t # ts' \<Rightarrow> pat_ty sg p t \<and> pats_ty sg ps ts')"

definition matrix_ty :: "('t \<Rightarrow> 't shape) \<Rightarrow> APat list list \<Rightarrow> 't list \<Rightarrow> bool" where
  "matrix_ty sg matrix ts = list_all (\<lambda>row. pats_ty sg row ts) matrix"

text \<open>
  The metadata agrees with the signature: the arity of an arm is its field
  count, and the family of an arm lists exactly the arms of its type.
\<close>

definition meta_ok :: "pat_meta \<Rightarrow> ('t \<Rightarrow> 't shape) \<Rightarrow> bool" where
  "meta_ok meta sg \<longleftrightarrow>
     (\<forall>t arms c ts. sg t = SFam arms \<longrightarrow> map_of arms c = Some ts \<longrightarrow>
        arm_arity meta c = length ts \<and> set (family_arms meta c) = dom (map_of arms))"

definition is_useful :: "('t \<Rightarrow> 't shape) \<Rightarrow> APat list list \<Rightarrow> APat list \<Rightarrow> 't list \<Rightarrow> bool" where
  "is_useful sg matrix v ts \<longleftrightarrow>
     (\<exists>xs. vals_ty sg xs ts \<and> pmatches v xs \<and> \<not> covered matrix xs)"

section \<open>Typing and matching of vectors\<close>

lemma vals_ty_length: "vals_ty sg xs ts \<Longrightarrow> length xs = length ts"
  by (induction xs arbitrary: ts) (auto split: list.splits)

lemma pats_ty_length: "pats_ty sg ps ts \<Longrightarrow> length ps = length ts"
  by (induction ps arbitrary: ts) (auto split: list.splits)

lemma pmatches_length: "pmatches ps xs \<Longrightarrow> length ps = length xs"
  by (induction ps arbitrary: xs) (auto split: list.splits)

lemma vals_ty_append:
  "length xs = length ts \<Longrightarrow> vals_ty sg (xs @ ys) (ts @ us) \<longleftrightarrow> vals_ty sg xs ts \<and> vals_ty sg ys us"
  by (induction xs ts rule: list_induct2) auto

lemma pats_ty_append:
  "length ps = length ts \<Longrightarrow> pats_ty sg (ps @ qs) (ts @ us) \<longleftrightarrow> pats_ty sg ps ts \<and> pats_ty sg qs us"
  by (induction ps ts rule: list_induct2) auto

lemma pmatches_append:
  "length ps = length xs \<Longrightarrow> pmatches (ps @ qs) (xs @ ys) \<longleftrightarrow> pmatches ps xs \<and> pmatches qs ys"
  by (induction ps xs rule: list_induct2) auto

lemma vals_ty_append_split:
  assumes "vals_ty sg xs (ts @ us)"
  obtains ys zs where "xs = ys @ zs" "vals_ty sg ys ts" "vals_ty sg zs us"
proof -
  have len: "length (take (length ts) xs) = length ts"
    using vals_ty_length[OF assms] by simp
  from vals_ty_append[OF len, of sg "drop (length ts) xs" us] assms
  show ?thesis
    by (intro that[of "take (length ts) xs" "drop (length ts) xs"]) simp_all
qed

lemma pmatches_wilds [simp]: "pmatches (replicate n AWild) xs \<longleftrightarrow> length xs = n"
  by (induction n arbitrary: xs) (auto split: list.splits simp: Suc_length_conv)

lemma pats_ty_wilds [simp]: "pats_ty sg (replicate n AWild) ts \<longleftrightarrow> length ts = n"
  by (induction n arbitrary: ts) (auto split: list.splits simp: Suc_length_conv)

lemma val_ty_head:
  "val_ty sg x t \<longleftrightarrow> (\<exists>as. head_tys sg t (val_head x) = Some as \<and> vals_ty sg (val_args x) as)"
  by (cases x) (auto simp: head_tys_def split: option.splits shape.splits if_splits)

lemma pat_ty_head:
  "pattern_head p = Some h \<Longrightarrow>
     pat_ty sg p t \<longleftrightarrow> (\<exists>as. head_tys sg t h = Some as \<and> pats_ty sg (pattern_args p) as)"
  by (cases p) (auto simp: head_tys_def split: option.splits shape.splits if_splits)

lemma pattern_head_None [simp]: "pattern_head p = None \<longleftrightarrow> p = AWild"
  by (cases p) auto

text \<open>Every well-typed head and argument vector is a value.\<close>

lemma head_value:
  assumes "head_tys sg t h = Some as" "vals_ty sg xs as"
  obtains x where "val_head x = h" "val_args x = xs"
proof (cases h)
  case (HClass c) with that[of "VCtor c xs"] show ?thesis by simp
next
  case (HTuple n)
  then have "length xs = n"
    using assms vals_ty_length[OF assms(2)] by (auto simp: head_tys_def split: shape.splits if_splits)
  with HTuple that[of "VTuple xs"] show ?thesis by simp
next
  case (HCall c)
  with assms have "xs = []"
    using vals_ty_length[OF assms(2)] by (auto simp: head_tys_def split: shape.splits)
  with HCall that[of "VCall c"] show ?thesis by simp
next
  case (HInt c)
  with assms have "xs = []"
    using vals_ty_length[OF assms(2)] by (auto simp: head_tys_def split: shape.splits)
  with HInt that[of "VInt c"] show ?thesis by simp
next
  case (HBool c)
  with assms have "xs = []"
    using vals_ty_length[OF assms(2)] by (auto simp: head_tys_def split: shape.splits)
  with HBool that[of "VBool c"] show ?thesis by simp
next
  case (HChar c)
  with assms have "xs = []"
    using vals_ty_length[OF assms(2)] by (auto simp: head_tys_def split: shape.splits if_splits)
  with HChar that[of "VChar c"] show ?thesis by simp
next
  case (HStr c)
  with assms have "xs = []"
    using vals_ty_length[OF assms(2)] by (auto simp: head_tys_def split: shape.splits)
  with HStr that[of "VStr c"] show ?thesis by simp
qed

section \<open>Specialized and default matrices\<close>

lemma expand_head_match:
  "pmatch p x \<longleftrightarrow>
     (\<exists>ps. expand_head p (val_head x) (length (val_args x)) = Some ps \<and> pmatches ps (val_args x))"
  by (cases p; cases x) (auto simp: expand_head_def dest: pmatches_length)

lemma expand_head_ty:
  assumes "pat_ty sg p t" "head_tys sg t h = Some as" "expand_head p h (length as) = Some ps"
  shows "pats_ty sg ps as"
  using assms
  by (cases p; cases h) (auto simp: expand_head_def head_tys_def split: if_splits shape.splits option.splits)

lemma pats_ty_Cons_iff:
  "pats_ty sg row (t # ts) \<longleftrightarrow> (\<exists>p r. row = p # r \<and> pat_ty sg p t \<and> pats_ty sg r ts)"
  by (cases row) auto

lemma vals_ty_Cons_iff:
  "vals_ty sg xs (t # ts) \<longleftrightarrow> (\<exists>y ys. xs = y # ys \<and> val_ty sg y t \<and> vals_ty sg ys ts)"
  by (cases xs) auto

lemma matrix_ty_simps [simp]:
  "matrix_ty sg [] ts"
  "matrix_ty sg (row # rows) ts \<longleftrightarrow> pats_ty sg row ts \<and> matrix_ty sg rows ts"
  by (simp_all add: matrix_ty_def)

lemma covered_simps [simp]:
  "\<not> covered [] xs"
  "covered (row # rows) xs \<longleftrightarrow> pmatches row xs \<or> covered rows xs"
  by (simp_all add: covered_def)

text \<open>
  Specializing a well-typed matrix at a well-typed head never panics, keeps the
  types, adds no row, and matches the arguments exactly where the matrix matches
  a value with this head.
\<close>

lemma specialize_matrix_ok:
  assumes "matrix_ty sg matrix (t # ts)" "head_tys sg t h = Some as"
  obtains spec where "specialize_matrix matrix h (length as) = Inr spec"
    "matrix_ty sg spec (as @ ts)" "length spec \<le> length matrix"
    "\<And>x xs. val_ty sg x t \<Longrightarrow> val_head x = h \<Longrightarrow>
       covered spec (val_args x @ xs) \<longleftrightarrow> covered matrix (x # xs)"
  using assms(1)
proof (induction matrix arbitrary: thesis)
  case Nil
  then show ?case by auto
next
  case (Cons row rows)
  from Cons.prems(2) have rows: "matrix_ty sg rows (t # ts)" by simp
  obtain specs where specs: "specialize_matrix rows h (length as) = Inr specs"
    "matrix_ty sg specs (as @ ts)" "length specs \<le> length rows"
    "\<And>x xs. val_ty sg x t \<Longrightarrow> val_head x = h \<Longrightarrow>
       covered specs (val_args x @ xs) \<longleftrightarrow> covered rows (x # xs)"
    by (rule Cons.IH[OF _ rows]) blast
  from Cons.prems(2) obtain p r where row: "row = p # r" "pat_ty sg p t" "pats_ty sg r ts"
    by (auto simp: pats_ty_Cons_iff)
  show ?case
  proof (cases "expand_head p h (length as)")
    case None
    have "covered specs (val_args x @ xs) \<longleftrightarrow> covered (row # rows) (x # xs)"
      if "val_ty sg x t" "val_head x = h" for x xs
    proof -
      have "length (val_args x) = length as"
        using that assms(2) by (auto simp: val_ty_head dest: vals_ty_length)
      then have "\<not> pmatch p x" using None that(2) expand_head_match[of p x] by auto
      then show ?thesis using specs(4)[OF that] row by simp
    qed
    with None specs row show ?thesis
      by (intro Cons.prems(1)[of specs]) (auto simp: specialize_row_def)
  next
    case (Some ps)
    have ps: "pats_ty sg ps as" by (rule expand_head_ty[OF row(2) assms(2) Some])
    have "covered ((ps @ r) # specs) (val_args x @ xs) \<longleftrightarrow> covered (row # rows) (x # xs)"
      if "val_ty sg x t" "val_head x = h" for x xs
    proof -
      have len: "length (val_args x) = length as"
        using that assms(2) by (auto simp: val_ty_head dest: vals_ty_length)
      then have "pmatch p x \<longleftrightarrow> pmatches ps (val_args x)"
        using Some that(2) expand_head_match[of p x] by auto
      moreover have "length ps = length (val_args x)"
        using len pats_ty_length[OF ps] by simp
      ultimately show ?thesis
        using specs(4)[OF that] row by (simp add: pmatches_append)
    qed
    with Some specs row ps show ?thesis
      by (intro Cons.prems(1)[of "(ps @ r) # specs"])
         (auto simp: specialize_row_def pats_ty_append pats_ty_length)
  qed
qed

lemma default_matrix_ty:
  "matrix_ty sg matrix (t # ts) \<Longrightarrow>
     matrix_ty sg (default_matrix matrix) ts \<and> length (default_matrix matrix) \<le> length matrix"
  by (induction matrix) (auto simp: pats_ty_Cons_iff split: APat.splits)

text \<open>The heads the first column of a matrix shows.\<close>

definition first_heads :: "APat list list \<Rightarrow> Head set" where
  "first_heads matrix = {h. \<exists>p r. p # r \<in> set matrix \<and> pattern_head p = Some h}"

lemma first_heads_Cons [simp]:
  "first_heads ((p # r) # rows) = set_option (pattern_head p) \<union> first_heads rows"
  "first_heads ([] # rows) = first_heads rows"
  "first_heads [] = {}"
  by (auto simp: first_heads_def)

lemma set_column_heads_loop: "set (column_heads_loop heads matrix) = set heads \<union> first_heads matrix"
  by (induction heads matrix rule: column_heads_loop.induct) (auto split: list.splits option.splits)

lemma set_column_heads [simp]: "set (column_heads matrix) = first_heads matrix"
  by (simp add: column_heads_def set_column_heads_loop)

lemma length_column_heads_loop: "length (column_heads_loop heads matrix) \<le> length heads + length matrix"
  by (induction heads matrix rule: column_heads_loop.induct)
     (auto split: list.splits option.splits intro: le_SucI)

lemma card_first_heads: "card (first_heads matrix) \<le> length matrix"
  using card_length[of "column_heads matrix"] length_column_heads_loop[of "[]" matrix]
  by (simp add: column_heads_def [symmetric])

lemma first_heads_ty:
  assumes "matrix_ty sg matrix (t # ts)" "h \<in> first_heads matrix"
  obtains as where "head_tys sg t h = Some as"
proof -
  from assms(2) obtain p r where pr: "p # r \<in> set matrix" "pattern_head p = Some h"
    by (auto simp: first_heads_def)
  with assms(1) have "pat_ty sg p t" by (auto simp: matrix_ty_def list_all_iff)
  with pr(2) that show ?thesis by (auto simp: pat_ty_head)
qed

lemma pmatch_head: "pmatch p x \<Longrightarrow> p = AWild \<or> pattern_head p = Some (val_head x)"
  by (cases p; cases x) (auto dest: pmatches_length)

lemma covered_default:
  assumes "val_head x \<notin> first_heads matrix"
  shows "covered (default_matrix matrix) xs \<longleftrightarrow> covered matrix (x # xs)"
  using assms
proof (induction matrix)
  case Nil
  then show ?case by simp
next
  case (Cons row rows)
  show ?case
  proof (cases row)
    case Nil
    with Cons show ?thesis by simp
  next
    case (Cons p r)
    with Cons.prems Cons.IH show ?thesis
      using pmatch_head[of p x] by (cases p) auto
  qed
qed

lemma default_covers:
  "covered (default_matrix matrix) xs \<Longrightarrow> covered matrix (x # xs)"
  by (induction matrix) (auto split: list.splits APat.splits)

section \<open>Complete and incomplete signatures\<close>

text \<open>A complete signature shows the head of every value of the column type.\<close>

lemma complete_signature_covers:
  assumes "complete_signature meta (column_heads matrix)" "matrix_ty sg matrix (t # ts)"
    "meta_ok meta sg" "val_ty sg x t"
  shows "val_head x \<in> first_heads matrix"
proof -
  from assms(1) obtain h hs where heads: "column_heads matrix = h # hs"
    by (auto simp: complete_signature_def split: list.splits)
  then have set_heads: "first_heads matrix = set (h # hs)"
    using set_column_heads[of matrix] by simp
  then obtain as where h: "head_tys sg t h = Some as"
    using first_heads_ty[OF assms(2), of h] by auto
  from assms(4) obtain bs where x: "head_tys sg t (val_head x) = Some bs"
    by (auto simp: val_ty_head)
  show ?thesis
  proof (cases h)
    case (HBool b)
    with h have "sg t = SBool" by (auto simp: head_tys_def split: shape.splits)
    with x obtain b' where "val_head x = HBool b'" by (cases "val_head x") (auto simp: head_tys_def)
    moreover have "{HBool True, HBool False} \<subseteq> first_heads matrix"
      using assms(1) heads HBool set_heads by (auto simp: complete_signature_def)
    ultimately show ?thesis by (cases b') auto
  next
    case (HClass c)
    with h obtain arms where arms: "sg t = SFam arms" "map_of arms c = Some as"
      by (auto simp: head_tys_def split: shape.splits)
    with x obtain d where d: "val_head x = HClass d" "map_of arms d = Some bs"
      by (cases "val_head x") (auto simp: head_tys_def)
    from arms assms(3) d(2) have "d \<in> set (family_arms meta c)"
      by (auto simp: meta_ok_def)
    with assms(1) heads HClass set_heads d(1) show ?thesis
      by (auto simp: complete_signature_def list_all_iff)
  next
    case (HTuple n)
    with h obtain us where "sg t = STuple us" "n = length us"
      by (auto simp: head_tys_def split: shape.splits if_splits)
    with x HTuple set_heads show ?thesis
      by (cases "val_head x") (auto simp: head_tys_def split: if_splits)
  qed (use assms(1) heads in \<open>auto simp: complete_signature_def\<close>)
qed

lemma fresh_image:
  assumes "inj_on f A" "card (S :: 'b set) < card A" "finite S"
  obtains a where "a \<in> A" "f a \<notin> S"
proof -
  have "\<not> f ` A \<subseteq> S"
    using assms card_mono[OF assms(3), of "f ` A"] by (auto simp: card_image)
  with that show ?thesis by auto
qed

lemma card_high_scalars: "card {c :: u32. 0xE000 \<le> c \<and> c < 0x110000} = 1056768"
proof -
  have inj: "inj_on (word_of_nat :: nat \<Rightarrow> u32) {0xE000..<0x110000}"
    by (rule inj_on_subset [OF inj_on_word_of_nat]) auto
  have "{c :: u32. 0xE000 \<le> c \<and> c < 0x110000} = word_of_nat ` {0xE000..<0x110000::nat}"
  proof (intro set_eqI iffI)
    fix c :: u32
    assume "c \<in> {c. 0xE000 \<le> c \<and> c < 0x110000}"
    then have "unat c \<in> {0xE000..<0x110000}"
      by (auto simp: word_le_nat_alt word_less_nat_alt)
    then show "c \<in> word_of_nat ` {0xE000..<0x110000::nat}"
      by (intro image_eqI[of _ _ "unat c"]) auto
  next
    fix c :: u32
    assume "c \<in> word_of_nat ` {0xE000..<0x110000::nat}"
    then obtain n where "c = word_of_nat n" "0xE000 \<le> n" "n < (0x110000::nat)" by auto
    then show "c \<in> {c. 0xE000 \<le> c \<and> c < 0x110000}"
      by (simp add: word_le_nat_alt word_less_nat_alt unat_of_nat)
  qed
  with inj show ?thesis by (simp add: card_image)
qed

lemma finite_first_heads [simp]: "finite (first_heads matrix)"
  using set_column_heads[of matrix] by (metis List.finite_set)

text \<open>
  An incomplete signature leaves a value of the column type with a head the
  column does not show. The row bound keeps the literal types larger than the
  column: \<open>char\<close> is the smallest.
\<close>

lemma incomplete_signature_leaves:
  assumes inc: "\<not> complete_signature meta (column_heads matrix)"
    and ty: "matrix_ty sg matrix (t # ts)" and meta: "meta_ok meta sg"
    and inhabited: "\<And>t. \<exists>x. val_ty sg x t" and rows: "length matrix < 2 ^ 20"
  obtains x where "val_ty sg x t" "val_head x \<notin> first_heads matrix"
proof (cases "column_heads matrix")
  case Nil
  then have "first_heads matrix = {}" using set_column_heads[of matrix] by simp
  with inhabited[of t] that show ?thesis by auto
next
  case (Cons h hs)
  have small: "card (first_heads matrix) < 2 ^ 20"
    using card_first_heads[of matrix] rows by linarith
  have set_heads: "first_heads matrix = set (h # hs)"
    using Cons set_column_heads[of matrix] by simp
  then obtain as where h: "head_tys sg t h = Some as"
    using first_heads_ty[OF ty, of h] by auto
  show ?thesis
  proof (cases h)
    case (HBool b)
    with h have t: "sg t = SBool" by (auto simp: head_tys_def split: shape.splits)
    from inc Cons HBool set_heads obtain b' where "HBool b' \<notin> first_heads matrix"
      by (auto simp: complete_signature_def)
    with t that[of "VBool b'"] show ?thesis by (simp add: head_tys_def)
  next
    case (HClass c)
    with h obtain arms where arms: "sg t = SFam arms" "map_of arms c = Some as"
      by (auto simp: head_tys_def split: shape.splits)
    from inc Cons HClass set_heads obtain d where
      d: "d \<in> set (family_arms meta c)" "HClass d \<notin> first_heads matrix"
      by (auto simp: complete_signature_def list_all_iff)
    with arms meta obtain us where us: "map_of arms d = Some us"
      by (fastforce simp: meta_ok_def)
    have "\<exists>xs. vals_ty sg xs us"
    proof (induction us)
      case Nil
      then show ?case by (intro exI[of _ "[]"]) simp
    next
      case (Cons u us)
      with inhabited[of u] obtain y ys where "val_ty sg y u" "vals_ty sg ys us" by blast
      then show ?case by (intro exI[of _ "y # ys"]) simp
    qed
    with arms us d(2) that[of "VCtor d _"] show ?thesis by (auto simp: head_tys_def)
  next
    case (HTuple n)
    with inc Cons show ?thesis by (simp add: complete_signature_def)
  next
    case (HInt i)
    with h have t: "sg t = SInt" by (auto simp: head_tys_def split: shape.splits)
    from fresh_image[of HInt UNIV "first_heads matrix"] small
    obtain j where "HInt j \<notin> first_heads matrix"
      by (auto simp: inj_def card_word)
    with t that[of "VInt j"] show ?thesis by (simp add: head_tys_def)
  next
    case (HCall i)
    with h have t: "sg t = SReq" by (auto simp: head_tys_def split: shape.splits)
    from fresh_image[of HCall UNIV "first_heads matrix"] small
    obtain j where "HCall j \<notin> first_heads matrix"
      by (auto simp: inj_def card_word)
    with t that[of "VCall j"] show ?thesis by (simp add: head_tys_def)
  next
    case (HChar i)
    with h have t: "sg t = SChar" by (auto simp: head_tys_def split: shape.splits)
    have "inj_on HChar {c. 0xE000 \<le> c \<and> c < 0x110000}" by (auto simp: inj_on_def)
    from fresh_image[OF this, of "first_heads matrix"] small
    obtain j where "0xE000 \<le> j" "j < 0x110000" "HChar j \<notin> first_heads matrix"
      by (auto simp: card_high_scalars)
    with t that[of "VChar j"] show ?thesis by (simp add: head_tys_def is_scalar_def)
  next
    case (HStr i)
    with h have t: "sg t = SStr" by (auto simp: head_tys_def split: shape.splits)
    have "\<not> range HStr \<subseteq> first_heads matrix"
      using infinite_UNIV_listI by (metis finite_first_heads finite_imageD finite_subset Head.inject(7) injI)
    then obtain j where "HStr j \<notin> first_heads matrix" by auto
    with t that[of "VStr j"] show ?thesis by (simp add: head_tys_def)
  qed
qed

section \<open>One step of the analysis\<close>

lemma is_useful_Nil:
  assumes "matrix_ty sg matrix []"
  shows "is_useful sg matrix [] [] \<longleftrightarrow> matrix = []"
proof -
  have "covered matrix [] \<longleftrightarrow> matrix \<noteq> []"
  proof (cases matrix)
    case (Cons row rows)
    with assms have "row = []" using pats_ty_length[of sg row "[]"] by simp
    with Cons show ?thesis by simp
  qed simp
  then show ?thesis by (auto simp: is_useful_def intro!: exI[of _ "[]"] dest: vals_ty_length)
qed

lemma is_useful_Cons:
  "is_useful sg matrix (p # rest) (t # ts) \<longleftrightarrow>
     (\<exists>x xs. val_ty sg x t \<and> vals_ty sg xs ts \<and> pmatch p x \<and> pmatches rest xs \<and>
             \<not> covered matrix (x # xs))"
proof -
  have "is_useful sg matrix (p # rest) (t # ts) \<longleftrightarrow>
      (\<exists>x xs. vals_ty sg (x # xs) (t # ts) \<and> pmatches (p # rest) (x # xs) \<and>
              \<not> covered matrix (x # xs))"
    unfolding is_useful_def by (metis vals_ty_Cons_iff)
  then show ?thesis by auto
qed

lemma is_useful_head:
  assumes "head_tys sg t h = Some as" "length qs = length as"
    and match: "\<And>x. val_ty sg x t \<Longrightarrow> pmatch p x \<longleftrightarrow> val_head x = h \<and> pmatches qs (val_args x)"
    and spec: "\<And>x xs. val_ty sg x t \<Longrightarrow> val_head x = h \<Longrightarrow>
       covered spec (val_args x @ xs) \<longleftrightarrow> covered matrix (x # xs)"
  shows "is_useful sg spec (qs @ rest) (as @ ts) \<longleftrightarrow> is_useful sg matrix (p # rest) (t # ts)"
proof
  assume "is_useful sg spec (qs @ rest) (as @ ts)"
  then obtain zs where zs: "vals_ty sg zs (as @ ts)" "pmatches (qs @ rest) zs" "\<not> covered spec zs"
    by (auto simp: is_useful_def)
  then obtain ys xs where yx: "zs = ys @ xs" "vals_ty sg ys as" "vals_ty sg xs ts"
    by (auto elim: vals_ty_append_split)
  obtain x where x: "val_head x = h" "val_args x = ys"
    by (rule head_value[OF assms(1) yx(2)])
  then have ty: "val_ty sg x t" using assms(1) yx(2) by (auto simp: val_ty_head)
  have len: "length qs = length ys" using assms(2) vals_ty_length[OF yx(2)] by simp
  have "pmatches qs ys" "pmatches rest xs"
    using zs(2) yx(1) len by (simp_all add: pmatches_append)
  with match[OF ty] spec[OF ty x(1), of xs] x zs(3) yx ty
  show "is_useful sg matrix (p # rest) (t # ts)"
    unfolding is_useful_Cons by (intro exI[of _ x] exI[of _ xs]) simp
next
  assume "is_useful sg matrix (p # rest) (t # ts)"
  then obtain x xs where x: "val_ty sg x t" "vals_ty sg xs ts" "pmatch p x" "pmatches rest xs"
    "\<not> covered matrix (x # xs)"
    by (auto simp: is_useful_Cons)
  with match[OF x(1)] have m: "val_head x = h" "pmatches qs (val_args x)" by auto
  with x(1) assms(1) have args: "vals_ty sg (val_args x) as" by (auto simp: val_ty_head)
  with m x spec[OF x(1) m(1), of xs] assms(2)
  show "is_useful sg spec (qs @ rest) (as @ ts)"
    unfolding is_useful_def
    by (intro exI[of _ "val_args x @ xs"])
       (simp add: vals_ty_append pmatches_append vals_ty_length[OF args])
qed

lemma pmatch_by_head:
  assumes "pattern_head p = Some h"
  shows "pmatch p x \<longleftrightarrow> val_head x = h \<and> pmatches (pattern_args p) (val_args x)"
  using assms by (cases p; cases x) (auto dest: pmatches_length)

text \<open>The values of one column type with a head of the list that no row covers.\<close>

definition heads_useful ::
    "('t \<Rightarrow> 't shape) \<Rightarrow> APat list list \<Rightarrow> Head list \<Rightarrow> APat list \<Rightarrow> 't \<Rightarrow> 't list \<Rightarrow> bool" where
  "heads_useful sg matrix heads rest t ts \<longleftrightarrow>
     (\<exists>x xs. val_ty sg x t \<and> val_head x \<in> set heads \<and> vals_ty sg xs ts \<and> pmatches rest xs \<and>
             \<not> covered matrix (x # xs))"

lemma heads_useful_Nil [simp]: "\<not> heads_useful sg matrix [] rest t ts"
  by (simp add: heads_useful_def)

lemma heads_useful_Cons:
  assumes "head_tys sg t h = Some as"
    and "\<And>x xs. val_ty sg x t \<Longrightarrow> val_head x = h \<Longrightarrow>
       covered spec (val_args x @ xs) \<longleftrightarrow> covered matrix (x # xs)"
  shows "heads_useful sg matrix (h # heads) rest t ts \<longleftrightarrow>
    is_useful sg spec (replicate (length as) AWild @ rest) (as @ ts) \<or>
    heads_useful sg matrix heads rest t ts"
proof -
  have "is_useful sg spec (replicate (length as) AWild @ rest) (as @ ts) \<longleftrightarrow>
    (\<exists>x xs. val_ty sg x t \<and> val_head x = h \<and> vals_ty sg xs ts \<and> pmatches rest xs \<and>
       \<not> covered matrix (x # xs))" (is "?U \<longleftrightarrow> ?E")
  proof
    assume ?U
    then obtain zs where zs: "vals_ty sg zs (as @ ts)"
      "pmatches (replicate (length as) AWild @ rest) zs" "\<not> covered spec zs"
      by (auto simp: is_useful_def)
    then obtain ys xs where yx: "zs = ys @ xs" "vals_ty sg ys as" "vals_ty sg xs ts"
      by (auto elim: vals_ty_append_split)
    obtain x where x: "val_head x = h" "val_args x = ys"
      by (rule head_value[OF assms(1) yx(2)])
    then have ty: "val_ty sg x t" using assms(1) yx(2) by (auto simp: val_ty_head)
    with assms(2)[OF ty x(1), of xs] x yx zs show ?E
      by (intro exI[of _ x] exI[of _ xs]) (simp add: pmatches_append vals_ty_length)
  next
    assume ?E
    then obtain x xs where x: "val_ty sg x t" "val_head x = h" "vals_ty sg xs ts"
      "pmatches rest xs" "\<not> covered matrix (x # xs)" by blast
    with assms(1) have args: "vals_ty sg (val_args x) as" by (auto simp: val_ty_head)
    with x assms(2)[OF x(1,2), of xs] show ?U
      unfolding is_useful_def
      by (intro exI[of _ "val_args x @ xs"])
         (simp add: vals_ty_append pmatches_append vals_ty_length[OF args])
  qed
  then show ?thesis by (auto simp: heads_useful_def)
qed

lemma is_useful_wild_complete:
  assumes "complete_signature meta (column_heads matrix)" "matrix_ty sg matrix (t # ts)" "meta_ok meta sg"
  shows "heads_useful sg matrix (column_heads matrix) rest t ts \<longleftrightarrow> is_useful sg matrix (AWild # rest) (t # ts)"
  using complete_signature_covers[OF assms]
  unfolding heads_useful_def is_useful_Cons set_column_heads by auto

lemma is_useful_wild_default:
  assumes "is_useful sg matrix (AWild # rest) (t # ts)"
  shows "is_useful sg (default_matrix matrix) rest ts"
  using assms default_covers[of matrix] unfolding is_useful_Cons by (auto simp: is_useful_def)

lemma is_useful_default_wild:
  assumes "is_useful sg (default_matrix matrix) rest ts" "val_ty sg x t" "val_head x \<notin> first_heads matrix"
  shows "is_useful sg matrix (AWild # rest) (t # ts)"
  using assms(1,2) covered_default[OF assms(3)] unfolding is_useful_Cons
  by (auto simp: is_useful_def)

section \<open>The analysis decides usefulness\<close>

text \<open>
  What one answer means: an error is the work budget, \<open>false\<close> refutes the
  usefulness, and \<open>true\<close> proves it under the side condition.
\<close>

definition answer_ok :: "exhaust_error + bool \<Rightarrow> bool \<Rightarrow> bool \<Rightarrow> bool" where
  "answer_ok r side U =
     (case r of Inl e \<Rightarrow> e = BudgetExceeded | Inr b \<Rightarrow> if b then side \<longrightarrow> U else \<not> U)"

definition inhabited_sig :: "('t \<Rightarrow> 't shape) \<Rightarrow> bool" where
  "inhabited_sig sg \<longleftrightarrow> (\<forall>t. \<exists>x. val_ty sg x t)"

abbreviation side_ok :: "('t \<Rightarrow> 't shape) \<Rightarrow> APat list list \<Rightarrow> bool" where
  "side_ok sg matrix \<equiv> inhabited_sig sg \<and> length matrix < 2 ^ 20"

lemma answer_ok_mono:
  "answer_ok r side U \<Longrightarrow> (side' \<Longrightarrow> side) \<Longrightarrow> (U' \<Longrightarrow> U) \<Longrightarrow> (side' \<Longrightarrow> U \<Longrightarrow> U') \<Longrightarrow> answer_ok r side' U'"
  by (auto simp: answer_ok_def split: sum.splits if_splits)

lemma head_arity_tys:
  "meta_ok meta sg \<Longrightarrow> head_tys sg t h = Some as \<Longrightarrow> head_arity meta h = length as"
  by (auto simp: head_tys_def head_arity_def meta_ok_def split: shape.splits Head.splits if_splits)

lemma useful_answers:
  "meta_ok meta sg \<Longrightarrow> matrix_ty sg matrix ts \<Longrightarrow> pats_ty sg v ts \<Longrightarrow>
     answer_ok (fst (useful meta matrix v b)) (side_ok sg matrix) (is_useful sg matrix v ts)"
  "meta_ok meta sg \<Longrightarrow> matrix_ty sg matrix (t # us) \<Longrightarrow> pats_ty sg rest us \<Longrightarrow>
     (\<forall>h \<in> set heads. head_tys sg t h \<noteq> None) \<Longrightarrow>
     answer_ok (fst (useful_heads meta matrix heads rest b)) (side_ok sg matrix)
       (heads_useful sg matrix heads rest t us)"
proof (induction meta matrix v b and meta matrix heads rest b arbitrary: ts and t us
    rule: useful_useful_heads.induct)
  case (1 meta matrix v b)
  note IH = "1.IH" and meta = "1.prems"(1) and ty = "1.prems"(2) and v_ty = "1.prems"(3)
  consider "b = 0" | "b \<noteq> 0" "v = []"
    | p rest where "b \<noteq> 0" "v = p # rest" by (cases v) auto
  then show ?case
  proof cases
    case 1
    then show ?thesis by (simp add: answer_ok_def)
  next
    case 2
    with v_ty ty show ?thesis by (simp add: answer_ok_def is_useful_Nil)
  next
    case (3 p rest)
    note IH3 = IH[OF 3]
    have b: "0 < b" using 3(1) by simp
    from v_ty 3 obtain t us where ts: "ts = t # us" "pat_ty sg p t" "pats_ty sg rest us"
      by (auto simp: split: list.splits)
    show ?thesis
    proof (cases "pattern_head p")
      case (Some h)
      then obtain as where as: "head_tys sg t h = Some as" "pats_ty sg (pattern_args p) as"
        using ts(2) by (auto simp: pat_ty_head)
      have len: "length (pattern_args p) = length as" by (rule pats_ty_length[OF as(2)])
      obtain spec where spec: "specialize_matrix matrix h (length as) = Inr spec"
        "matrix_ty sg spec (as @ us)" "length spec \<le> length matrix"
        "\<And>x xs. val_ty sg x t \<Longrightarrow> val_head x = h \<Longrightarrow>
           covered spec (val_args x @ xs) \<longleftrightarrow> covered matrix (x # xs)"
        using specialize_matrix_ok[OF _ as(1)] ty ts(1) by blast
      have "pats_ty sg (pattern_args p @ rest) (as @ us)"
        using as(2) ts(3) len by (simp add: pats_ty_append)
      then have "answer_ok (fst (useful meta spec (pattern_args p @ rest) (b - 1)))
          (side_ok sg spec) (is_useful sg spec (pattern_args p @ rest) (as @ us))"
        using IH3(3)[OF Some] spec(1,2) len meta by simp
      then have "answer_ok (fst (useful meta spec (pattern_args p @ rest) (b - 1)))
          (side_ok sg matrix) (is_useful sg matrix (p # rest) (t # us))"
        by (rule answer_ok_mono)
           (use is_useful_head[OF as(1) len pmatch_by_head[OF Some] spec(4)] spec(3) in auto)
      then show ?thesis
        unfolding 3(2) ts(1) useful_head[OF b Some spec(1)[folded len]] .
    next
      case None
      then have p: "p = AWild" by simp
      show ?thesis
      proof (cases "complete_signature meta (column_heads matrix)")
        case True
        have "\<forall>h \<in> set (column_heads matrix). head_tys sg t h \<noteq> None"
          using first_heads_ty[OF ty[unfolded ts(1)]] by (auto simp del: not_None_eq)
        with IH3(1)[OF None True] meta ty ts
        have "answer_ok (fst (useful_heads meta matrix (column_heads matrix) rest (b - 1)))
            (side_ok sg matrix) (heads_useful sg matrix (column_heads matrix) rest t us)" by simp
        then show ?thesis
          unfolding 3(2) ts(1) p useful_wild_complete[OF b True]
            is_useful_wild_complete[OF True ty[unfolded ts(1)] meta] .
      next
        case False
        have dty: "matrix_ty sg (default_matrix matrix) us"
            "length (default_matrix matrix) \<le> length matrix"
          using default_matrix_ty[OF ty[unfolded ts(1)]] by blast+
        have wild: "is_useful sg matrix (AWild # rest) (t # us)"
          if "side_ok sg matrix" "is_useful sg (default_matrix matrix) rest us"
        proof -
          have inh: "\<exists>x. val_ty sg x u" for u using that(1) by (simp add: inhabited_sig_def)
          have few: "length matrix < 2 ^ 20" using that(1) by simp
          obtain x where "val_ty sg x t" "val_head x \<notin> first_heads matrix"
            by (rule incomplete_signature_leaves[OF False ty[unfolded ts(1)] meta inh few])
          with that(2) show ?thesis by (rule is_useful_default_wild)
        qed
        from IH3(2)[OF None False meta dty(1) ts(3)]
        have "answer_ok (fst (useful meta (default_matrix matrix) rest (b - 1)))
            (side_ok sg matrix) (is_useful sg matrix (AWild # rest) (t # us))"
          by (rule answer_ok_mono) (use dty(2) wild is_useful_wild_default in auto)
        then show ?thesis
          unfolding 3(2) ts(1) p useful_wild_default[OF b False] .
      qed
    qed
  qed
next
  case (2 meta matrix rest b)
  then show ?case by (simp add: answer_ok_def)
next
  case (3 meta matrix h heads rest b)
  note meta = "3.prems"(1) and ty = "3.prems"(2) and rest_ty = "3.prems"(3) and heads_ty = "3.prems"(4)
  from heads_ty obtain as where as: "head_tys sg t h = Some as" by auto
  have ar: "head_arity meta h = length as" by (rule head_arity_tys[OF meta as])
  obtain spec where spec: "specialize_matrix matrix h (length as) = Inr spec"
    "matrix_ty sg spec (as @ us)" "length spec \<le> length matrix"
    "\<And>x xs. val_ty sg x t \<Longrightarrow> val_head x = h \<Longrightarrow>
       covered spec (val_args x @ xs) \<longleftrightarrow> covered matrix (x # xs)"
    using specialize_matrix_ok[OF ty as] by blast
  define U where "U = is_useful sg spec (replicate (length as) AWild @ rest) (as @ us)"
  obtain r b' where res: "useful meta spec (replicate (length as) AWild @ rest) b = (r, b')"
    by (cases "useful meta spec (replicate (length as) AWild @ rest) b") auto
  have "pats_ty sg (replicate (length as) AWild @ rest) (as @ us)"
    using rest_ty by (simp add: pats_ty_append)
  then have r: "answer_ok r (side_ok sg spec) U"
    using "3.IH"(1)[unfolded ar, OF spec(1) meta spec(2)] res by (simp add: U_def)
  have split: "heads_useful sg matrix (h # heads) rest t us \<longleftrightarrow> U \<or> heads_useful sg matrix heads rest t us"
    unfolding U_def by (rule heads_useful_Cons[OF as spec(4)])
  show ?case
  proof (cases r)
    case (Inl e)
    with r res spec(1) ar show ?thesis by (simp add: answer_ok_def)
  next
    case (Inr u)
    show ?thesis
    proof (cases u)
      case True
      with Inr r res spec ar split show ?thesis by (auto simp: answer_ok_def)
    next
      case False
      with Inr r have "\<not> U" by (simp add: answer_ok_def)
      moreover have "answer_ok (fst (useful_heads meta matrix heads rest b')) (side_ok sg matrix)
          (heads_useful sg matrix heads rest t us)"
        using "3.IH"(2)[unfolded ar, OF spec(1) res[symmetric] _ _ meta ty rest_ty] Inr False heads_ty
        by simp
      ultimately show ?thesis using Inr False res spec(1) ar split by simp
    qed
  qed
qed

section \<open>A finite budget suffices\<close>

text \<open>The number of constructors in a pattern: wildcards count nothing.\<close>

fun pweight :: "APat \<Rightarrow> nat" and psweight :: "APat list \<Rightarrow> nat" where
  "pweight AWild = 0"
| "pweight (ACtor _ ps) = Suc (psweight ps)"
| "pweight (ATuple ps) = Suc (psweight ps)"
| "pweight (AInt _) = 1"
| "pweight (ABool _) = 1"
| "pweight (AChar _) = 1"
| "pweight (AStr _) = 1"
| "pweight (ACall _) = 1"
| "psweight [] = 0"
| "psweight (p # ps) = pweight p + psweight ps"

definition mweight :: "APat list list \<Rightarrow> nat" where
  "mweight matrix = sum_list (map psweight matrix)"

lemma mweight_simps [simp]: "mweight [] = 0" "mweight (r # rs) = psweight r + mweight rs"
  by (simp_all add: mweight_def)

lemma psweight_append [simp]: "psweight (ps @ qs) = psweight ps + psweight qs"
  by (induction ps) auto

lemma psweight_wilds [simp]: "psweight (replicate n AWild) = 0"
  by (induction n) auto

lemma pweight_head: "pattern_head p = Some h \<Longrightarrow> pweight p = Suc (psweight (pattern_args p))"
  by (cases p) auto

lemma expand_head_weight:
  "expand_head p h n = Some ps \<Longrightarrow> p \<noteq> AWild \<Longrightarrow> Suc (psweight ps) = pweight p \<and> pattern_head p = Some h"
  by (cases p; cases h) (auto simp: expand_head_def split: if_splits)

lemma specialize_matrix_weight:
  "specialize_matrix matrix h n = Inr spec \<Longrightarrow>
     mweight spec \<le> mweight matrix \<and> (h \<in> first_heads matrix \<longrightarrow> mweight spec < mweight matrix)"
proof (induction matrix arbitrary: spec)
  case Nil
  then show ?case by simp
next
  case (Cons row rows)
  from Cons.prems obtain p r where row: "row = p # r"
    by (cases row) (auto simp: specialize_row_def)
  with Cons.prems obtain specs where specs: "specialize_matrix rows h n = Inr specs"
    "spec = (case expand_head p h n of None \<Rightarrow> specs | Some ps \<Rightarrow> (ps @ r) # specs)"
    by (auto simp: specialize_row_def split: sum.splits option.splits)
  note IH = Cons.IH[OF specs(1)]
  show ?case
  proof (cases "p = AWild")
    case True
    with row specs IH show ?thesis by (auto simp: expand_head_def)
  next
    case False
    show ?thesis
    proof (cases "expand_head p h n")
      case None
      have "pweight p > 0" using False by (cases p) auto
      with None row specs IH show ?thesis by auto
    next
      case (Some ps)
      with expand_head_weight[OF Some False] row specs IH show ?thesis by auto
    qed
  qed
qed

lemma default_matrix_weight: "mweight (default_matrix matrix) \<le> mweight matrix"
  by (induction matrix) (auto split: list.splits APat.splits)

text \<open>
  A run that does not exhaust its budget spends a fixed number of units: the
  analysis of one matrix and row has a cost, any budget of at least the cost gives
  the same answer, and any smaller budget is used up.
\<close>

definition decides ::
    "(nat \<Rightarrow> (exhaust_error + bool) \<times> nat) \<Rightarrow> bool" where
  "decides f \<longleftrightarrow>
     (\<exists>cost r. \<forall>b. f b = (if cost \<le> b then (Inr r, b - cost) else (Inl BudgetExceeded, 0)))"

lemma decides_step:
  assumes "decides f" "\<And>b. 0 < b \<Longrightarrow> g b = f (b - 1)" "g 0 = (Inl BudgetExceeded, 0)"
  shows "decides g"
proof -
  from assms(1) obtain cost r
    where f: "\<And>b. f b = (if cost \<le> b then (Inr r, b - cost) else (Inl BudgetExceeded, 0))"
    by (auto simp: decides_def)
  have "g b = (if Suc cost \<le> b then (Inr r, b - Suc cost) else (Inl BudgetExceeded, 0))" for b
    using f[of "b - 1"] assms(2)[of b] assms(3) by (cases b) auto
  then show ?thesis unfolding decides_def by blast
qed

lemma decides_heads:
  assumes "\<And>h. h \<in> set heads \<Longrightarrow>
      \<exists>spec. specialize_matrix matrix h (head_arity meta h) = Inr spec \<and>
        decides (useful meta spec (replicate (head_arity meta h) AWild @ rest))"
  shows "decides (useful_heads meta matrix heads rest)"
  using assms
proof (induction heads)
  case Nil
  show ?case unfolding decides_def by (rule exI[of _ 0]) auto
next
  case (Cons h heads)
  from Cons.prems[of h] obtain spec
    where spec: "specialize_matrix matrix h (head_arity meta h) = Inr spec"
      "decides (useful meta spec (replicate (head_arity meta h) AWild @ rest))" by auto
  from spec(2) obtain cost r
    where cost: "\<And>b. useful meta spec (replicate (head_arity meta h) AWild @ rest) b =
      (if cost \<le> b then (Inr r, b - cost) else (Inl BudgetExceeded, 0))"
    by (auto simp: decides_def)
  have "decides (useful_heads meta matrix heads rest)"
    by (rule Cons.IH) (simp add: Cons.prems)
  then obtain cost' r'
    where heads: "\<And>b. useful_heads meta matrix heads rest b =
      (if cost' \<le> b then (Inr r', b - cost') else (Inl BudgetExceeded, 0))"
    by (auto simp: decides_def)
  show ?case
  proof (cases r)
    case True
    have "useful_heads meta matrix (h # heads) rest b =
        (if cost \<le> b then (Inr True, b - cost) else (Inl BudgetExceeded, 0))" for b
      using cost[of b] spec(1) True by simp
    then show ?thesis unfolding decides_def by blast
  next
    case False
    have "useful_heads meta matrix (h # heads) rest b =
        (if cost + cost' \<le> b then (Inr r', b - (cost + cost')) else (Inl BudgetExceeded, 0))" for b
      using cost[of b] heads[of "b - cost"] spec(1) False by auto
    then show ?thesis unfolding decides_def by blast
  qed
qed

lemma useful_decides:
  assumes "meta_ok meta sg" "matrix_ty sg matrix ts" "pats_ty sg v ts"
  shows "decides (useful meta matrix v)"
  using assms(2,3)
proof (induction "(mweight matrix + psweight v, length v)" arbitrary: matrix v ts
    rule: wf_induct_rule[OF wf_lex_prod[OF wf_less_than wf_less_than]])
  case (1 matrix v ts)
  have IH: "decides (useful meta m w)"
    if "mweight m + psweight w < mweight matrix + psweight v \<or>
        mweight m + psweight w = mweight matrix + psweight v \<and> length w < length v"
      "matrix_ty sg m us" "pats_ty sg w us" for m w us
    using "1.hyps"[of m w us] that by auto
  show ?case
  proof (cases v)
    case Nil
    then show ?thesis unfolding decides_def by (intro exI[of _ 1]) (auto simp: not_le)
  next
    case (Cons p rest)
    from "1.prems" Cons obtain t us where ts: "ts = t # us" "pat_ty sg p t" "pats_ty sg rest us"
      by (auto split: list.splits)
    show ?thesis
    proof (cases "pattern_head p")
      case (Some h)
      then obtain as where as: "head_tys sg t h = Some as" "pats_ty sg (pattern_args p) as"
        using ts(2) by (auto simp: pat_ty_head)
      have len: "length (pattern_args p) = length as" by (rule pats_ty_length[OF as(2)])
      obtain spec where spec: "specialize_matrix matrix h (length as) = Inr spec"
        "matrix_ty sg spec (as @ us)"
        using specialize_matrix_ok[OF _ as(1)] "1.prems"(1) ts(1) by blast
      have "decides (useful meta spec (pattern_args p @ rest))"
        using specialize_matrix_weight[OF spec(1)] pweight_head[OF Some] Cons spec(2) as(2) ts(3) len
        by (intro IH[where us = "as @ us"]) (auto simp: pats_ty_append)
      then show ?thesis
        by (rule decides_step) (use Cons useful_head[OF _ Some spec(1)[folded len]] in simp_all)
    next
      case None
      show ?thesis
      proof (cases "complete_signature meta (column_heads matrix)")
        case True
        have "decides (useful_heads meta matrix (column_heads matrix) rest)"
        proof (rule decides_heads)
          fix h
          assume h: "h \<in> set (column_heads matrix)"
          then obtain as where as: "head_tys sg t h = Some as"
            using first_heads_ty[of sg matrix t us h] "1.prems"(1) ts(1) by auto
          have ar: "head_arity meta h = length as" by (rule head_arity_tys[OF assms(1) as])
          obtain spec where spec: "specialize_matrix matrix h (length as) = Inr spec"
            "matrix_ty sg spec (as @ us)"
            using specialize_matrix_ok[OF _ as] "1.prems"(1) ts(1) by blast
          have "decides (useful meta spec (replicate (length as) AWild @ rest))"
            using specialize_matrix_weight[OF spec(1)] h Cons None spec(2) ts(3)
            by (intro IH[where us = "as @ us"]) (auto simp: pats_ty_append)
          with spec(1) ar show "\<exists>spec. specialize_matrix matrix h (head_arity meta h) = Inr spec \<and>
              decides (useful meta spec (replicate (head_arity meta h) AWild @ rest))" by auto
        qed
        then show ?thesis
          by (rule decides_step) (use Cons None useful_wild_complete[OF _ True] in simp_all)
      next
        case False
        have "decides (useful meta (default_matrix matrix) rest)"
          using default_matrix_weight[of matrix] default_matrix_ty[of sg matrix t us]
            "1.prems"(1) ts Cons None
          by (intro IH[where us = us]) auto
        then show ?thesis
          by (rule decides_step) (use Cons None useful_wild_default[OF _ False] in simp_all)
      qed
    qed
  qed
qed

section \<open>Properties\<close>

text \<open>
  Example data for the witnesses: type 0 is \<open>Bool\<close>, every other type is an
  \<open>Option[Bool]\<close> whose arms are the classes 1 (\<open>Some\<close>, one field) and 2 (\<open>None\<close>).
\<close>

definition ex_sig :: "nat \<Rightarrow> nat shape" where
  "ex_sig n = (if n = 0 then SBool else SFam [(1, [0]), (2, [])])"

definition ex_meta :: pat_meta where
  "ex_meta = \<lparr>arm_arity = (\<lambda>c. if c = 1 then 1 else 0), family_arms = (\<lambda>_. [1, 2])\<rparr>"

lemma ex_meta_ok: "meta_ok ex_meta ex_sig"
  by (auto simp: meta_ok_def ex_meta_def ex_sig_def split: if_splits)

lemma ex_sig_inhabited: "inhabited_sig ex_sig"
  unfolding inhabited_sig_def
proof
  fix t
  have "val_ty ex_sig (if t = 0 then VBool True else VCtor 2 []) t"
    by (simp add: ex_sig_def head_tys_def)
  then show "\<exists>x. val_ty ex_sig x t" by blast
qed

lemmas ex_simps = ex_meta_def ex_sig_def head_tys_def head_arity_def
  useful.simps column_heads_def complete_signature_def specialize_row_def expand_head_def covered_def

text \<open>
  C15: when the analysis answers that a row is not useful, every well-typed value
  vector the row matches is already matched by a row of the matrix. So a \<open>case\<close>
  whose wildcard is not useful is exhaustive.
\<close>

theorem useful_refutes:
  assumes "meta_ok meta sg" "matrix_ty sg matrix ts" "pats_ty sg v ts"
    and "fst (useful meta matrix v b) = Inr False"
    and "vals_ty sg xs ts" "pmatches v xs"
  shows "covered matrix xs"
  using useful_answers(1)[OF assms(1-3), of b] assms(4-6) by (auto simp: answer_ok_def is_useful_def)

theorem useful_refutes_witness:
  "covered [[ACtor 1 [AWild]], [ACtor 2 []]] [VCtor 1 [VBool True]]"
  by (rule useful_refutes[where sg = ex_sig and meta = ex_meta and v = "[AWild]" and ts = "[1]" and b = 9,
      OF ex_meta_ok]) (simp_all add: ex_simps)

text \<open>
  C17: when the analysis answers that a row is useful, some well-typed value
  vector is matched by the row and by no row of the matrix, provided every type
  has a value and the matrix has fewer than \<open>2 ^ 20\<close> rows (fewer than there are
  characters, the smallest open literal type).
\<close>

theorem useful_finds:
  assumes "meta_ok meta sg" "matrix_ty sg matrix ts" "pats_ty sg v ts"
    and "inhabited_sig sg" "length matrix < 2 ^ 20"
    and "fst (useful meta matrix v b) = Inr True"
  shows "\<exists>xs. vals_ty sg xs ts \<and> pmatches v xs \<and> \<not> covered matrix xs"
  using useful_answers(1)[OF assms(1-3), of b] assms(4-6) by (auto simp: answer_ok_def is_useful_def)

theorem useful_finds_witness:
  "\<exists>xs. vals_ty ex_sig xs [1] \<and> pmatches [AWild] xs \<and> \<not> covered [[ACtor 1 [ABool True]]] xs"
  by (rule useful_finds[where meta = ex_meta and b = 9, OF ex_meta_ok _ _ ex_sig_inhabited])
     (simp_all add: ex_simps)

text \<open>
  C21: on well-typed input the analysis has a finite cost and one answer: every budget
  of at least the cost gives that answer and leaves the rest of the budget, and
  every smaller budget is used up and reports \<open>BudgetExceeded\<close>. So the answer never
  depends on the budget, and the empty-row panic is unreachable.
\<close>

theorem useful_total:
  assumes "meta_ok meta sg" "matrix_ty sg matrix ts" "pats_ty sg v ts"
  shows "\<exists>cost r. \<forall>b. useful meta matrix v b =
    (if cost \<le> b then (Inr r, b - cost) else (Inl BudgetExceeded, 0))"
  using useful_decides[OF assms] unfolding decides_def .

theorem useful_total_witness:
  "\<exists>cost r. \<forall>b. useful ex_meta [[ACtor 1 [ABool True]]] [AWild] b =
    (if cost \<le> b then (Inr r, b - cost) else (Inl BudgetExceeded, 0))"
  by (rule useful_total[where sg = ex_sig and ts = "[1]", OF ex_meta_ok]) (simp_all add: ex_simps)

lemma arms_loop_reachable:
  assumes "arms_loop meta before rows b = Inr b'" "meta_ok meta sg" "inhabited_sig sg"
    and "matrix_ty sg (before @ rows) ts" "length (before @ rows) \<le> 2 ^ 20"
    and "length before \<le> i" "0 < i" "i < length (before @ rows)"
  shows "is_useful sg (take i (before @ rows)) ((before @ rows) ! i) ts"
  using assms
proof (induction meta before rows b rule: arms_loop.induct)
  case (1 meta before b)
  then show ?case by simp
next
  case (2 meta before row rows b)
  show ?case
  proof (cases "before = []")
    case True
    with "2.IH"(1)[OF True] "2.prems" show ?thesis by (cases "i = 1") auto
  next
    case False
    with "2.prems"(1) obtain b1 where u: "useful meta before row b = (Inr True, b1)"
      "arms_loop meta (before @ [row]) rows b1 = Inr b'"
      by (auto split: prod.splits sum.splits if_splits)
    show ?thesis
    proof (cases "i = length before")
      case True
      have "matrix_ty sg before ts" "pats_ty sg row ts"
        using "2.prems"(4) by (auto simp: matrix_ty_def)
      from useful_answers(1)[OF "2.prems"(2) this, of b] u(1) "2.prems"(3,5) True
      show ?thesis by (simp add: answer_ok_def)
    next
      case i: False
      with "2.IH"(2)[OF False u(1)[symmetric] refl] u(2) "2.prems" show ?thesis by auto
    qed
  qed
qed

end
