(* ===== verification/Case_Arms.thy ===== *)
theory Case_Arms
  imports Exhaust_Correct
begin

text \<open>
  What the arm check of a \<open>case\<close> means for the patterns the checker resolved
  (\<open>HPattern\<close> of \<open>crates/lm-hir/src/hir.rs\<close>): runtime values, the tests that the
  lowered pattern performs on them, the abstraction \<open>hpat_to_apat\<close> as an
  over-approximation that is exact away from request arguments, and the two answers
  of \<open>analyze_arms\<close> stated for the resolved patterns.
\<close>

section \<open>Runtime values and matching\<close>

text \<open>
  A request carries its operation and its arguments. A pending call is what the operation
  test answers inside \<open>Some\<close>. Values that no pattern takes apart are integers here.
\<close>

datatype rval =
    RInt i64
  | RBool bool
  | RChar u32
  | RStr string
  | RInst u32 "rval list"
  | RTuple "rval list"
  | RRequest u32 "rval list"
  | RPending "rval list"

text \<open>The native projections: \<open>sc\<close> and \<open>nc\<close> are the classes \<open>Some\<close> and \<open>None\<close> of \<open>Option\<close>.\<close>

fun project :: "u32 \<Rightarrow> u32 \<Rightarrow> Projection \<Rightarrow> rval \<Rightarrow> rval option" where
  "project sc nc (AsCall op) (RRequest o' args) =
     Some (if o' = op then RInst sc [RPending args] else RInst nc [])"
| "project sc nc CallArgs (RPending args) = Some (RTuple args)"
| "project _ _ _ _ = None"

fun hmatch :: "u32 \<Rightarrow> u32 \<Rightarrow> HPattern \<Rightarrow> rval \<Rightarrow> bool"
  and hmatches :: "u32 \<Rightarrow> u32 \<Rightarrow> HPattern list \<Rightarrow> rval list \<Rightarrow> bool"
  and hmatch_all :: "u32 \<Rightarrow> u32 \<Rightarrow> HPattern list \<Rightarrow> rval \<Rightarrow> bool" where
  "hmatch sc nc PWildcard x = True"
| "hmatch sc nc (PBind slot) x = True"
| "hmatch sc nc (PInt v) x = (x = RInt v)"
| "hmatch sc nc (PBool v) x = (x = RBool v)"
| "hmatch sc nc (PChar v) x = (x = RChar v)"
| "hmatch sc nc (PStr v) x = (x = RStr v)"
| "hmatch sc nc (PProject projection inner) x =
     (case project sc nc projection x of None \<Rightarrow> False | Some y \<Rightarrow> hmatch sc nc inner y)"
| "hmatch sc nc (PAnd subs) x = hmatch_all sc nc subs x"
| "hmatch sc nc (PTuple ps) x = (case x of RTuple xs \<Rightarrow> hmatches sc nc ps xs | _ \<Rightarrow> False)"
| "hmatch sc nc (PCtor c ps) x = (case x of RInst d xs \<Rightarrow> c = d \<and> hmatches sc nc ps xs | _ \<Rightarrow> False)"
| "hmatches sc nc [] xs = (xs = [])"
| "hmatches sc nc (p # ps) xs = (case xs of [] \<Rightarrow> False | y # ys \<Rightarrow> hmatch sc nc p y \<and> hmatches sc nc ps ys)"
| "hmatch_all sc nc [] x = True"
| "hmatch_all sc nc (p # ps) x = (hmatch sc nc p x \<and> hmatch_all sc nc ps x)"

text \<open>
  The patterns \<open>check_pattern\<close> builds: projections and conjunctions occur only in the
  pattern of a request, whose call sub-pattern is a name or a wildcard.
\<close>

inductive formed :: "u32 \<Rightarrow> HPattern \<Rightarrow> bool" for sc where
  formed_wild: "formed sc PWildcard"
| formed_bind: "formed sc (PBind slot)"
| formed_int: "formed sc (PInt v)"
| formed_bool: "formed sc (PBool b)"
| formed_char: "formed sc (PChar c)"
| formed_str: "formed sc (PStr s)"
| formed_tuple: "(\<forall>p \<in> set ps. formed sc p) \<Longrightarrow> formed sc (PTuple ps)"
| formed_ctor: "(\<forall>p \<in> set ps. formed sc p) \<Longrightarrow> formed sc (PCtor c ps)"
| formed_call: "cp = PWildcard \<or> (\<exists>slot. cp = PBind slot) \<Longrightarrow> formed sc ap \<Longrightarrow> formed sc (call_pattern sc op cp ap)"

text \<open>
  A value as the analysis sees it; \<open>f\<close> renames the operations of its requests. A
  scrutinee holds no pending call, and the arguments of its requests satisfy \<open>sig\<close>.
\<close>

fun abs_with :: "(u32 \<Rightarrow> u32) \<Rightarrow> rval \<Rightarrow> aval" where
  "abs_with f (RInt v) = VInt v"
| "abs_with f (RBool v) = VBool v"
| "abs_with f (RChar v) = VChar v"
| "abs_with f (RStr v) = VStr v"
| "abs_with f (RInst c xs) = VCtor c (map (abs_with f) xs)"
| "abs_with f (RTuple xs) = VTuple (map (abs_with f) xs)"
| "abs_with f (RRequest op args) = VCall (f op)"
| "abs_with f (RPending args) = VTuple (map (abs_with f) args)"

abbreviation abs_val :: "rval \<Rightarrow> aval" where
  "abs_val \<equiv> abs_with (\<lambda>op. op)"

fun rval_ok :: "(u32 \<Rightarrow> rval list \<Rightarrow> bool) \<Rightarrow> rval \<Rightarrow> bool" where
  "rval_ok sig (RInst c xs) = list_all (rval_ok sig) xs"
| "rval_ok sig (RTuple xs) = list_all (rval_ok sig) xs"
| "rval_ok sig (RRequest op args) = sig op args"
| "rval_ok sig (RPending args) = False"
| "rval_ok sig _ = True"

text \<open>The argument patterns of the requests reject no argument list of the operation.\<close>

inductive open_args :: "u32 \<Rightarrow> u32 \<Rightarrow> (u32 \<Rightarrow> rval list \<Rightarrow> bool) \<Rightarrow> HPattern \<Rightarrow> bool" for sc nc sig where
  open_wild: "open_args sc nc sig PWildcard"
| open_bind: "open_args sc nc sig (PBind slot)"
| open_int: "open_args sc nc sig (PInt v)"
| open_bool: "open_args sc nc sig (PBool b)"
| open_char: "open_args sc nc sig (PChar c)"
| open_str: "open_args sc nc sig (PStr s)"
| open_tuple: "(\<forall>p \<in> set ps. open_args sc nc sig p) \<Longrightarrow> open_args sc nc sig (PTuple ps)"
| open_ctor: "(\<forall>p \<in> set ps. open_args sc nc sig p) \<Longrightarrow> open_args sc nc sig (PCtor c ps)"
| open_call: "cp = PWildcard \<or> (\<exists>slot. cp = PBind slot) \<Longrightarrow> (\<forall>args. sig op args \<longrightarrow> hmatch sc nc ap (RTuple args)) \<Longrightarrow>
    open_args sc nc sig (call_pattern sc op cp ap)"

fun names_op :: "u32 \<Rightarrow> APat \<Rightarrow> bool" where
  "names_op op (ACall o') = (o' = op)"
| "names_op op (ACtor _ ps) = list_ex (names_op op) ps"
| "names_op op (ATuple ps) = list_ex (names_op op) ps"
| "names_op op _ = False"

section \<open>The abstraction of a pattern\<close>

lemma hmatches_iff: "hmatches sc nc ps xs \<longleftrightarrow> list_all2 (hmatch sc nc) ps xs"
  by (induction ps arbitrary: xs) (auto split: list.splits simp: list_all2_Cons1)

lemma pmatches_iff: "pmatches ps xs \<longleftrightarrow> list_all2 pmatch ps xs"
  by (induction ps arbitrary: xs) (auto split: list.splits simp: list_all2_Cons1)

lemma hpat_call [simp]: "hpat_to_apat (call_pattern sc op cp ap) = ACall op"
  by (simp add: call_pattern_def)

lemma hmatch_call [simp]:
  assumes "cp = PWildcard \<or> (\<exists>slot. cp = PBind slot)" and "sc \<noteq> nc"
  shows "hmatch sc nc (call_pattern sc op cp ap) x \<longleftrightarrow>
    (\<exists>args. x = RRequest op args \<and> hmatch sc nc ap (RTuple args))"
proof -
  have "hmatch sc nc cp y" for y using assms(1) by auto
  then show ?thesis using assms(2) by (cases x) (auto simp: call_pattern_def)
qed

text \<open>A value that a pattern matches is matched by the abstraction.\<close>

lemma hmatch_abs:
  assumes "formed sc p" and "sc \<noteq> nc"
  shows "hmatch sc nc p x \<Longrightarrow> pmatch (hpat_to_apat p) (abs_val x)"
  using assms(1)
proof (induction arbitrary: x rule: formed.induct)
  case (formed_tuple ps)
  then obtain xs where "x = RTuple xs" "hmatches sc nc ps xs" by (auto split: rval.splits)
  then show ?case using formed_tuple.IH
    by (auto simp: hmatches_iff pmatches_iff list_all2_conv_all_nth)
next
  case (formed_ctor ps c)
  then obtain xs where "x = RInst c xs" "hmatches sc nc ps xs" by (auto split: rval.splits)
  then show ?case using formed_ctor.IH
    by (auto simp: hmatches_iff pmatches_iff list_all2_conv_all_nth)
next
  case (formed_call cp ap op)
  then show ?case using assms(2) by auto
qed auto

text \<open>When the argument patterns are open, the abstraction is exact.\<close>

lemma abs_hmatch:
  assumes "open_args sc nc sig p" and "sc \<noteq> nc"
  shows "rval_ok sig x \<Longrightarrow> pmatch (hpat_to_apat p) (abs_val x) \<Longrightarrow> hmatch sc nc p x"
  using assms(1)
proof (induction arbitrary: x rule: open_args.induct)
  case (open_tuple ps)
  then obtain xs where "x = RTuple xs" "pmatches (map hpat_to_apat ps) (map abs_val xs)"
    by (cases x) auto
  then show ?case using open_tuple
    by (auto simp: hmatches_iff pmatches_iff list_all2_conv_all_nth list_all_length)
next
  case (open_ctor ps c)
  then obtain xs where "x = RInst c xs" "pmatches (map hpat_to_apat ps) (map abs_val xs)"
    by (cases x) auto
  then show ?case using open_ctor
    by (auto simp: hmatches_iff pmatches_iff list_all2_conv_all_nth list_all_length)
next
  case (open_call cp op ap)
  then show ?case using assms(2) by (cases x) auto
next
  case (open_int v)
  then show ?case by (cases x) auto
next
  case (open_bool v)
  then show ?case by (cases x) auto
next
  case (open_char v)
  then show ?case by (cases x) auto
next
  case (open_str v)
  then show ?case by (cases x) auto
qed auto

text \<open>
  A pattern that matches a value with its operations renamed to one the pattern does not
  name tests no request of the value, so it matches the value itself.
\<close>

lemma fresh_hmatch:
  assumes "formed sc p"
  shows "\<not> names_op op (hpat_to_apat p) \<Longrightarrow> rval_ok sig x \<Longrightarrow>
    pmatch (hpat_to_apat p) (abs_with (\<lambda>_. op) x) \<Longrightarrow> hmatch sc nc p x"
  using assms
proof (induction arbitrary: x rule: formed.induct)
  case (formed_tuple ps)
  then obtain xs where "x = RTuple xs" "pmatches (map hpat_to_apat ps) (map (abs_with (\<lambda>_. op)) xs)"
    by (cases x) auto
  then show ?case using formed_tuple
    by (auto simp: hmatches_iff pmatches_iff list_all2_conv_all_nth list_all_length list_ex_length)
next
  case (formed_ctor ps c)
  then obtain xs where "x = RInst c xs" "pmatches (map hpat_to_apat ps) (map (abs_with (\<lambda>_. op)) xs)"
    by (cases x) auto
  then show ?case using formed_ctor
    by (auto simp: hmatches_iff pmatches_iff list_all2_conv_all_nth list_all_length list_ex_length)
next
  case (formed_call cp ap o')
  then show ?case by (cases x) auto
next
  case (formed_int v)
  then show ?case by (cases x) auto
next
  case (formed_bool v)
  then show ?case by (cases x) auto
next
  case (formed_char v)
  then show ?case by (cases x) auto
next
  case (formed_str v)
  then show ?case by (cases x) auto
qed auto

lemma abs_with_eq [simp]:
  "abs_with f x = VInt i \<longleftrightarrow> x = RInt i" "abs_with f x = VBool b \<longleftrightarrow> x = RBool b"
  "abs_with f x = VChar c \<longleftrightarrow> x = RChar c" "abs_with f x = VStr s \<longleftrightarrow> x = RStr s"
  "abs_with f x = VCall op \<longleftrightarrow> (\<exists>o' args. x = RRequest o' args \<and> f o' = op)"
  by (cases x; auto)+

lemma fresh_pmatch:
  "\<not> names_op op p \<Longrightarrow> rval_ok sig x \<Longrightarrow> pmatch p (abs_with (\<lambda>_. op) x) \<Longrightarrow> pmatch p (abs_val x)"
proof (induction p arbitrary: x)
  case (ACtor c ps)
  then show ?case
    by (cases x) (auto simp: pmatches_iff list_all2_conv_all_nth list_all_length list_ex_length)
next
  case (ATuple ps)
  then show ?case
    by (cases x) (auto simp: pmatches_iff list_all2_conv_all_nth list_all_length list_ex_length)
qed auto

lemma abs_with_ty: "val_ty sg (abs_with f x) t \<longleftrightarrow> val_ty sg (abs_val x) t"
proof -
  have call: "head_tys sg t (HCall a) = head_tys sg t (HCall b)" for t a b
    by (simp add: head_tys_def split: shape.splits)
  have list: "vals_ty sg (map g xs) ts \<longleftrightarrow> list_all2 (val_ty sg) (map g xs) ts" for g and xs :: "rval list" and ts
    by (induction xs arbitrary: ts) (auto split: list.splits simp: list_all2_Cons1)
  have map: "list_all2 (val_ty sg) (map (abs_with f) xs) ts \<longleftrightarrow> list_all2 (val_ty sg) (map abs_val xs) ts"
    if "\<And>x t. x \<in> set xs \<Longrightarrow> val_ty sg (abs_with f x) t \<longleftrightarrow> val_ty sg (abs_val x) t" for xs ts
    using that by (auto simp: list_all2_conv_all_nth)
  show ?thesis
  proof (induction x arbitrary: t)
    case (RRequest op args)
    then show ?case using call[of t "f op" op] by simp
  qed (auto simp: list map split: option.splits)
qed

lemma concrete_value:
  assumes "\<forall>op. \<exists>args. sig op args"
  shows "\<exists>x. rval_ok sig x \<and> abs_val x = a"
proof -
  have lists: "\<exists>xs. list_all (rval_ok sig) xs \<and> map abs_val xs = as"
    if "\<And>a. a \<in> set as \<Longrightarrow> \<exists>x. rval_ok sig x \<and> abs_val x = a" for as
    using that
  proof (induction as)
    case (Cons a as)
    then obtain x xs where "rval_ok sig x" "abs_val x = a" "list_all (rval_ok sig) xs" "map abs_val xs = as" by force
    then show ?case by (intro exI[of _ "x # xs"]) simp
  qed simp
  show ?thesis
  proof (induction a)
    case (VCtor c as)
    then obtain xs where "list_all (rval_ok sig) xs" "map abs_val xs = as" using lists by blast
    then show ?case by (intro exI[of _ "RInst c xs"]) simp
  next
    case (VTuple as)
    then obtain xs where "list_all (rval_ok sig) xs" "map abs_val xs = as" using lists by blast
    then show ?case by (intro exI[of _ "RTuple xs"]) simp
  next
    case (VCall op)
    then obtain args where "sig op args" using assms by blast
    then show ?case by (intro exI[of _ "RRequest op args"]) simp
  qed (use rval_ok.simps(5-8) abs_with.simps(1-4) in metis)+
qed

section \<open>Accepted cases\<close>

text \<open>What the two answers of \<open>analyze_arms\<close> say about the abstractions of the arms.\<close>

lemma accepted_covers:
  assumes "analyze_arms meta arms impossible = Inr ()" and "meta_ok meta sg"
    and "\<forall>p \<in> set arms. pat_ty sg (hpat_to_apat p) t" and "\<forall>p \<in> set impossible. pat_ty sg p t"
    and "val_ty sg a t"
  shows "(\<exists>p \<in> set arms. pmatch (hpat_to_apat p) a) \<or> (\<exists>p \<in> set impossible. pmatch p a)"
proof -
  let ?all = "map (\<lambda>p. [hpat_to_apat p]) arms @ map (\<lambda>p. [p]) impossible"
  from assms(1) obtain b b' where miss: "useful meta ?all [AWild] b = (Inr False, b')"
    by (auto simp: analyze_arms_def Let_def split: sum.splits prod.splits if_splits)
  have all: "matrix_ty sg ?all [t]" using assms(3,4) by (auto simp: matrix_ty_def list_all_iff)
  have "covered ?all [a]"
    using useful_answers(1)[OF assms(2) all, of "[AWild]" b] miss assms(5)
    by (auto simp: answer_ok_def is_useful_Cons)
  then show ?thesis by (auto simp: covered_def list_ex_iff)
qed

lemma accepted_reaches:
  assumes "analyze_arms meta arms impossible = Inr ()" and "meta_ok meta sg" and "inhabited_sig sg"
    and "length arms \<le> 2 ^ 20" and "\<forall>p \<in> set arms. pat_ty sg (hpat_to_apat p) t"
    and "0 < i" and "i < length arms"
  shows "\<exists>a. val_ty sg a t \<and> pmatch (hpat_to_apat (arms ! i)) a \<and> (\<forall>j < i. \<not> pmatch (hpat_to_apat (arms ! j)) a)"
proof -
  let ?rows = "map (\<lambda>p. [hpat_to_apat p]) arms"
  from assms(1) obtain b where loop: "arms_loop meta [] ?rows PATTERN_BUDGET = Inr b"
    by (auto simp: analyze_arms_def Let_def split: sum.splits)
  have rows: "matrix_ty sg ([] @ ?rows) [t]" using assms(5) by (auto simp: matrix_ty_def list_all_iff)
  from arms_loop_reachable[OF loop assms(2,3) rows, of i] assms(4,6,7)
  have "is_useful sg (take i ?rows) [hpat_to_apat (arms ! i)] [t]" by simp
  then show ?thesis
    using assms(7) by (auto simp: is_useful_Cons covered_def list_ex_iff ball_set_take_map simp del: take_map)
qed

text \<open>
  C24: a \<open>case\<close> that \<open>analyze_arms\<close> accepts is exhaustive for the patterns as the checker
  resolved them: every value of the scrutinee type is matched by an arm, tests of request
  arguments included, or by an impossible pattern. And it has no dead arm: every arm
  after the first matches a value that no earlier arm matches, provided its own request
  argument patterns reject nothing. The conditions: the metadata agrees with the types,
  every type has a value, there are at most \<open>2 ^ 20\<close> arms, the arms have the shape
  \<open>check_pattern\<close> builds, every operation has arguments, and some operation slot is named by
  no pattern.
\<close>

theorem analyze_arms_accepts:
  assumes "analyze_arms meta arms impossible = Inr ()"
    and "meta_ok meta sg" and "inhabited_sig sg" and "length arms \<le> 2 ^ 20"
    and "\<forall>p \<in> set arms. formed sc p \<and> pat_ty sg (hpat_to_apat p) t" and "\<forall>p \<in> set impossible. pat_ty sg p t"
    and "sc \<noteq> nc" and "\<forall>op. \<exists>args. sig op args"
    and "\<forall>p \<in> hpat_to_apat ` set arms \<union> set impossible. \<not> names_op fresh p"
  shows "(\<forall>x. rval_ok sig x \<longrightarrow> val_ty sg (abs_val x) t \<longrightarrow>
            (\<exists>p \<in> set arms. hmatch sc nc p x) \<or> (\<exists>p \<in> set impossible. pmatch p (abs_val x))) \<and>
    (\<forall>i. 0 < i \<longrightarrow> i < length arms \<longrightarrow> open_args sc nc sig (arms ! i) \<longrightarrow>
            (\<exists>x. rval_ok sig x \<and> val_ty sg (abs_val x) t \<and> hmatch sc nc (arms ! i) x \<and>
                 (\<forall>j < i. \<not> hmatch sc nc (arms ! j) x)))"
proof (intro conjI allI impI)
  have ty: "\<forall>p \<in> set arms. pat_ty sg (hpat_to_apat p) t" using assms(5) by blast
  fix x
  assume x: "rval_ok sig x" "val_ty sg (abs_val x) t"
  then have "val_ty sg (abs_with (\<lambda>_. fresh) x) t" by (simp add: abs_with_ty[of _ "\<lambda>_. fresh"])
  from accepted_covers[OF assms(1,2) ty assms(6) this]
  show "(\<exists>p \<in> set arms. hmatch sc nc p x) \<or> (\<exists>p \<in> set impossible. pmatch p (abs_val x))"
    using fresh_hmatch[OF _ _ x(1)] fresh_pmatch[OF _ x(1)] assms(5,9) by blast
next
  have ty: "\<forall>p \<in> set arms. pat_ty sg (hpat_to_apat p) t" using assms(5) by blast
  fix i
  assume i: "0 < i" "i < length arms" "open_args sc nc sig (arms ! i)"
  obtain a where a: "val_ty sg a t" "pmatch (hpat_to_apat (arms ! i)) a"
    "\<forall>j < i. \<not> pmatch (hpat_to_apat (arms ! j)) a"
    using accepted_reaches[OF assms(1-4) ty i(1,2)] by blast
  obtain x where x: "rval_ok sig x" "abs_val x = a" using concrete_value[OF assms(8)] by blast
  have "hmatch sc nc (arms ! i) x" using abs_hmatch[OF i(3) assms(7) x(1)] a(2) x(2) by simp
  moreover have "\<not> hmatch sc nc (arms ! j) x" if "j < i" for j
  proof -
    have "formed sc (arms ! j)" using assms(5) that i(2) by simp
    then show ?thesis using hmatch_abs[OF _ assms(7)] a(3) x(2) that by blast
  qed
  ultimately show "\<exists>x. rval_ok sig x \<and> val_ty sg (abs_val x) t \<and> hmatch sc nc (arms ! i) x \<and>
      (\<forall>j < i. \<not> hmatch sc nc (arms ! j) x)" using x a(1) by blast
qed

theorem analyze_arms_accepts_witness:
  "(hmatch 1 2 (PCtor 1 [PBool True]) (RInst 1 [RBool False]) \<or> hmatch 1 2 (PCtor 2 []) (RInst 1 [RBool False]) \<or>
    hmatch 1 2 (PCtor 1 [PBind 0]) (RInst 1 [RBool False])) \<and>
   (\<exists>x. val_ty ex_sig (abs_val x) 1 \<and> hmatch 1 2 (PCtor 1 [PBind 0]) x \<and> \<not> hmatch 1 2 (PCtor 1 [PBool True]) x)"
proof -
  let ?arms = "[PCtor 1 [PBool True], PCtor 2 [], PCtor 1 [PBind 0]]"
  have run: "analyze_arms ex_meta ?arms [] = Inr ()"
    by (simp add: analyze_arms_def PATTERN_BUDGET_def ex_simps)
  have arms: "\<forall>p \<in> set ?arms. formed 1 p \<and> pat_ty ex_sig (hpat_to_apat p) 1"
    by (auto simp: ex_simps intro!: formed.intros)
  have reach: "open_args 1 2 (\<lambda>_ _. True) (?arms ! 2)" by (auto intro!: open_args.intros)
  have "length ?arms \<le> 2 ^ 20" "\<forall>p \<in> set []. pat_ty ex_sig p 1" "(1 :: u32) \<noteq> 2" "\<forall>op. \<exists>args. (\<lambda>_ _. True) op args"
    "\<forall>p \<in> hpat_to_apat ` set ?arms \<union> set []. \<not> names_op 0 p" by simp_all
  note accepted = analyze_arms_accepts[OF run ex_meta_ok ex_sig_inhabited this(1) arms this(2-5)]
  obtain x where x: "val_ty ex_sig (abs_val x) 1" "hmatch 1 2 (?arms ! 2) x" "\<forall>j < 2. \<not> hmatch 1 2 (?arms ! j) x"
    using conjunct2[OF accepted, rule_format, of 2] reach by auto
  have "\<not> hmatch 1 2 (?arms ! 0) x" using x(3)[rule_format, of 0] by simp
  moreover have "\<exists>p \<in> set ?arms. hmatch 1 2 p (RInst 1 [RBool False])"
    using conjunct1[OF accepted, rule_format, of "RInst 1 [RBool False]"] by (auto simp: ex_simps)
  ultimately show ?thesis using x(1,2) by (auto simp del: hmatch.simps)
qed

section \<open>Two request arms for one operation\<close>

lemma arms_loop_append:
  "arms_loop meta before (xs @ ys) b =
     (case arms_loop meta before xs b of Inl e \<Rightarrow> Inl e | Inr b' \<Rightarrow> arms_loop meta (before @ xs) ys b')"
proof (induction meta before xs b rule: arms_loop.induct)
  case (2 meta before row rows b)
  then show ?case by (cases "before = []") (auto split: prod.splits sum.splits)
qed simp

lemma specialize_calls:
  assumes "\<forall>row \<in> set matrix. \<exists>p. row = [p]"
  shows "\<exists>spec. specialize_matrix matrix (HCall op) 0 = Inr spec \<and> ([ACall op] \<in> set matrix \<longrightarrow> spec \<noteq> [])"
  using assms
proof (induction matrix)
  case (Cons row rows)
  then obtain p spec where "row = [p]" "specialize_matrix rows (HCall op) 0 = Inr spec" "[ACall op] \<in> set rows \<longrightarrow> spec \<noteq> []"
    by auto
  then show ?case by (auto simp: specialize_row_def expand_head_def split: option.splits)
qed simp

lemma useful_repeated_call:
  assumes "\<forall>row \<in> set matrix. \<exists>p. row = [p]" and "[ACall op] \<in> set matrix"
  shows "fst (useful meta matrix [ACall op] b) \<noteq> Inr True"
    and "1 < b \<Longrightarrow> fst (useful meta matrix [ACall op] b) = Inr False"
proof -
  obtain spec where spec: "specialize_matrix matrix (HCall op) 0 = Inr spec" "spec \<noteq> []"
    using specialize_calls[OF assms(1), of op] assms(2) by blast
  have step: "useful meta matrix [ACall op] b = useful meta spec [] (b - 1)" if "0 < b" for b
    using useful_head[of b "ACall op" "HCall op" matrix spec meta "[]"] spec(1) that by simp
  show "1 < b \<Longrightarrow> fst (useful meta matrix [ACall op] b) = Inr False" using step[of b] spec(2) by simp
  show "fst (useful meta matrix [ACall op] b) \<noteq> Inr True"
    using step[of b] spec(2) by (cases "b = 0"; cases "b = 1") auto
qed

text \<open>
  C39: two request arms of one operation cannot stand in one \<open>case\<close>, wherever they stand and
  whatever their argument patterns are: the case is never accepted, and when the arms
  before the second one pass with budget to spare, the second one is reported
  unreachable. Yet it need not be: with the argument patterns \<open>true\<close> and \<open>false\<close> it
  matches a request that the first one rejects.
\<close>

theorem request_arms_collide:
  assumes "first = call_pattern sc op c1 a1" and "second = call_pattern sc op c2 a2"
  shows "(\<exists>d. analyze_arms meta (pre @ first # mid @ second # post) impossible = Inl d) \<and>
    (\<forall>b. 1 < b \<longrightarrow> arms_loop meta [] (map (\<lambda>p. [hpat_to_apat p]) (pre @ first # mid)) PATTERN_BUDGET = Inr b \<longrightarrow>
       analyze_arms meta (pre @ first # mid @ second # post) impossible = Inl (UnreachableArm (length (pre @ first # mid)))) \<and>
    (sc \<noteq> nc \<longrightarrow> hmatch sc nc (call_pattern sc op PWildcard (PTuple [PBool False])) (RRequest op [RBool False]) \<and>
       \<not> hmatch sc nc (call_pattern sc op PWildcard (PTuple [PBool True])) (RRequest op [RBool False]))"
proof -
  let ?row = "\<lambda>p. [hpat_to_apat p]"
  define before where "before = map ?row (pre @ first # mid)"
  have one: "\<forall>row \<in> set before. \<exists>p. row = [p]" and mem: "[ACall op] \<in> set before" and ne: "before \<noteq> []"
    and len: "length before = length (pre @ first # mid)"
    by (auto simp: before_def assms(1))
  note repeated = useful_repeated_call[OF one mem, where meta = meta]
  have rows: "map ?row (pre @ first # mid @ second # post) = before @ [ACall op] # map ?row post"
    by (simp add: before_def assms(2))
  have loop: "arms_loop meta [] (map ?row (pre @ first # mid @ second # post)) PATTERN_BUDGET =
      (case arms_loop meta [] before PATTERN_BUDGET of Inl e \<Rightarrow> Inl e
       | Inr b \<Rightarrow> arms_loop meta before ([ACall op] # map ?row post) b)"
    unfolding rows arms_loop_append append_Nil ..
  have stop: "\<exists>d. arms_loop meta before ([ACall op] # rows) b = Inl d" for rows b
    using repeated(1)[of b] ne by (auto split: prod.splits sum.splits)
  have "\<exists>d. arms_loop meta [] (map ?row (pre @ first # mid @ second # post)) PATTERN_BUDGET = Inl d"
    unfolding loop using stop by (auto split: sum.splits simp del: arms_loop.simps)
  then have "\<exists>d. analyze_arms meta (pre @ first # mid @ second # post) impossible = Inl d"
    unfolding analyze_arms_def Let_def by (metis sum.simps(5))
  moreover have "analyze_arms meta (pre @ first # mid @ second # post) impossible = Inl (UnreachableArm (length (pre @ first # mid)))"
    if b: "1 < b" "arms_loop meta [] before PATTERN_BUDGET = Inr b" for b
  proof -
    have "arms_loop meta before ([ACall op] # map ?row post) b = Inl (UnreachableArm (length before))"
      using repeated(2)[OF b(1)] ne by (auto split: prod.splits)
    then show ?thesis unfolding analyze_arms_def Let_def loop b(2) len by simp
  qed
  ultimately show ?thesis unfolding before_def by auto
qed

theorem request_arms_collide_witness:
  "analyze_arms ex_meta [call_pattern 1 7 PWildcard (PTuple [PBool True]), call_pattern 1 7 PWildcard (PTuple [PBool False]), PWildcard] [] =
     Inl (UnreachableArm 1)"
  using request_arms_collide[OF refl refl, of ex_meta "[]" 1 7 PWildcard "PTuple [PBool True]" "[]" PWildcard "PTuple [PBool False]" "[PWildcard]" "[]" 2]
  by (auto simp: PATTERN_BUDGET_def)

end
