(* ===== verification/Fault.thy ===== *)
theory Fault
  imports Loom_Prelude
begin

text \<open>
  The stable machine-fault codes of \<open>crates/lm-abi/src/fault.rs\<close>: the code set,
  the table in declaration order, the printed names and the lookup by name.
\<close>

datatype FaultCode =
    IntegerOverflow
  | DivideByZero
  | ShiftOutOfRange
  | OutOfFuel
  | StackLimit
  | HeapLimit
  | FrozenWrite
  | IndexOutOfBounds
  | LengthMismatch
  | InvalidPrecision
  | MissingKey
  | MutableMapKey
  | CollectionModified
  | CollectionEpochExhausted
  | BadCast
  | PolicyDenied
  | InvalidVmState
  | InvalidRequestToken
  | UnsendableValue
  | BoundaryLimit
  | BoundaryViolation
  | HostFault
  | UserPanic
  | AssertionFailed
  | DeadProc
  | UninitializedField
  | UnreachableCode
  | TypeMismatch
  | MalformedState

definition FAULT_CODES :: "FaultCode list" where
  "FAULT_CODES =
    [IntegerOverflow, DivideByZero, ShiftOutOfRange, OutOfFuel, StackLimit, HeapLimit,
     FrozenWrite, IndexOutOfBounds, LengthMismatch, InvalidPrecision, MissingKey,
     MutableMapKey, CollectionModified, CollectionEpochExhausted, BadCast, PolicyDenied,
     InvalidVmState, InvalidRequestToken, UnsendableValue, BoundaryLimit,
     BoundaryViolation, HostFault, UserPanic, AssertionFailed, DeadProc,
     UninitializedField, UnreachableCode, TypeMismatch, MalformedState]"

fun fault_name :: "FaultCode \<Rightarrow> string" where
  "fault_name IntegerOverflow = ''IntegerOverflow''"
| "fault_name DivideByZero = ''DivideByZero''"
| "fault_name ShiftOutOfRange = ''ShiftOutOfRange''"
| "fault_name OutOfFuel = ''OutOfFuel''"
| "fault_name StackLimit = ''StackLimit''"
| "fault_name HeapLimit = ''HeapLimit''"
| "fault_name FrozenWrite = ''FrozenWrite''"
| "fault_name IndexOutOfBounds = ''IndexOutOfBounds''"
| "fault_name LengthMismatch = ''LengthMismatch''"
| "fault_name InvalidPrecision = ''InvalidPrecision''"
| "fault_name MissingKey = ''MissingKey''"
| "fault_name MutableMapKey = ''MutableMapKey''"
| "fault_name CollectionModified = ''CollectionModified''"
| "fault_name CollectionEpochExhausted = ''CollectionEpochExhausted''"
| "fault_name BadCast = ''BadCast''"
| "fault_name PolicyDenied = ''PolicyDenied''"
| "fault_name InvalidVmState = ''InvalidVmState''"
| "fault_name InvalidRequestToken = ''InvalidRequestToken''"
| "fault_name UnsendableValue = ''UnsendableValue''"
| "fault_name BoundaryLimit = ''BoundaryLimit''"
| "fault_name BoundaryViolation = ''BoundaryViolation''"
| "fault_name HostFault = ''HostFault''"
| "fault_name UserPanic = ''UserPanic''"
| "fault_name AssertionFailed = ''AssertionFailed''"
| "fault_name DeadProc = ''DeadProc''"
| "fault_name UninitializedField = ''UninitializedField''"
| "fault_name UnreachableCode = ''UnreachableCode''"
| "fault_name TypeMismatch = ''TypeMismatch''"
| "fault_name MalformedState = ''MalformedState''"

text \<open>\<open>Iterator::find\<close> over the table.\<close>

definition from_name :: "string \<Rightarrow> FaultCode option" where
  "from_name name = find (\<lambda>code. fault_name code = name) FAULT_CODES"

datatype SnapshotClass = MachineState | HostAttachment

fun snapshot_class_tag :: "SnapshotClass \<Rightarrow> string" where
  "snapshot_class_tag MachineState = ''machine-state''"
| "snapshot_class_tag HostAttachment = ''host-attachment''"

lemma fault_codes_complete: "set FAULT_CODES = UNIV"
proof -
  have "c \<in> set FAULT_CODES" for c
    by (cases c) (simp_all add: FAULT_CODES_def)
  then show ?thesis by blast
qed

lemma fault_names_distinct: "distinct (map fault_name FAULT_CODES)"
  by (simp add: FAULT_CODES_def)

lemma inj_fault_name: "inj fault_name"
  using fault_names_distinct fault_codes_complete by (simp add: distinct_map)

lemma find_key:
  assumes "inj f"
  shows "find (\<lambda>c. f c = n) cs = Some c \<longleftrightarrow> c \<in> set cs \<and> f c = n"
  using assms by (induction cs) (auto dest: injD)

text \<open>
  Every fault code is read back from its printed name, and a name that is
  read is the name of the code it gives, so a stored fault name is never lost or
  confused.
\<close>

theorem from_name_roundtrip:
  "from_name n = Some c \<longleftrightarrow> fault_name c = n"
  by (simp add: from_name_def find_key [OF inj_fault_name] fault_codes_complete)

end
