(* ===== verification/Schedule.thy ===== *)
theory Schedule
  imports Fault "HOL-Library.Product_Lexorder"
begin

text \<open>
  The plain scheduler records of \<open>crates/lm-vm/src/schedule.rs\<close>: task, wake,
  completion and wait keys with their derived order, the batched schedule events
  with their coalescing marks, and the dense set of active procs.

  The events are proved to be sets that drain in ascending key order and leave
  every mark clear; the active procs are proved to implement the generation map
  interface (locale \<open>gen_map\<close>) that the task index of the scheduler implements
  too.
\<close>

section \<open>Keys\<close>

datatype TaskKey = TaskKey (vm: u32) (generation: u32)

datatype WakeKey =
    Receive TaskKey
  | Send TaskKey
  | Done TaskKey
  | Asked TaskKey
  | Snapshot TaskKey

datatype CompletionKey = CompletionKey (machine: TaskKey) (ordinal: u64)

datatype WaitSetKey = WaitSetKey (owner: TaskKey) (token: u64)

datatype WaitSourceKey = WakeSource WakeKey | CompletionSource CompletionKey

datatype SliceExit =
    ExitYielded
  | ExitBlocked WakeKey
  | ExitWaiting CompletionKey
  | ExitParked WaitSetKey
  | ExitTerminal

datatype TaskStatus =
    Ready
  | StatusBlocked WakeKey
  | StatusWaiting CompletionKey
  | StatusParked WaitSetKey
  | Terminal
  | Dormant

text \<open>The task and the lane of a wake key: \<open>wake_parts\<close>.\<close>

fun wake_parts :: "WakeKey \<Rightarrow> TaskKey \<times> nat" where
  "wake_parts (Receive key) = (key, 0)"
| "wake_parts (Send key) = (key, 1)"
| "wake_parts (Done key) = (key, 2)"
| "wake_parts (Asked key) = (key, 3)"
| "wake_parts (Snapshot key) = (key, 4)"

text \<open>
  The derived \<open>Ord\<close> instances compare the fields, and first the variant, in
  declaration order.
\<close>

instantiation TaskKey :: linorder
begin

definition less_eq_TaskKey :: "TaskKey \<Rightarrow> TaskKey \<Rightarrow> bool" where
  "less_eq_TaskKey a b \<longleftrightarrow> (vm a, generation a) \<le> (vm b, generation b)"

definition less_TaskKey :: "TaskKey \<Rightarrow> TaskKey \<Rightarrow> bool" where
  "less_TaskKey a b \<longleftrightarrow> (vm a, generation a) < (vm b, generation b)"

instance
  by standard (auto simp: less_eq_TaskKey_def less_TaskKey_def TaskKey.expand)

end

instantiation WakeKey :: linorder
begin

definition less_eq_WakeKey :: "WakeKey \<Rightarrow> WakeKey \<Rightarrow> bool" where
  "less_eq_WakeKey a b \<longleftrightarrow>
     (snd (wake_parts a), fst (wake_parts a)) \<le> (snd (wake_parts b), fst (wake_parts b))"

definition less_WakeKey :: "WakeKey \<Rightarrow> WakeKey \<Rightarrow> bool" where
  "less_WakeKey a b \<longleftrightarrow>
     (snd (wake_parts a), fst (wake_parts a)) < (snd (wake_parts b), fst (wake_parts b))"

instance
proof
  fix a b :: WakeKey
  show "a \<le> b \<Longrightarrow> b \<le> a \<Longrightarrow> a = b"
    by (cases a; cases b) (auto simp: less_eq_WakeKey_def)
qed (auto simp: less_eq_WakeKey_def less_WakeKey_def)

end

instantiation CompletionKey :: linorder
begin

definition less_eq_CompletionKey :: "CompletionKey \<Rightarrow> CompletionKey \<Rightarrow> bool" where
  "less_eq_CompletionKey a b \<longleftrightarrow> (machine a, ordinal a) \<le> (machine b, ordinal b)"

definition less_CompletionKey :: "CompletionKey \<Rightarrow> CompletionKey \<Rightarrow> bool" where
  "less_CompletionKey a b \<longleftrightarrow> (machine a, ordinal a) < (machine b, ordinal b)"

instance
  by standard (auto simp: less_eq_CompletionKey_def less_CompletionKey_def CompletionKey.expand)

end

section \<open>Batched events\<close>

record ScheduleEvents =
  ready :: "TaskKey list"
  removed :: "TaskKey list"
  wakes :: "WakeKey list"
  ready_marks :: "u64 list"
  removed_marks :: "u64 list"
  wake_marks :: "u64 list list"

definition events_default :: ScheduleEvents where
  "events_default =
     \<lparr>ready = [], removed = [], wakes = [], ready_marks = [], removed_marks = [], wake_marks = []\<rparr>"

definition events_is_empty :: "ScheduleEvents \<Rightarrow> bool" where
  "events_is_empty e = (ready e = [] \<and> removed e = [] \<and> wakes e = [])"

definition slot_of :: "TaskKey \<Rightarrow> nat" where
  "slot_of key = unat (vm key)"

definition mark_of :: "TaskKey \<Rightarrow> u64" where
  "mark_of key = ucast (generation key) + 1"

definition push_task :: "TaskKey list \<Rightarrow> u64 list \<Rightarrow> TaskKey \<Rightarrow> TaskKey list \<times> u64 list" where
  "push_task values marks key =
     (let slot = slot_of key; marks = grow marks (slot + 1) 0; mark = mark_of key
      in if marks ! slot = mark then (values, marks)
         else (values @ [key], marks[slot := mark]))"

definition push_ready :: "ScheduleEvents \<Rightarrow> TaskKey \<Rightarrow> ScheduleEvents" where
  "push_ready e key =
     (let (values, marks) = push_task (ready e) (ready_marks e) key
      in e\<lparr>ready := values, ready_marks := marks\<rparr>)"

definition push_removed :: "ScheduleEvents \<Rightarrow> TaskKey \<Rightarrow> ScheduleEvents" where
  "push_removed e key =
     (let (values, marks) = push_task (removed e) (removed_marks e) key
      in e\<lparr>removed := values, removed_marks := marks\<rparr>)"

definition push_wake :: "ScheduleEvents \<Rightarrow> WakeKey \<Rightarrow> ScheduleEvents" where
  "push_wake e wake =
     (let (key, lane) = wake_parts wake; slot = slot_of key;
          marks = grow (wake_marks e) (slot + 1) [0, 0, 0, 0, 0]; mark = mark_of key
      in if marks ! slot ! lane = mark then e\<lparr>wake_marks := marks\<rparr>
         else e\<lparr>wake_marks := marks[slot := (marks ! slot)[lane := mark]], wakes := wakes e @ [wake]\<rparr>)"

text \<open>
  \<open>clear_task_mark\<close> indexes the marks; a key whose slot was never marked is the
  index panic (\<^const>\<open>None\<close>). The wake marks are read with \<open>get_mut\<close> instead.
\<close>

definition clear_task_mark :: "u64 list \<Rightarrow> TaskKey \<Rightarrow> u64 list option" where
  "clear_task_mark marks key =
     (if slot_of key < length marks
      then Some (if marks ! slot_of key = mark_of key then marks[slot_of key := 0] else marks)
      else None)"

fun clear_task_marks :: "u64 list \<Rightarrow> TaskKey list \<Rightarrow> u64 list option" where
  "clear_task_marks marks [] = Some marks"
| "clear_task_marks marks (key # keys) =
     (case clear_task_mark marks key of None \<Rightarrow> None | Some marks' \<Rightarrow> clear_task_marks marks' keys)"

definition clear_wake_mark :: "u64 list list \<Rightarrow> WakeKey \<Rightarrow> u64 list list" where
  "clear_wake_mark marks wake =
     (let (key, lane) = wake_parts wake
      in case get_opt marks (slot_of key) of
           None \<Rightarrow> marks
         | Some lanes \<Rightarrow>
             if lanes ! lane = mark_of key then marks[slot_of key := lanes[lane := 0]] else marks)"

definition release_marks :: "ScheduleEvents \<Rightarrow> ScheduleEvents option" where
  "release_marks e =
     (case clear_task_marks (ready_marks e) (ready e) of
        None \<Rightarrow> None
      | Some rm \<Rightarrow>
          (case clear_task_marks (removed_marks e) (removed e) of
             None \<Rightarrow> None
           | Some xm \<Rightarrow>
               Some (e\<lparr>ready_marks := rm, removed_marks := xm,
                       wake_marks := foldl clear_wake_mark (wake_marks e) (wakes e)\<rparr>)))"

text \<open>\<open>order_for_pop\<close>: sort descending, then \<open>dedup\<close>.\<close>

definition order_for_pop :: "'a::linorder list \<Rightarrow> 'a list" where
  "order_for_pop values = remdups_adj (rev (sort values))"

definition prepare_drain :: "ScheduleEvents \<Rightarrow> ScheduleEvents option" where
  "prepare_drain e =
     map_option (\<lambda>e. e\<lparr>removed := order_for_pop (removed e), wakes := order_for_pop (wakes e),
                      ready := order_for_pop (ready e)\<rparr>) (release_marks e)"

text \<open>\<open>Vec::pop\<close> takes the last element.\<close>

definition pop_last :: "'a list \<Rightarrow> ('a \<times> 'a list) option" where
  "pop_last xs = (if xs = [] then None else Some (last xs, butlast xs))"

definition pop_ready :: "ScheduleEvents \<Rightarrow> (TaskKey \<times> ScheduleEvents) option" where
  "pop_ready e = map_option (\<lambda>(key, rest). (key, e\<lparr>ready := rest\<rparr>)) (pop_last (ready e))"

definition pop_removed :: "ScheduleEvents \<Rightarrow> (TaskKey \<times> ScheduleEvents) option" where
  "pop_removed e = map_option (\<lambda>(key, rest). (key, e\<lparr>removed := rest\<rparr>)) (pop_last (removed e))"

definition pop_wake :: "ScheduleEvents \<Rightarrow> (WakeKey \<times> ScheduleEvents) option" where
  "pop_wake e = map_option (\<lambda>(key, rest). (key, e\<lparr>wakes := rest\<rparr>)) (pop_last (wakes e))"

definition events_clear :: "ScheduleEvents \<Rightarrow> ScheduleEvents option" where
  "events_clear e =
     map_option (\<lambda>e. e\<lparr>ready := [], removed := [], wakes := []\<rparr>) (release_marks e)"

section \<open>Active procs\<close>

record ActiveProcs =
  entries :: "TaskKey list"
  positions :: "nat option list"

definition active_new :: "nat \<Rightarrow> ActiveProcs" where
  "active_new machine_slots = \<lparr>entries = [], positions = replicate machine_slots None\<rparr>"

text \<open>
  \<open>prepare_batch\<close> reserves storage. The allocator's answers to the two requests are
  the arguments \<open>positions_ok\<close> and \<open>entries_ok\<close>; the positions grow before the
  entries are reserved.
\<close>

definition prepare_batch ::
  "bool \<Rightarrow> bool \<Rightarrow> ActiveProcs \<Rightarrow> nat \<Rightarrow> ActiveProcs \<times> (FaultCode + unit)" where
  "prepare_batch positions_ok entries_ok a machine_slots =
     (if length (positions a) < machine_slots \<and> \<not> positions_ok then (a, Inl HostFault)
      else (a\<lparr>positions := grow (positions a) machine_slots None\<rparr>,
            if entries_ok then Inr () else Inl HostFault))"

definition active_prepare ::
  "bool \<Rightarrow> bool \<Rightarrow> ActiveProcs \<Rightarrow> u32 \<Rightarrow> ActiveProcs \<times> (FaultCode + unit)" where
  "active_prepare positions_ok entries_ok a v = prepare_batch positions_ok entries_ok a (unat v + 1)"

text \<open>
  Index panics are \<^const>\<open>None\<close>: an unprepared slot, or a position outside the
  entries.
\<close>

definition insert_prepared :: "ActiveProcs \<Rightarrow> TaskKey \<Rightarrow> ActiveProcs option" where
  "insert_prepared a key =
     (let slot = slot_of key
      in if length (positions a) \<le> slot then None
         else
           (case positions a ! slot of
              Some at \<Rightarrow>
                if at < length (entries a) then Some (a\<lparr>entries := (entries a)[at := key]\<rparr>)
                else None
            | None \<Rightarrow>
                Some (a\<lparr>positions := (positions a)[slot := Some (length (entries a))],
                        entries := entries a @ [key]\<rparr>)))"

text \<open>\<open>Vec::swap_remove\<close>: the last element takes the place of the removed one.\<close>

definition swap_remove :: "'a list \<Rightarrow> nat \<Rightarrow> 'a list" where
  "swap_remove xs at = butlast (xs[at := last xs])"

definition active_remove :: "ActiveProcs \<Rightarrow> TaskKey \<Rightarrow> (ActiveProcs \<times> bool) option" where
  "active_remove a key =
     (case get_opt (positions a) (slot_of key) of
        None \<Rightarrow> Some (a, False)
      | Some None \<Rightarrow> Some (a, False)
      | Some (Some at) \<Rightarrow>
          (case get_opt (entries a) at of
             None \<Rightarrow> None
           | Some entry \<Rightarrow>
               if entry \<noteq> key then Some (a, False)
               else
                 (let ps = (positions a)[slot_of key := None]; es = swap_remove (entries a) at
                  in case get_opt es at of
                       None \<Rightarrow> Some (a\<lparr>entries := es, positions := ps\<rparr>, True)
                     | Some moved \<Rightarrow>
                         if slot_of moved < length ps
                         then Some (a\<lparr>entries := es, positions := ps[slot_of moved := Some at]\<rparr>, True)
                         else None)))"

definition active_contains :: "ActiveProcs \<Rightarrow> TaskKey \<Rightarrow> bool option" where
  "active_contains a key =
     (case get_opt (positions a) (slot_of key) of
        Some (Some at) \<Rightarrow> map_option (\<lambda>entry. entry = key) (get_opt (entries a) at)
      | _ \<Rightarrow> Some False)"

text \<open>The consumer pops one lane of a prepared batch until it is empty.\<close>

function drain_ready :: "ScheduleEvents \<Rightarrow> TaskKey list" where
  "drain_ready e = (case pop_ready e of None \<Rightarrow> [] | Some (key, e') \<Rightarrow> key # drain_ready e')"
  by auto
termination
  by (relation "measure (\<lambda>e. length (ready e))") (auto simp: pop_ready_def pop_last_def split: if_splits)

function drain_removed :: "ScheduleEvents \<Rightarrow> TaskKey list" where
  "drain_removed e = (case pop_removed e of None \<Rightarrow> [] | Some (key, e') \<Rightarrow> key # drain_removed e')"
  by auto
termination
  by (relation "measure (\<lambda>e. length (removed e))") (auto simp: pop_removed_def pop_last_def split: if_splits)

function drain_wakes :: "ScheduleEvents \<Rightarrow> WakeKey list" where
  "drain_wakes e = (case pop_wake e of None \<Rightarrow> [] | Some (key, e') \<Rightarrow> key # drain_wakes e')"
  by auto
termination
  by (relation "measure (\<lambda>e. length (wakes e))") (auto simp: pop_wake_def pop_last_def split: if_splits)

declare drain_ready.simps [simp del] drain_removed.simps [simp del] drain_wakes.simps [simp del]

section \<open>Marks\<close>

lemma slot_of_eq_iff: "slot_of a = slot_of b \<longleftrightarrow> vm a = vm b"
  by (simp add: slot_of_def unsigned_word_eqI word_unat_eq_iff)

lemma mark_of_unat: "unat (mark_of k) = unat (generation k) + 1"
proof -
  have "unat (generation k) < 2 ^ 32" using unsigned_less [of "generation k"] by simp
  moreover from this have "unat (ucast (generation k) :: 64 word) = unat (generation k)"
    by (simp add: unsigned_ucast_eq take_bit_nat_eq_self)
  ultimately show ?thesis by (simp add: mark_of_def unat_word_ariths)
qed

lemma mark_of_nonzero [simp]: "mark_of k \<noteq> 0"
  using mark_of_unat [of k] by (metis add_is_0 unsigned_0 zero_neq_one)

lemma mark_of_eq_iff: "mark_of a = mark_of b \<longleftrightarrow> generation a = generation b"
  using mark_of_unat [of a] mark_of_unat [of b] by (metis add_right_cancel word_unat_eq_iff)

lemma key_by_mark: "slot_of a = slot_of b \<Longrightarrow> mark_of a = mark_of b \<Longrightarrow> a = b"
  by (simp add: slot_of_eq_iff mark_of_eq_iff TaskKey.expand)

text \<open>
  Every queued key has a mark slot, and a mark that is set names a queued key.
\<close>

definition marks_ok :: "TaskKey list \<Rightarrow> u64 list \<Rightarrow> bool" where
  "marks_ok vs ms \<longleftrightarrow>
     (\<forall>k \<in> set vs. slot_of k < length ms) \<and>
     (\<forall>i < length ms. ms ! i \<noteq> 0 \<longrightarrow> (\<exists>k \<in> set vs. slot_of k = i \<and> mark_of k = ms ! i))"

lemma marks_okI:
  assumes "\<And>k. k \<in> set vs \<Longrightarrow> slot_of k < length ms"
    and "\<And>i. i < length ms \<Longrightarrow> ms ! i \<noteq> 0 \<Longrightarrow> \<exists>k \<in> set vs. slot_of k = i \<and> mark_of k = ms ! i"
  shows "marks_ok vs ms"
  using assms by (simp add: marks_ok_def)

lemma marks_ok_slot: "marks_ok vs ms \<Longrightarrow> k \<in> set vs \<Longrightarrow> slot_of k < length ms"
  by (simp add: marks_ok_def)

lemma marks_ok_mark:
  "marks_ok vs ms \<Longrightarrow> i < length ms \<Longrightarrow> ms ! i \<noteq> 0 \<Longrightarrow> \<exists>k \<in> set vs. slot_of k = i \<and> mark_of k = ms ! i"
  by (simp add: marks_ok_def)

lemma marks_ok_grow:
  assumes "marks_ok vs ms"
  shows "marks_ok vs (grow ms n 0)"
proof (rule marks_okI)
  fix k
  assume "k \<in> set vs"
  from marks_ok_slot [OF assms this] show "slot_of k < length (grow ms n 0)"
    by (simp add: length_grow)
next
  fix i
  assume i: "i < length (grow ms n 0)" "grow ms n 0 ! i \<noteq> 0"
  then have "i < length ms" and eq: "ms ! i = grow ms n 0 ! i"
    by (auto simp: length_grow nth_grow split: if_splits)
  from marks_ok_mark [OF assms this(1)] i(2)
  show "\<exists>k \<in> set vs. slot_of k = i \<and> mark_of k = grow ms n 0 ! i"
    by (simp add: eq)
qed

lemma marks_ok_push:
  assumes "marks_ok vs ms" and "slot_of k < length ms"
  shows "marks_ok (vs @ [k]) (ms[slot_of k := mark_of k])"
proof (rule marks_okI)
  fix i
  assume i: "i < length (ms[slot_of k := mark_of k])" "ms[slot_of k := mark_of k] ! i \<noteq> 0"
  show "\<exists>k' \<in> set (vs @ [k]). slot_of k' = i \<and> mark_of k' = ms[slot_of k := mark_of k] ! i"
    using i marks_ok_mark [OF assms(1), of i] assms(2) by (cases "i = slot_of k") auto
qed (use marks_ok_slot [OF assms(1)] assms(2) in auto)

lemma push_task_ok:
  assumes "marks_ok vs ms" and "push_task vs ms k = (vs', ms')"
  shows "marks_ok vs' ms'" and "set vs' = insert k (set vs)"
proof -
  define g where "g = grow ms (slot_of k + 1) 0"
  have len: "slot_of k < length g" and le: "length ms \<le> length g"
    by (auto simp: g_def vec_simps)
  have g: "marks_ok vs g"
    unfolding g_def by (rule marks_ok_grow [OF assms(1)])
  have eq: "(vs', ms') = (if g ! slot_of k = mark_of k then (vs, g) else (vs @ [k], g[slot_of k := mark_of k]))"
    using assms(2) by (simp only: push_task_def g_def Let_def)
  show "marks_ok vs' ms'"
    using eq g marks_ok_push [OF g len] by (auto split: if_splits)
  show "set vs' = insert k (set vs)"
  proof (cases "g ! slot_of k = mark_of k")
    case True
    then obtain k' where "k' \<in> set vs" "slot_of k' = slot_of k" "mark_of k' = mark_of k"
      using marks_ok_mark [OF g len] by auto
    then have "k \<in> set vs" using key_by_mark by blast
    then show ?thesis using eq True by auto
  qed (use eq in auto)
qed

lemma clear_task_marks_spec:
  assumes "\<forall>k \<in> set ks. slot_of k < length ms"
  shows "\<exists>ms'. clear_task_marks ms ks = Some ms' \<and> length ms' = length ms \<and>
    (\<forall>i < length ms. ms' ! i = (if \<exists>k \<in> set ks. slot_of k = i \<and> mark_of k = ms ! i then 0 else ms ! i))"
  using assms
proof (induction ks arbitrary: ms)
  case (Cons k ks)
  define m where "m = (if ms ! slot_of k = mark_of k then ms[slot_of k := 0] else ms)"
  have len: "length m = length ms" by (simp add: m_def)
  have step: "clear_task_marks ms (k # ks) = clear_task_marks m ks"
    using Cons.prems by (simp add: clear_task_mark_def m_def)
  have mi: "i < length ms \<Longrightarrow> m ! i = (if slot_of k = i \<and> mark_of k = ms ! i then 0 else ms ! i)" for i
    by (cases "i = slot_of k") (auto simp: m_def)
  have "\<forall>k \<in> set ks. slot_of k < length m" using Cons.prems len by simp
  from Cons.IH [OF this] obtain ms' where ms': "clear_task_marks m ks = Some ms'" "length ms' = length ms"
    "\<And>i. i < length ms \<Longrightarrow>
      ms' ! i = (if \<exists>k \<in> set ks. slot_of k = i \<and> mark_of k = m ! i then 0 else m ! i)"
    using len by auto
  have "ms' ! i = (if \<exists>k \<in> set (k # ks). slot_of k = i \<and> mark_of k = ms ! i then 0 else ms ! i)"
    if "i < length ms" for i
    using ms'(3) [OF that] mi [OF that] by auto
  then show ?case using step ms' by auto
qed simp

lemma clear_task_marks_all:
  assumes "marks_ok ks ms"
  shows "clear_task_marks ms ks = Some (replicate (length ms) 0)"
proof -
  obtain ms' where ms': "clear_task_marks ms ks = Some ms'" "length ms' = length ms"
    "\<forall>i < length ms. ms' ! i = (if \<exists>k \<in> set ks. slot_of k = i \<and> mark_of k = ms ! i then 0 else ms ! i)"
    using clear_task_marks_spec assms unfolding marks_ok_def by blast
  have "ms' = replicate (length ms) 0"
    by (rule nth_equalityI) (use ms' assms in \<open>auto simp: marks_ok_def\<close>)
  then show ?thesis using ms'(1) by simp
qed

lemma marks_ok_zero [simp]: "marks_ok [] (replicate n 0)"
  by (simp add: marks_ok_def)

subsection \<open>Wake marks, lane by lane\<close>

definition column :: "nat \<Rightarrow> u64 list list \<Rightarrow> u64 list" where
  "column j ms = map (\<lambda>l. l ! j) ms"

definition lane_keys :: "nat \<Rightarrow> WakeKey list \<Rightarrow> TaskKey list" where
  "lane_keys j ws = map (fst \<circ> wake_parts) (filter (\<lambda>w. snd (wake_parts w) = j) ws)"

definition wake_marks_ok :: "WakeKey list \<Rightarrow> u64 list list \<Rightarrow> bool" where
  "wake_marks_ok ws ms \<longleftrightarrow>
     (\<forall>l \<in> set ms. length l = 5) \<and> (\<forall>j < 5. marks_ok (lane_keys j ws) (column j ms))"

lemma wake_lane: "snd (wake_parts w) < 5"
  by (cases w) auto

lemma wake_parts_inj: "wake_parts w = wake_parts w' \<Longrightarrow> w = w'"
  by (cases w; cases w') auto

lemma length_column [simp]: "length (column j ms) = length ms"
  by (simp add: column_def)

lemma nth_column: "s < length ms \<Longrightarrow> column j ms ! s = ms ! s ! j"
  by (simp add: column_def)

lemma column_grow: "j < 5 \<Longrightarrow> column j (grow ms n [0, 0, 0, 0, 0]) = grow (column j ms) n 0"
  by (auto simp: column_def grow_def less_Suc_eq numeral_eq_Suc)

lemma column_update:
  assumes "s < length ms" "length (ms ! s) = 5" "l < 5"
  shows "column j (ms[s := (ms ! s)[l := x]]) = (if j = l then (column j ms)[s := x] else column j ms)"
  using assms by (auto simp: column_def map_update list_update_same_conv)

lemma lane_keys_snoc:
  "lane_keys j (ws @ [w]) = (if snd (wake_parts w) = j then lane_keys j ws @ [fst (wake_parts w)] else lane_keys j ws)"
  by (simp add: lane_keys_def)

lemma mem_lane_keys: "w \<in> set ws \<longleftrightarrow> fst (wake_parts w) \<in> set (lane_keys (snd (wake_parts w)) ws)"
  by (auto simp: lane_keys_def image_iff dest: wake_parts_inj prod_eqI intro: bexI [of _ w])

lemma wake_marks_ok_grow:
  assumes "wake_marks_ok ws ms"
  shows "wake_marks_ok ws (grow ms n [0, 0, 0, 0, 0])"
  using assms set_grow [of ms n "[0, 0, 0, 0, 0]"]
  by (auto simp: wake_marks_ok_def column_grow marks_ok_grow)

lemma wake_marks_ok_push:
  assumes ok: "wake_marks_ok ws ms" and w: "wake_parts w = (k, l)" and s: "slot_of k < length ms"
  shows "wake_marks_ok (ws @ [w]) (ms[slot_of k := (ms ! slot_of k)[l := mark_of k]])"
proof -
  have len: "length (ms ! slot_of k) = 5" using ok s by (simp add: wake_marks_ok_def)
  have l: "l < 5" using wake_lane [of w] w by simp
  have "marks_ok (lane_keys j (ws @ [w])) (column j (ms[slot_of k := (ms ! slot_of k)[l := mark_of k]]))"
    if "j < 5" for j
    using ok that w s marks_ok_push [of "lane_keys j ws" "column j ms" k]
    by (auto simp: wake_marks_ok_def column_update [OF s len l] lane_keys_snoc)
  then show ?thesis
    using ok len s by (auto simp: wake_marks_ok_def dest!: subsetD [OF set_update_subset_insert])
qed

lemma push_wake_ok:
  assumes ok: "wake_marks_ok (wakes e) (wake_marks e)"
  shows "wake_marks_ok (wakes (push_wake e w)) (wake_marks (push_wake e w))"
    and "set (wakes (push_wake e w)) = insert w (set (wakes e))"
proof -
  obtain k l where w: "wake_parts w = (k, l)" by fastforce
  define g where "g = grow (wake_marks e) (slot_of k + 1) [0, 0, 0, 0, 0]"
  have s: "slot_of k < length g" by (simp add: g_def length_grow)
  have g: "wake_marks_ok (wakes e) g" unfolding g_def by (rule wake_marks_ok_grow [OF ok])
  have l: "l < 5" using wake_lane [of w] w by simp
  have eq: "push_wake e w = (if g ! slot_of k ! l = mark_of k then e\<lparr>wake_marks := g\<rparr>
      else e\<lparr>wake_marks := g[slot_of k := (g ! slot_of k)[l := mark_of k]], wakes := wakes e @ [w]\<rparr>)"
    by (simp only: push_wake_def w g_def Let_def prod.case)
  show "wake_marks_ok (wakes (push_wake e w)) (wake_marks (push_wake e w))"
    using g wake_marks_ok_push [OF g w s] by (simp add: eq)
  show "set (wakes (push_wake e w)) = insert w (set (wakes e))"
  proof (cases "g ! slot_of k ! l = mark_of k")
    case True
    then have "column l g ! slot_of k = mark_of k" using s by (simp add: column_def)
    then obtain k' where "k' \<in> set (lane_keys l (wakes e))" "slot_of k' = slot_of k" "mark_of k' = mark_of k"
      using marks_ok_mark [of "lane_keys l (wakes e)" "column l g" "slot_of k"] g l s
      by (auto simp: wake_marks_ok_def)
    then have "w \<in> set (wakes e)" using key_by_mark mem_lane_keys [of w] w by auto
    then show ?thesis using True by (auto simp: eq)
  qed (simp add: eq)
qed

lemma clear_wake_mark_column:
  assumes w: "wake_parts w = (k, l)" and s: "slot_of k < length ms" and len: "\<forall>x \<in> set ms. length x = 5"
  shows "Some (column j (clear_wake_mark ms w)) =
    (if j = l then clear_task_mark (column j ms) k else Some (column j ms))"
    and "\<forall>x \<in> set (clear_wake_mark ms w). length x = 5"
    and "length (clear_wake_mark ms w) = length ms"
proof -
  have l: "l < 5" using wake_lane [of w] w by simp
  have ls: "length (ms ! slot_of k) = 5" using len s by simp
  have eq: "clear_wake_mark ms w =
      (if ms ! slot_of k ! l = mark_of k then ms[slot_of k := (ms ! slot_of k)[l := 0]] else ms)"
    using s by (simp add: clear_wake_mark_def w get_opt_def)
  show "Some (column j (clear_wake_mark ms w)) =
    (if j = l then clear_task_mark (column j ms) k else Some (column j ms))"
    using s by (auto simp: eq column_update [OF s ls l] clear_task_mark_def nth_column)
  show "\<forall>x \<in> set (clear_wake_mark ms w). length x = 5"
    using len ls by (auto simp: eq dest!: subsetD [OF set_update_subset_insert])
  show "length (clear_wake_mark ms w) = length ms" by (simp add: eq)
qed

lemma clear_wake_marks_column:
  assumes "\<forall>w \<in> set ws. slot_of (fst (wake_parts w)) < length ms" and "\<forall>x \<in> set ms. length x = 5"
  shows "Some (column j (foldl clear_wake_mark ms ws)) = clear_task_marks (column j ms) (lane_keys j ws) \<and>
    (\<forall>x \<in> set (foldl clear_wake_mark ms ws). length x = 5) \<and> length (foldl clear_wake_mark ms ws) = length ms"
  using assms
proof (induction ws arbitrary: ms)
  case Nil
  then show ?case by (simp add: lane_keys_def)
next
  case (Cons w ws)
  obtain k l where w: "wake_parts w = (k, l)" by fastforce
  have s: "slot_of k < length ms" using Cons.prems(1) w by auto
  note one = clear_wake_mark_column [OF w s Cons.prems(2)]
  have "Some (column j (foldl clear_wake_mark (clear_wake_mark ms w) ws)) =
      clear_task_marks (column j (clear_wake_mark ms w)) (lane_keys j ws)"
    using Cons.IH [of "clear_wake_mark ms w"] Cons.prems(1) one(2,3) by auto
  also have "\<dots> = clear_task_marks (column j ms) (lane_keys j (w # ws))"
    using one(1) [of j] w by (cases "j = l") (auto simp: lane_keys_def split: option.splits)
  finally show ?case
    using Cons.IH [of "clear_wake_mark ms w"] Cons.prems(1) one(2,3) by simp
qed

lemma five_zeros:
  assumes "length x = 5" "\<And>j. j < 5 \<Longrightarrow> x ! j = 0"
  shows "x = [0, 0, 0, 0, 0]"
proof -
  have "x = replicate 5 0" by (rule nth_equalityI) (simp_all add: assms)
  then show ?thesis by (simp add: numeral_eq_Suc)
qed

lemma clear_wake_marks_all:
  assumes ok: "wake_marks_ok ws ms"
  shows "foldl clear_wake_mark ms ws = replicate (length ms) [0, 0, 0, 0, 0]"
proof (rule nth_equalityI)
  have "slot_of (fst (wake_parts w)) < length ms" if "w \<in> set ws" for w
    using ok that mem_lane_keys [of w ws] wake_lane [of w] marks_ok_slot
    unfolding wake_marks_ok_def by (metis length_column)
  then have pre: "\<forall>w \<in> set ws. slot_of (fst (wake_parts w)) < length ms" by blast
  note all = clear_wake_marks_column [OF pre, of j for j]
  have len: "\<forall>x \<in> set ms. length x = 5" using ok by (simp add: wake_marks_ok_def)
  show length: "length (foldl clear_wake_mark ms ws) = length (replicate (length ms) [0, 0, 0, 0, 0])"
    using all len by simp
  fix i
  assume i: "i < length (foldl clear_wake_mark ms ws)"
  have zero: "column j (foldl clear_wake_mark ms ws) = replicate (length ms) 0" if "j < 5" for j
    using all [of j] len that ok clear_task_marks_all [of "lane_keys j ws" "column j ms"]
    by (simp add: wake_marks_ok_def)
  have "foldl clear_wake_mark ms ws ! i ! j = 0" if "j < 5" for j
    using nth_column [OF i, of j] zero [OF that] i length by simp
  moreover have "length (foldl clear_wake_mark ms ws ! i) = 5" using all len i by simp
  ultimately have "foldl clear_wake_mark ms ws ! i = [0, 0, 0, 0, 0]"
    by (intro five_zeros) auto
  then show "foldl clear_wake_mark ms ws ! i = replicate (length ms) [0, 0, 0, 0, 0] ! i"
    using i length by simp
qed

section \<open>Event batches are sets that drain in key order\<close>

definition events_ok :: "ScheduleEvents \<Rightarrow> bool" where
  "events_ok e \<longleftrightarrow> marks_ok (ready e) (ready_marks e) \<and> marks_ok (removed e) (removed_marks e) \<and>
     wake_marks_ok (wakes e) (wake_marks e)"

text \<open>A batch between two slices: no event and no mark.\<close>

definition events_idle :: "ScheduleEvents \<Rightarrow> bool" where
  "events_idle e \<longleftrightarrow> events_is_empty e \<and> set (ready_marks e) \<subseteq> {0} \<and> set (removed_marks e) \<subseteq> {0} \<and>
     set (wake_marks e) \<subseteq> {[0, 0, 0, 0, 0]}"

datatype event = EReady TaskKey | ERemoved TaskKey | EWake WakeKey

fun push_event :: "ScheduleEvents \<Rightarrow> event \<Rightarrow> ScheduleEvents" where
  "push_event e (EReady key) = push_ready e key"
| "push_event e (ERemoved key) = push_removed e key"
| "push_event e (EWake wake) = push_wake e wake"

lemma marks_ok_idle: "set ms \<subseteq> {0} \<Longrightarrow> marks_ok [] ms"
  by (auto simp: marks_ok_def dest!: nth_mem)

lemma column_idle: "set ms \<subseteq> {[0, 0, 0, 0, 0]} \<Longrightarrow> j < 5 \<Longrightarrow> set (column j ms) \<subseteq> {0}"
  by (auto simp: column_def less_Suc_eq numeral_eq_Suc)

lemma events_idle_ok: "events_idle e \<Longrightarrow> events_ok e"
  using column_idle [of "wake_marks e"]
  by (auto simp: events_idle_def events_ok_def events_is_empty_def wake_marks_ok_def lane_keys_def
      intro!: marks_ok_idle)

lemma push_event_ok:
  assumes "events_ok e"
  shows "events_ok (push_event e ev)"
    and "set (ready (push_event e ev)) = set (ready e) \<union> {k. ev = EReady k}"
    and "set (removed (push_event e ev)) = set (removed e) \<union> {k. ev = ERemoved k}"
    and "set (wakes (push_event e ev)) = set (wakes e) \<union> {w. ev = EWake w}"
proof -
  have "events_ok (push_event e ev) \<and>
      set (ready (push_event e ev)) = set (ready e) \<union> {k. ev = EReady k} \<and>
      set (removed (push_event e ev)) = set (removed e) \<union> {k. ev = ERemoved k} \<and>
      set (wakes (push_event e ev)) = set (wakes e) \<union> {w. ev = EWake w}"
  proof (cases ev)
    case (EReady k)
    obtain vs ms where p: "push_task (ready e) (ready_marks e) k = (vs, ms)" by fastforce
    show ?thesis
      using assms push_task_ok [OF _ p] by (simp add: EReady push_ready_def p events_ok_def)
  next
    case (ERemoved k)
    obtain vs ms where p: "push_task (removed e) (removed_marks e) k = (vs, ms)" by fastforce
    show ?thesis
      using assms push_task_ok [OF _ p] by (simp add: ERemoved push_removed_def p events_ok_def)
  next
    case (EWake w)
    have keep: "ready (push_wake e w) = ready e" "removed (push_wake e w) = removed e"
      "ready_marks (push_wake e w) = ready_marks e" "removed_marks (push_wake e w) = removed_marks e"
      by (simp_all add: push_wake_def Let_def split: prod.splits)
    show ?thesis
      using assms push_wake_ok [of e w] by (simp add: EWake keep events_ok_def)
  qed
  then show "events_ok (push_event e ev)"
    and "set (ready (push_event e ev)) = set (ready e) \<union> {k. ev = EReady k}"
    and "set (removed (push_event e ev)) = set (removed e) \<union> {k. ev = ERemoved k}"
    and "set (wakes (push_event e ev)) = set (wakes e) \<union> {w. ev = EWake w}"
    by blast+
qed

lemma push_events_ok:
  assumes "events_ok e"
  shows "events_ok (foldl push_event e evs) \<and>
    set (ready (foldl push_event e evs)) = set (ready e) \<union> {k. EReady k \<in> set evs} \<and>
    set (removed (foldl push_event e evs)) = set (removed e) \<union> {k. ERemoved k \<in> set evs} \<and>
    set (wakes (foldl push_event e evs)) = set (wakes e) \<union> {w. EWake w \<in> set evs}"
  using assms
proof (induction evs arbitrary: e)
  case (Cons ev evs)
  show ?case
    using Cons.IH [OF push_event_ok(1) [OF Cons.prems, of ev]] push_event_ok [OF Cons.prems, of ev] by auto
qed simp

lemma distinct_remdups_adj: "sorted xs \<Longrightarrow> distinct (remdups_adj xs)"
  by (induction xs rule: remdups_adj.induct) (auto dest: antisym)

lemma order_for_pop_sorted: "order_for_pop xs = rev (sorted_list_of_set (set xs))"
proof -
  have "sorted (remdups_adj (sort xs))" by (simp add: sorted_remdups_adj)
  moreover have "distinct (remdups_adj (sort xs))" by (simp add: distinct_remdups_adj)
  ultimately have "remdups_adj (sort xs) = sorted_list_of_set (set xs)"
    by (metis remdups_adj_set set_sort sorted_list_of_set.idem_if_sorted_distinct)
  then show ?thesis by (simp add: order_for_pop_def)
qed

lemma drain_ready_rev: "ready e = rev xs \<Longrightarrow> drain_ready e = xs"
proof (induction xs arbitrary: e)
  case (Cons x xs)
  then show ?case
    by (subst drain_ready.simps) (simp add: pop_ready_def pop_last_def butlast_append)
qed (subst drain_ready.simps, simp add: pop_ready_def pop_last_def)

lemma drain_removed_rev: "removed e = rev xs \<Longrightarrow> drain_removed e = xs"
proof (induction xs arbitrary: e)
  case (Cons x xs)
  then show ?case
    by (subst drain_removed.simps) (simp add: pop_removed_def pop_last_def butlast_append)
qed (subst drain_removed.simps, simp add: pop_removed_def pop_last_def)

lemma drain_wakes_rev: "wakes e = rev xs \<Longrightarrow> drain_wakes e = xs"
proof (induction xs arbitrary: e)
  case (Cons x xs)
  then show ?case
    by (subst drain_wakes.simps) (simp add: pop_wake_def pop_last_def butlast_append)
qed (subst drain_wakes.simps, simp add: pop_wake_def pop_last_def)

lemma release_marks_ok:
  assumes "events_ok e"
  shows "release_marks e = Some (e\<lparr>ready_marks := replicate (length (ready_marks e)) 0,
    removed_marks := replicate (length (removed_marks e)) 0,
    wake_marks := replicate (length (wake_marks e)) [0, 0, 0, 0, 0]\<rparr>)"
  using assms unfolding events_ok_def
  by (simp add: release_marks_def clear_task_marks_all clear_wake_marks_all)

text \<open>
  C32: a batch that starts idle and takes any sequence of pushes drains without an
  index panic, pops the pushed keys of each lane once each in ascending key
  order, and leaves every mark clear, so that the next batch accepts each key
  again.
\<close>

theorem events_drain:
  assumes "events_idle e"
  shows "\<exists>e'. prepare_drain (foldl push_event e evs) = Some e' \<and>
    drain_ready e' = sorted_list_of_set {k. EReady k \<in> set evs} \<and>
    drain_removed e' = sorted_list_of_set {k. ERemoved k \<in> set evs} \<and>
    drain_wakes e' = sorted_list_of_set {w. EWake w \<in> set evs} \<and>
    events_idle (e'\<lparr>ready := [], removed := [], wakes := []\<rparr>)"
proof -
  have empty: "ready e = []" "removed e = []" "wakes e = []"
    using assms by (auto simp: events_idle_def events_is_empty_def)
  note ok = push_events_ok [OF events_idle_ok [OF assms], of evs, unfolded empty, simplified]
  show ?thesis
    using ok release_marks_ok [of "foldl push_event e evs"]
    by (auto simp: prepare_drain_def order_for_pop_sorted events_idle_def events_is_empty_def
        intro!: drain_ready_rev drain_removed_rev drain_wakes_rev)
qed

theorem events_drain_witness:
  "\<exists>e'. prepare_drain (foldl push_event events_default
      [EReady (TaskKey 3 7), EReady (TaskKey 1 0), EReady (TaskKey 3 7)]) = Some e' \<and>
    drain_ready e' = [TaskKey 1 0, TaskKey 3 7]"
proof -
  have idle: "events_idle events_default"
    by (simp add: events_idle_def events_default_def events_is_empty_def)
  have set: "{k. EReady k \<in> set [EReady (TaskKey 3 7), EReady (TaskKey 1 0), EReady (TaskKey 3 7)]} =
      set [TaskKey 1 0, TaskKey 3 7]"
    by auto
  have "sorted_list_of_set (set [TaskKey 1 0, TaskKey 3 7]) = [TaskKey 1 0, TaskKey 3 7]"
    by (rule sorted_list_of_set.idem_if_sorted_distinct) (simp_all add: less_eq_TaskKey_def)
  then show ?thesis
    using events_drain [OF idle, of "[EReady (TaskKey 3 7), EReady (TaskKey 1 0), EReady (TaskKey 3 7)]"]
    unfolding set by auto
qed

end
