(* ===== verification/Gen_Map.thy ===== *)
theory Gen_Map
  imports Schedule
begin

text \<open>
  The interface that the dense per-machine tables share: a table that keeps at
  most one generation of each machine slot (locale \<open>gen_map\<close>), with the lemmas
  its clients use, and its first implementation, the active proc set of
  \<open>schedule.rs\<close>. The task index of the scheduler is the second one
  (theory \<open>Sched_Index\<close>).
\<close>

locale gen_map =
  fixes inv :: "'s \<Rightarrow> bool"
    and get :: "'s \<Rightarrow> TaskKey \<Rightarrow> 'v option"
    and put :: "'s \<Rightarrow> TaskKey \<Rightarrow> 'v \<Rightarrow> 's"
    and del :: "'s \<Rightarrow> TaskKey \<Rightarrow> 's"
  assumes inv_put: "inv s \<Longrightarrow> inv (put s k v)"
    and inv_del: "inv s \<Longrightarrow> inv (del s k)"
    and get_put: "inv s \<Longrightarrow> get (put s k v) k' =
      (if k' = k then Some v else if vm k' = vm k then None else get s k')"
    and get_del: "inv s \<Longrightarrow> get (del s k) k' = (if k' = k then None else get s k')"
    and get_unique: "inv s \<Longrightarrow> get s k \<noteq> None \<Longrightarrow> get s k' \<noteq> None \<Longrightarrow> vm k = vm k' \<Longrightarrow> k = k'"
begin

lemma get_put_same: "inv s \<Longrightarrow> get (put s k v) k = Some v"
  by (simp add: get_put)

text \<open>A new generation of a slot replaces the old one.\<close>

lemma replaced: "inv s \<Longrightarrow> vm k' = vm k \<Longrightarrow> k' \<noteq> k \<Longrightarrow> get (put s k v) k' = None"
  by (simp add: get_put)

text \<open>A stale removal does not touch the current generation.\<close>

lemma stale_del: "inv s \<Longrightarrow> k' \<noteq> k \<Longrightarrow> get (del (put s k v) k') k = Some v"
  by (simp add: get_del get_put inv_put)

lemma del_put: "inv s \<Longrightarrow> get s k \<noteq> None \<Longrightarrow> get (del (put s k v) k) k' = get (del s k) k'"
  using get_unique [of s k k'] by (cases "get s k'") (auto simp: get_del get_put inv_put)

lemma put_commute:
  "inv s \<Longrightarrow> vm a \<noteq> vm b \<Longrightarrow> get (put (put s a x) b y) k = get (put (put s b y) a x) k"
  by (auto simp: get_put inv_put)

end

section \<open>The active procs implement it\<close>

definition active_ok :: "ActiveProcs \<Rightarrow> bool" where
  "active_ok a \<longleftrightarrow>
     (\<forall>i < length (entries a). slot_of (entries a ! i) < length (positions a) \<and>
        positions a ! slot_of (entries a ! i) = Some i) \<and>
     (\<forall>s < length (positions a). \<forall>at. positions a ! s = Some at \<longrightarrow>
        at < length (entries a) \<and> slot_of (entries a ! at) = s)"

lemma active_ok_entry:
  "active_ok a \<Longrightarrow> i < length (entries a) \<Longrightarrow>
    slot_of (entries a ! i) < length (positions a) \<and> positions a ! slot_of (entries a ! i) = Some i"
  by (simp add: active_ok_def)

lemma active_ok_position:
  "active_ok a \<Longrightarrow> s < length (positions a) \<Longrightarrow> positions a ! s = Some at \<Longrightarrow>
    at < length (entries a) \<and> slot_of (entries a ! at) = s"
  by (simp add: active_ok_def)

lemma active_contains_iff:
  assumes ok: "active_ok a"
  shows "active_contains a k = Some (k \<in> set (entries a))"
proof (cases "slot_of k < length (positions a)")
  case True
  show ?thesis
  proof (cases "positions a ! slot_of k")
    case None
    then have "k \<notin> set (entries a)" using active_ok_entry [OF ok] by (fastforce simp: in_set_conv_nth)
    with True None show ?thesis by (simp add: active_contains_def get_opt_def)
  next
    case (Some at)
    note at = active_ok_position [OF ok True Some]
    have "k \<in> set (entries a) \<longleftrightarrow> entries a ! at = k"
      using active_ok_entry [OF ok] at Some by (fastforce simp: in_set_conv_nth)
    with True Some at show ?thesis by (simp add: active_contains_def get_opt_def)
  qed
next
  case False
  then have "k \<notin> set (entries a)" using active_ok_entry [OF ok] by (auto simp: in_set_conv_nth)
  with False show ?thesis by (simp add: active_contains_def get_opt_def)
qed

lemma active_unique:
  assumes ok: "active_ok a" and "j \<in> set (entries a)" "k \<in> set (entries a)" "slot_of j = slot_of k"
  shows "j = k"
proof -
  obtain m n where mn: "m < length (entries a)" "entries a ! m = j" "n < length (entries a)" "entries a ! n = k"
    using assms by (auto simp: in_set_conv_nth)
  have "positions a ! slot_of j = Some m" using active_ok_entry [OF ok mn(1)] mn(2) by simp
  moreover have "positions a ! slot_of k = Some n" using active_ok_entry [OF ok mn(3)] mn(4) by simp
  ultimately have "m = n" using assms(4) by simp
  then show ?thesis using mn(2,4) by simp
qed

lemma insert_prepared_ok:
  assumes ok: "active_ok a" and s: "slot_of k < length (positions a)"
  shows "\<exists>a'. insert_prepared a k = Some a' \<and> active_ok a' \<and>
    set (entries a') = insert k {j \<in> set (entries a). slot_of j \<noteq> slot_of k} \<and>
    length (positions a') = length (positions a)"
proof (cases "positions a ! slot_of k")
  case None
  then have fresh: "slot_of (entries a ! i) \<noteq> slot_of k" if "i < length (entries a)" for i
    using active_ok_entry [OF ok that] by auto
  define a' where "a' = a\<lparr>positions := (positions a)[slot_of k := Some (length (entries a))],
      entries := entries a @ [k]\<rparr>"
  have "active_ok a'"
    unfolding active_ok_def
  proof (intro conjI allI impI)
    fix i
    assume "i < length (entries a')"
    then show "slot_of (entries a' ! i) < length (positions a')"
      and "positions a' ! slot_of (entries a' ! i) = Some i"
      using active_ok_entry [OF ok, of i] fresh [of i] s
      by (cases "i < length (entries a)"; auto simp: a'_def nth_append less_Suc_eq)+
  next
    fix sl at
    assume "sl < length (positions a')" "positions a' ! sl = Some at"
    then show "at < length (entries a')" and "slot_of (entries a' ! at) = sl"
      using active_ok_position [OF ok, of sl at] s
      by (cases "sl = slot_of k"; auto simp: a'_def nth_append)+
  qed
  moreover have "insert_prepared a k = Some a'"
    using None s by (simp add: insert_prepared_def a'_def Let_def)
  moreover have "set (entries a') = insert k {j \<in> set (entries a). slot_of j \<noteq> slot_of k}"
    using fresh by (auto simp: a'_def in_set_conv_nth)
  ultimately show ?thesis by (auto simp: a'_def)
next
  case (Some at)
  note at = active_ok_position [OF ok s Some]
  define a' where "a' = a\<lparr>entries := (entries a)[at := k]\<rparr>"
  have slots: "slot_of (entries a' ! i) = slot_of (entries a ! i)" if "i < length (entries a)" for i
    using at that by (cases "i = at") (auto simp: a'_def)
  have "active_ok a'"
    unfolding active_ok_def
    using active_ok_entry [OF ok] active_ok_position [OF ok] slots
    by (auto simp: a'_def)
  moreover have "insert_prepared a k = Some a'"
    using Some s at by (simp add: insert_prepared_def a'_def Let_def)
  moreover have "set (entries a') = insert k {j \<in> set (entries a). slot_of j \<noteq> slot_of k}" (is "?l = ?r")
  proof
    show "?l \<subseteq> ?r"
    proof
      fix j
      assume "j \<in> ?l"
      then obtain i where i: "i < length (entries a)" "j = (if i = at then k else entries a ! i)"
        by (auto simp: a'_def in_set_conv_nth nth_list_update)
      then show "j \<in> ?r"
        using active_ok_entry [OF ok i(1)] Some by (auto split: if_splits)
    qed
    show "?r \<subseteq> ?l"
    proof
      fix j
      assume j: "j \<in> ?r"
      show "j \<in> ?l"
      proof (cases "j = k")
        case True
        then show ?thesis using at by (simp add: a'_def set_update_memI)
      next
        case False
        with j obtain i where "i < length (entries a)" "entries a ! i = j" "i \<noteq> at"
          using at by (auto simp: in_set_conv_nth)
        then show ?thesis by (auto simp: a'_def in_set_conv_nth nth_list_update intro!: exI [of _ i])
      qed
    qed
  qed
  ultimately show ?thesis by (auto simp: a'_def)
qed

lemma length_swap_remove [simp]: "length (swap_remove xs i) = length xs - 1"
  by (simp add: swap_remove_def)

lemma nth_swap_remove:
  "i < length xs - 1 \<Longrightarrow> swap_remove xs at ! i = (if i = at then last xs else xs ! i)"
  by (auto simp: swap_remove_def nth_butlast nth_list_update)

lemma active_remove_absent:
  assumes ok: "active_ok a" and "k \<notin> set (entries a)"
  shows "active_remove a k = Some (a, False)"
proof (cases "slot_of k < length (positions a)")
  case True
  then show ?thesis
    using active_ok_position [OF ok True] assms(2)
    by (cases "positions a ! slot_of k") (auto simp: active_remove_def get_opt_def)
qed (simp add: active_remove_def get_opt_def)

lemma active_remove_present:
  assumes ok: "active_ok a" and k: "k \<in> set (entries a)"
  shows "\<exists>a'. active_remove a k = Some (a', True) \<and> active_ok a' \<and> set (entries a') = set (entries a) - {k}"
proof -
  obtain at where at: "at < length (entries a)" "entries a ! at = k"
    using k by (auto simp: in_set_conv_nth)
  define n where "n = length (entries a) - 1"
  have n: "length (entries a) = Suc n" and atn: "at \<le> n" using at by (auto simp: n_def)
  have slot: "slot_of k < length (positions a)" "positions a ! slot_of k = Some at"
    using active_ok_entry [OF ok at(1)] at(2) by auto
  have last: "last (entries a) = entries a ! n"
    using n by (metis last_conv_nth length_0_conv diff_Suc_1 nat.distinct(1))
  define es where "es = swap_remove (entries a) at"
  have len: "length es = n" by (simp add: es_def n_def)
  have es: "es ! i = (if i = at then entries a ! n else entries a ! i)" if "i < n" for i
    using that by (simp add: es_def nth_swap_remove n last)
  define ps where "ps = (if at < n then (positions a)[slot_of k := None, slot_of (entries a ! n) := Some at]
    else (positions a)[slot_of k := None])"
  define a' where "a' = a\<lparr>entries := es, positions := ps\<rparr>"
  have slot_n: "slot_of (entries a ! n) < length (positions a)" "positions a ! slot_of (entries a ! n) = Some n"
    using active_ok_entry [OF ok, of n] n by auto
  have other: "slot_of (entries a ! i) \<noteq> slot_of (entries a ! j)"
    if "i < length (entries a)" "j < length (entries a)" "i \<noteq> j" for i j
    using active_ok_entry [OF ok that(1)] active_ok_entry [OF ok that(2)] that(3) by auto
  have step: "active_remove a k = Some (a', True)"
    using slot at len es slot_n
    by (auto simp: active_remove_def get_opt_def Let_def es_def [symmetric] a'_def ps_def)
  have "active_ok a'"
    unfolding active_ok_def
  proof (intro conjI allI impI)
    fix i
    assume "i < length (entries a')"
    then have i: "i < n" by (simp add: a'_def len)
    show "slot_of (entries a' ! i) < length (positions a')"
      using es [OF i] slot_n active_ok_entry [OF ok, of i] i n by (auto simp: a'_def ps_def)
    show "positions a' ! slot_of (entries a' ! i) = Some i"
    proof (cases "i = at")
      case True
      then show ?thesis using es [OF i] i slot_n by (simp add: a'_def ps_def)
    next
      case False
      have "slot_of (entries a ! i) \<noteq> slot_of k" "slot_of (entries a ! i) \<noteq> slot_of (entries a ! n)"
        using other [of i at] other [of i n] at i n False by auto
      then show ?thesis
        using es [OF i] active_ok_entry [OF ok, of i] i n False by (auto simp: a'_def ps_def)
    qed
  next
    fix sl p
    assume "sl < length (positions a')" and p: "positions a' ! sl = Some p"
    then have sl: "sl < length (positions a)" by (auto simp: a'_def ps_def split: if_splits)
    have "p < n \<and> slot_of (es ! p) = sl"
    proof (cases "at < n \<and> sl = slot_of (entries a ! n)")
      case True
      then have "p = at" using p slot_n by (simp add: a'_def ps_def)
      then show ?thesis using True es by simp
    next
      case False
      then have "sl \<noteq> slot_of k" "positions a ! sl = Some p"
        using p slot sl by (auto simp: a'_def ps_def nth_list_update split: if_splits)
      note pos = active_ok_position [OF ok sl this(2)] this
      have "p \<noteq> at" using pos at by auto
      moreover have "p \<noteq> n" using pos False at atn n \<open>sl \<noteq> slot_of k\<close> by (auto simp: le_less)
      ultimately show ?thesis using pos es [of p] n by auto
    qed
    then show "p < length (entries a')" and "slot_of (entries a' ! p) = sl"
      by (simp_all add: a'_def len)
  qed
  moreover have "set (entries a') = set (entries a) - {k}"
  proof
    show "set (entries a') \<subseteq> set (entries a) - {k}"
    proof
      fix j
      assume "j \<in> set (entries a')"
      then obtain i where i: "i < n" "j = es ! i" by (auto simp: a'_def len in_set_conv_nth)
      have "entries a ! i \<in> set (entries a)" "entries a ! n \<in> set (entries a)" using i n by auto
      then show "j \<in> set (entries a) - {k}"
        using i es [of i] other [of n at] other [of i at] at n atn by auto
    qed
    show "set (entries a) - {k} \<subseteq> set (entries a')"
    proof
      fix j
      assume j: "j \<in> set (entries a) - {k}"
      then obtain i where i: "i < Suc n" "entries a ! i = j" "i \<noteq> at" using at n by (auto simp: in_set_conv_nth)
      show "j \<in> set (entries a')"
      proof (cases "i = n")
        case True
        then have "at < n" using i atn by simp
        then show ?thesis using es [of at] i True len by (auto simp: a'_def in_set_conv_nth intro!: exI [of _ at])
      next
        case False
        then show ?thesis using es [of i] i len by (auto simp: a'_def in_set_conv_nth intro!: exI [of _ i])
      qed
    qed
  qed
  ultimately show ?thesis using step by blast
qed

text \<open>The operations of the interface: \<open>prepare\<close> followed by \<open>insert_prepared\<close>, \<open>remove\<close>, \<open>contains\<close>.\<close>

definition active_get :: "ActiveProcs \<Rightarrow> TaskKey \<Rightarrow> unit option" where
  "active_get a k = (if active_contains a k = Some True then Some () else None)"

definition active_put :: "ActiveProcs \<Rightarrow> TaskKey \<Rightarrow> unit \<Rightarrow> ActiveProcs" where
  "active_put a k u = the (insert_prepared (fst (active_prepare True True a (vm k))) k)"

definition active_del :: "ActiveProcs \<Rightarrow> TaskKey \<Rightarrow> ActiveProcs" where
  "active_del a k = fst (the (active_remove a k))"

lemma active_prepare_ok:
  assumes ok: "active_ok a" and p: "active_prepare True True a v = (a', r)"
  shows "active_ok a'" and "entries a' = entries a" and "unat v < length (positions a')" and "r = Inr ()"
proof -
  have a': "a' = a\<lparr>positions := grow (positions a) (unat v + 1) None\<rparr>" and "r = Inr ()"
    using p by (auto simp: active_prepare_def prepare_batch_def)
  then show "r = Inr ()" "entries a' = entries a" "unat v < length (positions a')"
    by (auto simp: length_grow)
  show "active_ok a'"
    unfolding active_ok_def
  proof (intro conjI allI impI)
    fix i
    assume "i < length (entries a')"
    then have i: "i < length (entries a)" by (simp add: a')
    from active_ok_entry [OF ok i] show "slot_of (entries a' ! i) < length (positions a')"
      and "positions a' ! slot_of (entries a' ! i) = Some i"
      by (simp_all add: a' length_grow nth_grow less_max_iff_disj)
  next
    fix s at
    assume "s < length (positions a')" "positions a' ! s = Some at"
    then have "s < length (positions a)" "positions a ! s = Some at"
      by (auto simp: a' length_grow nth_grow split: if_splits)
    from active_ok_position [OF ok this] show "at < length (entries a')" and "slot_of (entries a' ! at) = s"
      by (simp_all add: a')
  qed
qed

lemma active_put_ok:
  assumes ok: "active_ok a"
  shows "active_ok (active_put a k u)"
    and "set (entries (active_put a k u)) = insert k {j \<in> set (entries a). slot_of j \<noteq> slot_of k}"
proof -
  obtain a1 r where p: "active_prepare True True a (vm k) = (a1, r)" by fastforce
  note prep = active_prepare_ok [OF ok p]
  have "slot_of k < length (positions a1)" using prep(3) by (simp add: slot_of_def)
  from insert_prepared_ok [OF prep(1) this] obtain a2 where a2: "insert_prepared a1 k = Some a2" "active_ok a2"
    "set (entries a2) = insert k {j \<in> set (entries a). slot_of j \<noteq> slot_of k}"
    unfolding prep(2) by blast
  have "active_put a k u = a2" by (simp add: active_put_def p a2(1))
  with a2 show "active_ok (active_put a k u)"
    and "set (entries (active_put a k u)) = insert k {j \<in> set (entries a). slot_of j \<noteq> slot_of k}"
    by simp_all
qed

lemma active_del_ok:
  assumes "active_ok a"
  shows "active_ok (active_del a k)" and "set (entries (active_del a k)) = set (entries a) - {k}"
  using assms active_remove_absent [of a k] active_remove_present [of a k]
  by (cases "k \<in> set (entries a)"; force simp: active_del_def)+

interpretation active: gen_map active_ok active_get active_put active_del
proof
  fix a k k' u
  assume ok: "active_ok a"
  show "active_ok (active_put a k u)" by (rule active_put_ok [OF ok])
  show "active_ok (active_del a k)" by (rule active_del_ok [OF ok])
  show "active_get (active_put a k u) k' =
      (if k' = k then Some u else if vm k' = vm k then None else active_get a k')"
    using ok active_put_ok [OF ok, of k u]
    by (auto simp: active_get_def active_contains_iff slot_of_eq_iff)
  show "active_get (active_del a k) k' = (if k' = k then None else active_get a k')"
    using ok active_del_ok [OF ok, of k] by (auto simp: active_get_def active_contains_iff)
  show "active_get a k \<noteq> None \<Longrightarrow> active_get a k' \<noteq> None \<Longrightarrow> vm k = vm k' \<Longrightarrow> k = k'"
    using ok active_unique [OF ok, of k k']
    by (auto simp: active_get_def active_contains_iff slot_of_eq_iff split: if_splits)
qed

lemma active_new_ok: "active_ok (active_new n)"
  by (simp add: active_ok_def active_new_def)

text \<open>
  C33: on a well-formed active set, inserting a prepared key and removing keys
  never panics, a key is held exactly when it was inserted after its last
  removal and no later generation of its slot replaced it, and \<open>entries\<close> stays
  without duplicates: at most one generation per machine slot.
\<close>

theorem active_procs_correct:
  assumes "active_ok a" and "slot_of k < length (positions a)"
  shows "(\<exists>a'. insert_prepared a k = Some a' \<and> active_ok a' \<and>
      (\<forall>j. active_contains a' j =
        Some (j = k \<or> vm j \<noteq> vm k \<and> j \<in> set (entries a)))) \<and>
    (\<exists>a' found. active_remove a j = Some (a', found) \<and> active_ok a' \<and>
      (found \<longleftrightarrow> active_contains a j = Some True) \<and>
      (\<forall>i. active_contains a' i = Some (i \<noteq> j \<and> i \<in> set (entries a))))"
proof
  show "\<exists>a'. insert_prepared a k = Some a' \<and> active_ok a' \<and>
      (\<forall>j. active_contains a' j = Some (j = k \<or> vm j \<noteq> vm k \<and> j \<in> set (entries a)))"
    using insert_prepared_ok [OF assms] by (auto simp: active_contains_iff slot_of_eq_iff)
  show "\<exists>a' found. active_remove a j = Some (a', found) \<and> active_ok a' \<and>
      (found \<longleftrightarrow> active_contains a j = Some True) \<and>
      (\<forall>i. active_contains a' i = Some (i \<noteq> j \<and> i \<in> set (entries a)))"
    using active_remove_absent [OF assms(1), of j] active_remove_present [OF assms(1), of j] assms(1)
    by (cases "j \<in> set (entries a)") (auto simp: active_contains_iff)
qed

theorem active_procs_correct_witness:
  "\<exists>a'. insert_prepared (active_new 4) (TaskKey 2 0) = Some a' \<and>
     active_contains a' (TaskKey 2 0) = Some True \<and> active_contains a' (TaskKey 2 1) = Some False"
proof -
  have "slot_of (TaskKey 2 0) < length (positions (active_new 4))"
    by (simp add: slot_of_def active_new_def)
  from active_procs_correct [OF active_new_ok this, of "TaskKey 2 0"] show ?thesis
    by (auto simp: active_new_def)
qed

end
