(* ===== verification/Sched_Index.thy ===== *)
theory Sched_Index
  imports Gen_Map
begin

text \<open>
  The index structures of the proc scheduler (\<open>crates/lm-proc/src/lib.rs\<close>): the
  task index by dense machine slot, the waiters of one condition, the wake index
  with its sorted buckets, and the park index of the typed wait sets.

  The wake index and the completion table implement one interface, an index from
  conditions to the ordered tasks that wait for them (locale \<open>wait_index\<close>); the
  task index implements \<open>gen_map\<close>.
\<close>

section \<open>Waiters\<close>

datatype Waiters = One TaskKey | Many "TaskKey list"

fun waiters_insert :: "Waiters \<Rightarrow> TaskKey \<Rightarrow> Waiters" where
  "waiters_insert (One held) task = (if held = task then One held else Many (sort [held, task]))"
| "waiters_insert (Many tasks) task =
     (case bsearch id tasks task of
        Inl at \<Rightarrow> Many (insert_at tasks at task)
      | Inr at \<Rightarrow> Many tasks)"

text \<open>The result says whether the bucket is now empty.\<close>

fun waiters_remove :: "Waiters \<Rightarrow> TaskKey \<Rightarrow> Waiters \<times> bool" where
  "waiters_remove (One held) task = (One held, held = task)"
| "waiters_remove (Many tasks) task =
     (case bsearch id tasks task of
        Inl at \<Rightarrow> (Many tasks, False)
      | Inr at \<Rightarrow>
          (let tasks = remove_at tasks at
           in (if length tasks = 1 then One (tasks ! 0) else Many tasks, False)))"

text \<open>The order in which \<open>for_each\<close> visits.\<close>

fun waiters_list :: "Waiters \<Rightarrow> TaskKey list" where
  "waiters_list (One task) = [task]"
| "waiters_list (Many tasks) = tasks"

section \<open>The wake index\<close>

datatype WakeBucket = WakeBucket (wake: WakeKey) (waiters: Waiters)

type_synonym WakeIndex = "WakeBucket list list"

fun wake_task :: "WakeKey \<Rightarrow> TaskKey" where
  "wake_task (Receive task) = task"
| "wake_task (Send task) = task"
| "wake_task (Done task) = task"
| "wake_task (Asked task) = task"
| "wake_task (Snapshot task) = task"

definition buckets_insert :: "WakeBucket list \<Rightarrow> WakeKey \<Rightarrow> TaskKey \<Rightarrow> WakeBucket list" where
  "buckets_insert buckets w task =
     (case bsearch wake buckets w of
        Inr at \<Rightarrow> buckets[at := WakeBucket (wake (buckets ! at)) (waiters_insert (waiters (buckets ! at)) task)]
      | Inl at \<Rightarrow> insert_at buckets at (WakeBucket w (One task)))"

definition wake_index_insert :: "WakeIndex \<Rightarrow> WakeKey \<Rightarrow> TaskKey \<Rightarrow> WakeIndex" where
  "wake_index_insert slots w task =
     (let slot = slot_of (wake_task w); slots = grow slots (slot + 1) []
      in slots[slot := buckets_insert (slots ! slot) w task])"

definition buckets_remove :: "WakeBucket list \<Rightarrow> WakeKey \<Rightarrow> TaskKey \<Rightarrow> WakeBucket list" where
  "buckets_remove buckets w task =
     (case bsearch wake buckets w of
        Inl at \<Rightarrow> buckets
      | Inr at \<Rightarrow>
          (let (ws, emptied) = waiters_remove (waiters (buckets ! at)) task;
               buckets = buckets[at := WakeBucket (wake (buckets ! at)) ws]
           in if emptied then remove_at buckets at else buckets))"

definition wake_index_remove :: "WakeIndex \<Rightarrow> WakeKey \<Rightarrow> TaskKey \<Rightarrow> WakeIndex" where
  "wake_index_remove slots w task =
     (let slot = slot_of (wake_task w)
      in case get_opt slots slot of
           None \<Rightarrow> slots
         | Some buckets \<Rightarrow> slots[slot := buckets_remove buckets w task])"

definition wake_index_take :: "WakeIndex \<Rightarrow> WakeKey \<Rightarrow> Waiters option \<times> WakeIndex" where
  "wake_index_take slots w =
     (let slot = slot_of (wake_task w)
      in case get_opt slots slot of
           None \<Rightarrow> (None, slots)
         | Some buckets \<Rightarrow>
             (case bsearch wake buckets w of
                Inl at \<Rightarrow> (None, slots)
              | Inr at \<Rightarrow> (Some (waiters (buckets ! at)), slots[slot := remove_at buckets at])))"

section \<open>The park index\<close>

instantiation WaitSetKey :: linorder
begin

definition less_eq_WaitSetKey :: "WaitSetKey \<Rightarrow> WaitSetKey \<Rightarrow> bool" where
  "less_eq_WaitSetKey a b \<longleftrightarrow> (owner a, token a) \<le> (owner b, token b)"

definition less_WaitSetKey :: "WaitSetKey \<Rightarrow> WaitSetKey \<Rightarrow> bool" where
  "less_WaitSetKey a b \<longleftrightarrow> (owner a, token a) < (owner b, token b)"

instance
  by standard (auto simp: less_eq_WaitSetKey_def less_WaitSetKey_def WaitSetKey.expand)

end

type_synonym CompletionIndex = "(CompletionKey, Waiters) btree"

definition completion_insert :: "CompletionIndex \<Rightarrow> CompletionKey \<Rightarrow> TaskKey \<Rightarrow> CompletionIndex" where
  "completion_insert cs completion task =
     (case map_of cs completion of
        Some ws \<Rightarrow> bt_insert completion (waiters_insert ws task) cs
      | None \<Rightarrow> bt_insert completion (One task) cs)"

definition completion_remove :: "CompletionIndex \<Rightarrow> CompletionKey \<Rightarrow> TaskKey \<Rightarrow> CompletionIndex" where
  "completion_remove cs completion task =
     (case map_of cs completion of
        None \<Rightarrow> cs
      | Some ws \<Rightarrow>
          (let (ws', emptied) = waiters_remove ws task; cs = bt_insert completion ws' cs
           in if emptied then bt_remove completion cs else cs))"

definition completion_take :: "CompletionIndex \<Rightarrow> CompletionKey \<Rightarrow> Waiters option \<times> CompletionIndex" where
  "completion_take cs completion = (map_of cs completion, bt_remove completion cs)"

record ParkIndex =
  sets :: "(WaitSetKey, WaitSourceKey list) btree"
  park_wakes :: WakeIndex
  completions :: CompletionIndex

definition park_default :: ParkIndex where
  "park_default = \<lparr>sets = [], park_wakes = [], completions = []\<rparr>"

fun park_add_source :: "TaskKey \<Rightarrow> ParkIndex \<Rightarrow> WaitSourceKey \<Rightarrow> ParkIndex" where
  "park_add_source task p (WakeSource w) = p\<lparr>park_wakes := wake_index_insert (park_wakes p) w task\<rparr>"
| "park_add_source task p (CompletionSource c) = p\<lparr>completions := completion_insert (completions p) c task\<rparr>"

fun park_drop_source :: "TaskKey \<Rightarrow> ParkIndex \<Rightarrow> WaitSourceKey \<Rightarrow> ParkIndex" where
  "park_drop_source task p (WakeSource w) = p\<lparr>park_wakes := wake_index_remove (park_wakes p) w task\<rparr>"
| "park_drop_source task p (CompletionSource c) = p\<lparr>completions := completion_remove (completions p) c task\<rparr>"

definition park_remove :: "ParkIndex \<Rightarrow> WaitSetKey \<Rightarrow> TaskKey \<Rightarrow> ParkIndex" where
  "park_remove p wait task =
     (case map_of (sets p) wait of
        None \<Rightarrow> p
      | Some sources \<Rightarrow> foldl (park_drop_source task) (p\<lparr>sets := bt_remove wait (sets p)\<rparr>) sources)"

definition park_insert :: "ParkIndex \<Rightarrow> WaitSetKey \<Rightarrow> TaskKey \<Rightarrow> WaitSourceKey list \<Rightarrow> ParkIndex" where
  "park_insert p wait task sources =
     (let p = foldl (park_add_source task) (park_remove p wait task) sources
      in p\<lparr>sets := bt_insert wait sources (sets p)\<rparr>)"

definition take_wake :: "ParkIndex \<Rightarrow> WakeKey \<Rightarrow> Waiters option \<times> ParkIndex" where
  "take_wake p w = (let (ws, wakes) = wake_index_take (park_wakes p) w in (ws, p\<lparr>park_wakes := wakes\<rparr>))"

definition take_completion :: "ParkIndex \<Rightarrow> CompletionKey \<Rightarrow> Waiters option \<times> ParkIndex" where
  "take_completion p c = (let (ws, cs) = completion_take (completions p) c in (ws, p\<lparr>completions := cs\<rparr>))"

definition has_completion :: "ParkIndex \<Rightarrow> CompletionKey \<Rightarrow> bool" where
  "has_completion p c = (map_of (completions p) c \<noteq> None)"

definition has_completions :: "ParkIndex \<Rightarrow> bool" where
  "has_completions p = (completions p \<noteq> [])"

definition tasks_with_completions :: "ParkIndex \<Rightarrow> TaskKey list" where
  "tasks_with_completions p = remdups_adj (sort (concat (map (\<lambda>e. waiters_list (snd e)) (completions p))))"

section \<open>The task index\<close>

text \<open>A ticket is a \<open>u128\<close> that one run cannot exhaust; it is a natural number here.\<close>

datatype IndexedState =
    Queued nat
  | Running
  | Blocked WakeKey
  | Waiting CompletionKey
  | Parked WaitSetKey

datatype IndexedTask = IndexedTask (task_key: TaskKey) (task_state: IndexedState)

type_synonym TaskIndex = "IndexedTask option list"

definition task_get :: "TaskIndex \<Rightarrow> TaskKey \<Rightarrow> IndexedState option" where
  "task_get slots key =
     (case get_opt slots (slot_of key) of
        Some (Some task) \<Rightarrow> if task_key task = key then Some (task_state task) else None
      | _ \<Rightarrow> None)"

definition task_insert :: "TaskIndex \<Rightarrow> TaskKey \<Rightarrow> IndexedState \<Rightarrow> TaskIndex" where
  "task_insert slots key state =
     (grow slots (slot_of key + 1) None)[slot_of key := Some (IndexedTask key state)]"

definition task_remove :: "TaskIndex \<Rightarrow> TaskKey \<Rightarrow> TaskIndex" where
  "task_remove slots key =
     (case get_opt slots (slot_of key) of
        Some (Some task) \<Rightarrow> if task_key task = key then slots[slot_of key := None] else slots
      | _ \<Rightarrow> slots)"

definition task_iter :: "TaskIndex \<Rightarrow> (TaskKey \<times> IndexedState) list" where
  "task_iter slots = map (\<lambda>t. (task_key t, task_state t)) (List.map_filter id slots)"

definition task_values :: "TaskIndex \<Rightarrow> IndexedState list" where
  "task_values slots = map task_state (List.map_filter id slots)"

section \<open>Waiters are ordered sets\<close>

fun waiters_ok :: "Waiters \<Rightarrow> bool" where
  "waiters_ok (One task) \<longleftrightarrow> True"
| "waiters_ok (Many tasks) \<longleftrightarrow> sorted_wrt (<) tasks \<and> 2 \<le> length tasks"

lemma key_sorted_id: "key_sorted id xs \<longleftrightarrow> sorted_wrt (<) xs"
  by (simp add: key_sorted_def)

lemma waiters_sorted: "waiters_ok ws \<Longrightarrow> sorted_wrt (<) (waiters_list ws)"
  by (cases ws) auto

lemma waiters_nonempty: "waiters_ok ws \<Longrightarrow> waiters_list ws \<noteq> []"
  by (cases ws) auto

lemma waiters_insert_ok:
  assumes "waiters_ok ws"
  shows "waiters_ok (waiters_insert ws t)"
    and "set (waiters_list (waiters_insert ws t)) = insert t (set (waiters_list ws))"
proof -
  have "waiters_ok (waiters_insert ws t) \<and>
      set (waiters_list (waiters_insert ws t)) = insert t (set (waiters_list ws))"
  proof (cases ws)
    case (One held)
    then show ?thesis by auto
  next
    case (Many tasks)
    then have sorted: "key_sorted id tasks" and len: "2 \<le> length tasks"
      using assms by (auto simp: key_sorted_id)
    show ?thesis
    proof (cases "bsearch id tasks t")
      case (Inl at)
      note missing = bsearch_missing [OF sorted Inl]
      have "key_sorted id (insert_at tasks at t)" using missing(3) [of t] by simp
      then show ?thesis
        using Many Inl len by (simp add: key_sorted_id set_insert_at)
    next
      case (Inr at)
      then have "t \<in> set tasks" using bsearch_found [OF sorted Inr] by auto
      then show ?thesis using Many Inr assms by auto
    qed
  qed
  then show "waiters_ok (waiters_insert ws t)"
    and "set (waiters_list (waiters_insert ws t)) = insert t (set (waiters_list ws))" by auto
qed

lemma waiters_remove_ok:
  assumes ok: "waiters_ok ws" and r: "waiters_remove ws t = (ws', emptied)"
  shows "waiters_ok ws'"
    and "(if emptied then {} else set (waiters_list ws')) = set (waiters_list ws) - {t}"
proof -
  have "waiters_ok ws' \<and> (if emptied then {} else set (waiters_list ws')) = set (waiters_list ws) - {t}"
  proof (cases ws)
    case (One held)
    then show ?thesis using r by auto
  next
    case (Many tasks)
    then have sorted: "key_sorted id tasks" and len: "2 \<le> length tasks"
      using ok by (auto simp: key_sorted_id)
    show ?thesis
    proof (cases "bsearch id tasks t")
      case (Inl at)
      then show ?thesis using Many r ok bsearch_missing(2) [OF sorted Inl] by auto
    next
      case (Inr at)
      note found = bsearch_found [OF sorted Inr]
      define ts where "ts = remove_at tasks at"
      have ts: "sorted_wrt (<) ts" "length ts = length tasks - 1" "set ts = set tasks - {t}"
        using key_sorted_remove_at [OF sorted, of at] set_remove_at [OF key_sorted_distinct [OF sorted], of at]
          found by (auto simp: ts_def key_sorted_id length_remove_at)
      have res: "ws' = (if length ts = 1 then One (ts ! 0) else Many ts)" "\<not> emptied"
        using r Many Inr by (auto simp: ts_def Let_def)
      show ?thesis
      proof (cases "length ts = 1")
        case True
        then have "ts = [ts ! 0]" by (cases ts) auto
        then have "set ts = {ts ! 0}" by (metis list.simps(15) list.set(1))
        then show ?thesis using res ts(3) Many True by simp
      next
        case False
        then show ?thesis using res ts Many len by auto
      qed
    qed
  qed
  then show "waiters_ok ws'"
    and "(if emptied then {} else set (waiters_list ws')) = set (waiters_list ws) - {t}" by auto
qed

section \<open>Conditions and the tasks that wait for them\<close>

text \<open>
  What the scheduler relies on: each condition names the ordered tasks that wait
  for it, an insertion adds one task to one condition, a removal takes it out,
  and \<open>take\<close> empties one condition.
\<close>

locale wait_index =
  fixes inv :: "'s \<Rightarrow> bool"
    and tasks_at :: "'s \<Rightarrow> 'k \<Rightarrow> TaskKey list"
    and ins :: "'s \<Rightarrow> 'k \<Rightarrow> TaskKey \<Rightarrow> 's"
    and rem :: "'s \<Rightarrow> 'k \<Rightarrow> TaskKey \<Rightarrow> 's"
    and tak :: "'s \<Rightarrow> 'k \<Rightarrow> Waiters option \<times> 's"
  assumes inv_ins: "inv s \<Longrightarrow> inv (ins s k t)"
    and inv_rem: "inv s \<Longrightarrow> inv (rem s k t)"
    and inv_tak: "inv s \<Longrightarrow> inv (snd (tak s k))"
    and ordered: "inv s \<Longrightarrow> sorted_wrt (<) (tasks_at s k)"
    and set_ins: "inv s \<Longrightarrow> set (tasks_at (ins s k t) k') =
      (if k' = k then insert t (set (tasks_at s k)) else set (tasks_at s k'))"
    and set_rem: "inv s \<Longrightarrow> set (tasks_at (rem s k t) k') =
      (if k' = k then set (tasks_at s k) - {t} else set (tasks_at s k'))"
    and at_tak: "inv s \<Longrightarrow> tasks_at (snd (tak s k)) k' = (if k' = k then [] else tasks_at s k')"
    and tak_list: "inv s \<Longrightarrow> (case fst (tak s k) of None \<Rightarrow> [] | Some ws \<Rightarrow> waiters_list ws) = tasks_at s k"
begin

lemma at_ins: "inv s \<Longrightarrow> tasks_at (ins s k t) k = sorted_list_of_set (insert t (set (tasks_at s k)))"
  using ordered [OF inv_ins, of s k t k] set_ins [of s k t k]
  by (metis sorted_list_of_set.idem_if_sorted_distinct strict_sorted_iff)

lemma ins_list:
  "inv s \<Longrightarrow> inv (foldl (\<lambda>s k. ins s k t) s ks) \<and>
    set (tasks_at (foldl (\<lambda>s k. ins s k t) s ks) k') =
      (if k' \<in> set ks then insert t (set (tasks_at s k')) else set (tasks_at s k'))"
  by (induction ks arbitrary: s) (auto simp: inv_ins set_ins split: if_splits)

lemma rem_list:
  "inv s \<Longrightarrow> inv (foldl (\<lambda>s k. rem s k t) s ks) \<and>
    set (tasks_at (foldl (\<lambda>s k. rem s k t) s ks) k') =
      (if k' \<in> set ks then set (tasks_at s k') - {t} else set (tasks_at s k'))"
  by (induction ks arbitrary: s) (auto simp: inv_rem set_rem split: if_splits)

text \<open>Leaving every condition undoes an insertion that added the task.\<close>

lemma rem_ins:
  "inv s \<Longrightarrow> t \<notin> set (tasks_at s k) \<Longrightarrow> tasks_at (rem (ins s k t) k t) k' = tasks_at s k'"
  by (rule sorted_distinct_set_unique)
    (use ordered inv_ins inv_rem set_ins set_rem in \<open>auto simp: strict_sorted_iff\<close>)

end

text \<open>The representation that both tables share: a map from conditions to waiters.\<close>

locale waiter_map =
  fixes inv :: "'s \<Rightarrow> bool"
    and lookup :: "'s \<Rightarrow> 'k \<Rightarrow> Waiters option"
    and ins :: "'s \<Rightarrow> 'k \<Rightarrow> TaskKey \<Rightarrow> 's"
    and rem :: "'s \<Rightarrow> 'k \<Rightarrow> TaskKey \<Rightarrow> 's"
    and tak :: "'s \<Rightarrow> 'k \<Rightarrow> Waiters option \<times> 's"
  assumes m_ins: "inv s \<Longrightarrow> inv (ins s k t)"
    and m_rem: "inv s \<Longrightarrow> inv (rem s k t)"
    and m_tak: "inv s \<Longrightarrow> inv (snd (tak s k))"
    and m_ok: "inv s \<Longrightarrow> lookup s k = Some ws \<Longrightarrow> waiters_ok ws"
    and lookup_ins: "inv s \<Longrightarrow> lookup (ins s k t) k' =
      (if k' = k then Some (case lookup s k of None \<Rightarrow> One t | Some ws \<Rightarrow> waiters_insert ws t)
       else lookup s k')"
    and lookup_rem: "inv s \<Longrightarrow> lookup (rem s k t) k' =
      (if k' = k then (case lookup s k of None \<Rightarrow> None
         | Some ws \<Rightarrow> if snd (waiters_remove ws t) then None else Some (fst (waiters_remove ws t)))
       else lookup s k')"
    and lookup_tak: "inv s \<Longrightarrow> lookup (snd (tak s k)) k' = (if k' = k then None else lookup s k')"
    and tak_lookup: "inv s \<Longrightarrow> fst (tak s k) = lookup s k"

sublocale waiter_map \<subseteq>
  wait_index inv "\<lambda>s k. case lookup s k of None \<Rightarrow> [] | Some ws \<Rightarrow> waiters_list ws" ins rem tak
proof
  fix s k k' t
  assume inv: "inv s"
  show "inv (ins s k t)" by (rule m_ins [OF inv])
  show "inv (rem s k t)" by (rule m_rem [OF inv])
  show "inv (snd (tak s k))" by (rule m_tak [OF inv])
  show "sorted_wrt (<) (case lookup s k of None \<Rightarrow> [] | Some ws \<Rightarrow> waiters_list ws)"
    using m_ok [OF inv, of k] waiters_sorted by (auto split: option.split)
  show "set (case lookup (ins s k t) k' of None \<Rightarrow> [] | Some ws \<Rightarrow> waiters_list ws) =
      (if k' = k then insert t (set (case lookup s k of None \<Rightarrow> [] | Some ws \<Rightarrow> waiters_list ws))
       else set (case lookup s k' of None \<Rightarrow> [] | Some ws \<Rightarrow> waiters_list ws))"
    using m_ok [OF inv, of k] waiters_insert_ok(2)
    by (auto simp: lookup_ins [OF inv] split: option.split)
  show "set (case lookup (rem s k t) k' of None \<Rightarrow> [] | Some ws \<Rightarrow> waiters_list ws) =
      (if k' = k then set (case lookup s k of None \<Rightarrow> [] | Some ws \<Rightarrow> waiters_list ws) - {t}
       else set (case lookup s k' of None \<Rightarrow> [] | Some ws \<Rightarrow> waiters_list ws))"
  proof (cases "lookup s k")
    case (Some ws)
    show ?thesis
      using waiters_remove_ok(2) [OF m_ok [OF inv Some], of t "fst (waiters_remove ws t)" "snd (waiters_remove ws t)"]
      by (simp add: lookup_rem [OF inv] Some split: if_splits)
  qed (simp add: lookup_rem [OF inv])
  show "(case lookup (snd (tak s k)) k' of None \<Rightarrow> [] | Some ws \<Rightarrow> waiters_list ws) =
      (if k' = k then [] else case lookup s k' of None \<Rightarrow> [] | Some ws \<Rightarrow> waiters_list ws)"
    by (simp add: lookup_tak [OF inv])
  show "(case fst (tak s k) of None \<Rightarrow> [] | Some ws \<Rightarrow> waiters_list ws) =
      (case lookup s k of None \<Rightarrow> [] | Some ws \<Rightarrow> waiters_list ws)"
    by (simp add: tak_lookup [OF inv])
qed

section \<open>The wake index implements it\<close>

definition bucket_at :: "WakeBucket list \<Rightarrow> WakeKey \<Rightarrow> Waiters option" where
  "bucket_at bs w = map_option waiters (find (\<lambda>b. wake b = w) bs)"

definition buckets_ok :: "WakeBucket list \<Rightarrow> bool" where
  "buckets_ok bs \<longleftrightarrow> key_sorted wake bs \<and> (\<forall>b \<in> set bs. waiters_ok (waiters b))"

definition wake_index_ok :: "WakeIndex \<Rightarrow> bool" where
  "wake_index_ok slots \<longleftrightarrow> (\<forall>bs \<in> set slots. buckets_ok bs)"

definition wake_lookup :: "WakeIndex \<Rightarrow> WakeKey \<Rightarrow> Waiters option" where
  "wake_lookup slots w =
     (case get_opt slots (slot_of (wake_task w)) of None \<Rightarrow> None | Some bs \<Rightarrow> bucket_at bs w)"

lemma bucket_at_Some:
  assumes "key_sorted wake bs"
  shows "bucket_at bs w = Some ws \<longleftrightarrow> WakeBucket w ws \<in> set bs"
proof -
  have "find (\<lambda>b. wake b = w) bs = Some b \<longleftrightarrow> b \<in> set bs \<and> wake b = w" for b
    using assms
  proof (induction bs)
    case (Cons c bs)
    then have "\<forall>b \<in> set bs. wake c < wake b" "key_sorted wake bs" by (auto simp: key_sorted_def)
    with Cons.IH show ?case by auto
  qed simp
  then show ?thesis
    unfolding bucket_at_def map_option_eq_Some by (metis WakeBucket.collapse WakeBucket.sel)
qed

lemma bucket_at_cong:
  assumes "key_sorted wake bs" "key_sorted wake cs"
    and "\<And>ws. WakeBucket w ws \<in> set bs \<longleftrightarrow> WakeBucket w ws \<in> set cs"
  shows "bucket_at bs w = bucket_at cs w"
proof (cases "bucket_at cs w")
  case None
  then show ?thesis using assms bucket_at_Some by (metis option.exhaust)
next
  case (Some ws)
  then show ?thesis using assms bucket_at_Some by metis
qed

lemma bucket_at_found:
  assumes "key_sorted wake bs" "bsearch wake bs w = Inr at"
  shows "bucket_at bs w = Some (waiters (bs ! at))" and "wake (bs ! at) = w" and "at < length bs"
  using bsearch_found [OF assms] bucket_at_Some [OF assms(1)]
  by (metis WakeBucket.collapse nth_mem, simp_all)

lemma bucket_at_missing:
  assumes "key_sorted wake bs" "bsearch wake bs w = Inl at"
  shows "bucket_at bs w = None"
  using bsearch_missing(2) [OF assms] bucket_at_Some [OF assms(1), of w]
  by (metis WakeBucket.sel(1) imageI option.exhaust)

lemma bucket_other: "wake b = w \<Longrightarrow> w' \<noteq> w \<Longrightarrow> WakeBucket w' ws \<noteq> b"
  by auto

lemma buckets_insert_spec:
  assumes ok: "buckets_ok bs"
  shows "buckets_ok (buckets_insert bs w t)"
    and "bucket_at (buckets_insert bs w t) w' =
      (if w' = w then Some (case bucket_at bs w of None \<Rightarrow> One t | Some ws \<Rightarrow> waiters_insert ws t)
       else bucket_at bs w')"
proof -
  have sorted: "key_sorted wake bs" using ok by (simp add: buckets_ok_def)
  have "buckets_ok (buckets_insert bs w t) \<and> bucket_at (buckets_insert bs w t) w' =
      (if w' = w then Some (case bucket_at bs w of None \<Rightarrow> One t | Some ws \<Rightarrow> waiters_insert ws t)
       else bucket_at bs w')"
  proof (cases "bsearch wake bs w")
    case (Inl at)
    define cs where "cs = insert_at bs at (WakeBucket w (One t))"
    have cs: "buckets_insert bs w t = cs" by (simp add: buckets_insert_def Inl cs_def)
    have sorted': "key_sorted wake cs" using bsearch_missing(3) [OF sorted Inl] by (simp add: cs_def)
    have set: "set cs = insert (WakeBucket w (One t)) (set bs)" by (simp add: cs_def set_insert_at)
    have "bucket_at cs w' = bucket_at bs w'" if "w' \<noteq> w"
      by (rule bucket_at_cong [OF sorted' sorted]) (use that set in auto)
    moreover have "bucket_at cs w = Some (One t)" using bucket_at_Some [OF sorted'] set by auto
    ultimately show ?thesis
      using ok sorted' set bucket_at_missing [OF sorted Inl] by (auto simp: cs buckets_ok_def)
  next
    case (Inr at)
    note found = bucket_at_found [OF sorted Inr]
    define b where "b = WakeBucket w (waiters_insert (waiters (bs ! at)) t)"
    define cs where "cs = bs[at := b]"
    have cs: "buckets_insert bs w t = cs" by (simp add: buckets_insert_def Inr cs_def b_def found)
    have sorted': "key_sorted wake cs"
      using key_sorted_update [OF sorted found(3)] found(2) by (simp add: cs_def b_def)
    have set: "set cs = insert b (set bs - {bs ! at})"
      unfolding cs_def by (rule set_update_distinct [OF key_sorted_distinct [OF sorted] found(3)])
    have "bucket_at cs w' = bucket_at bs w'" if "w' \<noteq> w"
      by (rule bucket_at_cong [OF sorted' sorted]) (use that set bucket_other [OF found(2) that] in \<open>auto simp: b_def\<close>)
    moreover have "bucket_at cs w = Some (waiters_insert (waiters (bs ! at)) t)"
      using bucket_at_Some [OF sorted'] set by (auto simp: b_def)
    moreover have "waiters_ok (waiters b)"
      using ok found(3) by (auto simp: b_def buckets_ok_def intro!: waiters_insert_ok)
    ultimately show ?thesis
      using ok sorted' set found(1) by (auto simp: cs buckets_ok_def)
  qed
  then show "buckets_ok (buckets_insert bs w t)"
    and "bucket_at (buckets_insert bs w t) w' =
      (if w' = w then Some (case bucket_at bs w of None \<Rightarrow> One t | Some ws \<Rightarrow> waiters_insert ws t)
       else bucket_at bs w')" by auto
qed

lemma remove_bucket:
  assumes ok: "buckets_ok bs" and found: "bsearch wake bs w = Inr at"
  shows "buckets_ok (remove_at bs at)"
    and "bucket_at (remove_at bs at) w' = (if w' = w then None else bucket_at bs w')"
proof -
  have sorted: "key_sorted wake bs" using ok by (simp add: buckets_ok_def)
  note at = bucket_at_found [OF sorted found]
  have sorted': "key_sorted wake (remove_at bs at)" by (rule key_sorted_remove_at [OF sorted])
  have set: "set (remove_at bs at) = set bs - {bs ! at}"
    by (rule set_remove_at [OF key_sorted_distinct [OF sorted] at(3)])
  show "buckets_ok (remove_at bs at)" using ok sorted' set by (simp add: buckets_ok_def)
  have "bucket_at (remove_at bs at) w' = bucket_at bs w'" if "w' \<noteq> w"
    by (rule bucket_at_cong [OF sorted' sorted]) (use that set bucket_other [OF at(2) that] in auto)
  moreover have "bucket_at (remove_at bs at) w = None"
  proof (rule ccontr)
    assume "bucket_at (remove_at bs at) w \<noteq> None"
    then obtain ws where ws: "WakeBucket w ws \<in> set bs - {bs ! at}"
      using bucket_at_Some [OF sorted'] set by auto
    then have "WakeBucket w ws = bs ! at"
      using inj_onD [OF key_sorted_inj [OF sorted], of "WakeBucket w ws" "bs ! at"] at(2,3) by simp
    then show False using ws by simp
  qed
  ultimately show "bucket_at (remove_at bs at) w' = (if w' = w then None else bucket_at bs w')" by simp
qed

lemma buckets_remove_spec:
  assumes ok: "buckets_ok bs"
  shows "buckets_ok (buckets_remove bs w t)"
    and "bucket_at (buckets_remove bs w t) w' =
      (if w' = w then (case bucket_at bs w of None \<Rightarrow> None
         | Some ws \<Rightarrow> if snd (waiters_remove ws t) then None else Some (fst (waiters_remove ws t)))
       else bucket_at bs w')"
proof -
  have sorted: "key_sorted wake bs" using ok by (simp add: buckets_ok_def)
  have "buckets_ok (buckets_remove bs w t) \<and> bucket_at (buckets_remove bs w t) w' =
      (if w' = w then (case bucket_at bs w of None \<Rightarrow> None
         | Some ws \<Rightarrow> if snd (waiters_remove ws t) then None else Some (fst (waiters_remove ws t)))
       else bucket_at bs w')"
  proof (cases "bsearch wake bs w")
    case (Inl at)
    then show ?thesis using ok bucket_at_missing [OF sorted Inl] by (simp add: buckets_remove_def)
  next
    case (Inr at)
    note found = bucket_at_found [OF sorted Inr]
    obtain ws e where we: "waiters_remove (waiters (bs ! at)) t = (ws, e)" by fastforce
    define b where "b = WakeBucket w ws"
    define cs where "cs = bs[at := b]"
    have step: "buckets_remove bs w t = (if e then remove_at cs at else cs)"
      by (simp add: buckets_remove_def Inr we cs_def b_def found)
    have "waiters_ok (waiters (bs ! at))" using ok found(3) by (simp add: buckets_ok_def)
    then have wok: "waiters_ok ws" using waiters_remove_ok(1) we by blast
    have sorted': "key_sorted wake cs"
      using key_sorted_update [OF sorted found(3)] found(2) by (simp add: cs_def b_def)
    have set: "set cs = insert b (set bs - {bs ! at})"
      unfolding cs_def by (rule set_update_distinct [OF key_sorted_distinct [OF sorted] found(3)])
    have ok': "buckets_ok cs" using ok sorted' set wok by (auto simp: buckets_ok_def b_def)
    have same: "bucket_at cs w' = bucket_at bs w'" if "w' \<noteq> w" for w'
      by (rule bucket_at_cong [OF sorted' sorted])
        (use that set bucket_other [OF found(2) that] in \<open>auto simp: b_def\<close>)
    have new: "bucket_at cs w = Some ws" using bucket_at_Some [OF sorted'] set by (auto simp: b_def)
    obtain at' where at': "bsearch wake cs w = Inr at'"
      using bsearch_iff [OF sorted', of w] set by (auto simp: b_def)
    have "at' = at"
    proof -
      have "at' < length cs" "wake (cs ! at') = w" "at < length cs" "wake (cs ! at) = w"
        using bsearch_found [OF sorted' at'] found by (auto simp: cs_def b_def)
      then have "cs ! at' = cs ! at"
        using inj_onD [OF key_sorted_inj [OF sorted'], of "cs ! at'" "cs ! at"] by simp
      then show ?thesis
        using key_sorted_distinct [OF sorted'] \<open>at' < length cs\<close> \<open>at < length cs\<close>
        by (simp add: nth_eq_iff_index_eq)
    qed
    then show ?thesis
      using remove_bucket [OF ok', of w at] at' ok' same new found(1) we by (auto simp: step)
  qed
  then show "buckets_ok (buckets_remove bs w t)"
    and "bucket_at (buckets_remove bs w t) w' =
      (if w' = w then (case bucket_at bs w of None \<Rightarrow> None
         | Some ws \<Rightarrow> if snd (waiters_remove ws t) then None else Some (fst (waiters_remove ws t)))
       else bucket_at bs w')" by auto
qed

lemma wake_index_ok_slot: "wake_index_ok slots \<Longrightarrow> i < length slots \<Longrightarrow> buckets_ok (slots ! i)"
  by (simp add: wake_index_ok_def)

lemma wake_index_ok_update: "wake_index_ok slots \<Longrightarrow> buckets_ok bs \<Longrightarrow> wake_index_ok (slots[i := bs])"
  by (auto simp: wake_index_ok_def dest!: subsetD [OF set_update_subset_insert])

lemma buckets_ok_Nil [simp]: "buckets_ok []" "bucket_at [] w = None"
  by (simp_all add: buckets_ok_def key_sorted_def bucket_at_def)

lemma wake_index_grow: "wake_index_ok slots \<Longrightarrow> wake_index_ok (grow slots n [])"
  using set_grow [of slots n "[]"] by (auto simp: wake_index_ok_def)

lemma wake_lookup_grow: "wake_lookup (grow slots n []) w = wake_lookup slots w"
  by (auto simp: wake_lookup_def get_opt_def length_grow nth_grow split: option.split)

lemma wake_lookup_update:
  "i < length slots \<Longrightarrow> wake_lookup (slots[i := bs]) w =
    (if slot_of (wake_task w) = i then bucket_at bs w else wake_lookup slots w)"
  by (simp add: wake_lookup_def get_opt_def)

interpretation wake_map: waiter_map wake_index_ok wake_lookup wake_index_insert wake_index_remove wake_index_take
proof
  fix s w w' t
  assume ok: "wake_index_ok s"
  define i where "i = slot_of (wake_task w)"
  have wi: "slot_of (wake_task w) = i" by (simp add: i_def)
  define g where "g = grow s (i + 1) []"
  have g: "wake_index_ok g" "i < length g" "wake_lookup g = wake_lookup s"
    using ok by (auto simp: g_def wake_index_grow length_grow wake_lookup_grow fun_eq_iff)
  have ins: "wake_index_insert s w t = g[i := buckets_insert (g ! i) w t]"
    by (simp only: wake_index_insert_def g_def wi Let_def)
  note bins = buckets_insert_spec [OF wake_index_ok_slot [OF g(1,2)], of w t]
  show "wake_index_ok (wake_index_insert s w t)"
    using g bins(1) by (simp add: ins wake_index_ok_update)
  have gi: "bucket_at (g ! i) w' = wake_lookup s w'" if "slot_of (wake_task w') = i" for w'
    using g(2) that by (simp add: g(3) [symmetric] wake_lookup_def get_opt_def)
  show "wake_lookup (wake_index_insert s w t) w' =
      (if w' = w then Some (case wake_lookup s w of None \<Rightarrow> One t | Some ws \<Rightarrow> waiters_insert ws t)
       else wake_lookup s w')"
    using g(2,3) gi bins(2) by (auto simp: ins wake_lookup_update [OF g(2)] wi)
  show "wake_index_ok (wake_index_remove s w t)"
    using ok buckets_remove_spec(1) wake_index_ok_slot
    by (auto simp: wake_index_remove_def get_opt_def Let_def intro!: wake_index_ok_update)
  show "wake_lookup (wake_index_remove s w t) w' =
      (if w' = w then (case wake_lookup s w of None \<Rightarrow> None
         | Some ws \<Rightarrow> if snd (waiters_remove ws t) then None else Some (fst (waiters_remove ws t)))
       else wake_lookup s w')"
  proof (cases "i < length s")
    case True
    have si: "bucket_at (s ! i) w' = wake_lookup s w'" if "slot_of (wake_task w') = i" for w'
      using True that by (simp add: wake_lookup_def get_opt_def)
    have "wake_index_remove s w t = s[i := buckets_remove (s ! i) w t]"
      using True by (simp add: wake_index_remove_def wi get_opt_def Let_def)
    then show ?thesis
      using si buckets_remove_spec(2) [OF wake_index_ok_slot [OF ok True], of w t]
      by (auto simp: wake_lookup_update [OF True] wi)
  qed (auto simp: wake_index_remove_def wake_lookup_def get_opt_def wi)
  have take: "wake_index_ok (snd (wake_index_take s w)) \<and>
      wake_lookup (snd (wake_index_take s w)) w' = (if w' = w then None else wake_lookup s w') \<and>
      fst (wake_index_take s w) = wake_lookup s w"
  proof (cases "i < length s")
    case True
    note bi = wake_index_ok_slot [OF ok True]
    have sorted: "key_sorted wake (s ! i)" using bi by (simp add: buckets_ok_def)
    have si: "bucket_at (s ! i) w' = wake_lookup s w'" if "slot_of (wake_task w') = i" for w'
      using True that by (simp add: wake_lookup_def get_opt_def)
    show ?thesis
    proof (cases "bsearch wake (s ! i) w")
      case (Inl at)
      then have "wake_index_take s w = (None, s)"
        using True by (simp add: wake_index_take_def wi get_opt_def)
      then show ?thesis using ok si [of w] bucket_at_missing [OF sorted Inl] by (auto simp: wi)
    next
      case (Inr at)
      then have "wake_index_take s w = (Some (waiters (s ! i ! at)), s[i := remove_at (s ! i) at])"
        using True by (simp add: wake_index_take_def wi get_opt_def)
      then show ?thesis
        using ok si remove_bucket [OF bi Inr] bucket_at_found(1) [OF sorted Inr]
        by (auto simp: wake_lookup_update [OF True] wi intro!: wake_index_ok_update)
    qed
  qed (use ok in \<open>auto simp: wake_index_take_def wake_lookup_def get_opt_def wi\<close>)
  then show "wake_index_ok (snd (wake_index_take s w))"
    and "wake_lookup (snd (wake_index_take s w)) w' = (if w' = w then None else wake_lookup s w')"
    and "fst (wake_index_take s w) = wake_lookup s w" by auto
next
  fix s w ws
  assume ok: "wake_index_ok s" and look: "wake_lookup s w = Some ws"
  then have "buckets_ok (s ! slot_of (wake_task w))" "bucket_at (s ! slot_of (wake_task w)) w = Some ws"
    by (auto simp: wake_lookup_def get_opt_def wake_index_ok_slot split: if_splits)
  then show "waiters_ok ws"
    using bucket_at_Some [of "s ! slot_of (wake_task w)" w ws] by (force simp: buckets_ok_def)
qed

abbreviation wake_tasks :: "WakeIndex \<Rightarrow> WakeKey \<Rightarrow> TaskKey list" where
  "wake_tasks s w \<equiv> (case wake_lookup s w of None \<Rightarrow> [] | Some ws \<Rightarrow> waiters_list ws)"

lemma wake_index_ok_Nil [simp]: "wake_index_ok []" "wake_lookup [] w = None"
  by (simp_all add: wake_index_ok_def wake_lookup_def)

section \<open>So does the completion table\<close>

definition completions_ok :: "CompletionIndex \<Rightarrow> bool" where
  "completions_ok cs \<longleftrightarrow> bt_ok cs \<and> (\<forall>ws \<in> snd ` set cs. waiters_ok ws)"

lemma set_bt_insert_subset: "set (bt_insert k v m) \<subseteq> insert (k, v) (set m)"
  by (induction m rule: bt_insert.induct) auto

lemma completions_ok_insert:
  "completions_ok cs \<Longrightarrow> waiters_ok ws \<Longrightarrow> completions_ok (bt_insert c ws cs)"
  using set_bt_insert_subset [of c ws cs] by (auto simp: completions_ok_def)

lemma completions_ok_remove: "completions_ok cs \<Longrightarrow> completions_ok (bt_remove c cs)"
  by (auto simp: completions_ok_def) (auto simp: bt_remove_def)

lemma completions_ok_lookup: "completions_ok cs \<Longrightarrow> map_of cs c = Some ws \<Longrightarrow> waiters_ok ws"
  by (force simp: completions_ok_def dest: map_of_SomeD)

interpretation completion_map:
  waiter_map completions_ok map_of completion_insert completion_remove completion_take
proof
  fix s c c' t
  assume ok: "completions_ok s"
  then have bt: "bt_ok s" by (simp add: completions_ok_def)
  show "completions_ok (completion_insert s c t)"
    using ok completions_ok_lookup [OF ok, of c]
    by (auto simp: completion_insert_def intro!: completions_ok_insert waiters_insert_ok split: option.split)
  show "map_of (completion_insert s c t) c' =
      (if c' = c then Some (case map_of s c of None \<Rightarrow> One t | Some ws \<Rightarrow> waiters_insert ws t)
       else map_of s c')"
    using bt by (auto simp: completion_insert_def split: option.split)
  show "completions_ok (completion_remove s c t)"
    using ok completions_ok_lookup [OF ok, of c] waiters_remove_ok(1)
    by (auto simp: completion_remove_def Let_def intro!: completions_ok_insert completions_ok_remove
        split: option.split prod.split)
  show "map_of (completion_remove s c t) c' =
      (if c' = c then (case map_of s c of None \<Rightarrow> None
         | Some ws \<Rightarrow> if snd (waiters_remove ws t) then None else Some (fst (waiters_remove ws t)))
       else map_of s c')"
    using bt by (auto simp: completion_remove_def Let_def split: option.split prod.split)
  show "completions_ok (snd (completion_take s c))"
    using ok by (simp add: completion_take_def completions_ok_remove)
  show "map_of (snd (completion_take s c)) c' = (if c' = c then None else map_of s c')"
    by (simp add: completion_take_def)
  show "fst (completion_take s c) = map_of s c"
    by (simp add: completion_take_def)
next
  fix s c ws
  assume "completions_ok s" "map_of s c = Some ws"
  then show "waiters_ok ws" by (rule completions_ok_lookup)
qed

abbreviation completion_tasks :: "CompletionIndex \<Rightarrow> CompletionKey \<Rightarrow> TaskKey list" where
  "completion_tasks cs c \<equiv> (case map_of cs c of None \<Rightarrow> [] | Some ws \<Rightarrow> waiters_list ws)"

section \<open>The park index\<close>

definition park_ok :: "ParkIndex \<Rightarrow> bool" where
  "park_ok p \<longleftrightarrow> bt_ok (sets p) \<and> wake_index_ok (park_wakes p) \<and> completions_ok (completions p)"

fun park_tasks :: "ParkIndex \<Rightarrow> WaitSourceKey \<Rightarrow> TaskKey list" where
  "park_tasks p (WakeSource w) = wake_tasks (park_wakes p) w"
| "park_tasks p (CompletionSource c) = completion_tasks (completions p) c"

definition park_sources :: "ParkIndex \<Rightarrow> WaitSetKey \<Rightarrow> WaitSourceKey set" where
  "park_sources p wait = (case map_of (sets p) wait of None \<Rightarrow> {} | Some sources \<Rightarrow> set sources)"

lemma park_default_ok [simp]: "park_ok park_default"
  by (simp add: park_ok_def park_default_def completions_ok_def)

lemma park_add_source_ok:
  assumes "park_ok p"
  shows "park_ok (park_add_source t p src)"
    and "sets (park_add_source t p src) = sets p"
    and "set (park_tasks (park_add_source t p src) src') =
      (if src' = src then insert t (set (park_tasks p src)) else set (park_tasks p src'))"
  using assms
  by (cases src; cases src'; simp add: park_ok_def wake_map.inv_ins completion_map.inv_ins
      wake_map.set_ins completion_map.set_ins)+

lemma park_drop_source_ok:
  assumes "park_ok p"
  shows "park_ok (park_drop_source t p src)"
    and "sets (park_drop_source t p src) = sets p"
    and "set (park_tasks (park_drop_source t p src) src') =
      (if src' = src then set (park_tasks p src) - {t} else set (park_tasks p src'))"
  using assms
  by (cases src; cases src'; simp add: park_ok_def wake_map.inv_rem completion_map.inv_rem
      wake_map.set_rem completion_map.set_rem)+

lemma park_add_sources:
  "park_ok p \<Longrightarrow> park_ok (foldl (park_add_source t) p srcs) \<and>
    sets (foldl (park_add_source t) p srcs) = sets p \<and>
    set (park_tasks (foldl (park_add_source t) p srcs) src) =
      (if src \<in> set srcs then insert t (set (park_tasks p src)) else set (park_tasks p src))"
  by (induction srcs arbitrary: p) (auto simp: park_add_source_ok)

lemma park_drop_sources:
  "park_ok p \<Longrightarrow> park_ok (foldl (park_drop_source t) p srcs) \<and>
    sets (foldl (park_drop_source t) p srcs) = sets p \<and>
    set (park_tasks (foldl (park_drop_source t) p srcs) src) =
      (if src \<in> set srcs then set (park_tasks p src) - {t} else set (park_tasks p src))"
  by (induction srcs arbitrary: p) (auto simp: park_drop_source_ok)

lemma park_tasks_sets [simp]: "park_tasks (p\<lparr>sets := x\<rparr>) src = park_tasks p src"
  by (cases src) auto

lemma park_ok_sets: "park_ok p \<Longrightarrow> bt_ok x \<Longrightarrow> park_ok (p\<lparr>sets := x\<rparr>)"
  by (simp add: park_ok_def)

lemma park_remove_ok:
  assumes "park_ok p"
  shows "park_ok (park_remove p wait t)"
    and "park_sources (park_remove p wait t) wait' = (if wait' = wait then {} else park_sources p wait')"
    and "set (park_tasks (park_remove p wait t) src) =
      (if src \<in> park_sources p wait then set (park_tasks p src) - {t} else set (park_tasks p src))"
proof -
  have bt: "bt_ok (sets p)" using assms by (simp add: park_ok_def)
  have p': "park_ok (p\<lparr>sets := bt_remove wait (sets p)\<rparr>)" by (rule park_ok_sets [OF assms]) (simp add: bt)
  note drop = park_drop_sources [OF p', of t]
  show "park_ok (park_remove p wait t)"
    using assms drop by (simp add: park_remove_def split: option.split)
  show "park_sources (park_remove p wait t) wait' = (if wait' = wait then {} else park_sources p wait')"
    using drop by (auto simp: park_remove_def park_sources_def split: option.split)
  show "set (park_tasks (park_remove p wait t) src) =
      (if src \<in> park_sources p wait then set (park_tasks p src) - {t} else set (park_tasks p src))"
    using drop by (auto simp: park_remove_def park_sources_def split: option.split)
qed

lemma park_insert_ok:
  assumes "park_ok p"
  shows "park_ok (park_insert p wait t srcs)"
    and "park_sources (park_insert p wait t srcs) wait' = (if wait' = wait then set srcs else park_sources p wait')"
    and "set (park_tasks (park_insert p wait t srcs) src) =
      (if src \<in> set srcs then insert t (set (park_tasks p src))
       else if src \<in> park_sources p wait then set (park_tasks p src) - {t} else set (park_tasks p src))"
proof -
  note rem = park_remove_ok [OF assms, of wait t]
  define q where "q = foldl (park_add_source t) (park_remove p wait t) srcs"
  note add = park_add_sources [OF rem(1), of t srcs]
  have q: "park_ok q" "sets q = sets (park_remove p wait t)" using add [of undefined] by (simp_all add: q_def)
  then have bt: "bt_ok (sets q)" by (simp add: park_ok_def)
  have step: "park_insert p wait t srcs = q\<lparr>sets := bt_insert wait srcs (sets q)\<rparr>"
    by (simp add: park_insert_def q_def Let_def)
  show "park_ok (park_insert p wait t srcs)" using bt q by (simp add: step park_ok_sets)
  show "park_sources (park_insert p wait t srcs) wait' = (if wait' = wait then set srcs else park_sources p wait')"
    using bt rem(2) [of wait'] q(2) by (simp add: step park_sources_def)
  show "set (park_tasks (park_insert p wait t srcs) src) =
      (if src \<in> set srcs then insert t (set (park_tasks p src))
       else if src \<in> park_sources p wait then set (park_tasks p src) - {t} else set (park_tasks p src))"
    using add [of src] rem(3) [of src] by (auto simp: step q_def)
qed

section \<open>The task index is a generation map\<close>

definition task_index_ok :: "TaskIndex \<Rightarrow> bool" where
  "task_index_ok slots \<longleftrightarrow> (\<forall>i < length slots. \<forall>t. slots ! i = Some t \<longrightarrow> slot_of (task_key t) = i)"

lemma task_get_Some:
  "task_get slots k = Some st \<longleftrightarrow> slot_of k < length slots \<and> slots ! slot_of k = Some (IndexedTask k st)"
  by (auto simp: task_get_def get_opt_def split: option.splits if_splits) (metis IndexedTask.sel(2))

lemma task_get_insert:
  "task_get (task_insert slots k st) k' =
    (if k' = k then Some st else if vm k' = vm k then None else task_get slots k')"
  by (auto simp: task_insert_def task_get_def get_opt_def slot_of_eq_iff [symmetric] length_grow nth_grow
      nth_list_update split: option.splits)

lemma task_get_remove: "task_get (task_remove slots k) k' = (if k' = k then None else task_get slots k')"
  by (auto simp: task_remove_def task_get_def get_opt_def nth_list_update split: option.splits if_splits)

lemma task_index_ok_insert: "task_index_ok slots \<Longrightarrow> task_index_ok (task_insert slots k st)"
  by (auto simp: task_index_ok_def task_insert_def length_grow nth_grow nth_list_update split: if_splits)

lemma task_index_ok_clear: "task_index_ok slots \<Longrightarrow> task_index_ok (slots[i := None])"
  unfolding task_index_ok_def
proof (intro allI impI)
  fix j t
  assume "\<forall>i < length slots. \<forall>t. slots ! i = Some t \<longrightarrow> slot_of (task_key t) = i"
    and "j < length (slots[i := None])" "slots[i := None] ! j = Some t"
  then show "slot_of (task_key t) = j" by (cases "j = i") auto
qed

lemma task_index_ok_remove: "task_index_ok slots \<Longrightarrow> task_index_ok (task_remove slots k)"
  by (auto simp: task_remove_def task_index_ok_clear split: option.splits)

interpretation task_map: gen_map task_index_ok task_get task_insert task_remove
proof
  fix s :: TaskIndex and k k' v
  assume ok: "task_index_ok s"
  show "task_index_ok (task_insert s k v)" by (rule task_index_ok_insert [OF ok])
  show "task_index_ok (task_remove s k)" by (rule task_index_ok_remove [OF ok])
  show "task_get (task_insert s k v) k' =
      (if k' = k then Some v else if vm k' = vm k then None else task_get s k')"
    by (rule task_get_insert)
  show "task_get (task_remove s k) k' = (if k' = k then None else task_get s k')"
    by (rule task_get_remove)
  assume "task_get s k \<noteq> None" "task_get s k' \<noteq> None" "vm k = vm k'"
  then obtain x x' where "task_get s k = Some x" "task_get s k' = Some x'" "slot_of k = slot_of k'"
    by (auto simp: slot_of_def)
  then show "k = k'" unfolding task_get_Some by (metis IndexedTask.inject option.inject)
qed

lemma set_task_iter:
  assumes "task_index_ok slots"
  shows "(k, st) \<in> set (task_iter slots) \<longleftrightarrow> task_get slots k = Some st"
proof
  assume "(k, st) \<in> set (task_iter slots)"
  then obtain t where "Some t \<in> set slots" "k = task_key t" "st = task_state t"
    by (auto simp: task_iter_def List.map_filter_def)
  moreover from this obtain i where "i < length slots" "slots ! i = Some t"
    by (auto simp: in_set_conv_nth)
  ultimately show "task_get slots k = Some st"
    using assms by (auto simp: task_get_Some task_index_ok_def)
next
  assume "task_get slots k = Some st"
  then have "Some (IndexedTask k st) \<in> set slots"
    by (auto simp: task_get_Some) (metis nth_mem)
  then show "(k, st) \<in> set (task_iter slots)"
    by (force simp: task_iter_def List.map_filter_def)
qed

lemma task_values_iter: "task_values slots = map snd (task_iter slots)"
  by (simp add: task_values_def task_iter_def)

lemma wake_insert_tasks:
  assumes "wake_index_ok s"
  shows "wake_index_ok (foldl (\<lambda>s t. wake_index_insert s w t) s ts) \<and>
    set (wake_tasks (foldl (\<lambda>s t. wake_index_insert s w t) s ts) w') =
      (if w' = w then set (wake_tasks s w) \<union> set ts else set (wake_tasks s w'))"
  using assms
proof (induction ts arbitrary: s)
  case (Cons t ts)
  show ?case
    using Cons.IH [OF wake_map.inv_ins [OF Cons.prems, of w t]] wake_map.set_ins [OF Cons.prems, of w t]
    by (auto split: if_splits)
qed simp

text \<open>
  C34: after tasks were blocked on a condition in any order, with repetitions,
  taking the condition gives each of them once in ascending task order, empties
  the condition, and leaves the tasks of every other condition as they were.
\<close>

theorem wake_index_take_ordered:
  assumes "wake_index_ok s"
  shows "case wake_index_take (foldl (\<lambda>s t. wake_index_insert s w t) s ts) w of (found, s') \<Rightarrow>
    (case found of None \<Rightarrow> [] | Some ws \<Rightarrow> waiters_list ws) =
      sorted_list_of_set (set (wake_tasks s w) \<union> set ts) \<and>
    wake_index_ok s' \<and> wake_tasks s' w = [] \<and>
    (\<forall>w'. w' = w \<or> wake_tasks s' w' = wake_tasks s w')"
proof -
  define s1 where "s1 = foldl (\<lambda>s t. wake_index_insert s w t) s ts"
  have ok: "wake_index_ok s1" and tasks: "set (wake_tasks s1 w) = set (wake_tasks s w) \<union> set ts"
    and other: "\<And>w'. w' \<noteq> w \<Longrightarrow> set (wake_tasks s1 w') = set (wake_tasks s w')"
    using wake_insert_tasks [OF assms, of w ts] by (auto simp: s1_def)
  have list: "wake_tasks s1 w = sorted_list_of_set (set (wake_tasks s w) \<union> set ts)"
    using wake_map.ordered [OF ok, of w] tasks
    by (metis sorted_list_of_set.idem_if_sorted_distinct strict_sorted_iff)
  have same: "wake_tasks s1 w' = wake_tasks s w'" if "w' \<noteq> w" for w'
    by (rule sorted_distinct_set_unique)
      (use wake_map.ordered [OF ok, of w'] wake_map.ordered [OF assms, of w'] other [OF that] in
        \<open>simp_all add: strict_sorted_iff\<close>)
  obtain found s' where take: "wake_index_take s1 w = (found, s')" by fastforce
  have found: "(case found of None \<Rightarrow> [] | Some ws \<Rightarrow> waiters_list ws) = wake_tasks s1 w"
    and s': "wake_index_ok s'" "\<And>w'. wake_tasks s' w' = (if w' = w then [] else wake_tasks s1 w')"
    using wake_map.tak_list [OF ok, of w] wake_map.inv_tak [OF ok, of w] wake_map.at_tak [OF ok, of w]
    by (simp_all only: take fst_conv snd_conv)
  show ?thesis
    unfolding s1_def [symmetric] take prod.case using found s' list same by simp
qed

theorem wake_index_take_ordered_witness:
  "(case fst (wake_index_take (foldl (\<lambda>s t. wake_index_insert s (Send (TaskKey 9 2)) t) []
        [TaskKey 3 0, TaskKey 1 0, TaskKey 3 0]) (Send (TaskKey 9 2))) of
      None \<Rightarrow> [] | Some ws \<Rightarrow> waiters_list ws) = [TaskKey 1 0, TaskKey 3 0]"
proof -
  have "sorted_list_of_set (set [TaskKey 1 0, TaskKey 3 0]) = [TaskKey 1 0, TaskKey 3 0]"
    by (rule sorted_list_of_set.idem_if_sorted_distinct) (simp_all add: less_eq_TaskKey_def)
  then show ?thesis
    using wake_index_take_ordered [of "[]" "Send (TaskKey 9 2)" "[TaskKey 3 0, TaskKey 1 0, TaskKey 3 0]"]
    by (auto simp: insert_commute split: prod.splits)
qed

end
