(* ===== verification/Scheduler.thy ===== *)
theory Scheduler
  imports Sched_Index
begin

text \<open>
  The deterministic proc scheduler of \<open>crates/lm-proc/src/lib.rs\<close>: its state, the
  index operations, the event consumption, the wake and completion paths, the
  FIFO pick and the run loop.

  The machine world (\<open>crates/lm-vm/src/world\<close>) is an argument: the functions the
  scheduler calls are the fields of \<open>world_view\<close> (reads) and \<open>world_ops\<close>
  (operations that change the world). \<open>wait_set_status\<close>, \<open>wait_sources\<close> and
  \<open>block_wakes\<close> of the world are modelled over the reads they make.
\<close>

section \<open>What the scheduler reads of the world\<close>

record world_view =
  task_status :: "TaskKey \<Rightarrow> TaskStatus"
  drive_surfaces :: "TaskKey \<Rightarrow> TaskKey list"
  append_wait_sources :: "WaitSetKey \<Rightarrow> bool \<times> WaitSourceKey list"
  task_key_of :: "u32 \<Rightarrow> TaskKey option"
  root :: u32

text \<open>
  \<open>World::block_wakes\<close>; \<open>drive_surfaces\<close> lists the task keys of the surfaces the
  suspended stack of the task drives, in activation order.
\<close>

definition block_wakes :: "world_view \<Rightarrow> TaskKey \<Rightarrow> WakeKey \<Rightarrow> WakeKey list" where
  "block_wakes v key primary =
     foldl (\<lambda>wakes surface. if Asked surface \<in> set wakes then wakes else wakes @ [Asked surface])
       [primary] (drive_surfaces v key)"

fun source_key :: "WaitSourceKey \<Rightarrow> nat \<times> nat \<times> TaskKey \<times> u64" where
  "source_key (WakeSource w) = (0, snd (wake_parts w), fst (wake_parts w), 0)"
| "source_key (CompletionSource c) = (1, 0, machine c, ordinal c)"

text \<open>\<open>sort_unstable\<close> and \<open>dedup\<close> by the derived order of the sources.\<close>

definition order_sources :: "WaitSourceKey list \<Rightarrow> WaitSourceKey list" where
  "order_sources sources = remdups_adj (sort_key source_key sources)"

definition wait_set_status :: "world_view \<Rightarrow> WaitSetKey \<Rightarrow> TaskStatus" where
  "wait_set_status v wait =
     (let (runnable, sources) = append_wait_sources v wait
      in if runnable then Ready
         else if order_sources sources = [] then Ready else StatusParked wait)"

definition wait_sources :: "world_view \<Rightarrow> WaitSetKey \<Rightarrow> WaitSourceKey list" where
  "wait_sources v wait =
     (let (runnable, sources) = append_wait_sources v wait
      in if runnable then [] else order_sources sources)"

section \<open>Scheduler state\<close>

datatype StopReason = RootTerminal | Deadlock

record SchedulerStats =
  root_slices :: u64
  proc_slices :: u64
  unblocked :: u64

record Scheduler =
  sched_quantum :: u32
  fixed_quantum :: bool
  include_root :: bool
  stats :: SchedulerStats
  stop :: "StopReason option"
  ready_queue :: "(TaskKey \<times> nat) list"
  ready_ticket :: nat
  tasks :: TaskIndex
  blocked :: WakeIndex
  block_keys :: "(TaskKey, WakeKey list) btree"
  waiting :: "(CompletionKey, TaskKey) btree"
  parked :: ParkIndex
  sched_events :: ScheduleEvents

definition stats_default :: SchedulerStats where
  "stats_default = \<lparr>root_slices = 0, proc_slices = 0, unblocked = 0\<rparr>"

definition scheduler_new :: "u32 \<Rightarrow> bool \<Rightarrow> Scheduler" where
  "scheduler_new quantum fixed =
     \<lparr>sched_quantum = max quantum 1, fixed_quantum = fixed, include_root = True, stats = stats_default,
      stop = None, ready_queue = [], ready_ticket = 0, tasks = [], blocked = [], block_keys = [],
      waiting = [], parked = park_default, sched_events = events_default\<rparr>"

text \<open>\<open>u64::saturating_add(1)\<close>.\<close>

definition sat_inc :: "u64 \<Rightarrow> u64" where
  "sat_inc n = (if n = - 1 then n else n + 1)"

definition count_unblocked :: "Scheduler \<Rightarrow> Scheduler" where
  "count_unblocked s = s\<lparr>stats := (stats s)\<lparr>unblocked := sat_inc (unblocked (stats s))\<rparr>\<rparr>"

section \<open>Index operations\<close>

definition remove_index :: "Scheduler \<Rightarrow> TaskKey \<Rightarrow> Scheduler" where
  "remove_index s task =
     (case task_get (tasks s) task of
        Some (Blocked w) \<Rightarrow>
          (case map_of (block_keys s) task of
             Some keys \<Rightarrow>
               s\<lparr>block_keys := bt_remove task (block_keys s),
                 blocked := foldl (\<lambda>b key. wake_index_remove b key task) (blocked s) keys\<rparr>
           | None \<Rightarrow> s\<lparr>blocked := wake_index_remove (blocked s) w task\<rparr>)
      | Some (Waiting completion) \<Rightarrow> s\<lparr>waiting := bt_remove completion (waiting s)\<rparr>
      | Some (Parked wait) \<Rightarrow> s\<lparr>parked := park_remove (parked s) wait task\<rparr>
      | _ \<Rightarrow> s)"

fun is_queued :: "IndexedState option \<Rightarrow> bool" where
  "is_queued (Some (Queued ticket)) = True"
| "is_queued _ = False"

definition enqueue :: "Scheduler \<Rightarrow> TaskKey \<Rightarrow> Scheduler" where
  "enqueue s task =
     (if is_queued (task_get (tasks s) task) then s
      else
        (let s = remove_index s task; ticket = ready_ticket s
         in s\<lparr>ready_ticket := ticket + 1,
              tasks := task_insert (tasks s) task (Queued ticket),
              ready_queue := ready_queue s @ [(task, ticket)]\<rparr>))"

definition block :: "world_view \<Rightarrow> Scheduler \<Rightarrow> TaskKey \<Rightarrow> WakeKey \<Rightarrow> Scheduler" where
  "block v s task w =
     (if task_get (tasks s) task = Some (Blocked w) then s
      else
        (let s = remove_index s task;
             keys = block_wakes v task w;
             s = s\<lparr>tasks := task_insert (tasks s) task (Blocked w),
                   blocked := foldl (\<lambda>b key. wake_index_insert b key task) (blocked s) keys\<rparr>
         in if 1 < length keys then s\<lparr>block_keys := bt_insert task keys (block_keys s)\<rparr> else s))"

definition wait_on :: "Scheduler \<Rightarrow> TaskKey \<Rightarrow> CompletionKey \<Rightarrow> Scheduler" where
  "wait_on s task completion =
     (if task_get (tasks s) task = Some (Waiting completion) then s
      else
        (let s = remove_index s task
         in s\<lparr>tasks := task_insert (tasks s) task (Waiting completion),
              waiting := bt_insert completion task (waiting s)\<rparr>))"

definition park :: "world_view \<Rightarrow> Scheduler \<Rightarrow> TaskKey \<Rightarrow> WaitSetKey \<Rightarrow> Scheduler" where
  "park v s task wait =
     (if task_get (tasks s) task = Some (Parked wait) then s
      else
        (let s = remove_index s task; sources = wait_sources v wait
         in if sources = [] then enqueue s task
            else s\<lparr>tasks := task_insert (tasks s) task (Parked wait),
                   parked := park_insert (parked s) wait task sources\<rparr>))"

definition drop_task :: "Scheduler \<Rightarrow> TaskKey \<Rightarrow> Scheduler" where
  "drop_task s task = (let s = remove_index s task in s\<lparr>tasks := task_remove (tasks s) task\<rparr>)"

fun index_status :: "world_view \<Rightarrow> Scheduler \<Rightarrow> TaskKey \<Rightarrow> TaskStatus \<Rightarrow> Scheduler" where
  "index_status v s task Ready = enqueue s task"
| "index_status v s task (StatusBlocked w) = block v s task w"
| "index_status v s task (StatusWaiting completion) = wait_on s task completion"
| "index_status v s task (StatusParked wait) = park v s task wait"
| "index_status v s task Terminal = drop_task s task"
| "index_status v s task Dormant = drop_task s task"

definition refresh :: "world_view \<Rightarrow> Scheduler \<Rightarrow> TaskKey \<Rightarrow> Scheduler" where
  "refresh v s task = index_status v s task (task_status v task)"

section \<open>Wakes and completions\<close>

definition opt_waiters :: "Waiters option \<Rightarrow> TaskKey list" where
  "opt_waiters ws = (case ws of None \<Rightarrow> [] | Some w \<Rightarrow> waiters_list w)"

definition wake_parked_one :: "world_view \<Rightarrow> Scheduler \<Rightarrow> TaskKey \<Rightarrow> Scheduler" where
  "wake_parked_one v s task =
     (case task_get (tasks s) task of
        Some (Parked wait) \<Rightarrow>
          refresh v (if task_status v task = Ready then count_unblocked s else s) task
      | _ \<Rightarrow> s)"

definition wake_parked :: "world_view \<Rightarrow> Scheduler \<Rightarrow> Waiters \<Rightarrow> Scheduler" where
  "wake_parked v s ws = foldl (wake_parked_one v) s (waiters_list ws)"

definition wake_parked_at :: "world_view \<Rightarrow> Scheduler \<Rightarrow> WakeKey \<Rightarrow> Scheduler" where
  "wake_parked_at v s w =
     (case take_wake (parked s) w of
        (None, p) \<Rightarrow> s\<lparr>parked := p\<rparr>
      | (Some ws, p) \<Rightarrow> wake_parked v (s\<lparr>parked := p\<rparr>) ws)"

definition wake_blocked_one :: "world_view \<Rightarrow> WakeKey \<Rightarrow> Scheduler \<Rightarrow> TaskKey \<Rightarrow> Scheduler" where
  "wake_blocked_one v w s task =
     (case task_get (tasks s) task of
        Some (Blocked primary) \<Rightarrow>
          if primary = w \<or> (case map_of (block_keys s) task of None \<Rightarrow> False | Some keys \<Rightarrow> w \<in> set keys)
          then
            (let s = remove_index s task;
                 s = (if task_status v task = Ready then count_unblocked s else s)
             in refresh v s task)
          else s
      | _ \<Rightarrow> s)"

text \<open>The method \<open>wake\<close>.\<close>

definition wake_all :: "world_view \<Rightarrow> Scheduler \<Rightarrow> WakeKey \<Rightarrow> Scheduler" where
  "wake_all v s w =
     (case wake_index_take (blocked s) w of
        (None, b) \<Rightarrow> wake_parked_at v (s\<lparr>blocked := b\<rparr>) w
      | (Some ws, b) \<Rightarrow>
          wake_parked_at v (foldl (wake_blocked_one v w) (s\<lparr>blocked := b\<rparr>) (waiters_list ws)) w)"

definition complete_completion :: "world_view \<Rightarrow> Scheduler \<Rightarrow> CompletionKey \<Rightarrow> Scheduler" where
  "complete_completion v s completion =
     (let found = map_of (waiting s) completion;
          s = s\<lparr>waiting := bt_remove completion (waiting s)\<rparr>;
          s = (case found of
                 None \<Rightarrow> s
               | Some task \<Rightarrow>
                   if task_get (tasks s) task = Some (Waiting completion)
                   then refresh v (count_unblocked s) task else s)
      in case take_completion (parked s) completion of
           (None, p) \<Rightarrow> s\<lparr>parked := p\<rparr>
         | (Some ws, p) \<Rightarrow> wake_parked v (s\<lparr>parked := p\<rparr>) ws)"

text \<open>Take the next valid FIFO task: each round removes one queue entry.\<close>

fun next_ready_loop ::
  "world_view \<Rightarrow> Scheduler \<Rightarrow> (TaskKey \<times> nat) list \<Rightarrow> TaskKey option \<times> Scheduler" where
  "next_ready_loop v s [] = (None, s)"
| "next_ready_loop v s ((task, ticket) # rest) =
     (let s = s\<lparr>ready_queue := drop 1 (ready_queue s)\<rparr>
      in if task_get (tasks s) task \<noteq> Some (Queued ticket) then next_ready_loop v s rest
         else
           (case task_status v task of
              Ready \<Rightarrow> (Some task, s)
            | status \<Rightarrow> next_ready_loop v (index_status v s task status) rest))"

definition next_ready :: "world_view \<Rightarrow> Scheduler \<Rightarrow> TaskKey option \<times> Scheduler" where
  "next_ready v s = next_ready_loop v s (ready_queue s)"

fun status_matches :: "IndexedState \<Rightarrow> TaskStatus \<Rightarrow> bool" where
  "status_matches (Queued ticket) Ready \<longleftrightarrow> True"
| "status_matches (Blocked indexed) (StatusBlocked actual) \<longleftrightarrow> indexed = actual"
| "status_matches (Waiting indexed) (StatusWaiting actual) \<longleftrightarrow> indexed = actual"
| "status_matches (Parked indexed) (StatusParked actual) \<longleftrightarrow> indexed = actual"
| "status_matches _ _ \<longleftrightarrow> False"

definition reconcile_parallel_states :: "world_view \<Rightarrow> Scheduler \<Rightarrow> Scheduler \<times> bool" where
  "reconcile_parallel_states v s =
     (let changed = map fst (filter (\<lambda>(task, state). \<not> status_matches state (task_status v task))
                      (task_iter (tasks s)))
      in (foldl (refresh v) s changed, changed \<noteq> []))"

section \<open>Operations that change the world\<close>

record 'w world_ops =
  view_of :: "'w \<Rightarrow> world_view"
  world_events :: "'w \<Rightarrow> ScheduleEvents"
  set_world_events :: "ScheduleEvents \<Rightarrow> 'w \<Rightarrow> 'w"
  scheduler_seeds :: "'w \<Rightarrow> bool \<Rightarrow> (TaskKey \<times> TaskStatus) list"
  poll_host_completion :: "(CompletionKey \<Rightarrow> bool) \<Rightarrow> 'w \<Rightarrow> CompletionKey option \<times> 'w"
  wait_host_completion :: "(CompletionKey \<Rightarrow> bool) \<Rightarrow> 'w \<Rightarrow> CompletionKey option \<times> 'w"
  snapshot_wait_quantum :: "'w \<Rightarrow> TaskKey \<Rightarrow> u32 \<Rightarrow> u32"
  drive_slice :: "TaskKey \<Rightarrow> u32 \<Rightarrow> 'w \<Rightarrow> SliceExit option \<times> 'w"
  drive_slice_polled :: "TaskKey \<Rightarrow> u32 \<Rightarrow> u32 \<Rightarrow> bool \<Rightarrow> 'w \<Rightarrow> SliceExit option \<times> 'w"
  world_fuel :: "'w \<Rightarrow> u64"
  heap_used :: "'w \<Rightarrow> u32 \<Rightarrow> nat"
  note_scheduler_slice :: "TaskKey \<Rightarrow> u64 \<Rightarrow> bool \<Rightarrow> nat \<Rightarrow> 'w \<Rightarrow> 'w"
  retire_scheduler_task :: "TaskKey \<Rightarrow> 'w \<Rightarrow> 'w"
  fail_blocked_task :: "TaskKey \<Rightarrow> 'w \<Rightarrow> 'w"
  fail_waiting_task :: "TaskKey \<Rightarrow> 'w \<Rightarrow> 'w"

text \<open>\<open>World::swap_schedule_events\<close>.\<close>

definition swap_schedule_events ::
  "'w world_ops \<Rightarrow> 'w \<Rightarrow> ScheduleEvents \<Rightarrow> bool \<times> 'w \<times> ScheduleEvents" where
  "swap_schedule_events ops w events =
     (if events_is_empty (world_events ops w) then (False, w, events)
      else (True, set_world_events ops events w, world_events ops w))"

text \<open>The three drain loops of \<open>consume_events\<close>; each pops one key and handles it.\<close>

definition consume_removed :: "Scheduler \<Rightarrow> Scheduler" where
  "consume_removed s =
     foldl drop_task (s\<lparr>sched_events := (sched_events s)\<lparr>removed := []\<rparr>\<rparr>) (drain_removed (sched_events s))"

definition consume_wakes :: "world_view \<Rightarrow> Scheduler \<Rightarrow> Scheduler" where
  "consume_wakes v s =
     foldl (wake_all v) (s\<lparr>sched_events := (sched_events s)\<lparr>wakes := []\<rparr>\<rparr>) (drain_wakes (sched_events s))"

definition consume_ready_one :: "world_view \<Rightarrow> Scheduler \<Rightarrow> TaskKey \<Rightarrow> Scheduler" where
  "consume_ready_one v s task = (if include_root s \<or> vm task \<noteq> root v then refresh v s task else s)"

definition consume_ready :: "world_view \<Rightarrow> Scheduler \<Rightarrow> Scheduler" where
  "consume_ready v s =
     foldl (consume_ready_one v) (s\<lparr>sched_events := (sched_events s)\<lparr>ready := []\<rparr>\<rparr>)
       (drain_ready (sched_events s))"

text \<open>A panic of the event marks is \<^const>\<open>None\<close>.\<close>

definition consume_events :: "'w world_ops \<Rightarrow> 'w \<Rightarrow> Scheduler \<Rightarrow> ('w \<times> Scheduler) option" where
  "consume_events ops w s =
     (case swap_schedule_events ops w (sched_events s) of
        (False, w, e) \<Rightarrow> Some (w, s\<lparr>sched_events := e\<rparr>)
      | (True, w, e) \<Rightarrow>
          (case prepare_drain e of
             None \<Rightarrow> None
           | Some e \<Rightarrow>
               (let v = view_of ops w
                in Some (w, consume_ready v (consume_wakes v (consume_removed (s\<lparr>sched_events := e\<rparr>)))))))"

definition accepts_completion :: "Scheduler \<Rightarrow> CompletionKey \<Rightarrow> bool" where
  "accepts_completion s key = (map_of (waiting s) key \<noteq> None \<or> has_completion (parked s) key)"

text \<open>
  \<open>poll_completions\<close> ends when the host has no ready completion; \<open>fuel\<close> bounds the
  rounds.
\<close>

primrec poll_completions :: "nat \<Rightarrow> 'w world_ops \<Rightarrow> 'w \<Rightarrow> Scheduler \<Rightarrow> ('w \<times> Scheduler) option" where
  "poll_completions 0 ops w s = None"
| "poll_completions (Suc fuel) ops w s =
     (case poll_host_completion ops (accepts_completion s) w of
        (None, w) \<Rightarrow> Some (w, s)
      | (Some completion, w) \<Rightarrow>
          poll_completions fuel ops w (complete_completion (view_of ops w) s completion))"

definition poll_ready_completions :: "nat \<Rightarrow> 'w world_ops \<Rightarrow> 'w \<Rightarrow> Scheduler \<Rightarrow> ('w \<times> Scheduler) option" where
  "poll_ready_completions fuel ops w s =
     (if waiting s = [] \<and> \<not> has_completions (parked s) then Some (w, s)
      else poll_completions fuel ops w s)"

definition finish_terminal :: "'w world_ops \<Rightarrow> 'w \<Rightarrow> Scheduler \<Rightarrow> TaskKey \<Rightarrow> 'w \<times> Scheduler" where
  "finish_terminal ops w s task =
     (let s = drop_task s task; w = retire_scheduler_task ops task w; v = view_of ops w
      in (w, wake_all v (wake_all v s (Send task)) (Done task)))"

definition finish_slice ::
  "'w world_ops \<Rightarrow> 'w \<Rightarrow> Scheduler \<Rightarrow> TaskKey \<Rightarrow> SliceExit option \<Rightarrow> 'w \<times> Scheduler" where
  "finish_slice ops w s task exit =
     (let v = view_of ops w
      in case exit of
           Some ExitYielded \<Rightarrow> (w, enqueue s task)
         | Some (ExitBlocked wk) \<Rightarrow> (w, block v s task wk)
         | Some (ExitWaiting completion) \<Rightarrow> (w, wait_on s task completion)
         | Some (ExitParked wait) \<Rightarrow> (w, park v s task wait)
         | Some ExitTerminal \<Rightarrow> finish_terminal ops w s task
         | None \<Rightarrow> (w, refresh v s task))"

definition fail_one ::
  "('w world_ops \<Rightarrow> TaskKey \<Rightarrow> 'w \<Rightarrow> 'w) \<Rightarrow> 'w world_ops \<Rightarrow> 'w \<times> Scheduler \<Rightarrow> TaskKey \<Rightarrow> 'w \<times> Scheduler" where
  "fail_one fail ops ws task =
     (case ws of (w, s) \<Rightarrow> (let w = fail ops task w in (w, refresh (view_of ops w) s task)))"

fun is_stuck :: "IndexedState \<Rightarrow> bool" where
  "is_stuck (Blocked w) = True"
| "is_stuck (Parked wait) = True"
| "is_stuck _ = False"

definition fail_every_block :: "'w world_ops \<Rightarrow> 'w \<Rightarrow> Scheduler \<Rightarrow> 'w \<times> Scheduler" where
  "fail_every_block ops w s =
     foldl (fail_one fail_blocked_task ops) (w, s)
       (map fst (filter (\<lambda>(task, state). is_stuck state) (task_iter (tasks s))))"

definition fail_waiting :: "'w world_ops \<Rightarrow> 'w \<Rightarrow> Scheduler \<Rightarrow> 'w \<times> Scheduler" where
  "fail_waiting ops w s =
     (let failed = remdups_adj (sort (map snd (waiting s) @ tasks_with_completions (parked s)));
          s = s\<lparr>waiting := [], parked := park_default\<rparr>
      in foldl (fail_one fail_waiting_task ops) (w, s) failed)"

definition yield_requested :: "Scheduler \<Rightarrow> bool" where
  "yield_requested s = (fixed_quantum s \<or> (\<exists>state \<in> set (task_values (tasks s)). is_queued (Some state)))"

definition drive_scheduler_slice ::
  "'w world_ops \<Rightarrow> 'w \<Rightarrow> Scheduler \<Rightarrow> TaskKey \<Rightarrow> bool \<Rightarrow> SliceExit option \<times> 'w" where
  "drive_scheduler_slice ops w s task extra_competition =
     (if fixed_quantum s
      then drive_slice ops task (snapshot_wait_quantum ops w task (sched_quantum s)) w
      else drive_slice_polled ops task (snapshot_wait_quantum ops w task (- 1)) (sched_quantum s)
             (yield_requested s \<or> extra_competition) w)"

definition reset :: "'w world_ops \<Rightarrow> 'w \<Rightarrow> Scheduler \<Rightarrow> bool \<Rightarrow> ('w \<times> Scheduler) option" where
  "reset ops w s include =
     (case events_clear (sched_events s) of
        None \<Rightarrow> None
      | Some e \<Rightarrow>
          (let s = s\<lparr>include_root := include, stats := stats_default, stop := None, ready_queue := [],
                     ready_ticket := 0, tasks := [], blocked := [], block_keys := [], waiting := [],
                     parked := park_default, sched_events := e\<rparr>
           in consume_events ops w
                (foldl (\<lambda>s (task, status). index_status (view_of ops w) s task status) s
                   (scheduler_seeds ops w include))))"

definition count_slice :: "world_view \<Rightarrow> Scheduler \<Rightarrow> TaskKey \<Rightarrow> Scheduler" where
  "count_slice v s task =
     (if vm task = root v
      then s\<lparr>stats := (stats s)\<lparr>root_slices := sat_inc (root_slices (stats s))\<rparr>\<rparr>
      else s\<lparr>stats := (stats s)\<lparr>proc_slices := sat_inc (proc_slices (stats s))\<rparr>\<rparr>)"

definition sat_sub :: "u64 \<Rightarrow> u64 \<Rightarrow> u64" where
  "sat_sub a b = (if b \<le> a then a - b else 0)"

text \<open>One slice of the picked task: the body of the \<open>next_ready\<close> branch of the loop.\<close>

definition run_slice :: "'w world_ops \<Rightarrow> 'w \<Rightarrow> Scheduler \<Rightarrow> TaskKey \<Rightarrow> ('w \<times> Scheduler) option" where
  "run_slice ops w s task =
     (let s = count_slice (view_of ops w) s task;
          s = s\<lparr>tasks := task_insert (tasks s) task Running\<rparr>;
          before = world_fuel ops w;
          heap_before = heap_used ops w (vm task);
          (exit, w) = drive_scheduler_slice ops w s task False;
          retired = sat_sub before (world_fuel ops w);
          w = note_scheduler_slice ops task retired (exit \<noteq> None) heap_before w
      in if exit = Some ExitTerminal
         then (let (w, s) = finish_slice ops w s task exit in consume_events ops w s)
         else map_option (\<lambda>(w, s). finish_slice ops w s task exit) (consume_events ops w s))"

datatype 'w loop_result =
    Returned TaskKey 'w Scheduler
  | Continue 'w Scheduler
  | RootGone
  | PollUnfinished
  | Panicked

text \<open>One round of \<open>run_deterministic_loop\<close>; a missing root is the \<open>expect\<close> panic,
  and \<open>PollUnfinished\<close> says that the poll fuel was not enough.\<close>

definition run_round :: "nat \<Rightarrow> 'w world_ops \<Rightarrow> 'w \<Rightarrow> Scheduler \<Rightarrow> 'w loop_result" where
  "run_round fuel ops w s =
     (case consume_events ops w s of
        None \<Rightarrow> Panicked
      | Some (w, s) \<Rightarrow>
          (case poll_ready_completions fuel ops w s of
             None \<Rightarrow> PollUnfinished
           | Some (w, s) \<Rightarrow>
               (let v = view_of ops w; rt = task_key_of v (root v)
                in case (case rt of None \<Rightarrow> None
                         | Some r \<Rightarrow> if task_status v r = Terminal then Some r else None) of
                     Some r \<Rightarrow> Returned r w (if stop s = None then s\<lparr>stop := Some RootTerminal\<rparr> else s)
                   | None \<Rightarrow>
                       (case next_ready v s of
                          (Some task, s) \<Rightarrow>
                            (case run_slice ops w s task of None \<Rightarrow> Panicked | Some (w, s) \<Rightarrow> Continue w s)
                        | (None, s) \<Rightarrow>
                            if waiting s \<noteq> [] \<or> has_completions (parked s)
                            then
                              (case wait_host_completion ops (accepts_completion s) w of
                                 (Some completion, w) \<Rightarrow>
                                   Continue w (complete_completion (view_of ops w) s completion)
                               | (None, w) \<Rightarrow> (let (w, s) = fail_waiting ops w s in Continue w s))
                            else if \<exists>state \<in> set (task_values (tasks s)). is_stuck state
                            then
                              (let (w, s) = fail_every_block ops w (s\<lparr>stop := Some Deadlock\<rparr>)
                               in Continue w s)
                            else
                              (case rt of
                                 None \<Rightarrow> RootGone
                               | Some r \<Rightarrow>
                                   (let w = fail_blocked_task ops r w;
                                        s = refresh (view_of ops w) s r
                                    in Continue w (s\<lparr>stop := Some Deadlock\<rparr>)))))))"

text \<open>
  \<open>run_deterministic_loop\<close>: the loop ends when a round returns; \<open>rounds\<close> bounds the
  number of rounds. The registration of the scheduler wake callback around it has no
  state of the scheduler.
\<close>

primrec run_rounds :: "nat \<Rightarrow> nat \<Rightarrow> 'w world_ops \<Rightarrow> 'w \<Rightarrow> Scheduler \<Rightarrow> 'w loop_result option" where
  "run_rounds 0 fuel ops w s = None"
| "run_rounds (Suc rounds) fuel ops w s =
     (case run_round fuel ops w s of
        Continue w s \<Rightarrow> run_rounds rounds fuel ops w s
      | r \<Rightarrow> Some r)"

definition run_deterministic_loop ::
  "nat \<Rightarrow> nat \<Rightarrow> 'w world_ops \<Rightarrow> 'w \<Rightarrow> Scheduler \<Rightarrow> 'w loop_result option" where
  "run_deterministic_loop rounds fuel ops w s =
     (case reset ops w s True of
        None \<Rightarrow> Some Panicked
      | Some (w, s) \<Rightarrow> run_rounds rounds fuel ops w s)"

end
