(* ===== verification/Scheduler_Correct.thy ===== *)
theory Scheduler_Correct
  imports Scheduler
begin

text \<open>
  What the scheduler loop promises: the FIFO queue holds every queued task under its
  current ticket in every state of a run, \<open>next_ready\<close> takes the queued task with the
  smallest ticket that can run, a round that finds such a task runs it, and a run
  returns only when the root has ended.
\<close>

section \<open>The tasks at a condition\<close>

definition waits_at :: "WakeIndex \<Rightarrow> WakeKey \<Rightarrow> TaskKey set" where
  "waits_at b w = set (wake_tasks b w)"

named_theorems waits \<open>the tasks at a condition after an operation of the wake index\<close>

lemma waits_ins [waits]:
  "wake_index_ok b \<Longrightarrow> waits_at (wake_index_insert b w t) w' =
    (if w' = w then insert t (waits_at b w) else waits_at b w')"
  unfolding waits_at_def by (rule wake_map.set_ins)

lemma waits_rem [waits]:
  "wake_index_ok b \<Longrightarrow> waits_at (wake_index_remove b w t) w' =
    (if w' = w then waits_at b w - {t} else waits_at b w')"
  unfolding waits_at_def by (rule wake_map.set_rem)

lemma waits_ins_list [waits]:
  "wake_index_ok b \<Longrightarrow> waits_at (foldl (\<lambda>b w. wake_index_insert b w t) b ws) w' =
    (if w' \<in> set ws then insert t (waits_at b w') else waits_at b w')"
  unfolding waits_at_def using wake_map.ins_list by blast

lemma waits_rem_list [waits]:
  "wake_index_ok b \<Longrightarrow> waits_at (foldl (\<lambda>b w. wake_index_remove b w t) b ws) w' =
    (if w' \<in> set ws then waits_at b w' - {t} else waits_at b w')"
  unfolding waits_at_def using wake_map.rem_list by blast

lemma waits_ok [waits]:
  "wake_index_ok b \<Longrightarrow> wake_index_ok (wake_index_insert b w t)"
  "wake_index_ok b \<Longrightarrow> wake_index_ok (wake_index_remove b w t)"
  "wake_index_ok b \<Longrightarrow> wake_index_ok (foldl (\<lambda>b w. wake_index_insert b w t) b ws)"
  "wake_index_ok b \<Longrightarrow> wake_index_ok (foldl (\<lambda>b w. wake_index_remove b w t) b ws)"
  using wake_map.inv_ins wake_map.inv_rem wake_map.ins_list wake_map.rem_list by blast+

section \<open>Well-formed states\<close>

definition index_wf :: "Scheduler \<Rightarrow> bool" where
  "index_wf s \<longleftrightarrow> task_index_ok (tasks s) \<and> wake_index_ok (blocked s) \<and> bt_ok (block_keys s) \<and>
     bt_ok (waiting s) \<and> park_ok (parked s)"

text \<open>
  The queue is ordered by ticket, the counter is ahead of every ticket, and a task
  indexed as queued has its entry.
\<close>

definition queue_but :: "TaskKey set \<Rightarrow> Scheduler \<Rightarrow> bool" where
  "queue_but K s \<longleftrightarrow> sorted_wrt (<) (map snd (ready_queue s)) \<and>
     (\<forall>e \<in> set (ready_queue s). snd e < ready_ticket s) \<and>
     (\<forall>k t. k \<notin> K \<longrightarrow> task_get (tasks s) k = Some (Queued t) \<longrightarrow> (k, t) \<in> set (ready_queue s))"

definition sched_wf :: "Scheduler \<Rightarrow> bool" where
  "sched_wf s \<longleftrightarrow> index_wf s \<and> queue_but {} s"

text \<open>Every blocked task, but those of \<open>K\<close>, is indexed under its primary condition.\<close>

definition blocked_but :: "TaskKey set \<Rightarrow> Scheduler \<Rightarrow> bool" where
  "blocked_but K s \<longleftrightarrow>
     (\<forall>k w. k \<notin> K \<longrightarrow> task_get (tasks s) k = Some (Blocked w) \<longrightarrow> k \<in> waits_at (blocked s) w)"

section \<open>Leaving the indexes\<close>

lemma remove_index_frame [simp]:
  "tasks (remove_index s t) = tasks s"
  "ready_queue (remove_index s t) = ready_queue s"
  "ready_ticket (remove_index s t) = ready_ticket s"
  "include_root (remove_index s t) = include_root s"
  "sched_events (remove_index s t) = sched_events s"
  "stats (remove_index s t) = stats s"
  "stop (remove_index s t) = stop s"
  by (auto simp: remove_index_def split: option.splits IndexedState.splits)

lemma remove_index_wf: "index_wf s \<Longrightarrow> index_wf (remove_index s t)"
  by (auto simp: index_wf_def remove_index_def waits park_remove_ok split: option.split IndexedState.split)

lemma remove_index_tasks:
  "index_wf s \<Longrightarrow> k \<noteq> t \<Longrightarrow>
    k \<in> waits_at (blocked (remove_index s t)) w \<longleftrightarrow> k \<in> waits_at (blocked s) w"
  by (auto simp: index_wf_def remove_index_def waits split: option.split IndexedState.split)

lemma remove_index_blocked: "index_wf s \<Longrightarrow> blocked_but K s \<Longrightarrow> blocked_but (insert t K) (remove_index s t)"
  by (auto simp: blocked_but_def remove_index_tasks)

lemma remove_index_queue: "queue_but K s \<Longrightarrow> queue_but K (remove_index s t)"
  by (simp add: queue_but_def)

section \<open>Indexing one task\<close>

lemma primary_in_block_wakes: "w \<in> set (block_wakes v k w)"
proof -
  have "w \<in> set ws \<Longrightarrow> w \<in> set (foldl (\<lambda>wakes surface.
      if Asked surface \<in> set wakes then wakes else wakes @ [Asked surface]) ws surfaces)" for ws surfaces
    by (induction surfaces arbitrary: ws) auto
  then show ?thesis by (simp add: block_wakes_def)
qed

lemma queue_but_mono: "queue_but K s \<Longrightarrow> K \<subseteq> K' \<Longrightarrow> queue_but K' s"
  by (auto simp: queue_but_def)

lemma blocked_but_mono: "blocked_but K s \<Longrightarrow> K \<subseteq> K' \<Longrightarrow> blocked_but K' s"
  by (auto simp: blocked_but_def)

lemma queue_but_not_queued:
  "queue_but (insert t K) s \<Longrightarrow> \<not> is_queued (task_get (tasks s) t) \<Longrightarrow> queue_but K s"
  unfolding queue_but_def by (metis insert_iff is_queued.simps(1))

lemma blocked_but_not_blocked:
  "blocked_but (insert t K) s \<Longrightarrow> (\<And>w. task_get (tasks s) t \<noteq> Some (Blocked w)) \<Longrightarrow> blocked_but K s"
  unfolding blocked_but_def by (metis insert_iff)

lemma is_queuedE: "is_queued st \<Longrightarrow> (\<And>n. st = Some (Queued n) \<Longrightarrow> P) \<Longrightarrow> P"
  by (cases st rule: is_queued.cases) auto

lemma enqueue_wf: "index_wf s \<Longrightarrow> index_wf (enqueue s t)"
  using remove_index_wf [of s t] by (auto simp: enqueue_def Let_def index_wf_def task_index_ok_insert)

lemma enqueue_fresh:
  assumes "queue_but K s" and "\<not> is_queued (task_get (tasks s) t)"
  shows "queue_but (K - {t}) (enqueue s t)"
  using assms
  by (auto simp: enqueue_def Let_def queue_but_def sorted_wrt_append task_get_insert split: if_splits)

lemma enqueue_queue: "queue_but K s \<Longrightarrow> t \<notin> K \<Longrightarrow> queue_but K (enqueue s t)"
  using enqueue_fresh [of K s t] by (cases "is_queued (task_get (tasks s) t)") (auto simp: enqueue_def)

lemma enqueue_blocked:
  assumes "index_wf s" and "blocked_but (insert t K) s"
  shows "blocked_but K (enqueue s t)"
proof (cases "is_queued (task_get (tasks s) t)")
  case True
  then show ?thesis
    using assms(2) blocked_but_not_blocked [OF assms(2)] by (auto simp: enqueue_def elim!: is_queuedE)
next
  case False
  then show ?thesis
    using assms by (auto simp: enqueue_def Let_def blocked_but_def task_get_insert remove_index_tasks)
qed

lemma block_wf: "index_wf s \<Longrightarrow> index_wf (block v s t w)"
  using remove_index_wf [of s t] by (auto simp: block_def Let_def index_wf_def task_index_ok_insert waits)

lemma block_queue: "queue_but (insert t K) s \<Longrightarrow> queue_but K (block v s t w)"
proof (cases "task_get (tasks s) t = Some (Blocked w)")
  case True
  then show "queue_but (insert t K) s \<Longrightarrow> ?thesis"
    using queue_but_not_queued [of t K s] by (simp add: block_def)
next
  case False
  then show "queue_but (insert t K) s \<Longrightarrow> ?thesis"
    by (auto simp: block_def Let_def queue_but_def task_get_insert split: if_splits)
qed

lemma block_blocked:
  assumes "index_wf s" and "blocked_but (insert t K) s" and "task_get (tasks s) t \<noteq> Some (Blocked w)"
  shows "blocked_but K (block v s t w)"
  using assms primary_in_block_wakes [of w v t] remove_index_wf [OF assms(1), of t]
  by (auto simp: block_def Let_def blocked_but_def task_get_insert waits index_wf_def
      remove_index_tasks [OF assms(1)] split: if_splits)

lemma wait_on_wf: "index_wf s \<Longrightarrow> index_wf (wait_on s t c)"
  using remove_index_wf [of s t] by (auto simp: wait_on_def Let_def index_wf_def task_index_ok_insert)

lemma wait_on_queue: "queue_but (insert t K) s \<Longrightarrow> queue_but K (wait_on s t c)"
proof (cases "task_get (tasks s) t = Some (Waiting c)")
  case True
  then show "queue_but (insert t K) s \<Longrightarrow> ?thesis"
    using queue_but_not_queued [of t K s] by (simp add: wait_on_def)
next
  case False
  then show "queue_but (insert t K) s \<Longrightarrow> ?thesis"
    by (auto simp: wait_on_def Let_def queue_but_def task_get_insert split: if_splits)
qed

lemma wait_on_blocked:
  assumes "index_wf s" and "blocked_but (insert t K) s"
  shows "blocked_but K (wait_on s t c)"
proof (cases "task_get (tasks s) t = Some (Waiting c)")
  case True
  then show ?thesis using assms blocked_but_not_blocked [of t K s] by (simp add: wait_on_def)
next
  case False
  then show ?thesis
    using assms by (auto simp: wait_on_def Let_def blocked_but_def task_get_insert remove_index_tasks split: if_splits)
qed

lemma drop_task_wf: "index_wf s \<Longrightarrow> index_wf (drop_task s t)"
  using remove_index_wf [of s t] by (auto simp: drop_task_def Let_def index_wf_def task_index_ok_remove)

lemma drop_task_queue: "queue_but (insert t K) s \<Longrightarrow> queue_but K (drop_task s t)"
  by (auto simp: drop_task_def Let_def queue_but_def task_get_remove split: if_splits)

lemma drop_task_blocked: "index_wf s \<Longrightarrow> blocked_but (insert t K) s \<Longrightarrow> blocked_but K (drop_task s t)"
  by (auto simp: drop_task_def Let_def blocked_but_def task_get_remove remove_index_tasks split: if_splits)

lemma park_wf: "index_wf s \<Longrightarrow> index_wf (park v s t wt)"
  using remove_index_wf [of s t] enqueue_wf [of "remove_index s t" t]
  by (auto simp: park_def Let_def index_wf_def task_index_ok_insert park_insert_ok)

lemma park_queue_sources:
  "queue_but (insert t K) s \<Longrightarrow> wait_sources v wt \<noteq> [] \<Longrightarrow> queue_but K (park v s t wt)"
proof (cases "task_get (tasks s) t = Some (Parked wt)")
  case True
  then show "queue_but (insert t K) s \<Longrightarrow> ?thesis"
    using queue_but_not_queued [of t K s] by (simp add: park_def)
next
  case False
  then show "queue_but (insert t K) s \<Longrightarrow> wait_sources v wt \<noteq> [] \<Longrightarrow> ?thesis"
    by (auto simp: park_def Let_def queue_but_def task_get_insert split: if_splits)
qed

lemma park_queue: "queue_but K s \<Longrightarrow> t \<notin> K \<Longrightarrow> queue_but K (park v s t wt)"
  using park_queue_sources [of t K s v wt] enqueue_queue [of K "remove_index s t" t] queue_but_mono [of K s "insert t K", OF _ subset_insertI]
  by (cases "wait_sources v wt = []") (auto simp: park_def Let_def remove_index_queue)

lemma park_blocked:
  assumes "index_wf s" and "blocked_but (insert t K) s"
  shows "blocked_but K (park v s t wt)"
proof (cases "task_get (tasks s) t = Some (Parked wt)")
  case True
  then show ?thesis using assms blocked_but_not_blocked [of t K s] by (simp add: park_def)
next
  case False
  have rem: "blocked_but (insert t K) (remove_index s t)"
    using remove_index_blocked [OF assms, of t] by simp
  show ?thesis
    using False assms enqueue_blocked [OF remove_index_wf [OF assms(1)] rem]
    by (auto simp: park_def Let_def blocked_but_def task_get_insert remove_index_tasks split: if_splits)
qed

section \<open>Refreshing one task\<close>

text \<open>
  A parked task has a source to wait for. The world reports a task as parked only
  through \<^const>\<open>wait_set_status\<close>, which asks for one.
\<close>

definition parks_somewhere :: "world_view \<Rightarrow> TaskStatus \<Rightarrow> bool" where
  "parks_somewhere v st = (case st of StatusParked wt \<Rightarrow> wait_sources v wt \<noteq> [] | _ \<Rightarrow> True)"

lemma wait_set_status_parks: "parks_somewhere v (wait_set_status v wait)"
  by (auto simp: parks_somewhere_def wait_set_status_def wait_sources_def split: prod.splits TaskStatus.splits)

lemma index_status_wf: "index_wf s \<Longrightarrow> index_wf (index_status v s t st)"
  by (cases st) (simp_all add: enqueue_wf block_wf wait_on_wf park_wf drop_task_wf)

lemma index_status_queue: "queue_but K s \<Longrightarrow> t \<notin> K \<Longrightarrow> queue_but K (index_status v s t st)"
  using queue_but_mono [of K s "insert t K", OF _ subset_insertI]
  by (cases st) (simp_all add: enqueue_queue block_queue wait_on_queue park_queue drop_task_queue)

lemma index_status_popped:
  "queue_but (insert t K) s \<Longrightarrow> st \<noteq> Ready \<Longrightarrow> parks_somewhere v st \<Longrightarrow> queue_but K (index_status v s t st)"
  by (cases st) (simp_all add: block_queue wait_on_queue park_queue_sources drop_task_queue parks_somewhere_def)

lemma index_status_blocked:
  assumes "index_wf s" and "blocked_but (insert t K) s"
    and "\<And>w. st = StatusBlocked w \<Longrightarrow> task_get (tasks s) t \<noteq> Some (Blocked w)"
  shows "blocked_but K (index_status v s t st)"
  using assms by (cases st) (simp_all add: enqueue_blocked block_blocked wait_on_blocked park_blocked drop_task_blocked)

lemma index_status_blocked_in:
  assumes "index_wf s" and "blocked_but K s" and "t \<notin> K"
  shows "blocked_but K (index_status v s t st)"
proof (cases "\<exists>w. st = StatusBlocked w \<and> task_get (tasks s) t = Some (Blocked w)")
  case True
  then show ?thesis using assms by (auto simp: block_def)
next
  case False
  then show ?thesis
    using assms index_status_blocked [of s t K st v] blocked_but_mono [OF assms(2) subset_insertI] by blast
qed

lemma index_status_wfs: "sched_wf s \<Longrightarrow> sched_wf (index_status v s t st)"
  by (simp add: sched_wf_def index_status_wf index_status_queue)

lemma refresh_wfs: "sched_wf s \<Longrightarrow> sched_wf (refresh v s t)"
  by (simp add: refresh_def index_status_wfs)

lemma task_get_same_slot:
  "task_get T t \<noteq> None \<Longrightarrow> k \<noteq> t \<Longrightarrow> vm k = vm t \<Longrightarrow> task_get T k = None"
  by (auto simp: task_get_def get_opt_def slot_of_eq_iff [symmetric] split: option.splits if_splits)

lemma task_get_insert_other:
  "task_get T t \<noteq> None \<Longrightarrow> k \<noteq> t \<Longrightarrow> task_get (task_insert T t st) k = task_get T k"
  by (simp add: task_get_insert task_get_same_slot)

text \<open>The frame of an indexing step: every other task keeps its state, its keys and its places.\<close>

definition same_but :: "TaskKey set \<Rightarrow> Scheduler \<Rightarrow> Scheduler \<Rightarrow> bool" where
  "same_but K s s' \<longleftrightarrow> (\<forall>k. k \<notin> K \<longrightarrow> task_get (tasks s') k = task_get (tasks s) k \<and>
     map_of (block_keys s') k = map_of (block_keys s) k \<and>
     (\<forall>w. k \<in> waits_at (blocked s') w \<longleftrightarrow> k \<in> waits_at (blocked s) w) \<and>
     (\<forall>src. k \<in> set (park_tasks (parked s') src) \<longleftrightarrow> k \<in> set (park_tasks (parked s) src)))"

lemma same_but_refl [simp]: "same_but K s s"
  by (simp add: same_but_def)

lemma same_but_trans: "same_but K s s' \<Longrightarrow> same_but K s' s'' \<Longrightarrow> same_but K s s''"
  by (simp add: same_but_def)

lemma same_but_remove_index:
  assumes "index_wf s"
  shows "same_but {t} s (remove_index s t)"
proof -
  have "map_of (block_keys (remove_index s t)) k = map_of (block_keys s) k" if "k \<noteq> t" for k
    using assms that by (auto simp: remove_index_def index_wf_def split: option.split IndexedState.split)
  moreover have "k \<in> set (park_tasks (parked (remove_index s t)) src) \<longleftrightarrow> k \<in> set (park_tasks (parked s) src)"
    if "k \<noteq> t" for k src
    using assms that
    by (auto simp: remove_index_def index_wf_def park_remove_ok(3) split: option.split IndexedState.split)
  ultimately show ?thesis using assms by (simp add: same_but_def remove_index_tasks)
qed

lemma same_but_state:
  "task_get (tasks s) t \<noteq> None \<Longrightarrow> same_but {t} s (s\<lparr>tasks := task_insert (tasks s) t st\<rparr>)"
  by (simp add: same_but_def task_get_insert_other)

lemma same_but_enqueue: "index_wf s \<Longrightarrow> task_get (tasks s) t \<noteq> None \<Longrightarrow> same_but {t} s (enqueue s t)"
  using same_but_remove_index [of s t]
  by (auto simp: same_but_def enqueue_def Let_def task_get_insert_other)

lemma same_but_block: "index_wf s \<Longrightarrow> task_get (tasks s) t \<noteq> None \<Longrightarrow> same_but {t} s (block v s t w)"
  using same_but_remove_index [of s t] remove_index_wf [of s t]
  by (auto simp: same_but_def block_def Let_def task_get_insert_other waits index_wf_def)

lemma same_but_wait_on: "index_wf s \<Longrightarrow> task_get (tasks s) t \<noteq> None \<Longrightarrow> same_but {t} s (wait_on s t c)"
  using same_but_remove_index [of s t]
  by (auto simp: same_but_def wait_on_def Let_def task_get_insert_other)

lemma same_but_drop: "index_wf s \<Longrightarrow> same_but {t} s (drop_task s t)"
  using same_but_remove_index [of s t]
  by (auto simp: same_but_def drop_task_def Let_def task_get_remove)

lemma same_but_park:
  assumes "index_wf s" and "task_get (tasks s) t \<noteq> None"
  shows "same_but {t} s (park v s t wt)"
proof -
  let ?r = "remove_index s t"
  have wf: "index_wf ?r" using assms remove_index_wf by blast
  have rem: "same_but {t} s ?r" by (rule same_but_remove_index [OF assms(1)])
  have "same_but {t} s (enqueue ?r t)"
    using same_but_trans [OF rem same_but_enqueue [OF wf]] assms(2) by simp
  moreover have "same_but {t} ?r (?r\<lparr>tasks := task_insert (tasks ?r) t (Parked wt),
      parked := park_insert (parked ?r) wt t (wait_sources v wt)\<rparr>)"
    using wf assms(2) by (auto simp: same_but_def task_get_insert_other index_wf_def park_insert_ok(3))
  ultimately show ?thesis
    using same_but_trans [OF rem] by (auto simp: park_def Let_def)
qed

lemma same_but_index_status:
  "index_wf s \<Longrightarrow> task_get (tasks s) t \<noteq> None \<Longrightarrow> same_but {t} s (index_status v s t st)"
  by (cases st) (simp_all add: same_but_enqueue same_but_block same_but_wait_on same_but_park same_but_drop)

text \<open>The queue after an indexing step.\<close>

lemma enqueue_ready_queue:
  "ready_queue (enqueue s t) =
    ready_queue s @ (if is_queued (task_get (tasks s) t) then [] else [(t, ready_ticket s)])"
  by (simp add: enqueue_def Let_def)

lemma index_status_ready_queue:
  "parks_somewhere v st \<Longrightarrow> ready_queue (index_status v s t st) =
    ready_queue s @ (if st = Ready \<and> \<not> is_queued (task_get (tasks s) t) then [(t, ready_ticket s)] else [])"
  by (cases st) (simp_all add: enqueue_ready_queue block_def wait_on_def park_def drop_task_def Let_def
      parks_somewhere_def)

section \<open>The next task\<close>

definition runnable :: "world_view \<Rightarrow> Scheduler \<Rightarrow> TaskKey \<Rightarrow> nat \<Rightarrow> bool" where
  "runnable v s k n \<longleftrightarrow> task_get (tasks s) k = Some (Queued n) \<and> task_status v k = Ready"

definition parks_ok :: "world_view \<Rightarrow> bool" where
  "parks_ok v \<longleftrightarrow> (\<forall>k. parks_somewhere v (task_status v k))"

lemma queue_but_pop:
  "queue_but {} s \<Longrightarrow> ready_queue s = (t, n) # rest \<Longrightarrow> queue_but {t} (s\<lparr>ready_queue := rest\<rparr>)"
  by (auto simp: queue_but_def)

lemma queue_but_skip:
  "queue_but {} s \<Longrightarrow> ready_queue s = (t, n) # rest \<Longrightarrow> task_get (tasks s) t \<noteq> Some (Queued n) \<Longrightarrow>
    queue_but {} (s\<lparr>ready_queue := rest\<rparr>)"
  by (auto simp: queue_but_def)

lemma index_wf_queue [simp]: "index_wf (s\<lparr>ready_queue := q\<rparr>) = index_wf s"
  by (simp add: index_wf_def)

lemma runnable_index_status:
  assumes "index_wf s" and "task_get (tasks s) t \<noteq> None" and "task_status v t \<noteq> Ready"
  shows "runnable v (index_status v s t st) k n = runnable v s k n"
  using same_but_index_status [OF assms(1,2), of v st] assms(3)
  by (cases "k = t") (auto simp: runnable_def same_but_def)

lemma next_ready_loop_step:
  assumes q: "ready_queue s = (t, n) # rest"
  shows "next_ready_loop v s (ready_queue s) =
    (if task_get (tasks s) t \<noteq> Some (Queued n) then next_ready_loop v (s\<lparr>ready_queue := rest\<rparr>) rest
     else if task_status v t = Ready then (Some t, s\<lparr>ready_queue := rest\<rparr>)
     else next_ready_loop v (index_status v (s\<lparr>ready_queue := rest\<rparr>) t (task_status v t)) rest)"
  unfolding q by (cases "task_status v t") (simp_all add: q)

text \<open>The answer of \<^const>\<open>next_ready\<close>: the runnable task with the smallest ticket.\<close>

definition picks :: "(TaskKey \<Rightarrow> nat \<Rightarrow> bool) \<Rightarrow> TaskKey option \<times> Scheduler \<Rightarrow> bool" where
  "picks run r \<longleftrightarrow> index_wf (snd r) \<and>
     (case fst r of
        Some t \<Rightarrow> queue_but {t} (snd r) \<and> (\<exists>n. run t n \<and> (\<forall>k m. run k m \<longrightarrow> n \<le> m))
      | None \<Rightarrow> queue_but {} (snd r) \<and> ready_queue (snd r) = [] \<and> (\<forall>k m. \<not> run k m))"

lemma next_ready_loop_picks:
  assumes "index_wf s" and "queue_but {} s" and "parks_ok v"
  shows "picks (runnable v s) (next_ready_loop v s (ready_queue s))"
  using assms(1,2)
proof (induction "ready_queue s" arbitrary: s)
  case Nil
  then show ?case by (auto simp: queue_but_def runnable_def picks_def)
next
  case (Cons e rest)
  obtain t n where e: "e = (t, n)" by (cases e)
  have q: "ready_queue s = (t, n) # rest" using Cons.hyps(2) e by simp
  let ?s = "s\<lparr>ready_queue := rest\<rparr>"
  have run: "runnable v ?s = runnable v s" by (simp add: runnable_def fun_eq_iff)
  note step = next_ready_loop_step [OF q, of v]
  consider "task_get (tasks s) t \<noteq> Some (Queued n)"
    | "task_get (tasks s) t = Some (Queued n)" "task_status v t = Ready"
    | "task_get (tasks s) t = Some (Queued n)" "task_status v t \<noteq> Ready" by blast
  then show ?case
  proof cases
    case 1
    then show ?thesis
      using Cons.hyps(1) [of ?s] Cons.prems queue_but_skip [OF Cons.prems(2) q 1] step run by simp
  next
    case 2
    have "n \<le> m" if "runnable v s k m" for k m
    proof -
      have "(k, m) \<in> set (ready_queue s)" using that Cons.prems(2) by (simp add: runnable_def queue_but_def)
      then show ?thesis using Cons.prems(2) by (auto simp: q queue_but_def)
    qed
    then show ?thesis
      using 2 Cons.prems queue_but_pop [OF Cons.prems(2) q] step by (auto simp: runnable_def picks_def)
  next
    case 3
    have park: "parks_somewhere v (task_status v t)" using assms(3) by (simp add: parks_ok_def)
    let ?i = "index_status v ?s t (task_status v t)"
    have rq: "rest = ready_queue ?i" using park 3 by (simp add: index_status_ready_queue)
    have "queue_but {} ?i"
      using queue_but_pop [OF Cons.prems(2) q] 3 park by (intro index_status_popped) auto
    moreover have "index_wf ?i" using Cons.prems(1) by (simp add: index_status_wf)
    moreover have "runnable v ?i = runnable v s"
      using runnable_index_status [of ?s t v "task_status v t"] 3 Cons.prems(1) run by (simp add: fun_eq_iff)
    ultimately show ?thesis
      using Cons.hyps(1) [OF rq] step 3 rq by simp
  qed
qed

lemma next_ready_picks: "sched_wf s \<Longrightarrow> parks_ok v \<Longrightarrow> picks (runnable v s) (next_ready v s)"
  by (simp add: next_ready_def sched_wf_def next_ready_loop_picks)

section \<open>Every round keeps the state well-formed\<close>

lemma sched_wf_updates [simp]:
  "sched_wf (s\<lparr>sched_events := e\<rparr>) = sched_wf s"
  "sched_wf (s\<lparr>stats := st\<rparr>) = sched_wf s"
  "sched_wf (s\<lparr>stop := sp\<rparr>) = sched_wf s"
  by (simp_all add: sched_wf_def index_wf_def queue_but_def)

lemma sched_wf_count [simp]:
  "sched_wf (count_unblocked s) = sched_wf s"
  "sched_wf (count_slice v s t) = sched_wf s"
  by (simp_all add: count_unblocked_def count_slice_def)

lemma remove_index_wfs: "sched_wf s \<Longrightarrow> sched_wf (remove_index s t)"
  by (simp add: sched_wf_def remove_index_wf remove_index_queue)

lemma drop_task_wfs: "sched_wf s \<Longrightarrow> sched_wf (drop_task s t)"
  using drop_task_queue [of t "{}" s] queue_but_mono [of "{}" s "{t}"]
  by (simp add: sched_wf_def drop_task_wf)

lemma sched_wf_blocked: "sched_wf s \<Longrightarrow> wake_index_ok b \<Longrightarrow> sched_wf (s\<lparr>blocked := b\<rparr>)"
  by (simp add: sched_wf_def index_wf_def queue_but_def)

lemma sched_wf_parked: "sched_wf s \<Longrightarrow> park_ok p \<Longrightarrow> sched_wf (s\<lparr>parked := p\<rparr>)"
  by (simp add: sched_wf_def index_wf_def queue_but_def)

lemma sched_wf_waiting: "sched_wf s \<Longrightarrow> bt_ok q \<Longrightarrow> sched_wf (s\<lparr>waiting := q\<rparr>)"
  by (simp add: sched_wf_def index_wf_def queue_but_def)

lemma foldl_wfs: "sched_wf s \<Longrightarrow> (\<And>s x. sched_wf s \<Longrightarrow> sched_wf (f s x)) \<Longrightarrow> sched_wf (foldl f s xs)"
  by (induction xs arbitrary: s) auto

lemma take_wake_eq:
  "take_wake p w = (fst (wake_index_take (park_wakes p) w), p\<lparr>park_wakes := snd (wake_index_take (park_wakes p) w)\<rparr>)"
  by (simp add: take_wake_def split: prod.split)

lemma take_wake_ok: "park_ok p \<Longrightarrow> take_wake p w = (ws, p') \<Longrightarrow> park_ok p'"
  by (auto simp: take_wake_eq park_ok_def wake_map.inv_tak)

lemma take_completion_ok: "park_ok p \<Longrightarrow> take_completion p c = (ws, p') \<Longrightarrow> park_ok p'"
  by (auto simp: take_completion_def completion_take_def park_ok_def completions_ok_remove)

lemma wake_index_take_ok: "wake_index_ok b \<Longrightarrow> wake_index_take b w = (ws, b') \<Longrightarrow> wake_index_ok b'"
  using wake_map.inv_tak [of b w] by simp

lemma wfs_parts: "sched_wf s \<Longrightarrow> wake_index_ok (blocked s) \<and> park_ok (parked s) \<and> bt_ok (waiting s) \<and> task_index_ok (tasks s)"
  by (simp add: sched_wf_def index_wf_def)

lemma wake_parked_wfs: "sched_wf s \<Longrightarrow> sched_wf (wake_parked v s ws)"
  unfolding wake_parked_def
  by (rule foldl_wfs) (auto simp: wake_parked_one_def refresh_wfs split: option.split IndexedState.split)

lemma wake_parked_at_wfs: "sched_wf s \<Longrightarrow> sched_wf (wake_parked_at v s w)"
  using wfs_parts [of s] take_wake_ok [of "parked s" w]
  by (auto simp: wake_parked_at_def sched_wf_parked wake_parked_wfs split: prod.split option.split)

lemma wake_blocked_one_wfs: "sched_wf s \<Longrightarrow> sched_wf (wake_blocked_one v w s t)"
  by (auto simp: wake_blocked_one_def Let_def refresh_wfs remove_index_wfs split: option.split IndexedState.split)

lemma wake_all_wfs: "sched_wf s \<Longrightarrow> sched_wf (wake_all v s w)"
  using wfs_parts [of s] wake_index_take_ok [of "blocked s" w]
  by (auto simp: wake_all_def intro!: wake_parked_at_wfs foldl_wfs wake_blocked_one_wfs sched_wf_blocked
      split: prod.split option.split)

lemma complete_completion_wfs:
  assumes "sched_wf s"
  shows "sched_wf (complete_completion v s c)"
proof -
  define s1 where "s1 = s\<lparr>waiting := bt_remove c (waiting s)\<rparr>"
  define s2 where "s2 = (case map_of (waiting s) c of None \<Rightarrow> s1
      | Some task \<Rightarrow> if task_get (tasks s1) task = Some (Waiting c) then refresh v (count_unblocked s1) task else s1)"
  have "sched_wf s1" using assms wfs_parts [OF assms] by (simp add: s1_def sched_wf_waiting)
  then have s2: "sched_wf s2" by (auto simp: s2_def refresh_wfs split: option.split)
  have "complete_completion v s c = (case take_completion (parked s2) c of
      (None, p) \<Rightarrow> s2\<lparr>parked := p\<rparr> | (Some ws, p) \<Rightarrow> wake_parked v (s2\<lparr>parked := p\<rparr>) ws)"
    unfolding complete_completion_def Let_def s2_def s1_def by (rule refl)
  then show ?thesis
    using s2 wfs_parts [OF s2] take_completion_ok [of "parked s2" c]
    by (auto simp: sched_wf_parked wake_parked_wfs split: prod.split option.split)
qed

lemma consume_events_wfs:
  assumes "sched_wf s" and "consume_events ops w s = Some (w', s')"
  shows "sched_wf s'"
proof -
  have removed: "sched_wf (consume_removed s)" if "sched_wf s" for s
    unfolding consume_removed_def by (rule foldl_wfs) (simp_all add: that drop_task_wfs)
  have woken: "sched_wf (consume_wakes v s)" if "sched_wf s" for v s
    unfolding consume_wakes_def by (rule foldl_wfs) (simp_all add: that wake_all_wfs)
  have readied: "sched_wf (consume_ready v s)" if "sched_wf s" for v s
    unfolding consume_ready_def by (rule foldl_wfs) (auto simp: that consume_ready_one_def refresh_wfs)
  show ?thesis
    using assms
    by (auto simp: consume_events_def Let_def removed woken readied split: prod.splits bool.splits option.splits)
qed

lemma poll_completions_wfs:
  "sched_wf s \<Longrightarrow> poll_completions fuel ops w s = Some (w', s') \<Longrightarrow> sched_wf s'"
  by (induction fuel arbitrary: w s) (auto split: prod.splits option.splits, blast intro: complete_completion_wfs)

lemma poll_ready_completions_wfs:
  "sched_wf s \<Longrightarrow> poll_ready_completions fuel ops w s = Some (w', s') \<Longrightarrow> sched_wf s'"
  by (auto simp: poll_ready_completions_def poll_completions_wfs split: if_splits)

lemma finish_slice_wfs:
  assumes "sched_wf s" and "finish_slice ops w s t exit = (w', s')"
  shows "sched_wf s'"
proof (cases exit)
  case None
  then show ?thesis using assms by (auto simp: finish_slice_def Let_def refresh_wfs)
next
  case (Some e)
  then show ?thesis
    using assms index_status_wfs [OF assms(1), of _ t Ready] index_status_wfs [OF assms(1), of _ t "StatusBlocked _"]
      index_status_wfs [OF assms(1), of _ t "StatusWaiting _"] index_status_wfs [OF assms(1), of _ t "StatusParked _"]
    by (cases e) (auto simp: finish_slice_def finish_terminal_def Let_def drop_task_wfs intro!: wake_all_wfs)
qed

lemma fail_list_wfs:
  "sched_wf s \<Longrightarrow> foldl (fail_one fail ops) (w, s) ts = (w', s') \<Longrightarrow> sched_wf s'"
  by (induction ts arbitrary: w s) (auto simp: fail_one_def Let_def, blast intro: refresh_wfs)

lemma fail_waiting_wfs: "sched_wf s \<Longrightarrow> fail_waiting ops w s = (w', s') \<Longrightarrow> sched_wf s'"
  unfolding fail_waiting_def Let_def
  by (rule fail_list_wfs [rotated], assumption) (simp add: sched_wf_def index_wf_def queue_but_def)

lemma fail_every_block_wfs: "sched_wf s \<Longrightarrow> fail_every_block ops w s = (w', s') \<Longrightarrow> sched_wf s'"
  unfolding fail_every_block_def by (rule fail_list_wfs)

lemma run_slice_wfs:
  assumes "index_wf s" and "queue_but {t} s" and run: "run_slice ops w s t = Some (w', s')"
  shows "sched_wf s'"
proof -
  define s1 where "s1 = (let s = count_slice (view_of ops w) s t in s\<lparr>tasks := task_insert (tasks s) t Running\<rparr>)"
  obtain exit w1 where drive: "drive_scheduler_slice ops w s1 t False = (exit, w1)" by fastforce
  define w2 where "w2 = note_scheduler_slice ops t (sat_sub (world_fuel ops w) (world_fuel ops w1)) (exit \<noteq> None)
      (heap_used ops w (vm t)) w1"
  have s1: "sched_wf s1"
    using assms(1,2)
    by (auto simp: s1_def Let_def count_slice_def sched_wf_def index_wf_def task_index_ok_insert queue_but_def
        task_get_insert split: if_splits)
  have eq: "run_slice ops w s t = (if exit = Some ExitTerminal
      then (let (w, s) = finish_slice ops w2 s1 t exit in consume_events ops w s)
      else map_option (\<lambda>(w, s). finish_slice ops w s t exit) (consume_events ops w2 s1))"
    using drive by (simp add: run_slice_def s1_def w2_def Let_def)
  show ?thesis
  proof (cases "exit = Some ExitTerminal")
    case True
    obtain w3 s3 where "finish_slice ops w2 s1 t exit = (w3, s3)" by fastforce
    then show ?thesis using run eq True finish_slice_wfs [OF s1] consume_events_wfs by force
  next
    case False
    then obtain w3 s3 where c: "consume_events ops w2 s1 = Some (w3, s3)" and f: "finish_slice ops w3 s3 t exit = (w', s')"
      using run eq by auto
    show ?thesis by (rule finish_slice_wfs [OF consume_events_wfs [OF s1 c] f])
  qed
qed

lemma run_round_wf:
  assumes "sched_wf s" and "\<And>w. parks_ok (view_of ops w)"
    and "run_round fuel ops w s = Continue w' s' \<or> run_round fuel ops w s = Returned r w' s'"
  shows "sched_wf s'"
proof -
  from assms(3) obtain w1 s1 where c: "consume_events ops w s = Some (w1, s1)"
    by (auto simp: run_round_def split: option.splits)
  with assms(3) obtain w2 s2 where p: "poll_ready_completions fuel ops w1 s1 = Some (w2, s2)"
    by (auto simp: run_round_def split: option.splits)
  have s2: "sched_wf s2"
    by (rule poll_ready_completions_wfs [OF consume_events_wfs [OF assms(1) c] p])
  obtain t s3 where n: "next_ready (view_of ops w2) s2 = (t, s3)" by fastforce
  have picks: "picks (runnable (view_of ops w2) s2) (t, s3)"
    using next_ready_picks [OF s2 assms(2), of w2] n by simp
  have s3: "sched_wf s3" if "t = None" using picks that by (simp add: picks_def sched_wf_def)
  have slice: "sched_wf s'" if "t = Some k" "run_slice ops w2 s3 k = Some (w', s')" for k w' s'
    using picks that run_slice_wfs [of s3 k ops w2] by (simp add: picks_def)
  have stuck: "sched_wf s'" if "t = None" "fail_every_block ops w2 (s3\<lparr>stop := Some Deadlock\<rparr>) = (w', s')" for w' s'
    using fail_every_block_wfs [OF _ that(2)] s3 [OF that(1)] by simp
  show ?thesis
    using assms(3) c p n s2 s3 slice stuck
    by (auto simp: run_round_def Let_def complete_completion_wfs refresh_wfs
        intro: fail_waiting_wfs split: option.splits prod.splits if_splits)
qed

lemma reset_wfs:
  assumes "reset ops w s include = Some (w', s')"
  shows "sched_wf s'"
proof -
  obtain e where e: "events_clear (sched_events s) = Some e"
    using assms by (auto simp: reset_def split: option.splits)
  define s1 where "s1 = s\<lparr>include_root := include, stats := stats_default, stop := None, ready_queue := [],
      ready_ticket := 0, tasks := [], blocked := [], block_keys := [], waiting := [],
      parked := park_default, sched_events := e\<rparr>"
  define s2 where "s2 = foldl (\<lambda>s (task, status). index_status (view_of ops w) s task status) s1
      (scheduler_seeds ops w include)"
  have "sched_wf s1"
    by (simp add: s1_def sched_wf_def index_wf_def queue_but_def task_index_ok_def task_get_def get_opt_def)
  then have "sched_wf s2"
    unfolding s2_def by (rule foldl_wfs) (auto simp: index_status_wfs)
  moreover have "consume_events ops w s2 = Some (w', s')"
    using assms e by (simp add: reset_def s1_def s2_def Let_def)
  ultimately show ?thesis by (rule consume_events_wfs)
qed

section \<open>A small world\<close>

text \<open>
  A root task, and for the tasks 1 to 3 a status of their own; the world of \<open>demo_ops\<close>
  is the status of its root with the pending events.
\<close>

definition demo_view :: "(TaskKey \<Rightarrow> TaskStatus) \<Rightarrow> world_view" where
  "demo_view st = \<lparr>task_status = st, drive_surfaces = \<lambda>k. [],
     append_wait_sources = \<lambda>wait. (False, [WakeSource (Send (TaskKey 0 0))]),
     task_key_of = \<lambda>i. Some (TaskKey i 0), root = 0\<rparr>"

definition demo_status :: "TaskKey \<Rightarrow> TaskStatus" where
  "demo_status k =
     (if k = TaskKey 0 0 then Ready
      else if k = TaskKey 1 0 then StatusBlocked (Send (TaskKey 0 0))
      else if k = TaskKey 2 0 then StatusParked (WaitSetKey (TaskKey 2 0) 7)
      else if k = TaskKey 3 0 then StatusWaiting (CompletionKey (TaskKey 3 0) 9)
      else Dormant)"

definition demo_sched :: Scheduler where
  "demo_sched = foldl (refresh (demo_view demo_status)) (scheduler_new 10 True)
     [TaskKey 0 0, TaskKey 1 0, TaskKey 2 0, TaskKey 3 0]"

definition demo_ops :: "(TaskStatus \<times> ScheduleEvents) world_ops" where
  "demo_ops = \<lparr>view_of = \<lambda>w. demo_view (\<lambda>k. if k = TaskKey 0 0 then fst w else Dormant),
     world_events = snd, set_world_events = \<lambda>e w. (fst w, e),
     scheduler_seeds = \<lambda>w include. [(TaskKey 0 0, fst w)],
     poll_host_completion = \<lambda>accepts w. (None, w), wait_host_completion = \<lambda>accepts w. (None, w),
     snapshot_wait_quantum = \<lambda>w t q. q,
     drive_slice = \<lambda>t q w. (Some ExitTerminal, (Terminal, snd w)),
     drive_slice_polled = \<lambda>t q i y w. (Some ExitTerminal, (Terminal, snd w)),
     world_fuel = \<lambda>w. 0, heap_used = \<lambda>w i. 0, note_scheduler_slice = \<lambda>t u b n w. w,
     retire_scheduler_task = \<lambda>t w. w, fail_blocked_task = \<lambda>t w. (Terminal, snd w),
     fail_waiting_task = \<lambda>t w. (Terminal, snd w)\<rparr>"

lemma demo_parks [simp]: "parks_ok (demo_view st)" "parks_ok (view_of demo_ops w)"
  by (auto simp: parks_ok_def parks_somewhere_def demo_view_def demo_ops_def wait_sources_def order_sources_def
      split: TaskStatus.split)

lemma demo_view_status [simp]: "task_status (demo_view st) k = st k"
  by (simp add: demo_view_def)

lemma scheduler_new_wfs: "sched_wf (scheduler_new q fixed)"
  by (simp add: scheduler_new_def sched_wf_def index_wf_def queue_but_def task_index_ok_def task_get_def get_opt_def)

lemma demo_wfs [simp]: "sched_wf demo_sched"
  unfolding demo_sched_def by (rule foldl_wfs) (simp_all add: scheduler_new_wfs refresh_wfs)

section \<open>Properties of the scheduler loop\<close>

text \<open>The states the loop passes through, round by round.\<close>

inductive loop_state :: "nat \<Rightarrow> 'w world_ops \<Rightarrow> 'w \<Rightarrow> Scheduler \<Rightarrow> bool" for fuel ops where
  begin_run: "reset ops w s True = Some (w', s') \<Longrightarrow> loop_state fuel ops w' s'"
| next_round: "loop_state fuel ops w s \<Longrightarrow> run_round fuel ops w s = Continue w' s' \<Longrightarrow> loop_state fuel ops w' s'"

lemma loop_state_wf:
  assumes "loop_state fuel ops w s" and "\<And>w. parks_ok (view_of ops w)"
  shows "sched_wf s"
  using assms(1) by induction (auto intro: reset_wfs run_round_wf [OF _ assms(2)])

lemma run_rounds_state:
  "loop_state fuel ops w s \<Longrightarrow> run_rounds rounds fuel ops w s = Some r \<Longrightarrow>
    \<exists>w' s'. loop_state fuel ops w' s' \<and> run_round fuel ops w' s' = r \<and> (\<forall>w s. r \<noteq> Continue w s)"
proof (induction rounds arbitrary: w s)
  case (Suc rounds)
  then show ?case
  proof (cases "run_round fuel ops w s")
    case (Continue w1 s1)
    then show ?thesis using Suc.IH [of w1 s1] Suc.prems next_round [of fuel ops w s w1 s1] by simp
  qed auto
qed simp

text \<open>
  C5: Every state of a run is well-formed, from any scheduler that is reset: the task
  index, the wake index, the park index and the waiting table keep their order, the
  queue is sorted by ticket below the ticket counter, and every task indexed as queued
  has the queue entry with its ticket, so no runnable task is lost. The world only has
  to report a task as parked when its wait set has a source.
\<close>

theorem loop_state_invariant:
  assumes "loop_state fuel ops w s" and "\<And>w. parks_ok (view_of ops w)"
  shows "sched_wf s \<and> sorted_wrt (<) (map snd (ready_queue s)) \<and>
    (\<forall>k n. task_get (tasks s) k = Some (Queued n) \<longrightarrow> (k, n) \<in> set (ready_queue s) \<and> n < ready_ticket s)"
  using loop_state_wf [OF assms] by (fastforce simp: sched_wf_def queue_but_def)

theorem loop_state_invariant_witness:
  "(TaskKey 0 0, 0) \<in> set (ready_queue (snd (the (reset demo_ops (Ready, events_default) (scheduler_new 10 True) True))))"
proof -
  define r where "r = reset demo_ops (Ready, events_default) (scheduler_new 10 True) True"
  have "r \<noteq> None" unfolding r_def by code_simp
  then have "reset demo_ops (Ready, events_default) (scheduler_new 10 True) True = Some (fst (the r), snd (the r))"
    by (simp add: r_def)
  then have "loop_state 1 demo_ops (fst (the r)) (snd (the r))" by (rule begin_run)
  moreover have "task_get (tasks (snd (the r))) (TaskKey 0 0) = Some (Queued 0)" unfolding r_def by code_simp
  ultimately show ?thesis
    using loop_state_invariant [of 1 demo_ops "fst (the r)" "snd (the r)"] by (simp add: r_def)
qed

text \<open>
  C14: A round that finds a runnable task runs one: when, after the events and the ready
  completions are taken in, some task is queued and the world reports it ready, and the
  root has not ended, the round gives a slice to the runnable task with the smallest
  ticket, so a deadlock is reported only when nothing can run.
\<close>

theorem run_round_runs:
  assumes "sched_wf s" and "parks_ok (view_of ops w2)"
    and "consume_events ops w s = Some (w1, s1)" and "poll_ready_completions fuel ops w1 s1 = Some (w2, s2)"
    and "task_key_of (view_of ops w2) (root (view_of ops w2)) = Some r"
    and "task_status (view_of ops w2) r \<noteq> Terminal"
    and "runnable (view_of ops w2) s2 k m"
  shows "\<exists>t n s3. next_ready (view_of ops w2) s2 = (Some t, s3) \<and> runnable (view_of ops w2) s2 t n \<and>
    (\<forall>k m. runnable (view_of ops w2) s2 k m \<longrightarrow> n \<le> m) \<and>
    run_round fuel ops w s = (case run_slice ops w2 s3 t of None \<Rightarrow> Panicked | Some (w', s') \<Rightarrow> Continue w' s')"
proof -
  have s2: "sched_wf s2"
    by (rule poll_ready_completions_wfs [OF consume_events_wfs [OF assms(1,3)] assms(4)])
  obtain x s3 where n: "next_ready (view_of ops w2) s2 = (x, s3)" by fastforce
  have picks: "picks (runnable (view_of ops w2) s2) (x, s3)"
    using next_ready_picks [OF s2 assms(2)] n by simp
  then obtain t where "x = Some t" using assms(7) by (cases x) (auto simp: picks_def)
  then show ?thesis using picks n assms(3-6) by (auto simp: picks_def run_round_def Let_def)
qed

theorem run_round_runs_witness:
  "\<exists>t s3. next_ready (view_of demo_ops (Ready, events_default)) demo_sched = (Some t, s3) \<and>
    run_round 1 demo_ops (Ready, events_default) demo_sched =
      (case run_slice demo_ops (Ready, events_default) s3 t of None \<Rightarrow> Panicked | Some (w', s') \<Rightarrow> Continue w' s')"
proof -
  have "consume_events demo_ops (Ready, events_default) demo_sched = Some ((Ready, events_default), demo_sched)"
    "poll_ready_completions 1 demo_ops (Ready, events_default) demo_sched = Some ((Ready, events_default), demo_sched)"
    by code_simp+
  moreover have "task_key_of (view_of demo_ops (Ready, events_default)) (root (view_of demo_ops (Ready, events_default))) =
      Some (TaskKey 0 0)" by code_simp
  moreover have "task_status (view_of demo_ops (Ready, events_default)) (TaskKey 0 0) \<noteq> Terminal" by code_simp
  moreover have "runnable (view_of demo_ops (Ready, events_default)) demo_sched (TaskKey 0 0) 0" by code_simp
  ultimately show ?thesis
    using run_round_runs [of demo_sched demo_ops "(Ready, events_default)" "(Ready, events_default)"
        "(Ready, events_default)" demo_sched 1 demo_sched "TaskKey 0 0" "TaskKey 0 0" 0] by auto
qed

text \<open>
  C7: The queue is first-in first-out over the tasks that can run: \<open>next_ready\<close> returns
  the task that is indexed as queued, that the world reports ready and whose ticket is
  the smallest of those, and it returns none exactly when there is no such task. Stale
  queue entries and tasks whose status changed meanwhile are passed over.
\<close>

theorem next_ready_fifo:
  assumes "sched_wf s" and "parks_ok v"
  shows "case fst (next_ready v s) of
      Some t \<Rightarrow> (\<exists>n. task_get (tasks s) t = Some (Queued n) \<and> task_status v t = Ready \<and>
        (\<forall>k m. task_get (tasks s) k = Some (Queued m) \<and> task_status v k = Ready \<longrightarrow> n \<le> m))
    | None \<Rightarrow> (\<forall>k m. \<not> (task_get (tasks s) k = Some (Queued m) \<and> task_status v k = Ready))"
  using next_ready_picks [OF assms] by (auto simp: picks_def runnable_def split: option.splits)

theorem next_ready_fifo_witness:
  "fst (next_ready (demo_view demo_status) demo_sched) = Some (TaskKey 0 0) \<and>
    (\<exists>n. task_get (tasks demo_sched) (TaskKey 0 0) = Some (Queued n))"
proof -
  have "fst (next_ready (demo_view demo_status) demo_sched) = Some (TaskKey 0 0)" by code_simp
  then show ?thesis using next_ready_fifo [of demo_sched "demo_view demo_status"] by auto
qed

end
