(* ===== verification/Scheduler_Wake.thy ===== *)
theory Scheduler_Wake
  imports Scheduler_Correct
begin

text \<open>
  The wakes of the scheduler: which tasks a delivered condition queues and in which
  order, when the blocked tasks stay listed under their conditions, and the two cases
  in which a task is left behind.
\<close>

section \<open>Waking the tasks of a condition\<close>

lemma same_but_mono: "same_but K s s' \<Longrightarrow> K \<subseteq> K' \<Longrightarrow> same_but K' s s'"
  by (auto simp: same_but_def)

lemma same_but_count [simp]: "same_but K s (count_unblocked s') = same_but K s s'"
  by (simp add: same_but_def count_unblocked_def)

lemma count_unblocked_frame [simp]:
  "tasks (count_unblocked s) = tasks s" "ready_queue (count_unblocked s) = ready_queue s"
  "blocked (count_unblocked s) = blocked s" "block_keys (count_unblocked s) = block_keys s"
  "parked (count_unblocked s) = parked s" "index_wf (count_unblocked s) = index_wf s"
  "ready_ticket (count_unblocked s) = ready_ticket s"
  by (simp_all add: count_unblocked_def index_wf_def)

definition woken :: "Scheduler \<Rightarrow> WakeKey \<Rightarrow> TaskKey \<Rightarrow> bool" where
  "woken s w t \<longleftrightarrow> (case task_get (tasks s) t of
      Some (Blocked primary) \<Rightarrow>
        primary = w \<or> (case map_of (block_keys s) t of None \<Rightarrow> False | Some keys \<Rightarrow> w \<in> set keys)
    | _ \<Rightarrow> False)"

lemma same_butD:
  assumes "same_but K s s'" and "k \<notin> K"
  shows "task_get (tasks s') k = task_get (tasks s) k" and "map_of (block_keys s') k = map_of (block_keys s) k"
    and "k \<in> waits_at (blocked s') w \<longleftrightarrow> k \<in> waits_at (blocked s) w"
    and "k \<in> set (park_tasks (parked s') src) \<longleftrightarrow> k \<in> set (park_tasks (parked s) src)"
  using assms unfolding same_but_def by blast+

lemma woken_same: "same_but K s s' \<Longrightarrow> k \<notin> K \<Longrightarrow> woken s' w k = woken s w k"
  unfolding woken_def by (subst same_butD(1), assumption+, subst same_butD(2), assumption+) (rule refl)

lemma woken_get: "woken s w t \<Longrightarrow> \<exists>p. task_get (tasks s) t = Some (Blocked p)"
  by (auto simp: woken_def split: option.splits IndexedState.splits)

lemma wake_blocked_one_eq:
  "wake_blocked_one v w s t =
    (if woken s w t
     then refresh v (if task_status v t = Ready then count_unblocked (remove_index s t) else remove_index s t) t
     else s)"
  by (auto simp: wake_blocked_one_def woken_def Let_def split: option.split IndexedState.split)

lemma refresh_ready_queue:
  "parks_ok v \<Longrightarrow> ready_queue (refresh v s t) =
    ready_queue s @ (if task_status v t = Ready \<and> \<not> is_queued (task_get (tasks s) t) then [(t, ready_ticket s)] else [])"
  by (simp add: refresh_def parks_ok_def index_status_ready_queue)

lemma same_but_refresh: "index_wf s \<Longrightarrow> task_get (tasks s) t \<noteq> None \<Longrightarrow> same_but {t} s (refresh v s t)"
  unfolding refresh_def by (rule same_but_index_status)

lemma refresh_wf: "index_wf s \<Longrightarrow> index_wf (refresh v s t)"
  unfolding refresh_def by (rule index_status_wf)

lemma refresh_ready_state: "task_status v t = Ready \<Longrightarrow> is_queued (task_get (tasks (refresh v s t)) t)"
  by (simp add: refresh_def enqueue_def Let_def task_get_insert)

lemma wake_blocked_one_spec:
  assumes "index_wf s" and "parks_ok v"
  shows "index_wf (wake_blocked_one v w s t)"
    and "same_but (if woken s w t then {t} else {}) s (wake_blocked_one v w s t)"
    and "map fst (ready_queue (wake_blocked_one v w s t)) =
      map fst (ready_queue s) @ filter (\<lambda>t. woken s w t \<and> task_status v t = Ready) [t]"
    and "woken s w t \<Longrightarrow> task_status v t = Ready \<Longrightarrow> is_queued (task_get (tasks (wake_blocked_one v w s t)) t)"
proof -
  let ?r = "remove_index s t"
  let ?c = "if task_status v t = Ready then count_unblocked ?r else ?r"
  have wf: "index_wf ?c" using remove_index_wf [OF assms(1)] by simp
  have rem: "same_but {t} s ?c" using same_but_remove_index [OF assms(1)] by simp
  show "index_wf (wake_blocked_one v w s t)"
    using assms(1) refresh_wf [OF wf] by (simp add: wake_blocked_one_eq)
  show "same_but (if woken s w t then {t} else {}) s (wake_blocked_one v w s t)"
    using same_but_trans [OF rem same_but_refresh [OF wf]] woken_get [of s w t]
    by (auto simp: wake_blocked_one_eq)
  show "map fst (ready_queue (wake_blocked_one v w s t)) =
      map fst (ready_queue s) @ filter (\<lambda>t. woken s w t \<and> task_status v t = Ready) [t]"
    using woken_get [of s w t] by (auto simp: wake_blocked_one_eq refresh_ready_queue [OF assms(2)])
  show "woken s w t \<Longrightarrow> task_status v t = Ready \<Longrightarrow> is_queued (task_get (tasks (wake_blocked_one v w s t)) t)"
    by (simp add: wake_blocked_one_eq refresh_ready_state)
qed

lemma wake_blocked_list:
  assumes "index_wf s" and "parks_ok v" and "distinct ts"
  shows "index_wf (foldl (wake_blocked_one v w) s ts) \<and>
    same_but {t \<in> set ts. woken s w t} s (foldl (wake_blocked_one v w) s ts) \<and>
    map fst (ready_queue (foldl (wake_blocked_one v w) s ts)) =
      map fst (ready_queue s) @ filter (\<lambda>t. woken s w t \<and> task_status v t = Ready) ts \<and>
    (\<forall>t \<in> set ts. woken s w t \<longrightarrow> task_status v t = Ready \<longrightarrow>
      is_queued (task_get (tasks (foldl (wake_blocked_one v w) s ts)) t))"
  using assms(1,3)
proof (induction ts arbitrary: s)
  case (Cons t ts)
  let ?s = "wake_blocked_one v w s t"
  let ?e = "foldl (wake_blocked_one v w) ?s ts"
  note one = wake_blocked_one_spec [OF Cons.prems(1) assms(2), of w t]
  have t: "t \<notin> set ts" and d: "distinct ts" using Cons.prems(2) by auto
  note IH = Cons.IH [OF one(1) d]
  have same: "same_but {t} s ?s" using one(2) by (auto intro: same_but_mono split: if_splits)
  have wk: "woken ?s w k = woken s w k" if "k \<in> set ts" for k
    by (rule woken_same [OF same]) (use that t in auto)
  have f: "filter (\<lambda>t. woken ?s w t \<and> task_status v t = Ready) ts =
      filter (\<lambda>t. woken s w t \<and> task_status v t = Ready) ts"
    by (rule filter_cong) (auto simp: wk)
  have sub: "same_but {k \<in> set (t # ts). woken s w k} s ?s" "same_but {k \<in> set (t # ts). woken s w k} ?s ?e"
    using one(2) IH wk by (auto intro: same_but_mono split: if_splits)
  have "task_get (tasks ?e) t = task_get (tasks ?s) t" using IH t by (auto simp: same_but_def)
  then show ?case
    using IH one(3,4) same_but_trans [OF sub] f wk by auto
qed simp

definition is_parked :: "Scheduler \<Rightarrow> TaskKey \<Rightarrow> bool" where
  "is_parked s t \<longleftrightarrow> (\<exists>wait. task_get (tasks s) t = Some (Parked wait))"

lemma is_parked_same: "same_but K s s' \<Longrightarrow> k \<notin> K \<Longrightarrow> is_parked s' k = is_parked s k"
  by (simp add: is_parked_def same_butD(1))

lemma wake_parked_one_eq:
  "wake_parked_one v s t =
    (if is_parked s t then refresh v (if task_status v t = Ready then count_unblocked s else s) t else s)"
  by (auto simp: wake_parked_one_def is_parked_def split: option.split IndexedState.split)

lemma wake_parked_one_spec:
  assumes "index_wf s" and "parks_ok v"
  shows "index_wf (wake_parked_one v s t)"
    and "same_but (if is_parked s t then {t} else {}) s (wake_parked_one v s t)"
    and "map fst (ready_queue (wake_parked_one v s t)) =
      map fst (ready_queue s) @ filter (\<lambda>t. is_parked s t \<and> task_status v t = Ready) [t]"
proof -
  let ?c = "if task_status v t = Ready then count_unblocked s else s"
  have wf: "index_wf ?c" using assms(1) by simp
  have c: "same_but {t} s ?c" by simp
  show "index_wf (wake_parked_one v s t)"
    using assms(1) refresh_wf [OF wf] by (simp add: wake_parked_one_eq)
  show "same_but (if is_parked s t then {t} else {}) s (wake_parked_one v s t)"
    using same_but_trans [OF c same_but_refresh [OF wf]] by (auto simp: wake_parked_one_eq is_parked_def)
  show "map fst (ready_queue (wake_parked_one v s t)) =
      map fst (ready_queue s) @ filter (\<lambda>t. is_parked s t \<and> task_status v t = Ready) [t]"
    by (auto simp: wake_parked_one_eq is_parked_def refresh_ready_queue [OF assms(2)])
qed

lemma wake_parked_list:
  assumes "index_wf s" and "parks_ok v" and "distinct ts"
  shows "index_wf (foldl (wake_parked_one v) s ts) \<and>
    same_but {t \<in> set ts. is_parked s t} s (foldl (wake_parked_one v) s ts) \<and>
    map fst (ready_queue (foldl (wake_parked_one v) s ts)) =
      map fst (ready_queue s) @ filter (\<lambda>t. is_parked s t \<and> task_status v t = Ready) ts"
  using assms(1,3)
proof (induction ts arbitrary: s)
  case (Cons t ts)
  let ?s = "wake_parked_one v s t"
  let ?e = "foldl (wake_parked_one v) ?s ts"
  note one = wake_parked_one_spec [OF Cons.prems(1) assms(2), of t]
  have t: "t \<notin> set ts" and d: "distinct ts" using Cons.prems(2) by auto
  note IH = Cons.IH [OF one(1) d]
  have same: "same_but {t} s ?s" using one(2) by (auto intro: same_but_mono split: if_splits)
  have pk: "is_parked ?s k = is_parked s k" if "k \<in> set ts" for k
    by (rule is_parked_same [OF same]) (use that t in auto)
  have f: "filter (\<lambda>t. is_parked ?s t \<and> task_status v t = Ready) ts =
      filter (\<lambda>t. is_parked s t \<and> task_status v t = Ready) ts"
    by (rule filter_cong) (auto simp: pk)
  have sub: "same_but {k \<in> set (t # ts). is_parked s k} s ?s" "same_but {k \<in> set (t # ts). is_parked s k} ?s ?e"
    using one(2) IH pk by (auto intro: same_but_mono split: if_splits)
  show ?case
    using IH one(3) same_but_trans [OF sub] f by auto
qed simp

lemma take_list: "wake_index_ok b \<Longrightarrow> opt_waiters (fst (wake_index_take b w)) = wake_tasks b w"
  unfolding opt_waiters_def by (rule wake_map.tak_list)

lemma wake_tasks_distinct: "wake_index_ok b \<Longrightarrow> distinct (wake_tasks b w)"
  using wake_map.ordered [of b w] by (simp add: strict_sorted_iff)

lemma wake_parked_at_eq:
  assumes "park_ok (parked s)"
  shows "wake_parked_at v s w =
    foldl (wake_parked_one v) (s\<lparr>parked := snd (take_wake (parked s) w)\<rparr>) (wake_tasks (park_wakes (parked s)) w)"
  using take_list [of "park_wakes (parked s)" w] assms
  by (cases "take_wake (parked s) w")
    (auto simp: wake_parked_at_def take_wake_eq wake_parked_def opt_waiters_def park_ok_def split: option.splits)

lemma wake_all_eq:
  assumes "wake_index_ok (blocked s)"
  shows "wake_all v s w = wake_parked_at v
    (foldl (wake_blocked_one v w) (s\<lparr>blocked := snd (wake_index_take (blocked s) w)\<rparr>) (wake_tasks (blocked s) w)) w"
  using take_list [OF assms, of w]
  by (cases "wake_index_take (blocked s) w") (auto simp: wake_all_def opt_waiters_def split: option.splits)

text \<open>The state between the two halves of a wake.\<close>

definition half_woken :: "world_view \<Rightarrow> Scheduler \<Rightarrow> WakeKey \<Rightarrow> Scheduler" where
  "half_woken v s w =
     foldl (wake_blocked_one v w) (s\<lparr>blocked := snd (wake_index_take (blocked s) w)\<rparr>) (wake_tasks (blocked s) w)"

lemma half_woken_spec:
  assumes "index_wf s" and "parks_ok v"
  shows "index_wf (half_woken v s w)"
    and "same_but {t \<in> set (wake_tasks (blocked s) w). woken s w t}
      (s\<lparr>blocked := snd (wake_index_take (blocked s) w)\<rparr>) (half_woken v s w)"
    and "map fst (ready_queue (half_woken v s w)) =
      map fst (ready_queue s) @ filter (\<lambda>t. woken s w t \<and> task_status v t = Ready) (wake_tasks (blocked s) w)"
    and "t \<in> set (wake_tasks (blocked s) w) \<Longrightarrow> woken s w t \<Longrightarrow> task_status v t = Ready \<Longrightarrow>
      is_queued (task_get (tasks (half_woken v s w)) t)"
proof -
  let ?s = "s\<lparr>blocked := snd (wake_index_take (blocked s) w)\<rparr>"
  have wf: "index_wf ?s" using assms(1) by (simp add: index_wf_def wake_map.inv_tak)
  have d: "distinct (wake_tasks (blocked s) w)" using assms(1) by (simp add: index_wf_def wake_tasks_distinct)
  have wk: "woken ?s w = woken s w"
    by (simp add: woken_def fun_eq_iff split: option.split IndexedState.split)
  note all = wake_blocked_list [OF wf assms(2) d, of w, folded half_woken_def, unfolded wk]
  show "index_wf (half_woken v s w)" using all by blast
  show "same_but {t \<in> set (wake_tasks (blocked s) w). woken s w t} ?s (half_woken v s w)" using all by blast
  show "map fst (ready_queue (half_woken v s w)) =
      map fst (ready_queue s) @ filter (\<lambda>t. woken s w t \<and> task_status v t = Ready) (wake_tasks (blocked s) w)"
    using all by simp
  show "t \<in> set (wake_tasks (blocked s) w) \<Longrightarrow> woken s w t \<Longrightarrow> task_status v t = Ready \<Longrightarrow>
      is_queued (task_get (tasks (half_woken v s w)) t)"
    using all by blast
qed

lemma wake_all_half:
  assumes "index_wf s" and "parks_ok v"
  shows "same_but {t \<in> set (wake_tasks (park_wakes (parked (half_woken v s w))) w). is_parked (half_woken v s w) t}
      (half_woken v s w\<lparr>parked := snd (take_wake (parked (half_woken v s w)) w)\<rparr>) (wake_all v s w)"
    and "map fst (ready_queue (wake_all v s w)) = map fst (ready_queue (half_woken v s w)) @
      filter (\<lambda>t. is_parked (half_woken v s w) t \<and> task_status v t = Ready)
        (wake_tasks (park_wakes (parked (half_woken v s w))) w)"
proof -
  let ?h = "half_woken v s w"
  let ?p = "?h\<lparr>parked := snd (take_wake (parked ?h) w)\<rparr>"
  let ?ts = "wake_tasks (park_wakes (parked ?h)) w"
  have wf: "index_wf ?h" by (rule half_woken_spec(1) [OF assms])
  then have pok: "park_ok (parked ?h)" and ok: "wake_index_ok (park_wakes (parked ?h))"
    by (simp_all add: index_wf_def park_ok_def)
  have wf': "index_wf ?p" using wf take_wake_ok [OF pok] by (simp add: index_wf_def take_wake_eq)
  have pk: "is_parked ?p = is_parked ?h" by (simp add: is_parked_def fun_eq_iff)
  have "wake_all v s w = foldl (wake_parked_one v) ?p ?ts"
    using assms(1) wake_all_eq [of s v w, folded half_woken_def] wake_parked_at_eq [OF pok]
    by (simp add: index_wf_def)
  then show "same_but {t \<in> set ?ts. is_parked ?h t} ?p (wake_all v s w)"
    and "map fst (ready_queue (wake_all v s w)) = map fst (ready_queue ?h) @
      filter (\<lambda>t. is_parked ?h t \<and> task_status v t = Ready) ?ts"
    using wake_parked_list [OF wf' assms(2) wake_tasks_distinct [OF ok], of w] pk
    by (auto intro: same_but_mono)
qed

lemma half_woken_parked:
  assumes "index_wf s" and "parks_ok v"
  shows "filter (\<lambda>t. is_parked (half_woken v s w) t \<and> task_status v t = Ready)
      (wake_tasks (park_wakes (parked (half_woken v s w))) w) =
    filter (\<lambda>t. is_parked s t \<and> task_status v t = Ready) (wake_tasks (park_wakes (parked s)) w)"
proof -
  let ?h = "half_woken v s w"
  let ?K = "{t \<in> set (wake_tasks (blocked s) w). woken s w t}"
  note half = half_woken_spec [OF assms, where w = w]
  have ok: "wake_index_ok (park_wakes (parked s))" "wake_index_ok (park_wakes (parked ?h))"
    using assms(1) half(1) by (simp_all add: index_wf_def park_ok_def)
  have out: "is_parked ?h k = is_parked s k \<and>
      (k \<in> set (wake_tasks (park_wakes (parked ?h)) w) \<longleftrightarrow> k \<in> set (wake_tasks (park_wakes (parked s)) w))"
    if "k \<notin> ?K" for k
    using is_parked_same [OF half(2) that] same_butD(4) [OF half(2) that, of "WakeSource w"]
    by (simp add: is_parked_def)
  have "\<not> is_parked ?h k \<and> \<not> is_parked s k" if "k \<in> ?K" "task_status v k = Ready" for k
    using that half(4) [of k] woken_get [of s w k] by (auto simp: is_parked_def elim!: is_queuedE)
  then have same: "is_parked ?h k \<and> task_status v k = Ready \<and> k \<in> set (wake_tasks (park_wakes (parked ?h)) w) \<longleftrightarrow>
      is_parked s k \<and> task_status v k = Ready \<and> k \<in> set (wake_tasks (park_wakes (parked s)) w)" for k
    using out [of k] by blast
  show ?thesis
  proof (rule sorted_distinct_set_unique)
    show "set (filter (\<lambda>t. is_parked ?h t \<and> task_status v t = Ready) (wake_tasks (park_wakes (parked ?h)) w)) =
        set (filter (\<lambda>t. is_parked s t \<and> task_status v t = Ready) (wake_tasks (park_wakes (parked s)) w))"
      unfolding set_filter using same by blast
  qed (use wake_map.ordered ok in \<open>auto simp: strict_sorted_iff intro!: sorted_wrt_filter distinct_filter\<close>)
qed

text \<open>
  C11: A wake of one condition appends to the queue, in this order, the blocked tasks at
  the condition that can run now, in ascending key order, and then the tasks parked at
  it that can run now, in ascending key order; nothing else enters the queue and
  nothing leaves it.
\<close>

theorem wake_all_order:
  assumes "sched_wf s" and "parks_ok v"
  shows "map fst (ready_queue (wake_all v s w)) = map fst (ready_queue s) @
    filter (\<lambda>t. woken s w t \<and> task_status v t = Ready) (wake_tasks (blocked s) w) @
    filter (\<lambda>t. is_parked s t \<and> task_status v t = Ready) (wake_tasks (park_wakes (parked s)) w)"
  using wake_all_half(2) [of s v w] half_woken_spec(3) [of s v w] half_woken_parked [of s v w] assms
  by (simp add: sched_wf_def)

theorem wake_all_order_witness:
  "map fst (ready_queue (wake_all (demo_view (\<lambda>k. Ready)) demo_sched (Send (TaskKey 0 0)))) =
    [TaskKey 0 0, TaskKey 1 0, TaskKey 2 0]"
proof -
  have w: "woken demo_sched (Send (TaskKey 0 0)) (TaskKey 1 0)" by code_simp
  have p: "is_parked demo_sched (TaskKey 2 0)" unfolding is_parked_def
    by (rule exI [of _ "WaitSetKey (TaskKey 2 0) 7"]) code_simp
  have "wake_tasks (blocked demo_sched) (Send (TaskKey 0 0)) = [TaskKey 1 0]"
    "wake_tasks (park_wakes (parked demo_sched)) (Send (TaskKey 0 0)) = [TaskKey 2 0]"
    "map fst (ready_queue demo_sched) = [TaskKey 0 0]" by code_simp+
  then show ?thesis
    using wake_all_order [of demo_sched "demo_view (\<lambda>k. Ready)" "Send (TaskKey 0 0)"] w p
    by simp
qed

lemma wake_all_state:
  assumes "index_wf s" and "parks_ok v" and "\<not> is_parked (half_woken v s w) k"
  shows "task_get (tasks (wake_all v s w)) k = task_get (tasks (half_woken v s w)) k"
    and "k \<in> waits_at (blocked (wake_all v s w)) w' \<longleftrightarrow> k \<in> waits_at (blocked (half_woken v s w)) w'"
  using same_butD [OF wake_all_half(1) [OF assms(1,2), of w], of k] assms(3) by auto

lemma demo_blocked [simp]: "blocked_but {} demo_sched"
proof -
  have new: "blocked_but {} (scheduler_new 10 True)"
    by (simp add: scheduler_new_def blocked_but_def task_get_def get_opt_def)
  have fold: "index_wf s \<Longrightarrow> blocked_but {} s \<Longrightarrow> index_wf (foldl (refresh v) s ts) \<and> blocked_but {} (foldl (refresh v) s ts)" for v s ts
    by (induction ts arbitrary: s) (auto simp: refresh_def index_status_wf index_status_blocked_in)
  have "index_wf (scheduler_new 10 True)" using scheduler_new_wfs [of 10 True] by (simp add: sched_wf_def)
  from fold [OF this new] show ?thesis unfolding demo_sched_def by blast
qed

section \<open>A blocked task is woken by each of its conditions\<close>

text \<open>
  The task \<open>k\<close> is blocked on \<open>w\<close>, is listed under each condition of \<open>us\<close>, and no other condition wakes it.
\<close>

definition listens :: "Scheduler \<Rightarrow> WakeKey \<Rightarrow> WakeKey list \<Rightarrow> TaskKey \<Rightarrow> bool" where
  "listens s w us k \<longleftrightarrow> sched_wf s \<and> task_get (tasks s) k = Some (Blocked w) \<and>
     (\<forall>u \<in> set us. k \<in> waits_at (blocked s) u) \<and> (\<forall>u. woken s u k \<longleftrightarrow> u \<in> set us)"

lemma single_block_wakes: "\<not> 1 < length (block_wakes v k w) \<Longrightarrow> block_wakes v k w = [w]"
  using primary_in_block_wakes [of w v k] by (cases "block_wakes v k w") auto

lemma block_listens:
  assumes "sched_wf s" and "task_get (tasks s) k \<noteq> Some (Blocked w)" and "map_of (block_keys s) k = None"
  shows "listens (block v s k w) w (block_wakes v k w) k"
proof -
  let ?s = "block v s k w"
  have wf: "index_wf s" using assms(1) by (simp add: sched_wf_def)
  have "sched_wf ?s" using index_status_wfs [OF assms(1), of v k "StatusBlocked w"] by simp
  moreover have get: "task_get (tasks ?s) k = Some (Blocked w)"
    using assms(2) by (simp add: block_def Let_def task_get_insert)
  moreover have "\<forall>u \<in> set (block_wakes v k w). k \<in> waits_at (blocked ?s) u"
    using assms(2) remove_index_wf [OF wf, of k] by (simp add: block_def Let_def waits index_wf_def)
  moreover have none: "map_of (block_keys (remove_index s k)) k = None"
    using assms(3) wf by (auto simp: remove_index_def index_wf_def split: option.split IndexedState.split)
  have "map_of (block_keys ?s) k = (if 1 < length (block_wakes v k w) then Some (block_wakes v k w) else None)"
    using assms(2) none remove_index_wf [OF wf, of k] by (simp add: block_def Let_def index_wf_def)
  then have "woken ?s u k \<longleftrightarrow> u \<in> set (block_wakes v k w)" for u
    using get single_block_wakes [of v k w] primary_in_block_wakes [of w v k] by (auto simp: woken_def)
  ultimately show ?thesis by (simp add: listens_def)
qed

lemma listens_wake:
  assumes "listens s w us k" and "parks_ok v" and "u \<notin> set us"
  shows "listens (wake_all v s u) w us k"
proof -
  let ?h = "half_woken v s u" and ?b = "snd (wake_index_take (blocked s) u)"
  have l: "sched_wf s" "task_get (tasks s) k = Some (Blocked w)" "\<not> woken s u k"
    using assms(1,3) by (auto simp: listens_def)
  have wf: "index_wf s" and ok: "wake_index_ok (blocked s)" using l(1) by (simp_all add: sched_wf_def index_wf_def)
  note half = same_butD [OF half_woken_spec(2) [OF wf assms(2), of u], of k]
  have h: "task_get (tasks ?h) k = Some (Blocked w)" using half(1) l(2,3) by simp
  then have "\<not> is_parked ?h k" by (simp add: is_parked_def)
  then have out: "k \<notin> {t \<in> set (wake_tasks (park_wakes (parked ?h)) u). is_parked ?h t}" by simp
  note rest = same_butD [OF wake_all_half(1) [OF wf assms(2), of u] out]
  have get: "task_get (tasks (wake_all v s u)) k = Some (Blocked w)" using rest(1) h by simp
  have keys: "map_of (block_keys (wake_all v s u)) k = map_of (block_keys s) k" using rest(2) half(2) l(3) by simp
  have "k \<in> waits_at (blocked (wake_all v s u)) x \<longleftrightarrow> k \<in> waits_at (blocked s) x" if "x \<noteq> u" for x
    using rest(3) [of x] half(3) [of x] l(3) that wake_map.at_tak [OF ok, of u x] by (simp add: waits_at_def)
  moreover have "woken (wake_all v s u) x k = woken s x k" for x using get keys l(2) by (simp add: woken_def)
  ultimately show ?thesis
    using assms(1,3) get wake_all_wfs [OF l(1), of v u] unfolding listens_def by metis
qed

lemma listens_refresh:
  assumes "listens s w us k" and "t \<noteq> k" and "task_get (tasks s) t \<noteq> None"
  shows "listens (refresh v s t) w us k"
proof -
  have l: "sched_wf s" "index_wf s" using assms(1) by (simp_all add: listens_def sched_wf_def)
  have out: "k \<notin> {t}" using assms(2) by simp
  note same = same_but_refresh [OF l(2) assms(3), of v]
  show ?thesis
    using assms(1) same_butD [OF same out] woken_same [OF same out] refresh_wfs [OF l(1), of v t]
    by (simp add: listens_def)
qed

text \<open>What may happen while the task waits: wakes of other conditions and refreshes of other indexed tasks.\<close>

inductive meanwhile :: "WakeKey list \<Rightarrow> TaskKey \<Rightarrow> Scheduler \<Rightarrow> Scheduler \<Rightarrow> bool" for us k s where
  meanwhile_none: "meanwhile us k s s"
| meanwhile_wake: "meanwhile us k s s' \<Longrightarrow> parks_ok v \<Longrightarrow> u \<notin> set us \<Longrightarrow> meanwhile us k s (wake_all v s' u)"
| meanwhile_refresh: "meanwhile us k s s' \<Longrightarrow> t \<noteq> k \<Longrightarrow> task_get (tasks s') t \<noteq> None \<Longrightarrow> meanwhile us k s (refresh v s' t)"

lemma meanwhile_listens: "meanwhile us k s s' \<Longrightarrow> listens s w us k \<Longrightarrow> listens s' w us k"
  by (induction rule: meanwhile.induct) (simp_all add: listens_wake listens_refresh)

text \<open>
  C6: A blocked task is not lost to other traffic. A task that was not yet blocked on the condition and has no
  recorded keys is blocked; then any number of wakes of conditions it does not wait for and of refreshes of
  other indexed tasks follow. The first wake of any of its conditions (the primary one or that of a
  surface it drives), at a moment the world reports it ready, queues it: its index says so
  and the ready queue has its entry.
\<close>

theorem block_wake_reaches:
  assumes "sched_wf s" and "task_get (tasks s) k \<noteq> Some (Blocked w)" and "map_of (block_keys s) k = None"
    and "meanwhile (block_wakes v k w) k (block v s k w) s'"
    and "u \<in> set (block_wakes v k w)" and "parks_ok v'" and "task_status v' k = Ready"
  shows "\<exists>n. task_get (tasks (wake_all v' s' u)) k = Some (Queued n) \<and> (k, n) \<in> set (ready_queue (wake_all v' s' u))"
proof -
  have l: "listens s' w (block_wakes v k w) k"
    by (rule meanwhile_listens [OF assms(4) block_listens [OF assms(1-3)]])
  then have wfs: "sched_wf s'" and wf: "index_wf s'" by (simp_all add: listens_def sched_wf_def)
  have "k \<in> set (wake_tasks (blocked s') u)" "woken s' u k" using l assms(5) by (auto simp: listens_def waits_at_def)
  from half_woken_spec(4) [OF wf assms(6) this assms(7)] obtain n
    where n: "task_get (tasks (half_woken v' s' u)) k = Some (Queued n)" by (auto elim: is_queuedE)
  then have "task_get (tasks (wake_all v' s' u)) k = Some (Queued n)"
    using wake_all_state(1) [OF wf assms(6), of u k] by (simp add: is_parked_def)
  then show ?thesis
    using wake_all_wfs [OF wfs, of v' u] by (auto simp: sched_wf_def queue_but_def)
qed

text \<open>The root task drives a surface and blocks; a wake that is not for it and a refresh of another task come first.\<close>

theorem block_wake_reaches_witness:
  "\<exists>v n. set (block_wakes v (TaskKey 0 0) (Send (TaskKey 5 0))) = {Send (TaskKey 5 0), Asked (TaskKey 6 0)} \<and>
     task_get (tasks (wake_all (demo_view (\<lambda>k. Ready)) (refresh v (wake_all v
       (block v demo_sched (TaskKey 0 0) (Send (TaskKey 5 0))) (Send (TaskKey 0 0))) (TaskKey 3 0)) (Asked (TaskKey 6 0))))
       (TaskKey 0 0) = Some (Queued n)"
proof -
  define v where "v = (demo_view demo_status)\<lparr>drive_surfaces := \<lambda>k. [TaskKey 6 0]\<rparr>"
  let ?k = "TaskKey 0 0" and ?w = "Send (TaskKey 5 0)"
  let ?s1 = "wake_all v (block v demo_sched ?k ?w) (Send (TaskKey 0 0))"
  have us: "block_wakes v ?k ?w = [?w, Asked (TaskKey 6 0)]" by (simp add: block_wakes_def v_def)
  have "parks_ok (demo_view demo_status)" by simp
  then have parks: "parks_ok v"
    unfolding parks_ok_def parks_somewhere_def v_def wait_sources_def by (simp split: TaskStatus.splits)
  have "task_get (tasks demo_sched) ?k = Some (Queued 0)" "map_of (block_keys demo_sched) ?k = None"
    "task_get (tasks ?s1) (TaskKey 3 0) = Some (Waiting (CompletionKey (TaskKey 3 0) 9))"
    unfolding v_def by code_simp+
  moreover have "meanwhile (block_wakes v ?k ?w) ?k (block v demo_sched ?k ?w) ?s1"
    by (rule meanwhile_wake [OF meanwhile_none parks]) (simp add: us)
  ultimately have "meanwhile (block_wakes v ?k ?w) ?k (block v demo_sched ?k ?w) (refresh v ?s1 (TaskKey 3 0))"
    by (intro meanwhile_refresh) simp_all
  from block_wake_reaches [OF demo_wfs _ _ this, of "Asked (TaskKey 6 0)" "demo_view (\<lambda>k. Ready)"]
  have "\<exists>n. task_get (tasks (wake_all (demo_view (\<lambda>k. Ready)) (refresh v ?s1 (TaskKey 3 0)) (Asked (TaskKey 6 0)))) ?k =
      Some (Queued n)"
    using us \<open>task_get (tasks demo_sched) ?k = Some (Queued 0)\<close> \<open>map_of (block_keys demo_sched) ?k = None\<close> by auto
  then show ?thesis using us by (intro exI [of _ v]) simp
qed

section \<open>Wakes that release their tasks, and wakes that do not\<close>

text \<open>The wake of a condition may be heard again by a task only while its world status differs from its index.\<close>

definition moves :: "world_view \<Rightarrow> Scheduler \<Rightarrow> TaskKey \<Rightarrow> bool" where
  "moves v s t \<longleftrightarrow> (\<forall>p. task_get (tasks s) t = Some (Blocked p) \<longrightarrow> task_status v t \<noteq> StatusBlocked p)"

lemma wake_blocked_one_blocked:
  assumes "index_wf s" and "blocked_but (insert t K) s" and "woken s w t" and "moves v s t"
  shows "blocked_but K (wake_blocked_one v w s t)"
proof -
  let ?c = "if task_status v t = Ready then count_unblocked (remove_index s t) else remove_index s t"
  have "blocked_but (insert t K) ?c"
    using remove_index_blocked [OF assms(1,2), of t] by (simp add: blocked_but_def)
  moreover have "index_wf ?c" using remove_index_wf [OF assms(1)] by simp
  ultimately have "blocked_but K (index_status v ?c t (task_status v t))"
    using assms(4) by (intro index_status_blocked) (auto simp: moves_def split: if_splits)
  then show ?thesis using assms(3) by (simp add: wake_blocked_one_eq refresh_def)
qed

lemma wake_blocked_list_blocked:
  assumes "index_wf s" and "parks_ok v" and "distinct ts"
    and "blocked_but {t \<in> set ts. woken s w t} s" and "\<And>t. t \<in> set ts \<Longrightarrow> moves v s t"
  shows "blocked_but {} (foldl (wake_blocked_one v w) s ts)"
  using assms(1,3-5)
proof (induction ts arbitrary: s)
  case (Cons t ts)
  let ?s = "wake_blocked_one v w s t"
  note one = wake_blocked_one_spec [OF Cons.prems(1) assms(2), of w t]
  have t: "t \<notin> set ts" and d: "distinct ts" using Cons.prems(2) by auto
  have same: "same_but {t} s ?s" using one(2) by (auto intro: same_but_mono split: if_splits)
  have wk: "woken ?s w k = woken s w k" and mv: "moves v ?s k = moves v s k" if "k \<in> set ts" for k
  proof -
    have k: "k \<notin> {t}" using that t by auto
    show "woken ?s w k = woken s w k" by (rule woken_same [OF same k])
    show "moves v ?s k = moves v s k" unfolding moves_def same_butD(1) [OF same k] by (rule refl)
  qed
  let ?K = "{k \<in> set ts. woken s w k}"
  have "blocked_but ?K ?s"
  proof (cases "woken s w t")
    case True
    have "blocked_but (insert t ?K) s" by (rule blocked_but_mono [OF Cons.prems(3)]) auto
    then show ?thesis using wake_blocked_one_blocked Cons.prems(1,4) True by simp
  next
    case False
    then have "{k \<in> set (t # ts). woken s w k} = ?K" by auto
    then show ?thesis using Cons.prems(3) False by (simp add: wake_blocked_one_eq)
  qed
  moreover have "{k \<in> set ts. woken ?s w k} = ?K" using wk by auto
  ultimately show ?case using Cons.IH [OF one(1) d] Cons.prems(4) mv by simp
qed simp

lemma half_woken_blocked:
  assumes "index_wf s" and "parks_ok v" and "blocked_but {} s"
    and "\<And>t. t \<in> set (wake_tasks (blocked s) w) \<Longrightarrow> moves v s t"
  shows "blocked_but {} (half_woken v s w)"
proof -
  let ?s = "s\<lparr>blocked := snd (wake_index_take (blocked s) w)\<rparr>"
  have ok: "wake_index_ok (blocked s)" using assms(1) by (simp add: index_wf_def)
  have wf: "index_wf ?s" using assms(1) by (simp add: index_wf_def wake_map.inv_tak)
  have wk: "woken ?s w k = woken s w k" for k
    by (simp add: woken_def split: option.split IndexedState.split)
  have at: "waits_at (blocked ?s) p = (if p = w then {} else waits_at (blocked s) p)" for p
    using wake_map.at_tak [OF ok, of w p] by (simp add: waits_at_def)
  have "blocked_but {t \<in> set (wake_tasks (blocked s) w). woken ?s w t} ?s"
    unfolding blocked_but_def
  proof (intro allI impI)
    fix k p
    assume k: "k \<notin> {t \<in> set (wake_tasks (blocked s) w). woken ?s w t}" and b: "task_get (tasks ?s) k = Some (Blocked p)"
    have old: "k \<in> waits_at (blocked s) p" using assms(3) b by (simp add: blocked_but_def)
    moreover have "p \<noteq> w"
      using old k b unfolding waits_at_def wk by (auto simp: woken_def)
    ultimately show "k \<in> waits_at (blocked ?s) p" unfolding at by simp
  qed
  then show ?thesis
    unfolding half_woken_def
    using wake_blocked_list_blocked [OF wf assms(2) wake_tasks_distinct [OF ok]] assms(4)
    by (simp add: moves_def)
qed

lemma wake_parked_list_blocked:
  "index_wf s \<Longrightarrow> blocked_but {} s \<Longrightarrow> parks_ok v \<Longrightarrow> blocked_but {} (foldl (wake_parked_one v) s ts)"
proof (induction ts arbitrary: s)
  case (Cons t ts)
  have "blocked_but {} (wake_parked_one v s t)"
    using Cons.prems index_status_blocked_in [of _ "{}" t v]
    by (auto simp: wake_parked_one_eq refresh_def blocked_but_def [of _ "count_unblocked s"]
        blocked_but_def [of _ s])
  then show ?case using Cons wake_parked_one_spec(1) by simp
qed simp

text \<open>
  C35: Blocked tasks stay reachable as long as wakes are genuine: if every task at the
  condition is no longer reported blocked on the condition it is indexed under, the
  wake keeps every blocked task listed under its own condition.
\<close>

theorem wake_all_keeps_blocked:
  assumes "sched_wf s" and "parks_ok v" and "blocked_but {} s"
    and "\<And>t p. t \<in> set (wake_tasks (blocked s) w) \<Longrightarrow> task_get (tasks s) t = Some (Blocked p) \<Longrightarrow>
      task_status v t \<noteq> StatusBlocked p"
  shows "blocked_but {} (wake_all v s w)"
proof -
  have wf: "index_wf s" using assms(1) by (simp add: sched_wf_def)
  let ?h = "half_woken v s w"
  have h: "blocked_but {} ?h" by (rule half_woken_blocked [OF wf assms(2,3)]) (simp add: moves_def assms(4))
  have hwf: "index_wf ?h" by (rule half_woken_spec(1) [OF wf assms(2)])
  then have p: "park_ok (parked ?h)" by (simp add: index_wf_def)
  have "wake_all v s w = foldl (wake_parked_one v) (?h\<lparr>parked := snd (take_wake (parked ?h) w)\<rparr>)
      (wake_tasks (park_wakes (parked ?h)) w)"
    using wf wake_all_eq [of s v w, folded half_woken_def] wake_parked_at_eq [OF p] by (simp add: index_wf_def)
  moreover have "index_wf (?h\<lparr>parked := snd (take_wake (parked ?h) w)\<rparr>)"
    using hwf take_wake_ok [OF p] by (simp add: index_wf_def take_wake_eq)
  moreover have "blocked_but {} (?h\<lparr>parked := snd (take_wake (parked ?h) w)\<rparr>)"
    using h by (simp add: blocked_but_def)
  ultimately show ?thesis using wake_parked_list_blocked assms(2) by simp
qed

theorem wake_all_keeps_blocked_witness:
  "blocked_but {} (wake_all (demo_view (\<lambda>k. Ready)) demo_sched (Send (TaskKey 0 0)))"
  by (rule wake_all_keeps_blocked) (simp_all)

text \<open>
  A task that the wake finds still blocked on the same condition: it leaves the
  condition and stays indexed as blocked on it.
\<close>

definition stranded :: "Scheduler \<Rightarrow> WakeKey \<Rightarrow> TaskKey \<Rightarrow> bool" where
  "stranded s w k \<longleftrightarrow> index_wf s \<and> task_get (tasks s) k = Some (Blocked w) \<and>
     map_of (block_keys s) k = None \<and> k \<notin> waits_at (blocked s) w"

lemma stranded_same: "stranded s w k \<Longrightarrow> same_but K s s' \<Longrightarrow> k \<notin> K \<Longrightarrow> index_wf s' \<Longrightarrow> stranded s' w k"
  unfolding stranded_def using same_butD by metis

lemma wake_blocked_one_stranded:
  assumes "stranded s w k" and "parks_ok v" and "task_status v k = StatusBlocked w"
  shows "stranded (wake_blocked_one v w s t) w k"
proof -
  have wf: "index_wf s" using assms(1) by (simp add: stranded_def)
  note one = wake_blocked_one_spec [OF wf assms(2), of w t]
  show ?thesis
  proof (cases "t = k")
    case False
    then show ?thesis using stranded_same [OF assms(1) one(2)] one(1) by simp
  next
    case True
    have "wake_blocked_one v w s k = remove_index s k"
      using assms by (simp add: stranded_def wake_blocked_one_eq woken_def refresh_def block_def)
    then show ?thesis
      using assms(1) remove_index_wf [OF wf, of k] True
      by (auto simp: stranded_def remove_index_def index_wf_def waits)
  qed
qed

lemma wake_blocked_list_stranded:
  "stranded s w k \<Longrightarrow> parks_ok v \<Longrightarrow> task_status v k = StatusBlocked w \<Longrightarrow>
    stranded (foldl (wake_blocked_one v w) s ts) w k"
  by (induction ts arbitrary: s) (auto simp: wake_blocked_one_stranded)

lemma stranded_rest:
  assumes "stranded (half_woken v s w) w k" and "sched_wf s" and "parks_ok v"
  shows "stranded (wake_all v s w) w k"
proof -
  have "\<not> is_parked (half_woken v s w) k" using assms(1) by (simp add: stranded_def is_parked_def)
  then have "k \<notin> {t \<in> set (wake_tasks (park_wakes (parked (half_woken v s w))) w). is_parked (half_woken v s w) t}"
    by simp
  moreover have "stranded (half_woken v s w\<lparr>parked := snd (take_wake (parked (half_woken v s w)) w)\<rparr>) w k"
    using assms(1) take_wake_ok [of "parked (half_woken v s w)" w]
    by (auto simp: stranded_def index_wf_def take_wake_eq)
  moreover have "index_wf (wake_all v s w)" using wake_all_wfs [OF assms(2), of v w] by (simp add: sched_wf_def)
  moreover have "index_wf s" using assms(2) by (simp add: sched_wf_def)
  ultimately show ?thesis using stranded_same wake_all_half(1) [OF _ assms(3)] by blast
qed

lemma wake_all_strands:
  assumes "sched_wf s" and "parks_ok v" and "task_get (tasks s) k = Some (Blocked w)"
    and "map_of (block_keys s) k = None" and "task_status v k = StatusBlocked w"
  shows "stranded (wake_all v s w) w k"
proof -
  let ?s = "s\<lparr>blocked := snd (wake_index_take (blocked s) w)\<rparr>"
  have ok: "wake_index_ok (blocked s)" using assms(1) by (simp add: sched_wf_def index_wf_def)
  have "stranded ?s w k"
    using assms wake_map.at_tak [OF ok, of w w]
    by (simp add: stranded_def sched_wf_def index_wf_def wake_map.inv_tak waits_at_def)
  then have "stranded (half_woken v s w) w k"
    unfolding half_woken_def by (rule wake_blocked_list_stranded) (use assms in auto)
  then show ?thesis by (rule stranded_rest [OF _ assms(1,2)])
qed

lemma stranded_stays:
  assumes "stranded s w k" and "sched_wf s" and "parks_ok v"
  shows "stranded (wake_all v s w) w k"
proof -
  have wf: "index_wf s" using assms(2) by (simp add: sched_wf_def)
  let ?s = "s\<lparr>blocked := snd (wake_index_take (blocked s) w)\<rparr>"
  have ok: "wake_index_ok (blocked s)" using wf by (simp add: index_wf_def)
  have "k \<notin> {t \<in> set (wake_tasks (blocked s) w). woken s w t}" using assms(1) by (simp add: stranded_def waits_at_def)
  moreover have "stranded ?s w k"
    using assms(1) wake_map.at_tak [OF ok, of w w]
    by (simp add: stranded_def index_wf_def wake_map.inv_tak waits_at_def)
  ultimately have "stranded (half_woken v s w) w k"
    using stranded_same half_woken_spec(1,2) [OF wf assms(3)] by blast
  then show ?thesis by (rule stranded_rest [OF _ assms(2,3)])
qed

text \<open>
  C36: A wake that arrives too early is lost for good: when the world still reports a
  task blocked on the condition that is delivered, the task leaves the wake index but
  stays indexed as blocked, and the next wake of the same condition, with the
  world now reporting the task ready, leaves it blocked and out of the queue.
\<close>

theorem early_wake_strands:
  assumes "sched_wf s" and "parks_ok v" and "parks_ok v'" and "task_get (tasks s) k = Some (Blocked w)"
    and "map_of (block_keys s) k = None" and "task_status v k = StatusBlocked w" and "task_status v' k = Ready"
  shows "k \<notin> set (wake_tasks (blocked (wake_all v s w)) w) \<and>
    task_get (tasks (wake_all v' (wake_all v s w) w)) k = Some (Blocked w)"
  using wake_all_strands [OF assms(1,2,4-6)] stranded_stays [OF _ wake_all_wfs [OF assms(1)] assms(3)]
  by (auto simp: stranded_def waits_at_def)

theorem early_wake_strands_witness:
  "task_get (tasks (wake_all (demo_view (\<lambda>k. Ready)) (wake_all (demo_view demo_status) demo_sched (Send (TaskKey 0 0)))
      (Send (TaskKey 0 0)))) (TaskKey 1 0) = Some (Blocked (Send (TaskKey 0 0)))"
proof -
  have "task_get (tasks demo_sched) (TaskKey 1 0) = Some (Blocked (Send (TaskKey 0 0)))"
    "map_of (block_keys demo_sched) (TaskKey 1 0) = None" by code_simp+
  then show ?thesis
    using early_wake_strands [of demo_sched "demo_view demo_status" "demo_view (\<lambda>k. Ready)" "TaskKey 1 0" "Send (TaskKey 0 0)"]
    by (simp add: demo_status_def)
qed

section \<open>A failed completion source\<close>

definition forgotten :: "Scheduler \<Rightarrow> WaitSetKey \<Rightarrow> TaskKey \<Rightarrow> bool" where
  "forgotten s wait k \<longleftrightarrow> index_wf s \<and> task_get (tasks s) k = Some (Parked wait) \<and>
     (\<forall>src. k \<notin> set (park_tasks (parked s) src))"

lemma forgotten_same:
  assumes "forgotten s wait k" and "same_but K s s'" and "k \<notin> K" and "index_wf s'"
  shows "forgotten s' wait k"
  using assms(1,4) same_butD(1) [OF assms(2,3)] same_butD(4) [OF assms(2,3)] by (simp add: forgotten_def)

lemma fail_list_forgets:
  assumes "forgotten s wait k" and "k \<notin> set ts" and "distinct ts"
    and "\<And>t. t \<in> set ts \<Longrightarrow> task_get (tasks s) t \<noteq> None"
    and "foldl (fail_one fail ops) (w, s) ts = (w', s')"
  shows "forgotten s' wait k"
  using assms
proof (induction ts arbitrary: w s)
  case (Cons t ts)
  let ?w = "fail ops t w"
  let ?s = "refresh (view_of ops ?w) s t"
  have wf: "index_wf s" using Cons.prems(1) by (simp add: forgotten_def)
  have same: "same_but {t} s ?s" by (rule same_but_refresh [OF wf]) (simp add: Cons.prems(4))
  have "forgotten ?s wait k"
    by (rule forgotten_same [OF Cons.prems(1) same _ refresh_wf [OF wf]]) (use Cons.prems(2) in simp)
  moreover have "task_get (tasks ?s) u \<noteq> None" if "u \<in> set ts" for u
  proof -
    have "u \<notin> {t}" using Cons.prems(3) that by auto
    from same_butD(1) [OF same this] show ?thesis using Cons.prems(4) [of u] that by simp
  qed
  ultimately show ?case
    using Cons.IH [of ?s ?w] Cons.prems by (simp add: fail_one_def Let_def)
qed simp

lemma wake_all_forgotten:
  assumes "forgotten s wait k" and "sched_wf s" and "parks_ok v"
  shows "task_get (tasks (wake_all v s w)) k = Some (Parked wait)"
proof -
  have wf: "index_wf s" using assms(2) by (simp add: sched_wf_def)
  let ?s = "s\<lparr>blocked := snd (wake_index_take (blocked s) w)\<rparr>"
  have "forgotten ?s wait k" using assms(1) by (simp add: forgotten_def index_wf_def wake_map.inv_tak)
  moreover have "k \<notin> {t \<in> set (wake_tasks (blocked s) w). woken s w t}"
    using assms(1) by (simp add: forgotten_def woken_def)
  ultimately have h: "forgotten (half_woken v s w) wait k"
    using forgotten_same half_woken_spec(1,2) [OF wf assms(3)] by blast
  have "k \<notin> set (wake_tasks (park_wakes (parked (half_woken v s w))) w)"
    using h unfolding forgotten_def by (metis park_tasks.simps(1))
  then show ?thesis
    using same_butD(1) [OF wake_all_half(1) [OF wf assms(3), of w], of k] h by (simp add: forgotten_def)
qed

text \<open>
  C37: When the host completion source fails, the scheduler empties the whole park index,
  but it refreshes only the tasks that waited for a completion. A task that is parked
  on wakes only stays indexed as parked, is listed under no source any more, and no
  later wake moves it.
\<close>

theorem fail_waiting_forgets:
  assumes "sched_wf s" and "task_get (tasks s) k = Some (Parked wait)"
    and "k \<notin> set (map snd (waiting s) @ tasks_with_completions (parked s))"
    and "\<And>t. t \<in> set (map snd (waiting s) @ tasks_with_completions (parked s)) \<Longrightarrow> task_get (tasks s) t \<noteq> None"
    and "fail_waiting ops w s = (w', s')" and "parks_ok v"
  shows "task_get (tasks s') k = Some (Parked wait) \<and> (\<forall>src. k \<notin> set (park_tasks (parked s') src)) \<and>
    task_get (tasks (wake_all v s' wk)) k = Some (Parked wait)"
proof -
  let ?s = "s\<lparr>waiting := [], parked := park_default\<rparr>"
  let ?ts = "remdups_adj (sort (map snd (waiting s) @ tasks_with_completions (parked s)))"
  have none: "park_tasks park_default src = []" for src
    by (cases src) (simp_all add: park_default_def)
  have "forgotten ?s wait k"
    using assms(1,2) by (simp add: forgotten_def sched_wf_def index_wf_def none)
  then have "forgotten s' wait k"
    by (rule fail_list_forgets [where ts = ?ts and ops = ops and w = w and w' = w' and fail = fail_waiting_task])
      (use assms(3-5) in \<open>auto simp: fail_waiting_def Let_def intro!: distinct_remdups_adj\<close>)
  then show ?thesis
    using wake_all_forgotten [OF _ fail_waiting_wfs [OF assms(1,5)] assms(6)] by (simp add: forgotten_def)
qed

theorem fail_waiting_forgets_witness:
  "task_get (tasks (wake_all (demo_view (\<lambda>k. Ready)) (snd (fail_waiting demo_ops (Ready, events_default) demo_sched))
      (Send (TaskKey 0 0)))) (TaskKey 2 0) = Some (Parked (WaitSetKey (TaskKey 2 0) 7))"
proof -
  define r where "r = fail_waiting demo_ops (Ready, events_default) demo_sched"
  have "fail_waiting demo_ops (Ready, events_default) demo_sched = (fst r, snd r)" by (simp add: r_def)
  moreover have "task_get (tasks demo_sched) (TaskKey 2 0) = Some (Parked (WaitSetKey (TaskKey 2 0) 7))"
    "map snd (waiting demo_sched) @ tasks_with_completions (parked demo_sched) = [TaskKey 3 0]"
    "task_get (tasks demo_sched) (TaskKey 3 0) = Some (Waiting (CompletionKey (TaskKey 3 0) 9))" by code_simp+
  ultimately show ?thesis
    using fail_waiting_forgets [of demo_sched "TaskKey 2 0" "WaitSetKey (TaskKey 2 0) 7" demo_ops
        "(Ready, events_default)" "fst r" "snd r" "demo_view (\<lambda>k. Ready)" "Send (TaskKey 0 0)"]
    by (simp add: r_def)
qed

end
