(* ===== verification/Scc.thy ===== *)
theory Scc
  imports Loom_Prelude "HOL-Library.Monad_Syntax"
begin

text \<open>
  The strongly connected components walk of \<open>crates/lm-scc\<close>: an iterative depth-first
  walk with its own work stack. Indexes and component numbers are 32-bit words and their
  arithmetic wraps; a node number is the natural it indexes vectors with. A vector that serves as a stack is a list
  with its top first. An index out of range and an empty component stack are the
  panics of the code and give \<^const>\<open>None\<close>.
\<close>

definition UNSET :: u32 where
  "UNSET = - 1"

definition set_opt :: "'a list \<Rightarrow> nat \<Rightarrow> 'a \<Rightarrow> 'a list option" where
  "set_opt xs i x = (if i < length xs then Some (xs[i := x]) else None)"

record walk =
  index :: "u32 list"
  low :: "u32 list"
  on_stack :: "bool list"
  stack :: "nat list"
  next_index :: u32
  comps :: "nat list list"
  comp_of :: "u32 list"
  work :: "(nat \<times> nat) list"

definition walk_new :: "nat \<Rightarrow> walk" where
  "walk_new n = \<lparr>index = replicate n UNSET, low = replicate n 0, on_stack = replicate n False, stack = [],
     next_index = 0, comps = [], comp_of = replicate n UNSET, work = []\<rparr>"

text \<open>A node is reached: it gets the next index and enters both stacks.\<close>

definition enter :: "nat \<Rightarrow> walk \<Rightarrow> walk option" where
  "enter node s =
     do {
       ix \<leftarrow> set_opt (index s) node (next_index s);
       lo \<leftarrow> set_opt (low s) node (next_index s);
       os \<leftarrow> set_opt (on_stack s) node True;
       Some (s\<lparr>index := ix, low := lo, next_index := next_index s + 1,
               stack := node # stack s, on_stack := os, work := (node, 0) # work s\<rparr>)
     }"

text \<open>The inner loop that pops one component.\<close>

fun pop_component :: "nat \<Rightarrow> u32 \<Rightarrow> nat list \<Rightarrow> bool list \<Rightarrow> u32 list \<Rightarrow> nat list \<Rightarrow>
    (nat list \<times> bool list \<times> u32 list \<times> nat list) option" where
  "pop_component node number [] os co members = None"
| "pop_component node number (member # st) os co members =
     do {
       os \<leftarrow> set_opt os member False;
       co \<leftarrow> set_opt co member number;
       (if member = node then Some (st, os, co, members @ [member])
        else pop_component node number st os co (members @ [member]))
     }"

definition look_at :: "nat \<Rightarrow> nat \<Rightarrow> walk \<Rightarrow> walk option" where
  "look_at node child s =
     do {
       ci \<leftarrow> get_opt (index s) child;
       (if ci = UNSET then enter child s
        else
          do {
            on \<leftarrow> get_opt (on_stack s) child;
            (if on
             then
               do {
                 ln \<leftarrow> get_opt (low s) node;
                 lo \<leftarrow> set_opt (low s) node (min ln ci);
                 Some (s\<lparr>low := lo\<rparr>)
               }
             else Some s)
          })
     }"

definition update_parent :: "nat \<Rightarrow> walk \<Rightarrow> walk option" where
  "update_parent node s =
     (case work s of
        [] \<Rightarrow> Some s
      | (parent, _) # _ \<Rightarrow>
          do {
            lp \<leftarrow> get_opt (low s) parent;
            ln \<leftarrow> get_opt (low s) node;
            lo \<leftarrow> set_opt (low s) parent (min lp ln);
            Some (s\<lparr>low := lo\<rparr>)
          })"

definition emit :: "nat \<Rightarrow> walk \<Rightarrow> walk option" where
  "emit node s =
     do {
       ln \<leftarrow> get_opt (low s) node;
       ni \<leftarrow> get_opt (index s) node;
       (if ln = ni
        then
          do {
            (st, os, co, members) \<leftarrow>
              pop_component node (of_nat (length (comps s))) (stack s) (on_stack s) (comp_of s) [];
            Some (s\<lparr>stack := st, on_stack := os, comp_of := co, comps := comps s @ [members]\<rparr>)
          }
        else Some s)
     }"

text \<open>One round of the loop over the work stack, whose top is \<open>(node, pos)\<close>.\<close>

definition walk_step :: "nat list list \<Rightarrow> nat \<Rightarrow> nat \<Rightarrow> (nat \<times> nat) list \<Rightarrow> walk \<Rightarrow> walk option" where
  "walk_step succ node pos rest s =
     do {
       succs \<leftarrow> get_opt succ node;
       (if pos < length succs
        then look_at node (succs ! pos) (s\<lparr>work := (node, pos + 1) # rest\<rparr>)
        else do { s \<leftarrow> update_parent node (s\<lparr>work := rest\<rparr>); emit node s })
     }"

text \<open>The loop over the work stack; \<open>fuel\<close> bounds its rounds.\<close>

primrec walk_loop :: "nat \<Rightarrow> nat list list \<Rightarrow> walk \<Rightarrow> walk option" where
  "walk_loop 0 succ s = (if work s = [] then Some s else None)"
| "walk_loop (Suc fuel) succ s =
     (case work s of
        [] \<Rightarrow> Some s
      | (node, pos) # rest \<Rightarrow> do { s \<leftarrow> walk_step succ node pos rest s; walk_loop fuel succ s })"

text \<open>
  A walk takes one round for each position of a successor list and one more for each
  node; \<open>walk_fuel\<close> is that number over the whole graph.
\<close>

definition walk_fuel :: "nat list list \<Rightarrow> nat" where
  "walk_fuel succ = sum_list (map (\<lambda>ss. length ss + 1) succ)"

definition walk_root :: "nat list list \<Rightarrow> walk \<Rightarrow> nat \<Rightarrow> walk option" where
  "walk_root succ s root =
     do {
       i \<leftarrow> get_opt (index s) root;
       (if i \<noteq> UNSET then Some s
        else do { s \<leftarrow> enter root s; walk_loop (walk_fuel succ) succ s })
     }"

primrec walk_roots :: "nat list list \<Rightarrow> nat list \<Rightarrow> walk \<Rightarrow> walk option" where
  "walk_roots succ [] s = Some s"
| "walk_roots succ (root # roots) s = do { s \<leftarrow> walk_root succ s root; walk_roots succ roots s }"

definition components_from_iter :: "nat \<Rightarrow> nat list list \<Rightarrow> nat list \<Rightarrow> (nat list list \<times> u32 list) option" where
  "components_from_iter node_count succ roots =
     do { s \<leftarrow> walk_roots succ roots (walk_new node_count); Some (comps s, comp_of s) }"

definition components :: "nat \<Rightarrow> nat list list \<Rightarrow> (nat list list \<times> u32 list) option" where
  "components node_count succ = components_from_iter node_count succ [0..<unat (of_nat node_count :: u32)]"

definition components_from_roots :: "nat \<Rightarrow> nat list list \<Rightarrow> nat list \<Rightarrow> (nat list list \<times> u32 list) option" where
  "components_from_roots node_count succ roots = components_from_iter node_count succ roots"

end
