(* ===== verification/Scc_Correct.thy ===== *)
theory Scc_Correct
  imports Scc
begin

text \<open>
  The walk computes the strongly connected components of the nodes its roots reach,
  callees first. The proof is an invariant of the loop over the work stack: the nodes
  on the work stack (\<open>gray\<close>) reach every later node of the component stack, every node
  of the component stack reaches a gray node, and the low value of a gray node bounds
  the indexes of the stack nodes its segment points to.
\<close>

section \<open>Graphs\<close>

definition edge :: "nat list list \<Rightarrow> nat \<Rightarrow> nat \<Rightarrow> bool" where
  "edge succ u v \<longleftrightarrow> u < length succ \<and> v \<in> set (succ ! u)"

definition reach :: "nat list list \<Rightarrow> nat \<Rightarrow> nat \<Rightarrow> bool" where
  "reach succ = (edge succ)\<^sup>*\<^sup>*"

definition graph_ok :: "nat \<Rightarrow> nat list list \<Rightarrow> bool" where
  "graph_ok n succ \<longleftrightarrow> length succ = n \<and> n < 2 ^ 32 \<and> (\<forall>ss \<in> set succ. \<forall>v \<in> set ss. v < n)"

lemma reach_refl [simp]: "reach succ u u"
  by (simp add: reach_def)

lemma reach_trans: "reach succ u v \<Longrightarrow> reach succ v w \<Longrightarrow> reach succ u w"
  unfolding reach_def by (rule rtranclp_trans)

lemma reach_edge: "edge succ u v \<Longrightarrow> reach succ u v"
  by (auto simp: reach_def)

lemma reach_step: "reach succ u v \<Longrightarrow> edge succ v w \<Longrightarrow> reach succ u w"
  using reach_trans reach_edge by blast

lemma reach_closed:
  assumes "reach succ u v" and "u \<in> A" and "\<And>x y. x \<in> A \<Longrightarrow> edge succ x y \<Longrightarrow> y \<in> A"
  shows "v \<in> A"
  using assms(1,2) unfolding reach_def by (induction rule: rtranclp_induct) (auto intro: assms(3))

lemma edge_bound: "graph_ok n succ \<Longrightarrow> edge succ u v \<Longrightarrow> u < n \<and> v < n"
  by (auto simp: graph_ok_def edge_def)

section \<open>The invariant of the walk\<close>

abbreviation idx :: "walk \<Rightarrow> nat \<Rightarrow> u32" where
  "idx s v \<equiv> index s ! v"

definition gray :: "walk \<Rightarrow> nat set" where
  "gray s = fst ` set (work s)"

definition visited :: "walk \<Rightarrow> nat \<Rightarrow> bool" where
  "visited s v \<longleftrightarrow> v < length (index s) \<and> idx s v \<noteq> UNSET"

definition finished :: "walk \<Rightarrow> nat set" where
  "finished s = set (concat (comps s))"

text \<open>The edges the walk has looked at.\<close>

definition explored :: "nat list list \<Rightarrow> (nat \<times> nat) list \<Rightarrow> nat \<Rightarrow> nat \<Rightarrow> bool" where
  "explored succ w x y \<longleftrightarrow>
     (if x \<in> fst ` set w then \<exists>p. (x, p) \<in> set w \<and> y \<in> set (take p (succ ! x)) else edge succ x y)"

text \<open>The stack nodes between a gray node and the next gray node above it.\<close>

definition segment :: "walk \<Rightarrow> nat \<Rightarrow> nat \<Rightarrow> bool" where
  "segment s g x \<longleftrightarrow> x \<in> set (stack s) \<and> idx s g \<le> idx s x \<and>
     (\<forall>g' \<in> gray s. idx s g' \<le> idx s x \<longrightarrow> idx s g' \<le> idx s g)"

definition shape :: "nat \<Rightarrow> walk \<Rightarrow> bool" where
  "shape n s \<longleftrightarrow> length (index s) = n \<and> length (low s) = n \<and> length (on_stack s) = n \<and> length (comp_of s) = n \<and>
     (\<forall>v. visited s v \<longrightarrow> idx s v < next_index s) \<and> unat (next_index s) = card {v. visited s v} \<and>
     (\<forall>v < n. on_stack s ! v \<longleftrightarrow> v \<in> set (stack s))"

definition stacked :: "walk \<Rightarrow> bool" where
  "stacked s \<longleftrightarrow> sorted_wrt (\<lambda>a b. idx s b < idx s a) (stack s) \<and>
     (\<forall>v. visited s v \<longleftrightarrow> v \<in> set (stack s) \<or> v \<in> finished s) \<and> set (stack s) \<inter> finished s = {} \<and>
     sorted_wrt (\<lambda>a b. idx s b < idx s a) (map fst (work s)) \<and> gray s \<subseteq> set (stack s)"

definition linked :: "nat list list \<Rightarrow> walk \<Rightarrow> bool" where
  "linked succ s \<longleftrightarrow> (\<forall>g \<in> gray s. \<forall>v \<in> set (stack s). idx s g \<le> idx s v \<longrightarrow> reach succ g v) \<and>
     (\<forall>v \<in> set (stack s). \<exists>g \<in> gray s. idx s g \<le> idx s v \<and> reach succ v g)"

definition searched :: "nat list list \<Rightarrow> walk \<Rightarrow> bool" where
  "searched succ s \<longleftrightarrow> (\<forall>x \<in> set (stack s). \<forall>y. explored succ (work s) x y \<longrightarrow> visited s y) \<and>
     (\<forall>g p. (g, p) \<in> set (work s) \<longrightarrow> p \<le> length (succ ! g))"

definition low_ok :: "nat list list \<Rightarrow> walk \<Rightarrow> bool" where
  "low_ok succ s \<longleftrightarrow>
     (\<forall>g \<in> gray s. low s ! g \<le> idx s g \<and> (\<exists>y \<in> set (stack s). idx s y = low s ! g \<and> reach succ g y)) \<and>
     (\<forall>g \<in> gray s. \<forall>x y. segment s g x \<longrightarrow> y \<in> set (stack s) \<longrightarrow> explored succ (work s) x y \<longrightarrow>
        low s ! g \<le> idx s y)"

definition emitted :: "nat \<Rightarrow> nat list list \<Rightarrow> walk \<Rightarrow> bool" where
  "emitted n succ s \<longleftrightarrow> distinct (concat (comps s)) \<and> [] \<notin> set (comps s) \<and>
     (\<forall>c \<in> set (comps s). \<forall>u \<in> set c. \<forall>v. v \<in> set c \<longleftrightarrow> reach succ u v \<and> reach succ v u) \<and>
     (\<forall>i < length (comps s). \<forall>u \<in> set (comps s ! i). \<forall>v. edge succ u v \<longrightarrow> (\<exists>j \<le> i. v \<in> set (comps s ! j))) \<and>
     (\<forall>i < length (comps s). \<forall>v \<in> set (comps s ! i). comp_of s ! v = of_nat i) \<and>
     (\<forall>v < n. v \<notin> finished s \<longrightarrow> comp_of s ! v = UNSET)"

definition walk_inv :: "nat \<Rightarrow> nat list list \<Rightarrow> nat set \<Rightarrow> walk \<Rightarrow> bool" where
  "walk_inv n succ R s \<longleftrightarrow> shape n s \<and> stacked s \<and> linked succ s \<and> searched succ s \<and> low_ok succ s \<and>
     emitted n succ s \<and> (\<forall>v. visited s v \<longrightarrow> (\<exists>r \<in> R. reach succ r v))"

lemma grayI: "(g, p) \<in> set (work s) \<Longrightarrow> g \<in> gray s"
  by (force simp: gray_def)

lemma walk_invD:
  assumes "walk_inv n succ R s"
  shows "shape n s" "stacked s" "linked succ s" "searched succ s" "low_ok succ s" "emitted n succ s"
    "\<And>v. visited s v \<Longrightarrow> \<exists>r \<in> R. reach succ r v"
  using assms by (auto simp: walk_inv_def)

lemma visited_bound: "shape n s \<Longrightarrow> visited s v \<Longrightarrow> v < n"
  by (simp add: shape_def visited_def)

lemma finite_visited: "finite {v. visited s v}"
  by (rule finite_subset [of _ "{..<length (index s)}"]) (auto simp: visited_def)

lemma next_room:
  assumes "shape n s" and "n < 2 ^ 32" and "c < n" and "\<not> visited s c"
  shows "next_index s \<noteq> UNSET" and "unat (next_index s + 1) = Suc (unat (next_index s))" and "unat (next_index s) < n"
proof -
  have "{v. visited s v} \<subset> {..<n}"
    using assms(1,3,4) visited_bound by blast
  from psubset_card_mono [OF _ this] have "card {v. visited s v} < n" by simp
  then show lt: "unat (next_index s) < n" using assms(1) by (simp add: shape_def)
  have "unat (next_index s) < 2 ^ 32 - 1" using lt assms(2) by linarith
  then show "next_index s \<noteq> UNSET" by (auto simp: UNSET_def unsigned_minus_1_eq_mask mask_eq_exp_minus_1)
  show "unat (next_index s + 1) = Suc (unat (next_index s))"
    using lt assms(2) by (simp add: unat_word_ariths)
qed

section \<open>Reaching a node\<close>

definition entered :: "nat \<Rightarrow> (nat \<times> nat) list \<Rightarrow> walk \<Rightarrow> walk" where
  "entered c w s = s\<lparr>index := (index s)[c := next_index s], low := (low s)[c := next_index s],
     next_index := next_index s + 1, stack := c # stack s, on_stack := (on_stack s)[c := True], work := (c, 0) # w\<rparr>"

lemma enter_entered: "shape n s \<Longrightarrow> c < n \<Longrightarrow> enter c (s\<lparr>work := w\<rparr>) = Some (entered c w s)"
  by (simp add: enter_def entered_def set_opt_def shape_def)

text \<open>A new node comes from the root list or from the next position of the top frame.\<close>

definition next_node :: "nat list list \<Rightarrow> nat set \<Rightarrow> walk \<Rightarrow> (nat \<times> nat) list \<Rightarrow> nat \<Rightarrow> bool" where
  "next_node succ R s w c \<longleftrightarrow> (work s = [] \<and> w = [] \<and> c \<in> R) \<or>
     (\<exists>node pos rest. work s = (node, pos) # rest \<and> w = (node, Suc pos) # rest \<and>
        node < length succ \<and> pos < length (succ ! node) \<and> succ ! node ! pos = c)"

lemma next_node_gray: "next_node succ R s w c \<Longrightarrow> map fst w = map fst (work s)"
  by (auto simp: next_node_def)

lemma next_node_gray_set: "next_node succ R s w c \<Longrightarrow> fst ` set w = gray s"
  using next_node_gray [of succ R s w c] unfolding gray_def by (metis list.set_map)

lemma next_node_explored:
  assumes "next_node succ R s w c" and "explored succ w x y"
  shows "explored succ (work s) x y \<or> (y = c \<and> (\<exists>pos rest. work s = (x, pos) # rest))"
proof (cases "x \<in> gray s")
  case False
  then show ?thesis using assms next_node_gray_set [OF assms(1)] by (simp add: explored_def gray_def)
next
  case True
  then obtain p where p: "(x, p) \<in> set w" "y \<in> set (take p (succ ! x))"
    using assms next_node_gray_set [OF assms(1)] by (auto simp: explored_def)
  from True have "w \<noteq> []" using p(1) by auto
  with assms(1) obtain node pos rest where ws: "work s = (node, pos) # rest" "w = (node, Suc pos) # rest"
    "pos < length (succ ! node)" "succ ! node ! pos = c" by (auto simp: next_node_def)
  show ?thesis
  proof (cases "(x, p) \<in> set rest")
    case False
    then have "x = node" "p = Suc pos" using p(1) ws(2) by auto
    then have "y \<in> set (take pos (succ ! x)) \<or> y = c"
      using p(2) ws(3,4) by (auto simp: take_Suc_conv_app_nth)
    then show ?thesis using True ws(1) \<open>x = node\<close> by (auto simp: explored_def gray_def)
  qed (use True p ws in \<open>auto simp: explored_def gray_def\<close>)
qed

lemma gray_top:
  assumes "stacked s" and "work s = (node, pos) # rest" and "g \<in> gray s"
  shows "idx s g \<le> idx s node" and "node \<in> set (stack s)"
  using assms by (auto simp: stacked_def gray_def)

lemma next_node_reach:
  assumes "walk_inv n succ R s" and "next_node succ R s w c"
  shows "\<And>g. g \<in> gray s \<Longrightarrow> reach succ g c" and "\<exists>r \<in> R. reach succ r c"
proof -
  note inv = walk_invD [OF assms(1)]
  show top: "reach succ g c" if g: "g \<in> gray s" for g
  proof -
    from g assms(2) obtain node pos rest where ws: "work s = (node, pos) # rest"
      "node < length succ" "pos < length (succ ! node)" "succ ! node ! pos = c" by (auto simp: next_node_def gray_def)
    have "reach succ g node"
      using gray_top [OF inv(2) ws(1) g] inv(3) g by (auto simp: linked_def)
    moreover have "edge succ node c" using ws by (auto simp: edge_def)
    ultimately show ?thesis by (rule reach_step)
  qed
  show "\<exists>r \<in> R. reach succ r c"
  proof (cases "work s = []")
    case True
    then have "c \<in> R" using assms(2) by (auto simp: next_node_def)
    then show ?thesis using reach_refl by blast
  next
    case False
    then obtain g where g: "g \<in> gray s" by (cases "work s") (auto simp: gray_def)
    then have "visited s g" using inv(2) by (auto simp: stacked_def)
    then show ?thesis using inv(7) top [OF g] reach_trans by blast
  qed
qed

lemma entered_fields [simp]:
  "stack (entered c w s) = c # stack s" "work (entered c w s) = (c, 0) # w"
  "comps (entered c w s) = comps s" "comp_of (entered c w s) = comp_of s" "next_index (entered c w s) = next_index s + 1"
  "length (index (entered c w s)) = length (index s)" "length (low (entered c w s)) = length (low s)"
  "length (on_stack (entered c w s)) = length (on_stack s)" "finished (entered c w s) = finished s"
  by (simp_all add: entered_def finished_def)

lemma entered_at:
  assumes "shape n s" and "c < n"
  shows "idx (entered c w s) v = (if v = c then next_index s else idx s v)"
    and "low (entered c w s) ! v = (if v = c then next_index s else low s ! v)"
    and "on_stack (entered c w s) ! v = (v = c \<or> on_stack s ! v)"
  using assms by (auto simp: entered_def shape_def nth_list_update)

lemma entered_visited:
  assumes "shape n s" and "c < n" and "next_index s \<noteq> UNSET"
  shows "visited (entered c w s) v \<longleftrightarrow> v = c \<or> visited s v"
  using assms by (auto simp: visited_def entered_at [OF assms(1,2)] shape_def)

lemma entered_shape:
  assumes "shape n s" and "n < 2 ^ 32" and "c < n" and "\<not> visited s c"
  shows "shape n (entered c w s)"
proof -
  note room = next_room [OF assms]
  have vis: "{v. visited (entered c w s) v} = insert c {v. visited s v}"
    using entered_visited [OF assms(1,3) room(1)] by auto
  have "card {v. visited (entered c w s) v} = Suc (card {v. visited s v})"
    unfolding vis using assms(4) finite_visited by simp
  moreover have lt: "x < next_index s + 1" if "x \<le> next_index s" for x
    using that room(2) by (simp add: word_le_nat_alt word_less_nat_alt)
  ultimately show ?thesis
    using assms(1,3) room(2) by (auto simp: shape_def entered_at [OF assms(1,3)]
        entered_visited [OF assms(1,3) room(1)] intro!: lt order.strict_implies_order)
qed

text \<open>The setting of the next lemmas: a well-formed state and an unvisited node to enter.\<close>

definition can_enter :: "nat \<Rightarrow> nat list list \<Rightarrow> nat set \<Rightarrow> walk \<Rightarrow> (nat \<times> nat) list \<Rightarrow> nat \<Rightarrow> bool" where
  "can_enter n succ R s w c \<longleftrightarrow>
     walk_inv n succ R s \<and> n < 2 ^ 32 \<and> c < n \<and> \<not> visited s c \<and> next_node succ R s w c"

lemma can_enterD:
  assumes "can_enter n succ R s w c"
  shows "walk_inv n succ R s" "n < 2 ^ 32" "c < n" "\<not> visited s c" "next_node succ R s w c"
    "c \<notin> set (stack s)" "c \<notin> gray s" "shape n s"
    "visited (entered c w s) v \<longleftrightarrow> v = c \<or> visited s v"
    "idx (entered c w s) v = (if v = c then next_index s else idx s v)"
    "low (entered c w s) ! v = (if v = c then next_index s else low s ! v)"
    "v \<in> set (stack s) \<Longrightarrow> idx s v < next_index s"
proof -
  show c: "walk_inv n succ R s" "n < 2 ^ 32" "c < n" "\<not> visited s c" "next_node succ R s w c"
    using assms by (simp_all add: can_enter_def)
  note inv = walk_invD [OF c(1)]
  show "c \<notin> set (stack s)" "c \<notin> gray s" using c(4) inv(2) by (auto simp: stacked_def)
  show "shape n s" by (rule inv(1))
  show "visited (entered c w s) v \<longleftrightarrow> v = c \<or> visited s v"
    by (rule entered_visited [OF inv(1) c(3) next_room(1) [OF inv(1) c(2-4)]])
  show "idx (entered c w s) v = (if v = c then next_index s else idx s v)"
    "low (entered c w s) ! v = (if v = c then next_index s else low s ! v)"
    by (rule entered_at [OF inv(1) c(3)])+
  show "v \<in> set (stack s) \<Longrightarrow> idx s v < next_index s"
    using inv(1,2) by (auto simp: shape_def stacked_def)
qed

lemma entered_gray:
  assumes "can_enter n succ R s w c"
  shows "gray (entered c w s) = insert c (gray s)"
  using next_node_gray_set [OF can_enterD(5) [OF assms]] by (simp add: gray_def)

lemma entered_stacked:
  assumes "can_enter n succ R s w c"
  shows "stacked (entered c w s)"
proof -
  note c = can_enterD [OF assms]
  have old: "stacked s" by (rule walk_invD(2) [OF c(1)])
  have "sorted_wrt (\<lambda>a b. idx (entered c w s) b < idx (entered c w s) a) (stack s)"
    by (rule sorted_wrt_mono_rel [where P = "\<lambda>a b. idx s b < idx s a"]) (use old c(6) in \<open>auto simp: stacked_def c(10)\<close>)
  moreover have "sorted_wrt (\<lambda>a b. idx (entered c w s) b < idx (entered c w s) a) (map fst (work s))"
    by (rule sorted_wrt_mono_rel [where P = "\<lambda>a b. idx s b < idx s a"]) (use old c(7) in \<open>auto simp: stacked_def c(10) gray_def\<close>)
  moreover have "c \<notin> finished s" using c(4) old by (auto simp: stacked_def)
  moreover have wk: "a \<noteq> c \<and> idx s a < next_index s" if "(a, b) \<in> set (work s)" for a b
    using grayI [OF that] c(7,12) old by (auto simp: stacked_def)
  ultimately show ?thesis
    using old c(4,6,7,12) next_node_gray [OF c(5)] entered_gray [OF assms]
    by (auto simp: stacked_def c(9,10) dest: wk)
qed

lemma entered_linked:
  assumes "can_enter n succ R s w c"
  shows "linked succ (entered c w s)"
proof -
  note c = can_enterD [OF assms]
  have old: "linked succ s" by (rule walk_invD(3) [OF c(1)])
  have sub: "gray s \<subseteq> set (stack s)" using walk_invD(2) [OF c(1)] by (simp add: stacked_def)
  have "reach succ g v" if "g \<in> insert c (gray s)" "v \<in> insert c (set (stack s))"
    "idx (entered c w s) g \<le> idx (entered c w s) v" for g v
    using that old sub c(12) [of v] next_node_reach(1) [OF c(1,5), of g] c(6,7)
    by (auto simp: linked_def c(10) split: if_splits)
  moreover have "\<exists>g \<in> insert c (gray s). idx (entered c w s) g \<le> idx (entered c w s) v \<and> reach succ v g"
    if v: "v \<in> insert c (set (stack s))" for v
  proof (cases "v = c")
    case False
    then obtain g where "g \<in> gray s" "idx s g \<le> idx s v" "reach succ v g" using v old by (auto simp: linked_def)
    then show ?thesis using False c(7) by (intro bexI [of _ g]) (auto simp: c(10))
  qed auto
  ultimately show ?thesis unfolding linked_def entered_gray [OF assms] by simp
qed

lemma entered_explored:
  assumes "can_enter n succ R s w c" and "explored succ (work (entered c w s)) x y"
  shows "x \<noteq> c \<and> (explored succ (work s) x y \<or> y = c)"
proof -
  note c = can_enterD [OF assms(1)]
  have w: "c \<notin> fst ` set w" using c(7) next_node_gray_set [OF c(5)] by simp
  have x: "x \<noteq> c"
  proof
    assume "x = c"
    then obtain p where "(c, p) \<in> set ((c, 0) # w)" "y \<in> set (take p (succ ! c))"
      using assms(2) by (auto simp: explored_def)
    then have "(c, p) \<in> set w" by auto
    then show False using w by force
  qed
  then have "explored succ w x y"
    using assms(2) unfolding explored_def by (cases "x \<in> fst ` set w") simp_all
  then show ?thesis using x next_node_explored [OF c(5)] by blast
qed

lemma entered_searched:
  assumes "can_enter n succ R s w c"
  shows "searched succ (entered c w s)"
proof -
  note c = can_enterD [OF assms]
  have old: "searched succ s" by (rule walk_invD(4) [OF c(1)])
  have "visited (entered c w s) y" if "x \<in> set (c # stack s)" "explored succ (work (entered c w s)) x y" for x y
    using entered_explored [OF assms that(2)] that(1) old by (auto simp: searched_def c(9))
  moreover have "p \<le> length (succ ! g)" if "(g, p) \<in> set ((c, 0) # w)" for g p
    using that old c(5) by (auto simp: searched_def next_node_def)
  ultimately show ?thesis by (simp add: searched_def)
qed

lemma entered_low:
  assumes "can_enter n succ R s w c"
  shows "low_ok succ (entered c w s)"
proof -
  note c = can_enterD [OF assms]
  have old: "low_ok succ s" by (rule walk_invD(5) [OF c(1)])
  have sub: "gray s \<subseteq> set (stack s)" using walk_invD(2) [OF c(1)] by (simp add: stacked_def)
  let ?s = "entered c w s"
  have "low ?s ! g \<le> idx ?s g \<and> (\<exists>y \<in> set (stack ?s). idx ?s y = low ?s ! g \<and> reach succ g y)"
    if "g \<in> insert c (gray s)" for g
  proof (cases "g = c")
    case False
    then have "g \<in> gray s" using that by simp
    then obtain y where "y \<in> set (stack s)" "idx s y = low s ! g" "reach succ g y" "low s ! g \<le> idx s g"
      using old by (auto simp: low_ok_def)
    then show ?thesis using False c(6) by (auto simp: c(10,11))
  qed (auto simp: c(10,11))
  moreover have "low ?s ! g \<le> idx ?s y"
    if g: "g \<in> insert c (gray s)" and seg: "segment ?s g x" and y: "y \<in> set (stack ?s)" and ex: "explored succ (work ?s) x y"
    for g x y
  proof -
    have x: "x \<noteq> c" "x \<in> set (stack s)" and ex': "explored succ (work s) x y \<or> y = c"
      using entered_explored [OF assms ex] seg by (auto simp: segment_def)
    have gc: "g \<noteq> c" using seg x c(12) [OF x(2)] by (auto simp: segment_def c(10))
    then have gs: "g \<in> gray s" using g by simp
    have low: "low s ! g \<le> idx s g" using old gs by (simp add: low_ok_def)
    show ?thesis
    proof (cases "y = c")
      case True
      have "idx s g < next_index s" using c(12) gs sub by blast
      then show ?thesis using True gc low by (simp add: c(10,11))
    next
      case False
      have "segment s g x"
        using seg x gc c(7) unfolding segment_def entered_gray [OF assms] by (auto simp: c(10) split: if_splits)
      then have "low s ! g \<le> idx s y" using old gs y False ex' by (auto simp: low_ok_def)
      then show ?thesis using False gc by (simp add: c(10,11))
    qed
  qed
  ultimately show ?thesis unfolding low_ok_def entered_gray [OF assms] by blast
qed

lemma entered_inv:
  assumes "can_enter n succ R s w c"
  shows "walk_inv n succ R (entered c w s)"
proof -
  note c = can_enterD [OF assms]
  note inv = walk_invD [OF c(1)]
  have "emitted n succ (entered c w s)" using inv(6) by (simp add: emitted_def)
  moreover have "\<exists>r \<in> R. reach succ r v" if "visited (entered c w s) v" for v
    using that inv(7) next_node_reach(2) [OF c(1,5)] by (auto simp: c(9))
  ultimately show ?thesis
    using entered_shape [OF inv(1) c(2-4)] entered_stacked [OF assms] entered_linked [OF assms]
      entered_searched [OF assms] entered_low [OF assms] by (simp add: walk_inv_def)
qed

section \<open>An edge to a node that was reached before\<close>

lemma sorted_by_inj:
  fixes f :: "'a \<Rightarrow> 'b :: order"
  shows "sorted_wrt (\<lambda>a b. f b < f a) xs \<Longrightarrow> a \<in> set xs \<Longrightarrow> b \<in> set xs \<Longrightarrow> f a = f b \<Longrightarrow> a = b"
proof (induction xs)
  case (Cons x xs)
  have "f y < f x" if "y \<in> set xs" for y using Cons.prems(1) that by simp
  then have "f y \<noteq> f x" if "y \<in> set xs" for y using that by fastforce
  then show ?case using Cons by (metis set_ConsD sorted_wrt.simps(2))
qed simp

lemma stack_inj:
  "stacked s \<Longrightarrow> a \<in> set (stack s) \<Longrightarrow> b \<in> set (stack s) \<Longrightarrow> idx s a = idx s b \<Longrightarrow> a = b"
  by (rule sorted_by_inj [where f = "idx s"]) (simp_all add: stacked_def)

definition looked :: "nat \<Rightarrow> nat \<Rightarrow> (nat \<times> nat) list \<Rightarrow> walk \<Rightarrow> walk" where
  "looked node c w s = (if on_stack s ! c
     then s\<lparr>work := w, low := (low s)[node := min (low s ! node) (idx s c)]\<rparr> else s\<lparr>work := w\<rparr>)"

lemma looked_fields [simp]:
  "index (looked node c w s) = index s" "stack (looked node c w s) = stack s" "work (looked node c w s) = w"
  "comps (looked node c w s) = comps s" "comp_of (looked node c w s) = comp_of s"
  "next_index (looked node c w s) = next_index s" "on_stack (looked node c w s) = on_stack s"
  "length (low (looked node c w s)) = length (low s)" "finished (looked node c w s) = finished s"
  "visited (looked node c w s) = visited s"
  by (auto simp: looked_def finished_def visited_def fun_eq_iff)

lemma looked_inv:
  assumes "walk_inv n succ R s" and w: "work s = (node, pos) # rest" and "next_node succ R s w c" and "visited s c"
  shows "walk_inv n succ R (looked node c w s)"
proof -
  note inv = walk_invD [OF assms(1)]
  let ?s = "looked node c w s"
  have g: "gray ?s = gray s" using next_node_gray_set [OF assms(3)] by (simp add: gray_def)
  have node: "node \<in> gray s" "node \<in> set (stack s)" using inv(2) w by (auto simp: stacked_def gray_def)
  have nb: "node < n" using node(2) inv(1,2) visited_bound by (auto simp: stacked_def)
  have cb: "c < n" by (rule visited_bound [OF inv(1) assms(4)])
  have on: "on_stack s ! c \<longleftrightarrow> c \<in> set (stack s)" using inv(1) cb by (simp add: shape_def)
  have low: "low ?s ! v = (if v = node \<and> c \<in> set (stack s) then min (low s ! node) (idx s c) else low s ! v)" for v
    using nb inv(1) on by (auto simp: looked_def shape_def nth_list_update)
  have low_le: "low ?s ! v \<le> low s ! v" for v by (simp add: low)
  have ex: "explored succ (work s) x y \<or> (y = c \<and> x = node)" if "explored succ w x y" for x y
    using next_node_explored [OF assms(3) that] w by auto
  have "stacked ?s" using inv(2) next_node_gray [OF assms(3)] g by (simp add: stacked_def)
  moreover have "linked succ ?s" using inv(3) g by (simp add: linked_def)
  moreover have "searched succ ?s"
    using inv(4) ex assms(3,4) by (fastforce simp: searched_def next_node_def)
  moreover have "low_ok succ ?s"
    unfolding low_ok_def g
  proof (intro conjI ballI allI impI)
    fix g
    assume gg: "g \<in> gray s"
    show "low ?s ! g \<le> idx ?s g" using inv(5) gg low_le [of g] by (auto simp: low_ok_def intro: order.trans)
    show "\<exists>y \<in> set (stack ?s). idx ?s y = low ?s ! g \<and> reach succ g y"
    proof (cases "g = node \<and> c \<in> set (stack s) \<and> idx s c < low s ! node")
      case True
      moreover have "reach succ g c" by (rule next_node_reach(1) [OF assms(1,3) gg])
      ultimately show ?thesis by (intro bexI [of _ c]) (auto simp: low)
    next
      case False
      then have "low ?s ! g = low s ! g" by (auto simp: low min_def)
      then show ?thesis using inv(5) gg by (auto simp: low_ok_def)
    qed
  next
    fix g x y
    assume gg: "g \<in> gray s" and seg: "segment ?s g x" and y: "y \<in> set (stack ?s)" and e: "explored succ (work ?s) x y"
    have seg': "segment s g x" using seg by (simp add: segment_def g)
    show "low ?s ! g \<le> idx ?s y"
    proof (cases "explored succ (work s) x y")
      case True
      then have "low s ! g \<le> idx s y" using inv(5) gg seg' y unfolding low_ok_def by simp
      then show ?thesis using low_le [of g] by (auto intro: order.trans)
    next
      case False
      then have xy: "y = c" "x = node" using ex e by auto
      then have "idx s g = idx s node" using seg' node(1) by (auto simp: segment_def intro: antisym)
      then have "g = node" using stack_inj [OF inv(2)] gg node(2) inv(2) by (auto simp: stacked_def)
      then show ?thesis using xy y by (simp add: low)
    qed
  qed
  ultimately show ?thesis using inv(1,6,7) by (simp add: walk_inv_def shape_def emitted_def)
qed

section \<open>Leaving a node\<close>

text \<open>The top frame has looked at every successor.\<close>

definition can_leave :: "nat \<Rightarrow> nat list list \<Rightarrow> nat set \<Rightarrow> walk \<Rightarrow> nat \<Rightarrow> nat \<Rightarrow> (nat \<times> nat) list \<Rightarrow> bool" where
  "can_leave n succ R s node pos rest \<longleftrightarrow>
     walk_inv n succ R s \<and> length succ = n \<and> work s = (node, pos) # rest \<and> \<not> pos < length (succ ! node)"

lemma explored_leave:
  assumes "pos = length (succ ! node)" and "node \<notin> fst ` set rest" and "node < length succ"
  shows "explored succ rest x y = explored succ ((node, pos) # rest) x y"
proof (cases "x = node")
  case True
  have "(node, p) \<notin> set rest" for p using assms(2) by force
  then show ?thesis using True assms by (simp add: explored_def edge_def)
next
  case False
  then show ?thesis by (cases "x \<in> fst ` set rest") (simp_all add: explored_def)
qed

lemma can_leaveD:
  assumes "can_leave n succ R s node pos rest"
  shows "walk_inv n succ R s" and "work s = (node, pos) # rest" and "node < n"
    and "node \<in> gray s" and "node \<in> set (stack s)" and "node \<notin> fst ` set rest"
    and "gray s = insert node (fst ` set rest)"
    and "explored succ rest x y = explored succ (work s) x y"
    and "g \<in> gray s \<Longrightarrow> idx s g \<le> idx s node"
    and "g \<in> fst ` set rest \<Longrightarrow> idx s g < idx s node"
proof -
  show inv: "walk_inv n succ R s" and w: "work s = (node, pos) # rest" using assms by (auto simp: can_leave_def)
  note i = walk_invD [OF inv]
  show st: "node \<in> set (stack s)" "node \<in> gray s" using i(2) w by (auto simp: stacked_def gray_def)
  show nb: "node < n" using st i(1,2) visited_bound by (auto simp: stacked_def)
  show rest: "g \<in> fst ` set rest \<Longrightarrow> idx s g < idx s node" for g using i(2) w by (auto simp: stacked_def)
  then show nr: "node \<notin> fst ` set rest" by fastforce
  show g: "gray s = insert node (fst ` set rest)" using w by (simp add: gray_def)
  then show "g \<in> gray s \<Longrightarrow> idx s g \<le> idx s node" using rest by (auto intro: less_imp_le)
  have "pos \<le> length (succ ! node)" using i(4) w by (simp add: searched_def)
  then have "pos = length (succ ! node)" using assms by (simp add: can_leave_def)
  then show "explored succ rest x y = explored succ (work s) x y"
    unfolding w by (rule explored_leave) (use nr nb assms in \<open>simp_all add: can_leave_def\<close>)
qed

definition left_low :: "nat \<Rightarrow> (nat \<times> nat) list \<Rightarrow> walk \<Rightarrow> u32 list" where
  "left_low node rest s =
     (case rest of [] \<Rightarrow> low s | (parent, _) # _ \<Rightarrow> (low s)[parent := min (low s ! parent) (low s ! node)])"

lemma update_parent_left:
  assumes "can_leave n succ R s node pos rest"
  shows "update_parent node (s\<lparr>work := rest\<rparr>) = Some (s\<lparr>work := rest, low := left_low node rest s\<rparr>)"
proof (cases rest)
  case (Cons f fs)
  note l = can_leaveD [OF assms]
  have "fst f \<in> gray s" using l(7) Cons by simp
  then have "fst f < n" using walk_invD(1,2) [OF l(1)] visited_bound by (auto simp: stacked_def)
  then show ?thesis
    using Cons l(3) walk_invD(1) [OF l(1)]
    by (cases f) (simp add: update_parent_def left_low_def get_opt_def set_opt_def shape_def)
qed (simp add: update_parent_def left_low_def)

lemma left_low_at:
  assumes "can_leave n succ R s node pos rest"
  shows "left_low node rest s ! v =
    (if rest \<noteq> [] \<and> v = fst (hd rest) then min (low s ! v) (low s ! node) else low s ! v)"
    and "length (left_low node rest s) = n" and "left_low node rest s ! node = low s ! node"
proof -
  note l = can_leaveD [OF assms]
  have "fst (hd rest) < n" if "rest \<noteq> []"
  proof -
    have "fst (hd rest) \<in> gray s" using l(7) that by simp
    then show ?thesis using walk_invD(1,2) [OF l(1)] visited_bound by (auto simp: stacked_def)
  qed
  then show at: "left_low node rest s ! v =
      (if rest \<noteq> [] \<and> v = fst (hd rest) then min (low s ! v) (low s ! node) else low s ! v)" for v
    using walk_invD(1) [OF l(1)] by (cases rest) (auto simp: left_low_def shape_def nth_list_update)
  show "length (left_low node rest s) = n"
    using walk_invD(1) [OF l(1)] by (cases rest) (auto simp: left_low_def shape_def)
  have "rest \<noteq> [] \<Longrightarrow> node \<noteq> fst (hd rest)" using l(6) by auto
  then show "left_low node rest s ! node = low s ! node" by (simp add: at)
qed

text \<open>Without a component: the node hands its low value to its parent.\<close>

lemma left_inv:
  assumes can: "can_leave n succ R s node pos rest" and ne: "low s ! node \<noteq> idx s node"
  shows "walk_inv n succ R (s\<lparr>work := rest, low := left_low node rest s\<rparr>)"
proof -
  note l = can_leaveD [OF can]
  note inv = walk_invD [OF l(1)]
  note low = left_low_at [OF can]
  let ?s = "s\<lparr>work := rest, low := left_low node rest s\<rparr>"
  let ?q = "fst (hd rest)"
  have gs: "gray ?s = fst ` set rest" by (simp add: gray_def)
  have vis: "visited ?s = visited s" by (simp add: visited_def fun_eq_iff)
  have fin: "finished ?s = finished s" by (simp add: finished_def)
  obtain y where y: "y \<in> set (stack s)" "idx s y = low s ! node" "reach succ node y" and le: "low s ! node \<le> idx s node"
    using inv(5) l(4) by (auto simp: low_ok_def)
  have ylt: "idx s y < idx s node" using le ne y(2) by simp
  obtain h where h: "h \<in> gray s" "idx s h \<le> idx s y" "reach succ y h" using inv(3) y(1) unfolding linked_def by blast
  have hr: "h \<in> fst ` set rest" using h(1,2) ylt l(7) by auto
  then have rne: "rest \<noteq> []" by auto
  have q: "?q \<in> fst ` set rest" "?q \<in> gray s" using rne l(7) by auto
  have qtop: "idx s g \<le> idx s ?q" if "g \<in> fst ` set rest" for g
    using that inv(2) l(2) rne by (cases rest) (auto simp: stacked_def)
  have "stacked ?s" using inv(2) l(2,7) vis fin gs by (auto simp: stacked_def)
  moreover have "linked succ ?s"
    unfolding linked_def gs
  proof (intro conjI ballI impI)
    show "reach succ g v" if "g \<in> fst ` set rest" "v \<in> set (stack ?s)" "idx ?s g \<le> idx ?s v" for g v
      using that inv(3) l(7) by (auto simp: linked_def)
    show "\<exists>g \<in> fst ` set rest. idx ?s g \<le> idx ?s v \<and> reach succ v g" if v: "v \<in> set (stack ?s)" for v
    proof -
      obtain g where g: "g \<in> gray s" "idx s g \<le> idx s v" "reach succ v g" using v inv(3) by (auto simp: linked_def)
      show ?thesis
      proof (cases "g = node")
        case True
        then have "reach succ v h" using g(3) y(3) h(3) reach_trans by blast
        moreover have "idx s h \<le> idx s v" using h(2) ylt g(2) True by (meson less_imp_le order_trans)
        ultimately show ?thesis using hr by auto
      next
        case False
        then show ?thesis using g l(7) by auto
      qed
    qed
  qed
  moreover have "searched succ ?s" using inv(4) l(2) vis by (auto simp: searched_def l(8))
  moreover have "low_ok succ ?s"
    unfolding low_ok_def gs
  proof (intro conjI ballI allI impI)
    fix g
    assume g: "g \<in> fst ` set rest"
    then have gg: "g \<in> gray s" using l(7) by simp
    then have old: "low s ! g \<le> idx s g" "\<exists>y \<in> set (stack s). idx s y = low s ! g \<and> reach succ g y"
      using inv(5) by (auto simp: low_ok_def)
    show "low ?s ! g \<le> idx ?s g" using old(1) by (auto simp: low min_def)
    show "\<exists>y \<in> set (stack ?s). idx ?s y = low ?s ! g \<and> reach succ g y"
    proof (cases "g = ?q \<and> low s ! node < low s ! g")
      case True
      have "idx s g \<le> idx s node" using l(9) gg by blast
      then have "reach succ g node" using inv(3) gg l(5) by (auto simp: linked_def)
      then have "reach succ g y" using y(3) reach_trans by blast
      then show ?thesis using y True rne by (auto simp: low min_def)
    next
      case False
      then have "low ?s ! g = low s ! g" by (auto simp: low min_def)
      then show ?thesis using old(2) by auto
    qed
  next
    fix g x z
    assume g: "g \<in> fst ` set rest" and seg: "segment ?s g x" and z: "z \<in> set (stack ?s)"
      and ex: "explored succ (work ?s) x z"
    have gg: "g \<in> gray s" using g l(7) by simp
    have x: "x \<in> set (stack s)" "idx s g \<le> idx s x" using seg by (auto simp: segment_def)
    have ex': "explored succ (work s) x z" using ex l(8) by simp
    show "low ?s ! g \<le> idx ?s z"
    proof (cases "idx s node \<le> idx s x")
      case False
      then have "segment s g x" using seg l(7) by (auto simp: segment_def gs)
      then have "low s ! g \<le> idx s z" using inv(5) gg z ex' unfolding low_ok_def by simp
      then show ?thesis by (auto simp: low min_def)
    next
      case True
      then have "segment s node x" using x(1) l(9) by (auto simp: segment_def)
      then have node_z: "low s ! node \<le> idx s z" using inv(5) l(4) z ex' unfolding low_ok_def by simp
      have "idx s ?q \<le> idx s x" using l(10) q(1) True by (meson less_imp_le order_trans)
      moreover have "\<forall>g' \<in> fst ` set rest. idx s g' \<le> idx s x \<longrightarrow> idx s g' \<le> idx s g"
        using seg by (simp add: segment_def gs)
      ultimately have "idx s ?q \<le> idx s g" using q(1) by blast
      then have "idx s g = idx s ?q" using qtop [OF g] by simp
      moreover have "gray s \<subseteq> set (stack s)" using inv(2) by (simp add: stacked_def)
      ultimately have "g = ?q" using stack_inj [OF inv(2)] gg q(2) by blast
      then show ?thesis using node_z rne by (auto simp: low min_def)
    qed
  qed
  ultimately show ?thesis
    using inv(1,6,7) vis fin low(2) by (simp add: walk_inv_def shape_def emitted_def)
qed

section \<open>Emitting a component\<close>

lemma pop_component_spec:
  assumes "node \<notin> set pre" and "\<And>v. v \<in> set (pre @ [node]) \<Longrightarrow> v < length os \<and> v < length co"
  shows "\<exists>os' co'. pop_component node k (pre @ node # post) os co acc = Some (post, os', co', acc @ pre @ [node]) \<and>
    length os' = length os \<and> length co' = length co \<and>
    (\<forall>v < length os. os' ! v = (v \<notin> set (pre @ [node]) \<and> os ! v)) \<and>
    (\<forall>v < length co. co' ! v = (if v \<in> set (pre @ [node]) then k else co ! v))"
  using assms
proof (induction pre arbitrary: os co acc)
  case Nil
  then show ?case by (auto simp: set_opt_def nth_list_update)
next
  case (Cons p pre)
  let ?os = "os[p := False]" and ?co = "co[p := k]"
  have "p < length os" "p < length co" "p \<noteq> node" using Cons.prems by auto
  moreover obtain os' co' where "pop_component node k (pre @ node # post) ?os ?co (acc @ [p]) =
        Some (post, os', co', (acc @ [p]) @ pre @ [node])"
      "length os' = length os" "length co' = length co"
      "\<forall>v < length os. os' ! v = (v \<notin> set (pre @ [node]) \<and> ?os ! v)"
      "\<forall>v < length co. co' ! v = (if v \<in> set (pre @ [node]) then k else ?co ! v)"
    using Cons.IH [of ?os ?co "acc @ [p]"] Cons.prems by auto
  ultimately show ?case by (auto simp: set_opt_def nth_list_update)
qed

text \<open>The stack above a node whose low value is its index is a component.\<close>

lemma cut_stack:
  assumes "stacked s" and "stack s = pre @ node # post"
  shows "v \<in> set pre \<Longrightarrow> idx s node < idx s v" and "v \<in> set post \<Longrightarrow> idx s v < idx s node"
    and "distinct (stack s)"
proof -
  have sorted: "sorted_wrt (\<lambda>a b. idx s b < idx s a) (pre @ node # post)" using assms by (simp add: stacked_def)
  then show "v \<in> set pre \<Longrightarrow> idx s node < idx s v" and "v \<in> set post \<Longrightarrow> idx s v < idx s node"
    by (auto simp: sorted_wrt_append)
  have "sorted_wrt (\<lambda>a b. idx s b < idx s a) xs \<Longrightarrow> distinct xs" for xs
    by (induction xs) auto
  then show "distinct (stack s)" using assms(1) by (simp add: stacked_def)
qed

lemma finished_closed:
  assumes "emitted n succ s" and "u \<in> finished s" and "edge succ u v"
  shows "v \<in> finished s"
proof -
  obtain i where "i < length (comps s)" "u \<in> set (comps s ! i)"
    using assms(2) unfolding finished_def set_concat by (metis UN_E in_set_conv_nth)
  then obtain j where "j \<le> i" "v \<in> set (comps s ! j)"
    using assms(1,3) unfolding emitted_def by blast
  then show ?thesis using \<open>i < length (comps s)\<close> by (auto simp: finished_def intro!: bexI [of _ "comps s ! j"])
qed

lemma component_closed:
  assumes can: "can_leave n succ R s node pos rest" and low: "low s ! node = idx s node"
    and cut: "stack s = pre @ node # post" and x: "x \<in> set (pre @ [node])" and e: "edge succ x y"
  shows "y \<in> set (pre @ [node]) \<union> finished s"
proof -
  note l = can_leaveD [OF can]
  note inv = walk_invD [OF l(1)]
  have xs: "x \<in> set (stack s)" and ge: "idx s node \<le> idx s x"
    using x cut cut_stack(1) [OF inv(2) cut] by (auto intro: less_imp_le)
  have "x \<notin> fst ` set rest" using ge l(10) [of x] by (meson leD)
  then have ex: "explored succ (work s) x y" using e l(8) [of x y] by (simp add: explored_def)
  then have "visited s y" using inv(4) xs by (auto simp: searched_def)
  then consider "y \<in> set (stack s)" | "y \<in> finished s" using inv(2) by (auto simp: stacked_def)
  then show ?thesis
  proof cases
    case 1
    have "segment s node x" using xs ge l(9) by (auto simp: segment_def)
    then have "idx s node \<le> idx s y" using inv(5) l(4) 1 ex low unfolding low_ok_def by metis
    then have "y \<notin> set post" using cut_stack(2) [OF inv(2) cut] by fastforce
    then show ?thesis using 1 cut by auto
  qed simp
qed

lemma component_strong:
  assumes can: "can_leave n succ R s node pos rest" and low: "low s ! node = idx s node"
    and cut: "stack s = pre @ node # post" and u: "u \<in> set (pre @ [node])"
  shows "v \<in> set (pre @ [node]) \<longleftrightarrow> reach succ u v \<and> reach succ v u"
proof -
  note l = can_leaveD [OF can]
  note inv = walk_invD [OF l(1)]
  have both: "reach succ node x \<and> reach succ x node" if "x \<in> set (pre @ [node])" for x
  proof -
    have xs: "x \<in> set (stack s)" and ge: "idx s node \<le> idx s x"
      using that cut cut_stack(1) [OF inv(2) cut] by (auto intro: less_imp_le)
    obtain g where g: "g \<in> gray s" "reach succ x g" using inv(3) xs unfolding linked_def by blast
    have "reach succ g node" using inv(3) g(1) l(5) l(9) [OF g(1)] unfolding linked_def by blast
    moreover have "reach succ node x" using inv(3) l(4) xs ge unfolding linked_def by blast
    ultimately show ?thesis using g(2) reach_trans by blast
  qed
  show ?thesis
  proof
    assume "v \<in> set (pre @ [node])"
    then show "reach succ u v \<and> reach succ v u" using both [OF u] both [of v] reach_trans by blast
  next
    assume r: "reach succ u v \<and> reach succ v u"
    have "v \<in> set (pre @ [node]) \<union> finished s"
      by (rule reach_closed [of succ u])
        (use r u component_closed [OF can low cut] finished_closed [OF inv(6)] in blast)+
    moreover have "v \<notin> finished s"
    proof
      assume "v \<in> finished s"
      then have "u \<in> finished s"
        using r by (intro reach_closed [of succ v u]) (auto intro: finished_closed [OF inv(6)])
      then show False using u cut inv(2) by (auto simp: stacked_def)
    qed
    ultimately show "v \<in> set (pre @ [node])" by blast
  qed
qed

lemma finished_comps: "v \<in> finished s \<longleftrightarrow> (\<exists>i < length (comps s). v \<in> set (comps s ! i))"
  unfolding finished_def set_concat by (metis UN_E UN_I in_set_conv_nth)

lemma emitted_snoc:
  assumes em: "emitted n succ s" and c: "distinct c" "c \<noteq> []" "set c \<inter> finished s = {}"
    and strong: "\<And>u v. u \<in> set c \<Longrightarrow> v \<in> set c \<longleftrightarrow> reach succ u v \<and> reach succ v u"
    and closed: "\<And>u v. u \<in> set c \<Longrightarrow> edge succ u v \<Longrightarrow> v \<in> set c \<union> finished s"
    and comps: "comps s' = comps s @ [c]" and bound: "set c \<union> finished s \<subseteq> {..<n}"
    and of: "\<And>v. v < n \<Longrightarrow> comp_of s' ! v = (if v \<in> set c then of_nat (length (comps s)) else comp_of s ! v)"
  shows "emitted n succ s'"
  unfolding emitted_def
proof (intro conjI)
  have fin: "finished s' = finished s \<union> set c" by (simp add: finished_def comps)
  show "distinct (concat (comps s'))" using em c by (auto simp: emitted_def comps finished_def)
  show "[] \<notin> set (comps s')" using em c by (simp add: emitted_def comps)
  show "\<forall>c \<in> set (comps s'). \<forall>u \<in> set c. \<forall>v. v \<in> set c \<longleftrightarrow> reach succ u v \<and> reach succ v u"
    using em strong unfolding emitted_def comps by simp
  show "\<forall>i < length (comps s'). \<forall>u \<in> set (comps s' ! i). \<forall>v. edge succ u v \<longrightarrow> (\<exists>j \<le> i. v \<in> set (comps s' ! j))"
  proof (intro allI ballI impI)
    fix i u v
    assume i: "i < length (comps s')" and u: "u \<in> set (comps s' ! i)" and e: "edge succ u v"
    show "\<exists>j \<le> i. v \<in> set (comps s' ! j)"
    proof (cases "i < length (comps s)")
      case True
      then have "u \<in> set (comps s ! i)" using u by (simp add: comps nth_append)
      then obtain j where "j \<le> i" "v \<in> set (comps s ! j)" using em True e unfolding emitted_def by blast
      then show ?thesis using True by (intro exI [of _ j]) (auto simp: comps nth_append)
    next
      case False
      then have last: "i = length (comps s)" using i by (simp add: comps)
      then have "v \<in> set c \<union> finished s" using closed u e by (simp add: comps)
      then show ?thesis
      proof
        assume "v \<in> finished s"
        then obtain j where "j < length (comps s)" "v \<in> set (comps s ! j)" using finished_comps by blast
        then show ?thesis using last by (intro exI [of _ j]) (auto simp: comps nth_append)
      qed (use last in \<open>auto simp: comps\<close>)
    qed
  qed
  show "\<forall>i < length (comps s'). \<forall>v \<in> set (comps s' ! i). comp_of s' ! v = of_nat i"
  proof (intro allI ballI impI)
    fix i v
    assume i: "i < length (comps s')" and v: "v \<in> set (comps s' ! i)"
    show "comp_of s' ! v = of_nat i"
    proof (cases "i < length (comps s)")
      case True
      then have vi: "v \<in> set (comps s ! i)" using v by (simp add: comps nth_append)
      then have vf: "v \<in> finished s" using True finished_comps by blast
      then have "v < n" "v \<notin> set c" using bound c(3) by auto
      then show ?thesis using of em True vi by (simp add: emitted_def)
    next
      case False
      then have "i = length (comps s)" "v \<in> set c" using i v by (auto simp: comps nth_append)
      then show ?thesis using of [of v] bound by auto
    qed
  qed
  show "\<forall>v < n. v \<notin> finished s' \<longrightarrow> comp_of s' ! v = UNSET" using em of by (simp add: emitted_def fin)
qed

lemma emit_inv:
  assumes can: "can_leave n succ R s node pos rest" and low: "low s ! node = idx s node"
  shows "\<exists>s'. emit node (s\<lparr>work := rest, low := left_low node rest s\<rparr>) = Some s' \<and> walk_inv n succ R s' \<and>
    work s' = rest \<and> visited s' = visited s"
proof -
  note l = can_leaveD [OF can]
  note inv = walk_invD [OF l(1)]
  note at = left_low_at [OF can]
  obtain pre post where cut: "stack s = pre @ node # post" using l(5) by (meson split_list)
  note cs = cut_stack [OF inv(2) cut]
  have np: "node \<notin> set pre" "node \<notin> set post" using cs(3) cut by auto
  have sb: "v < n" if "v \<in> set (stack s)" for v
    using that inv(1,2) visited_bound by (auto simp: stacked_def)
  let ?C = "set (pre @ [node])"
  obtain os co where pop: "pop_component node (of_nat (length (comps s))) (stack s) (on_stack s) (comp_of s) [] =
        Some (post, os, co, pre @ [node])"
      "length os = n" "length co = n" "\<And>v. v < n \<Longrightarrow> os ! v = (v \<notin> ?C \<and> on_stack s ! v)"
      "\<And>v. v < n \<Longrightarrow> co ! v = (if v \<in> ?C then of_nat (length (comps s)) else comp_of s ! v)"
    using pop_component_spec [of node pre "on_stack s" "comp_of s" "of_nat (length (comps s))" post "[]"] np(1) sb inv(1)
    by (auto simp: cut shape_def)
  define s' where "s' = s\<lparr>work := rest, low := left_low node rest s, stack := post, on_stack := os, comp_of := co,
      comps := comps s @ [pre @ [node]]\<rparr>"
  have em: "emit node (s\<lparr>work := rest, low := left_low node rest s\<rparr>) = Some s'"
    using pop(1) low l(3) inv(1) at(2,3) by (simp add: emit_def get_opt_def s'_def shape_def)
  have gs: "gray s' = fst ` set rest" by (simp add: gray_def s'_def)
  have vis: "visited s' = visited s" by (simp add: visited_def fun_eq_iff s'_def)
  have fin: "finished s' = finished s \<union> ?C" by (simp add: finished_def s'_def)
  have gpost: "g \<in> set post" if "g \<in> fst ` set rest" for g
  proof -
    have "g \<in> set (stack s)" using that l(7) inv(2) by (auto simp: stacked_def)
    then show ?thesis using l(10) [OF that] cs(1) [of g] cut by fastforce
  qed
  have disj: "?C \<inter> finished s = {}" using inv(2) cut by (auto simp: stacked_def)
  have "shape n s'"
    using inv(1) pop(2-4) at(2) vis cut cs(3) by (auto simp: shape_def s'_def)
  moreover have "stacked s'"
    using inv(2) vis fin gs gpost cut cs(3) l(2) by (auto simp: stacked_def s'_def sorted_wrt_append)
  moreover have "linked succ s'"
    unfolding linked_def gs
  proof (intro conjI ballI impI)
    show "reach succ g v" if "g \<in> fst ` set rest" "v \<in> set (stack s')" "idx s' g \<le> idx s' v" for g v
      using that inv(3) l(7) cut by (auto simp: linked_def s'_def)
    show "\<exists>g \<in> fst ` set rest. idx s' g \<le> idx s' v \<and> reach succ v g" if v: "v \<in> set (stack s')" for v
    proof -
      have vp: "v \<in> set post" using v by (simp add: s'_def)
      then have "v \<in> set (stack s)" using cut by simp
      then obtain g where g: "g \<in> gray s" "idx s g \<le> idx s v" "reach succ v g"
        using inv(3) unfolding linked_def by blast
      moreover have "g \<noteq> node" using g(2) cs(2) [OF vp] by fastforce
      ultimately show ?thesis using l(7) by (intro bexI [of _ g]) (auto simp: s'_def)
    qed
  qed
  moreover have "searched succ s'"
    using inv(4) l(2) vis cut by (auto simp: searched_def s'_def l(8))
  moreover have "low_ok succ s'"
    unfolding low_ok_def gs
  proof (intro conjI ballI allI impI)
    fix g
    assume g: "g \<in> fst ` set rest"
    then have gg: "g \<in> gray s" using l(7) by simp
    have lt: "idx s g < idx s node" by (rule l(10) [OF g])
    obtain y where y: "y \<in> set (stack s)" "idx s y = low s ! g" "reach succ g y" and le: "low s ! g \<le> idx s g"
      using inv(5) gg unfolding low_ok_def by blast
    have "low s ! g \<le> low s ! node" using le lt low by simp
    then have same: "low s' ! g = low s ! g" by (auto simp: s'_def at(1) min_def)
    show "low s' ! g \<le> idx s' g" using le same by (simp add: s'_def)
    have "y \<in> set post" using y(1,2) le lt cs(1) [of y] cut by fastforce
    then show "\<exists>y \<in> set (stack s'). idx s' y = low s' ! g \<and> reach succ g y" using y same by (auto simp: s'_def)
    fix x z
    assume seg: "segment s' g x" and z: "z \<in> set (stack s')" and ex: "explored succ (work s') x z"
    have x: "x \<in> set post" using seg by (simp add: segment_def s'_def)
    have "\<forall>g' \<in> fst ` set rest. idx s g' \<le> idx s x \<longrightarrow> idx s g' \<le> idx s g"
      using seg unfolding segment_def gs by (simp add: s'_def)
    then have "segment s g x"
      using seg x cs(2) [OF x] cut unfolding segment_def l(7) by (auto simp: s'_def)
    moreover have "z \<in> set (stack s)" using z cut by (simp add: s'_def)
    moreover have "explored succ (work s) x z" using ex l(8) [of x z] by (simp add: s'_def)
    ultimately have "low s ! g \<le> idx s z" using inv(5) gg unfolding low_ok_def by blast
    then show "low s' ! g \<le> idx s' z" using same by (simp add: s'_def)
  qed
  moreover have "emitted n succ s'"
  proof (rule emitted_snoc [OF inv(6)])
    show "distinct (pre @ [node])" using cs(3) cut by auto
    show "set (pre @ [node]) \<inter> finished s = {}" by (rule disj)
    show "comps s' = comps s @ [pre @ [node]]" by (simp add: s'_def)
    show "set (pre @ [node]) \<union> finished s \<subseteq> {..<n}"
      using sb cut inv(1,2) visited_bound by (auto simp: stacked_def)
    show "comp_of s' ! v = (if v \<in> ?C then of_nat (length (comps s)) else comp_of s ! v)" if "v < n" for v
      using pop(5) [OF that] by (simp add: s'_def)
  qed (use component_strong [OF can low cut] component_closed [OF can low cut] in blast)+
  ultimately have "walk_inv n succ R s'" using inv(7) vis by (simp add: walk_inv_def)
  then show ?thesis using em vis by (auto simp: s'_def)
qed

section \<open>The loop\<close>

text \<open>The rounds that are left: the positions of unvisited nodes and of the open frames.\<close>

definition frames_left :: "nat list list \<Rightarrow> (nat \<times> nat) list \<Rightarrow> nat" where
  "frames_left succ w = sum_list (map (\<lambda>(g, p). Suc (length (succ ! g) - p)) w)"

definition nodes_left :: "nat list list \<Rightarrow> (nat \<Rightarrow> bool) \<Rightarrow> nat" where
  "nodes_left succ vis = (\<Sum>v \<in> {v. v < length succ \<and> \<not> vis v}. Suc (length (succ ! v)))"

lemma nodes_left_enter:
  assumes "c < length succ" and "\<not> vis c"
  shows "nodes_left succ vis = Suc (length (succ ! c)) + nodes_left succ (\<lambda>v. v = c \<or> vis v)"
proof -
  have "{v. v < length succ \<and> \<not> vis v} = insert c {v. v < length succ \<and> \<not> (v = c \<or> vis v)}" using assms by auto
  then show ?thesis by (simp add: nodes_left_def)
qed

lemma nodes_left_fuel: "nodes_left succ vis \<le> walk_fuel succ"
proof -
  have "nodes_left succ vis \<le> (\<Sum>v \<in> {..<length succ}. Suc (length (succ ! v)))"
    unfolding nodes_left_def by (rule sum_mono2) auto
  also have "\<dots> = walk_fuel succ"
    by (simp add: walk_fuel_def sum_list_sum_nth atLeast0LessThan)
  finally show ?thesis .
qed

definition rounds_left :: "nat list list \<Rightarrow> walk \<Rightarrow> nat" where
  "rounds_left succ s = nodes_left succ (visited s) + frames_left succ (work s)"

lemma enter_rounds:
  assumes "can_enter n succ R s w c" and "length succ = n"
  shows "rounds_left succ (entered c w s) = nodes_left succ (visited s) + frames_left succ w"
proof -
  note c = can_enterD [OF assms(1)]
  have "visited (entered c w s) = (\<lambda>v. v = c \<or> visited s v)" by (rule ext) (rule c(9))
  then show ?thesis
    using nodes_left_enter [of c succ "visited s"] c(3,4) assms(2) by (simp add: rounds_left_def frames_left_def)
qed

lemma look_at_eq:
  assumes "shape n s" and "c < n" and "node < n"
  shows "look_at node c (s\<lparr>work := w\<rparr>) = Some (if visited s c then looked node c w s else entered c w s)"
  using assms enter_entered [OF assms(1,2), of w]
  by (auto simp: look_at_def get_opt_def set_opt_def shape_def visited_def looked_def)

lemma walk_step_inv:
  assumes g: "graph_ok n succ" and inv: "walk_inv n succ R s" and w: "work s = (node, pos) # rest"
  shows "\<exists>s'. walk_step succ node pos rest s = Some s' \<and> walk_inv n succ R s' \<and>
    rounds_left succ s = Suc (rounds_left succ s') \<and> (\<forall>v. visited s v \<longrightarrow> visited s' v)"
proof -
  note i = walk_invD [OF inv]
  have len: "length succ = n" using g by (simp add: graph_ok_def)
  have "node \<in> set (stack s)" using i(2) w by (auto simp: stacked_def gray_def)
  then have nb: "node < n" using i(1,2) visited_bound by (auto simp: stacked_def)
  have get: "get_opt succ node = Some (succ ! node)" using nb len by (simp add: get_opt_def)
  show ?thesis
  proof (cases "pos < length (succ ! node)")
    case True
    let ?c = "succ ! node ! pos" and ?w = "(node, Suc pos) # rest"
    have nn: "next_node succ R s ?w ?c" using w True nb len by (auto simp: next_node_def)
    have "edge succ node ?c" using nb len True by (simp add: edge_def)
    then have cb: "?c < n" using edge_bound [OF g] by blast
    have step: "walk_step succ node pos rest s = Some (if visited s ?c then looked node ?c ?w s else entered ?c ?w s)"
      using True get look_at_eq [OF i(1) cb nb, of ?w] by (simp add: walk_step_def)
    have frames: "frames_left succ (work s) = Suc (frames_left succ ?w)"
      using w True by (simp add: frames_left_def)
    show ?thesis
    proof (cases "visited s ?c")
      case True
      then show ?thesis
        using step looked_inv [OF inv w nn True] frames by (simp add: rounds_left_def)
    next
      case False
      then have can: "can_enter n succ R s ?w ?c"
        using inv g cb nn by (simp add: can_enter_def graph_ok_def)
      show ?thesis
        using step False entered_inv [OF can] enter_rounds [OF can len] frames can_enterD(9) [OF can]
        by (simp add: rounds_left_def)
    qed
  next
    case False
    then have can: "can_leave n succ R s node pos rest" using inv len w by (simp add: can_leave_def)
    have frames: "frames_left succ (work s) = Suc (frames_left succ rest)"
      using w False by (simp add: frames_left_def)
    let ?l = "s\<lparr>work := rest, low := left_low node rest s\<rparr>"
    have step: "walk_step succ node pos rest s = emit node ?l"
      using False get update_parent_left [OF can] by (simp add: walk_step_def)
    have vis: "visited ?l = visited s" by (simp add: visited_def fun_eq_iff)
    show ?thesis
    proof (cases "low s ! node = idx s node")
      case True
      then show ?thesis using step emit_inv [OF can] frames by (auto simp: rounds_left_def)
    next
      case False
      then have "emit node ?l = Some ?l"
        using left_low_at(2,3) [OF can] nb i(1) by (simp add: emit_def get_opt_def shape_def)
      then show ?thesis using step left_inv [OF can False] frames vis by (simp add: rounds_left_def)
    qed
  qed
qed

lemma walk_loop_inv:
  assumes "graph_ok n succ" and "walk_inv n succ R s" and "rounds_left succ s \<le> fuel"
  shows "\<exists>s'. walk_loop fuel succ s = Some s' \<and> walk_inv n succ R s' \<and> work s' = [] \<and>
    (\<forall>v. visited s v \<longrightarrow> visited s' v)"
  using assms(2,3)
proof (induction fuel arbitrary: s)
  case 0
  then have "work s = []" by (cases "work s") (auto simp: rounds_left_def frames_left_def)
  then show ?case using 0 by simp
next
  case (Suc fuel)
  show ?case
  proof (cases "work s")
    case Nil
    then show ?thesis using Suc.prems by simp
  next
    case (Cons f rest)
    then obtain node pos where w: "work s = (node, pos) # rest" by (cases f) auto
    obtain s1 where s1: "walk_step succ node pos rest s = Some s1" "walk_inv n succ R s1"
      "rounds_left succ s = Suc (rounds_left succ s1)" "\<forall>v. visited s v \<longrightarrow> visited s1 v"
      using walk_step_inv [OF assms(1) Suc.prems(1) w] by blast
    then show ?thesis using Suc.IH [OF s1(2)] Suc.prems(2) w by auto
  qed
qed

lemma walk_root_inv:
  assumes g: "graph_ok n succ" and inv: "walk_inv n succ R s" and w: "work s = []" and r: "r \<in> R" "r < n"
  shows "\<exists>s'. walk_root succ s r = Some s' \<and> walk_inv n succ R s' \<and> work s' = [] \<and> visited s' r \<and>
    (\<forall>v. visited s v \<longrightarrow> visited s' v)"
proof -
  note i = walk_invD [OF inv]
  have len: "length succ = n" using g by (simp add: graph_ok_def)
  have get: "get_opt (index s) r = Some (idx s r)" using r(2) i(1) by (simp add: get_opt_def shape_def)
  show ?thesis
  proof (cases "visited s r")
    case True
    then show ?thesis using get inv w by (auto simp: walk_root_def visited_def)
  next
    case False
    then have can: "can_enter n succ R s [] r"
      using g inv w r by (simp add: can_enter_def graph_ok_def next_node_def)
    have "s\<lparr>work := []\<rparr> = s" using w by simp
    then have enter: "enter r s = Some (entered r [] s)" using enter_entered [OF i(1) r(2), of "[]"] by simp
    have "rounds_left succ (entered r [] s) \<le> walk_fuel succ"
      using enter_rounds [OF can len] nodes_left_fuel by (simp add: frames_left_def)
    from walk_loop_inv [OF g entered_inv [OF can] this] obtain s' where
      s': "walk_loop (walk_fuel succ) succ (entered r [] s) = Some s'" "walk_inv n succ R s'" "work s' = []"
      "\<forall>v. visited (entered r [] s) v \<longrightarrow> visited s' v" by blast
    have "idx s r = UNSET" using False r(2) i(1) by (simp add: visited_def shape_def)
    then have "walk_root succ s r = Some s'" using get enter s'(1) by (simp add: walk_root_def)
    then show ?thesis using s' can_enterD(9) [OF can] by auto
  qed
qed

lemma walk_roots_inv:
  assumes "graph_ok n succ" and "walk_inv n succ R s" and "work s = []" and "set roots \<subseteq> R" and "\<forall>r \<in> set roots. r < n"
  shows "\<exists>s'. walk_roots succ roots s = Some s' \<and> walk_inv n succ R s' \<and> work s' = [] \<and>
    (\<forall>v. v \<in> set roots \<or> visited s v \<longrightarrow> visited s' v)"
  using assms(2-5)
proof (induction roots arbitrary: s)
  case (Cons r roots)
  then obtain s1 where s1: "walk_root succ s r = Some s1" "walk_inv n succ R s1" "work s1 = []" "visited s1 r"
    "\<forall>v. visited s v \<longrightarrow> visited s1 v"
    using walk_root_inv [OF assms(1) Cons.prems(1,2), of r] by auto
  from Cons.IH [OF s1(2,3)] Cons.prems obtain s' where "walk_roots succ roots s1 = Some s'" "walk_inv n succ R s'"
    "work s' = []" "\<forall>v. v \<in> set roots \<or> visited s1 v \<longrightarrow> visited s' v" by auto
  then show ?case using s1 by auto
qed simp

lemma walk_new_inv: "walk_inv n succ R (walk_new n)"
proof -
  have "\<not> visited (walk_new n) v" for v by (simp add: visited_def walk_new_def)
  then show ?thesis
    by (simp add: walk_inv_def shape_def stacked_def linked_def searched_def low_ok_def emitted_def gray_def
        finished_def) (simp add: walk_new_def)
qed

section \<open>The components\<close>

definition sccs_of :: "nat \<Rightarrow> nat list list \<Rightarrow> nat set \<Rightarrow> nat list list \<Rightarrow> u32 list \<Rightarrow> bool" where
  "sccs_of n succ R cs co \<longleftrightarrow> set (concat cs) = {v. \<exists>r \<in> R. reach succ r v} \<and> distinct (concat cs) \<and> [] \<notin> set cs \<and>
     (\<forall>c \<in> set cs. \<forall>u \<in> set c. \<forall>v. v \<in> set c \<longleftrightarrow> reach succ u v \<and> reach succ v u) \<and>
     (\<forall>i < length cs. \<forall>u \<in> set (cs ! i). \<forall>v. edge succ u v \<longrightarrow> (\<exists>j \<le> i. v \<in> set (cs ! j))) \<and>
     (\<forall>i < length cs. \<forall>v \<in> set (cs ! i). co ! v = of_nat i) \<and>
     (\<forall>v < n. v \<notin> set (concat cs) \<longrightarrow> co ! v = UNSET) \<and> length co = n \<and> set (concat cs) \<subseteq> {..<n}"

lemma walk_result:
  assumes "walk_inv n succ R s" and "work s = []" and "\<And>r. r \<in> R \<Longrightarrow> visited s r"
  shows "sccs_of n succ R (comps s) (comp_of s)"
proof -
  note i = walk_invD [OF assms(1)]
  have "stack s = []" using i(3) assms(2) by (cases "stack s") (auto simp: linked_def gray_def)
  then have vis: "visited s v \<longleftrightarrow> v \<in> finished s" for v using i(2) by (simp add: stacked_def)
  have "v \<in> finished s" if "r \<in> R" "reach succ r v" for r v
    by (rule reach_closed [OF that(2)]) (use assms(3) [OF that(1)] vis finished_closed [OF i(6)] in auto)
  then have "set (concat (comps s)) = {v. \<exists>r \<in> R. reach succ r v}"
    using i(7) vis unfolding finished_def by blast
  moreover have "set (concat (comps s)) \<subseteq> {..<n}"
    using vis visited_bound [OF i(1)] unfolding finished_def by blast
  ultimately show ?thesis using i(6) i(1) by (simp add: sccs_of_def emitted_def finished_def shape_def)
qed

lemma components_from_iter_sccs:
  assumes "graph_ok n succ" and "\<forall>r \<in> set roots. r < n"
  shows "\<exists>cs co. components_from_iter n succ roots = Some (cs, co) \<and> sccs_of n succ (set roots) cs co"
proof -
  have "work (walk_new n) = []" by (simp add: walk_new_def)
  then obtain s where s: "walk_roots succ roots (walk_new n) = Some s" "walk_inv n succ (set roots) s" "work s = []"
    "\<forall>v. v \<in> set roots \<or> visited (walk_new n) v \<longrightarrow> visited s v"
    using walk_roots_inv [OF assms(1) walk_new_inv _ _ assms(2)] by blast
  then have "sccs_of n succ (set roots) (comps s) (comp_of s)" by (intro walk_result) auto
  then show ?thesis using s(1) by (simp add: components_from_iter_def)
qed

lemma length_concat_ge: "[] \<notin> set cs \<Longrightarrow> length cs \<le> length (concat cs)"
proof (induction cs)
  case (Cons c cs)
  then show ?case by (cases c) auto
qed simp

lemma unat_of_nat32: "i < 2 ^ 32 \<Longrightarrow> unat (of_nat i :: u32) = i"
  by (simp add: unsigned_of_nat take_bit_nat_eq_self)

lemma sccs_length:
  assumes "sccs_of n succ R cs co"
  shows "length cs \<le> n"
proof -
  have d: "distinct (concat cs)" and sub: "set (concat cs) \<subseteq> {..<n}" and ne: "[] \<notin> set cs"
    using assms unfolding sccs_of_def by blast+
  have "length (concat cs) = card (set (concat cs))" by (rule distinct_card [OF d, symmetric])
  also have "\<dots> \<le> n" using card_mono [OF _ sub] by simp
  finally show ?thesis using length_concat_ge [OF ne] by simp
qed

lemma sccs_count: "graph_ok n succ \<Longrightarrow> sccs_of n succ R cs co \<Longrightarrow> length cs < 2 ^ 32"
  using sccs_length [of n succ R cs co] by (simp add: graph_ok_def)

lemma sccs_member:
  assumes "graph_ok n succ" and "sccs_of n succ R cs co" and "v \<in> set (concat cs)"
  shows "unat (co ! v) < length cs \<and> v \<in> set (cs ! unat (co ! v))"
proof -
  obtain i where i: "i < length cs" "v \<in> set (cs ! i)"
    using assms(3) unfolding set_concat by (metis UN_E in_set_conv_nth)
  then have "co ! v = of_nat i" using assms(2) by (simp add: sccs_of_def)
  moreover have "i < 2 ^ 32" using i(1) sccs_count [OF assms(1,2)] by simp
  ultimately have "unat (co ! v) = i" by (simp add: unat_of_nat32)
  then show ?thesis using i by simp
qed

lemma sccs_unique:
  assumes "sccs_of n succ R cs co" and "i < length cs" "j < length cs" "v \<in> set (cs ! i)" "v \<in> set (cs ! j)"
    and "graph_ok n succ"
  shows "i = j"
proof -
  have "co ! v = of_nat i" "co ! v = of_nat j" using assms(1-5) unfolding sccs_of_def by blast+
  moreover have "i < 2 ^ 32" "j < 2 ^ 32" using assms(2,3) sccs_count [OF assms(6,1)] by simp_all
  ultimately show ?thesis by (metis unat_of_nat32)
qed

lemma sccs_all:
  assumes "sccs_of n succ {..<n} cs co"
  shows "set (concat cs) = {..<n}"
proof
  have eq: "set (concat cs) = {v. \<exists>r \<in> {..<n}. reach succ r v}" and sub: "set (concat cs) \<subseteq> {..<n}"
    using assms unfolding sccs_of_def by blast+
  show "set (concat cs) \<subseteq> {..<n}" by (rule sub)
  show "{..<n} \<subseteq> set (concat cs)" unfolding eq using reach_refl [of succ] by blast
qed

text \<open>
  C2: \<open>components\<close> computes the strongly connected components of every graph whose
  successors are nodes and whose size fits \<open>u32\<close>: it returns, without a panic and within
  the rounds of one visit per edge and node, disjoint components that cover every node,
  and two nodes have the same component number exactly when each reaches the other.
\<close>

theorem components_are_sccs:
  assumes "graph_ok n succ"
  shows "\<exists>cs co. components n succ = Some (cs, co) \<and> distinct (concat cs) \<and> set (concat cs) = {..<n} \<and>
    (\<forall>u v. u < n \<and> v < n \<longrightarrow> (co ! u = co ! v \<longleftrightarrow> reach succ u v \<and> reach succ v u)) \<and>
    (\<forall>i < length cs. \<forall>v \<in> set (cs ! i). co ! v = of_nat i)"
proof -
  have "unat (of_nat n :: u32) = n" using assms by (simp add: graph_ok_def unat_of_nat32)
  then obtain cs co where r: "components n succ = Some (cs, co)" and s: "sccs_of n succ {..<n} cs co"
    using components_from_iter_sccs [OF assms, of "[0..<n]"] by (auto simp: components_def atLeast0LessThan)
  have all: "set (concat cs) = {..<n}"
    by (rule sccs_all [OF s])
  have "co ! u = co ! v \<longleftrightarrow> reach succ u v \<and> reach succ v u" if "u < n" "v < n" for u v
  proof -
    have m: "unat (co ! u) < length cs" "u \<in> set (cs ! unat (co ! u))" "unat (co ! v) < length cs" "v \<in> set (cs ! unat (co ! v))"
      using sccs_member [OF assms s, unfolded all] that by simp_all
    have scc: "v \<in> set (cs ! unat (co ! u)) \<longleftrightarrow> reach succ u v \<and> reach succ v u"
      using s m(1,2) unfolding sccs_of_def by (meson nth_mem)
    show ?thesis
    proof
      assume "co ! u = co ! v"
      then show "reach succ u v \<and> reach succ v u" using m(4) scc by simp
    next
      assume "reach succ u v \<and> reach succ v u"
      then have "v \<in> set (cs ! unat (co ! u))" using scc by blast
      from sccs_unique [OF s m(1) m(3) this m(4) assms] show "co ! u = co ! v" by (simp add: unsigned_word_eqI)
    qed
  qed
  moreover have "distinct (concat cs)" "\<forall>i < length cs. \<forall>v \<in> set (cs ! i). co ! v = of_nat i"
    using s unfolding sccs_of_def by blast+
  ultimately show ?thesis using r all by blast
qed

text \<open>
  C16: The components come callees first: along every edge the component number does not
  grow, so a component is emitted after every component it refers to.
\<close>

theorem components_callees_first:
  assumes "graph_ok n succ" and "components n succ = Some (cs, co)" and "edge succ u v"
  shows "co ! v \<le> co ! u"
proof -
  have "unat (of_nat n :: u32) = n" using assms by (simp add: graph_ok_def unat_of_nat32)
  then have s: "sccs_of n succ {..<n} cs co"
    using components_from_iter_sccs [OF assms(1), of "[0..<n]"] assms(2) by (auto simp: components_def atLeast0LessThan)
  have all: "set (concat cs) = {..<n}"
    by (rule sccs_all [OF s])
  have b: "u < n" "v < n" using edge_bound [OF assms(1,3)] by auto
  have m: "unat (co ! u) < length cs" "u \<in> set (cs ! unat (co ! u))"
    using sccs_member [OF assms(1) s, unfolded all] b by simp_all
  have order: "\<forall>i < length cs. \<forall>u \<in> set (cs ! i). \<forall>v. edge succ u v \<longrightarrow> (\<exists>j \<le> i. v \<in> set (cs ! j))"
    and num: "\<forall>i < length cs. \<forall>v \<in> set (cs ! i). co ! v = of_nat i"
    using s unfolding sccs_of_def by blast+
  obtain j where j: "j \<le> unat (co ! u)" "v \<in> set (cs ! j)"
    using order [rule_format, OF m assms(3)] by blast
  then have "co ! v = of_nat j" using num m(1) by simp
  moreover have "j < 2 ^ 32" using j(1) m(1) sccs_count [OF assms(1) s] by simp
  ultimately have "unat (co ! v) = j" by (simp add: unat_of_nat32)
  then show ?thesis using j(1) by (simp add: word_le_nat_alt)
qed

theorem components_callees_first_witness:
  "components 3 [[1], [2], [1]] = Some ([[2, 1], [0]], [1, 0, 0]) \<and> [1, 0, 0] ! 1 \<le> ([1, 0, 0] ! 0 :: u32)"
proof -
  have r: "components 3 [[1], [2], [1]] = Some ([[2, 1], [0]], [1, 0, 0])" by code_simp
  have "graph_ok 3 [[1], [2], [1]]" "edge [[1], [2], [1]] 0 1" by (simp_all add: graph_ok_def edge_def)
  then show ?thesis using components_callees_first [OF _ r] r by blast
qed

theorem components_are_sccs_witness:
  "\<exists>cs co. components 3 [[1], [2], [1]] = Some (cs, co) \<and> set (concat cs) = {..<3}"
proof -
  have "graph_ok 3 [[1], [2], [1]]" by (simp add: graph_ok_def)
  from components_are_sccs [OF this] show ?thesis by blast
qed

text \<open>
  C38: \<open>components_from_roots\<close> walks only what the roots reach: its components are those of
  the reachable nodes, and the table keeps the unset mark for every other node.
\<close>

theorem rooted_components_reach:
  assumes "graph_ok n succ" and "\<forall>r \<in> set roots. r < n"
  shows "\<exists>cs co. components_from_roots n succ roots = Some (cs, co) \<and> distinct (concat cs) \<and>
    set (concat cs) = {v. \<exists>r \<in> set roots. reach succ r v} \<and>
    (\<forall>c \<in> set cs. \<forall>u \<in> set c. \<forall>v. v \<in> set c \<longleftrightarrow> reach succ u v \<and> reach succ v u) \<and>
    (\<forall>v < n. co ! v = UNSET \<longleftrightarrow> \<not> (\<exists>r \<in> set roots. reach succ r v))"
proof -
  obtain cs co where r: "components_from_iter n succ roots = Some (cs, co)" and s: "sccs_of n succ (set roots) cs co"
    using components_from_iter_sccs [OF assms] by blast
  have "co ! v = UNSET \<longleftrightarrow> v \<notin> set (concat cs)" if "v < n" for v
  proof (cases "v \<in> set (concat cs)")
    case True
    have "unat (co ! v) < 2 ^ 32 - 1" using sccs_member [OF assms(1) s True] sccs_length [OF s] assms(1) by (simp add: graph_ok_def)
    then show ?thesis using True by (auto simp: UNSET_def unsigned_minus_1_eq_mask mask_eq_exp_minus_1)
  next
    case False
    then show ?thesis using s that unfolding sccs_of_def by blast
  qed
  note unset = this
  have eq: "set (concat cs) = {v. \<exists>r \<in> set roots. reach succ r v}" and d: "distinct (concat cs)"
    and scc: "\<forall>c \<in> set cs. \<forall>u \<in> set c. \<forall>v. v \<in> set c \<longleftrightarrow> reach succ u v \<and> reach succ v u"
    using s unfolding sccs_of_def by blast+
  have "\<forall>v < n. co ! v = UNSET \<longleftrightarrow> \<not> (\<exists>r \<in> set roots. reach succ r v)"
    using unset unfolding eq by simp
  moreover have "components_from_roots n succ roots = Some (cs, co)"
    using r by (simp only: components_from_roots_def)
  ultimately show ?thesis using eq d scc by (intro exI [of _ cs] exI [of _ co] conjI)
qed

theorem rooted_components_reach_witness:
  "components_from_roots 5 [[1], [0], [3], [], []] [2] = Some ([[3], [2]], [UNSET, UNSET, 1, 0, UNSET]) \<and>
    set (concat [[3], [2]]) = {v. \<exists>r. r = 2 \<and> reach [[1], [0], [3], [], []] r v}"
proof -
  have r: "components_from_roots 5 [[1], [0], [3], [], []] [2] = Some ([[3], [2]], [UNSET, UNSET, 1, 0, UNSET])"
    by code_simp
  have "graph_ok 5 [[1], [0], [3], [], []]" "\<forall>r \<in> set [2]. r < (5 :: nat)" by (auto simp: graph_ok_def)
  from rooted_components_reach [OF this] obtain cs co where
    "components_from_roots 5 [[1], [0], [3], [], []] [2] = Some (cs, co)"
    "set (concat cs) = {v. \<exists>r \<in> set [2]. reach [[1], [0], [3], [], []] r v}" by blast
  moreover from this(1) have "cs = [[3], [2]]" using r by simp
  ultimately show ?thesis using r by simp
qed

end
