(* ===== verification/Bytecode.thy ===== *)
theory Bytecode
  imports Loom_Prelude
begin

text \<open>
  The instruction set of \<open>crates/lm-bytecode/src/lib.rs\<close>: the numeric, native and
  extended families, the instructions, the packed reflection and wait operands,
  and the block terminators. A 64-bit integer or float constant is its word. The
  variants of each Rust enum keep their names; they are grouped into families
  of related operations, one constructor per family.
\<close>

unbundle bit_operations_syntax

section \<open>Instruction families\<close>

datatype (plugins only: code size) IntOp =
    IntBitAnd
  | IntBitOr
  | IntBitXor
  | IntBitNot
  | IntShl
  | IntShr
  | IntUshr
  | IntWrappingAdd
  | IntWrappingSub
  | IntWrappingMul
  | IntRotateLeft
  | IntRotateRight
  | IntCountOnes
  | IntLeadingZeros
  | IntTrailingZeros
  | IntSignum
  | IntRotateLeft32
  | IntRotateRight32

datatype (plugins only: code size) FloatOp =
    IntToFloat
  | FloatNeg
  | FloatAdd
  | FloatSub
  | FloatMul
  | FloatDiv
  | FloatAbs
  | FloatMin
  | FloatMax
  | FloatSqrt
  | FloatFloor
  | FloatCeil
  | FloatRound
  | FloatTrunc
  | FloatRem
  | FloatCopySign
  | FloatMulAdd

datatype (plugins only: code size) FloatTestOp =
    FloatEq
  | FloatNe
  | FloatLt
  | FloatLe
  | FloatGt
  | FloatGe
  | FloatIsNan
  | FloatHash
  | FloatBits
  | FloatFromBits
  | FloatToIntStatus
  | FloatToIntValue
  | FloatFixed
  | FloatIsFinite
  | FloatIsInfinite

datatype (plugins only: code size) NumericBufferOp =
    SbAppendFloat
  | BytesBitAnd
  | BytesBitOr
  | BytesBitXor
  | BytesBitNot
  | TextParseFloatStatus
  | TextParseFloatValue

datatype (plugins only: code size) ExpOp =
    FloatPow
  | FloatExp
  | FloatExp2
  | FloatExpM1
  | FloatLn
  | FloatLog2
  | FloatLog10
  | FloatLn1P
  | FloatCbrt
  | FloatHypot

datatype (plugins only: code size) TrigOp =
    FloatSin
  | FloatCos
  | FloatTan
  | FloatAsin
  | FloatAcos
  | FloatAtan
  | FloatAtan2
  | FloatSinh
  | FloatCosh
  | FloatTanh
  | FloatAsinh
  | FloatAcosh
  | FloatAtanh

datatype (plugins only: code size) NumericInstr =
    NInt IntOp
  | NFloat FloatOp
  | NFloatTest FloatTestOp
  | NBuffer NumericBufferOp
  | NExp ExpOp
  | NTrig TrigOp

datatype (plugins only: code size) StrOp =
    EqStr
  | NeStr
  | StrByteLen
  | StrCharCount
  | StrConcat
  | StrStartsWith
  | StrEndsWith
  | StrContains
  | StrFindIndex
  | TextFindByteIndex
  | TextAtByte

datatype (plugins only: code size) TextOp =
    TextTrim
  | TextTrimStart
  | TextTrimEnd
  | TextToLowerAscii
  | TextToUpperAscii
  | TextReplace
  | TextParseIntStatus
  | TextParseIntValue
  | TextPadStart
  | TextPadEnd
  | TextSplit
  | TextLines
  | TextAt
  | TextSlice
  | TextIsBoundary
  | TextSliceBytes
  | TextBytes

datatype (plugins only: code size) CharOp =
    TextLt
  | TextLe
  | TextGt
  | TextGe
  | TextToString
  | CharCodepoint
  | CharUtf8Len
  | EqChar
  | NeChar
  | LtChar
  | LeChar
  | GtChar
  | GeChar

datatype (plugins only: code size) BuilderOp =
    SbNew
  | SbAppendStr
  | SbAppendInt
  | SbAppendBool
  | SbBuild
  | SbAppendChar
  | SbByteLen
  | SbFinish
  | SbLen
  | SbClear

datatype (plugins only: code size) BufferOp =
    BbNew
  | BbAppend
  | BbLen
  | BbBuild
  | BbFinish
  | BbExtend
  | BbReserve
  | BbClear
  | BbAt
  | BbSet
  | BbCapacity
  | BbTruncate
  | BbFindFrom

datatype (plugins only: code size) BytesOp =
    BytesEndsWith
  | BytesContains
  | BytesNew
  | BytesLen
  | BytesText
  | BytesTextRange
  | BytesAt
  | BytesGet
  | BytesReadU32Be
  | BytesReadU32Le
  | BytesSlice
  | BytesConcat
  | BytesStartsWith
  | BytesFindIndex
  | BytesHex
  | BytesIsUtf8

datatype (plugins only: code size) HashOp =
    EqBytes
  | NeBytes
  | LtBytes
  | LeBytes
  | GtBytes
  | GeBytes
  | BytesCompact
  | BytesTextView
  | TextHash
  | BytesHash
  | HashCombine
  | HashUnorderedCombine

datatype (plugins only: code size) RegexOp =
    RegexCompileStatus
  | RegexCompileValue
  | RegexSource
  | RegexIsMatch
  | RegexCount
  | RegexSplit
  | RegexReplaceAll
  | RegexMatchStart
  | RegexMatchEnd
  | RegexMatchText
  | RegexMatchGroupCount

datatype (plugins only: code size) NativeInstr =
    VStr StrOp
  | VText TextOp
  | VChar CharOp
  | VBuilder BuilderOp
  | VBuffer BufferOp
  | VBytes BytesOp
  | VHash HashOp
  | VRegex RegexOp

section \<open>Packed operands\<close>

datatype ReflectionKind = Class | Function | Method | Constant | ClassDescriptor | Code

definition REFLECTION_FUNCTION_BITS :: nat where
  "REFLECTION_FUNCTION_BITS = 29"

definition REFLECTION_FUNCTION_MASK :: u32 where
  "REFLECTION_FUNCTION_MASK = push_bit REFLECTION_FUNCTION_BITS 1 - 1"

datatype ReflectionPattern = ReflectionPattern u32

fun reflection_kind_tag :: "ReflectionKind \<Rightarrow> u8" where
  "reflection_kind_tag Class = 0"
| "reflection_kind_tag Function = 1"
| "reflection_kind_tag Method = 2"
| "reflection_kind_tag Constant = 3"
| "reflection_kind_tag ClassDescriptor = 4"
| "reflection_kind_tag Code = 5"

definition reflection_kind_from_tag :: "u8 \<Rightarrow> ReflectionKind option" where
  "reflection_kind_from_tag tag =
     (if tag = 0 then Some Class
      else if tag = 1 then Some Function
      else if tag = 2 then Some Method
      else if tag = 3 then Some Constant
      else if tag = 4 then Some ClassDescriptor
      else if tag = 5 then Some Code
      else None)"

definition reflection_pattern_new :: "ReflectionKind \<Rightarrow> u32 \<Rightarrow> ReflectionPattern option" where
  "reflection_pattern_new kind function =
     (if function > REFLECTION_FUNCTION_MASK then None
      else Some (ReflectionPattern
             (push_bit REFLECTION_FUNCTION_BITS (ucast (reflection_kind_tag kind)) OR function)))"

fun reflection_pattern_kind :: "ReflectionPattern \<Rightarrow> ReflectionKind" where
  "reflection_pattern_kind (ReflectionPattern raw) =
     (let k = drop_bit REFLECTION_FUNCTION_BITS raw
      in if k = 0 then Class
         else if k = 1 then Function
         else if k = 2 then Method
         else if k = 3 then Constant
         else if k = 4 then ClassDescriptor
         else Code)"

fun reflection_pattern_function :: "ReflectionPattern \<Rightarrow> u32" where
  "reflection_pattern_function (ReflectionPattern raw) = raw AND REFLECTION_FUNCTION_MASK"

datatype ReflectionBases = ReflectionBases u32

definition reflection_bases_new :: "u32 \<Rightarrow> u32 \<Rightarrow> ReflectionBases option" where
  "reflection_bases_new type_base effect_base =
     (if type_base > 65535 \<or> effect_base > 65535 then None
      else Some (ReflectionBases (type_base OR push_bit 16 effect_base)))"

fun reflection_type_base :: "ReflectionBases \<Rightarrow> u32" where
  "reflection_type_base (ReflectionBases raw) = raw AND 65535"

fun reflection_effect_base :: "ReflectionBases \<Rightarrow> u32" where
  "reflection_effect_base (ReflectionBases raw) = drop_bit 16 raw"

definition WAIT_FIELD_BITS :: nat where
  "WAIT_FIELD_BITS = 16"

definition WAIT_FIELD_MAX :: u32 where
  "WAIT_FIELD_MAX = push_bit WAIT_FIELD_BITS 1 - 1"

section \<open>Instructions\<close>

datatype (plugins only: code size) ValueOp =
    MakeCallback u32 u32
  | AsCallback
  | OptionSome u32
  | OptionNone u32
  | OptionPayload u32
  | SealInstance

datatype (plugins only: code size) ListOp =
    ListGet u32
  | ListEpoch
  | ListIterLen
  | ListCapacity
  | ListSet
  | ListPop u32
  | ListInsert
  | ListRemove
  | ListSwapRemove
  | ListSwap
  | ListReserve
  | ListTruncate
  | ListContains
  | ListReorder

datatype (plugins only: code size) MapOp =
    MapGet u32
  | MapPutText u32 bool
  | MapInternTextRange
  | MapEpoch
  | MapIterLen
  | MapNextIndex
  | MapKeyAt
  | MapValueAt
  | MapRemove u32
  | MapClear
  | MapReserve

datatype (plugins only: code size) ProbeOp =
    MapProbe
  | MapProbeFound
  | MapProbeKey
  | MapProbeValue
  | MapProbeSetValue
  | MapProbeRemove
  | MapInsertHashed
  | MapWriteGuard

datatype (plugins only: code size) SlotOp =
    CallSlot u32 u32
  | NewSlot u32 u32
  | LoadSlot u32
  | SendSlot u32
  | DynPack u32
  | DynRender
  | PrepareWait u32 u32
  | RegexCaptures u32
  | RegexMatchGroup u32
  | RegexMatchNamed u32

datatype (plugins only: code size) SyntaxOp =
    SyntaxTreeRoot
  | SyntaxKind
  | SyntaxCategory
  | SyntaxRangeStart
  | SyntaxRangeEnd
  | SyntaxText
  | SyntaxChildren
  | SyntaxDetach
  | SyntaxBuildToken
  | SyntaxBuildTrivia
  | SyntaxBuildNode
  | SyntaxToTree

datatype (plugins only: code size) CodeOp =
    FunctionCode u32
  | ClassCode u32
  | ModuleCode u32
  | ReflectionDeclarations
  | ReflectionOpen
  | ReflectionMembers
  | ReflectionName
  | ReflectionDeclarationKind
  | ReflectionMemberKind
  | ReflectionTypeParameterCount
  | ReflectionInterfaceNames
  | ReflectionRefine ReflectionPattern u32
  | ReflectionEnd u32 ReflectionBases
  | CodeSource u32
  | CodeDefinition
  | FaultSite u32
  | FaultTrace u32

datatype (plugins only: code size) ExtendedInstr =
    XValue ValueOp
  | XList ListOp
  | XMap MapOp
  | XProbe ProbeOp
  | XSlot SlotOp
  | XSyntax SyntaxOp
  | XCode CodeOp



definition prepare_wait :: "u32 \<Rightarrow> u32 \<Rightarrow> u32 \<Rightarrow> ExtendedInstr option" where
  "prepare_wait op argc reply_ty =
     (if op > WAIT_FIELD_MAX \<or> argc > WAIT_FIELD_MAX then None
      else Some (XSlot (PrepareWait (op OR push_bit WAIT_FIELD_BITS argc) reply_ty)))"

definition wait_parts :: "u32 \<Rightarrow> u32 \<times> u32" where
  "wait_parts op_argc = (op_argc AND WAIT_FIELD_MAX, drop_bit WAIT_FIELD_BITS op_argc)"

datatype (plugins only: code size) ConstOp =
    ConstUnit
  | ConstBool bool
  | ConstInt i64
  | ConstFloat u64
  | ConstChar u32
  | ConstStr u32
  | ConstBytes u32
  | ConstRegex u32
  | LoadLocal u32
  | StoreLocal u32
  | Pop

datatype (plugins only: code size) ArithOp =
    Add
  | Sub
  | Mul
  | Div
  | Rem
  | Neg
  | NotBool
  | LtInt
  | LeInt
  | GtInt
  | GeInt
  | EqInt
  | NeInt
  | EqBool
  | NeBool

datatype (plugins only: code size) CallOp =
    Call u32
  | CallG u32 u32
  | CallVirtual u32 u32
  | CallVirtualG u32 u32 u32
  | CallValue u32
  | MakeClosure u32 u32
  | LoadCapture u32
  | CallInterface u32 u32 u32

datatype (plugins only: code size) ObjectOp =
    New u32
  | NewG u32 u32
  | LoadField u32
  | StoreField u32
  | TupleNew u32 u32
  | TupleGet u32
  | IsType u32
  | CastType u32
  | EqRef
  | NeRef
  | EqValue
  | NeValue
  | Freeze
  | Digest u32
  | EqDigest
  | NeDigest

datatype (plugins only: code size) CollOp =
    ListNew u32 u32
  | ListLen
  | ListAt
  | ListPush
  | MapNew u32 u32
  | MapLen
  | MapHas
  | MapAt
  | MapPut u32 bool

datatype (plugins only: code size) ControlOp =
    Jump u32
  | JumpIfFalse u32
  | JumpIfTrue u32
  | Return
  | Unreachable
  | RaiseUserPanic
  | RaiseAssertionFailed
  | RaiseFault

datatype (plugins only: code size) EffectOp =
    Perform u32 u32 u32
  | PerformValue u32 u32
  | OpConst u32
  | TableEdit u32 u32 u32
  | AsCall u32 u32
  | CallArgs
  | FaultCodeOf
  | RequestOp
  | FaultDenied

datatype (plugins only: code size) Instr =
    IConst ConstOp
  | IArith ArithOp
  | ICall CallOp
  | IObject ObjectOp
  | IColl CollOp
  | IControl ControlOp
  | IEffect EffectOp
  | Native NativeInstr
  | Numeric NumericInstr
  | Extended ExtendedInstr



definition is_terminator :: "Instr \<Rightarrow> bool" where
  "is_terminator instr =
     (case instr of
        IControl (Jump block) \<Rightarrow> True
      | IControl Return \<Rightarrow> True
      | IControl RaiseUserPanic \<Rightarrow> True
      | IControl RaiseAssertionFailed \<Rightarrow> True
      | IControl RaiseFault \<Rightarrow> True
      | IControl Unreachable \<Rightarrow> True
      | _ \<Rightarrow> False)"

definition MAX_INTERFACE_CALL_INDEX :: u32 where
  "MAX_INTERFACE_CALL_INDEX = 65535"

definition pack_interface_call_site :: "u32 \<Rightarrow> u32 \<Rightarrow> u32 option" where
  "pack_interface_call_site iface meth =
     (if iface > MAX_INTERFACE_CALL_INDEX \<or> meth > MAX_INTERFACE_CALL_INDEX then None
      else Some (push_bit 16 iface OR meth))"

definition unpack_interface_call_site :: "u32 \<Rightarrow> u32 \<times> u32" where
  "unpack_interface_call_site site = (drop_bit 16 site, site AND MAX_INTERFACE_CALL_INDEX)"

end
