(* ===== verification/Opcodes.thy ===== *)
theory Opcodes
  imports Loom_Prelude
begin

text \<open>
  The opcode bytes of the bytecode container and the second byte of the
  extension family (\<open>crates/lm-bytecode/src/lib.rs\<close>).
\<close>

definition OP_CONST_UNIT :: u8 where [simp]: "OP_CONST_UNIT = 0"
definition OP_CONST_BOOL :: u8 where [simp]: "OP_CONST_BOOL = 1"
definition OP_CONST_INT :: u8 where [simp]: "OP_CONST_INT = 2"
definition OP_CONST_STR :: u8 where [simp]: "OP_CONST_STR = 3"
definition OP_LOAD_LOCAL :: u8 where [simp]: "OP_LOAD_LOCAL = 4"
definition OP_STORE_LOCAL :: u8 where [simp]: "OP_STORE_LOCAL = 5"
definition OP_POP :: u8 where [simp]: "OP_POP = 6"
definition OP_RAISE_FAULT :: u8 where [simp]: "OP_RAISE_FAULT = 7"
definition OP_CONST_CHAR :: u8 where [simp]: "OP_CONST_CHAR = 8"
definition OP_ADD :: u8 where [simp]: "OP_ADD = 16"
definition OP_SUB :: u8 where [simp]: "OP_SUB = 17"
definition OP_MUL :: u8 where [simp]: "OP_MUL = 18"
definition OP_DIV :: u8 where [simp]: "OP_DIV = 19"
definition OP_REM :: u8 where [simp]: "OP_REM = 20"
definition OP_NEG :: u8 where [simp]: "OP_NEG = 21"
definition OP_NOT :: u8 where [simp]: "OP_NOT = 22"
definition OP_LT_INT :: u8 where [simp]: "OP_LT_INT = 32"
definition OP_LE_INT :: u8 where [simp]: "OP_LE_INT = 33"
definition OP_GT_INT :: u8 where [simp]: "OP_GT_INT = 34"
definition OP_GE_INT :: u8 where [simp]: "OP_GE_INT = 35"
definition OP_EQ_INT :: u8 where [simp]: "OP_EQ_INT = 36"
definition OP_NE_INT :: u8 where [simp]: "OP_NE_INT = 37"
definition OP_EQ_BOOL :: u8 where [simp]: "OP_EQ_BOOL = 38"
definition OP_NE_BOOL :: u8 where [simp]: "OP_NE_BOOL = 39"
definition OP_EQ_STR :: u8 where [simp]: "OP_EQ_STR = 40"
definition OP_NE_STR :: u8 where [simp]: "OP_NE_STR = 41"
definition OP_EQ_REF :: u8 where [simp]: "OP_EQ_REF = 42"
definition OP_NE_REF :: u8 where [simp]: "OP_NE_REF = 43"
definition OP_EQ_VALUE :: u8 where [simp]: "OP_EQ_VALUE = 182"
definition OP_NE_VALUE :: u8 where [simp]: "OP_NE_VALUE = 183"
definition OP_CALL :: u8 where [simp]: "OP_CALL = 48"
definition OP_JUMP :: u8 where [simp]: "OP_JUMP = 49"
definition OP_JUMP_IF_FALSE :: u8 where [simp]: "OP_JUMP_IF_FALSE = 50"
definition OP_JUMP_IF_TRUE :: u8 where [simp]: "OP_JUMP_IF_TRUE = 51"
definition OP_RETURN :: u8 where [simp]: "OP_RETURN = 52"
definition OP_CALL_VIRTUAL :: u8 where [simp]: "OP_CALL_VIRTUAL = 64"
definition OP_CALL_VALUE :: u8 where [simp]: "OP_CALL_VALUE = 65"
definition OP_MAKE_CLOSURE :: u8 where [simp]: "OP_MAKE_CLOSURE = 66"
definition OP_LOAD_CAPTURE :: u8 where [simp]: "OP_LOAD_CAPTURE = 67"
definition OP_NEW :: u8 where [simp]: "OP_NEW = 68"
definition OP_LOAD_FIELD :: u8 where [simp]: "OP_LOAD_FIELD = 69"
definition OP_STORE_FIELD :: u8 where [simp]: "OP_STORE_FIELD = 70"
definition OP_LIST_NEW :: u8 where [simp]: "OP_LIST_NEW = 71"
definition OP_LIST_LEN :: u8 where [simp]: "OP_LIST_LEN = 72"
definition OP_LIST_AT :: u8 where [simp]: "OP_LIST_AT = 73"
definition OP_LIST_PUSH :: u8 where [simp]: "OP_LIST_PUSH = 74"
definition OP_MAP_NEW :: u8 where [simp]: "OP_MAP_NEW = 75"
definition OP_MAP_LEN :: u8 where [simp]: "OP_MAP_LEN = 76"
definition OP_MAP_HAS :: u8 where [simp]: "OP_MAP_HAS = 77"
definition OP_MAP_AT :: u8 where [simp]: "OP_MAP_AT = 78"
definition OP_MAP_PUT :: u8 where [simp]: "OP_MAP_PUT = 79"
definition OP_SB_NEW :: u8 where [simp]: "OP_SB_NEW = 80"
definition OP_SB_APPEND_STR :: u8 where [simp]: "OP_SB_APPEND_STR = 81"
definition OP_SB_APPEND_INT :: u8 where [simp]: "OP_SB_APPEND_INT = 82"
definition OP_SB_APPEND_BOOL :: u8 where [simp]: "OP_SB_APPEND_BOOL = 83"
definition OP_SB_BUILD :: u8 where [simp]: "OP_SB_BUILD = 84"
definition OP_BB_NEW :: u8 where [simp]: "OP_BB_NEW = 85"
definition OP_BB_APPEND :: u8 where [simp]: "OP_BB_APPEND = 86"
definition OP_BB_LEN :: u8 where [simp]: "OP_BB_LEN = 87"
definition OP_BB_BUILD :: u8 where [simp]: "OP_BB_BUILD = 88"
definition OP_FREEZE :: u8 where [simp]: "OP_FREEZE = 89"
definition OP_BYTES_NEW :: u8 where [simp]: "OP_BYTES_NEW = 90"
definition OP_BYTES_LEN :: u8 where [simp]: "OP_BYTES_LEN = 91"
definition OP_BYTES_TEXT :: u8 where [simp]: "OP_BYTES_TEXT = 92"
definition OP_CALL_G :: u8 where [simp]: "OP_CALL_G = 96"
definition OP_CALL_VIRTUAL_G :: u8 where [simp]: "OP_CALL_VIRTUAL_G = 97"
definition OP_NEW_G :: u8 where [simp]: "OP_NEW_G = 98"
definition OP_TUPLE_NEW :: u8 where [simp]: "OP_TUPLE_NEW = 99"
definition OP_TUPLE_GET :: u8 where [simp]: "OP_TUPLE_GET = 100"
definition OP_IS_TYPE :: u8 where [simp]: "OP_IS_TYPE = 101"
definition OP_CAST_TYPE :: u8 where [simp]: "OP_CAST_TYPE = 102"
definition OP_STR_BYTE_LEN :: u8 where [simp]: "OP_STR_BYTE_LEN = 103"
definition OP_STR_CHAR_COUNT :: u8 where [simp]: "OP_STR_CHAR_COUNT = 104"
definition OP_STR_CONCAT :: u8 where [simp]: "OP_STR_CONCAT = 105"
definition OP_STR_STARTS_WITH :: u8 where [simp]: "OP_STR_STARTS_WITH = 106"
definition OP_STR_ENDS_WITH :: u8 where [simp]: "OP_STR_ENDS_WITH = 107"
definition OP_STR_CONTAINS :: u8 where [simp]: "OP_STR_CONTAINS = 108"
definition OP_STR_FIND_INDEX :: u8 where [simp]: "OP_STR_FIND_INDEX = 109"
definition OP_BYTES_AT :: u8 where [simp]: "OP_BYTES_AT = 110"
definition OP_BYTES_GET :: u8 where [simp]: "OP_BYTES_GET = 111"
definition OP_PERFORM :: u8 where [simp]: "OP_PERFORM = 112"
definition OP_PERFORM_VALUE :: u8 where [simp]: "OP_PERFORM_VALUE = 113"
definition OP_OP_CONST :: u8 where [simp]: "OP_OP_CONST = 114"
definition OP_TABLE_EDIT :: u8 where [simp]: "OP_TABLE_EDIT = 115"
definition OP_AS_CALL :: u8 where [simp]: "OP_AS_CALL = 116"
definition OP_CALL_ARGS :: u8 where [simp]: "OP_CALL_ARGS = 117"
definition OP_FAULT_CODE :: u8 where [simp]: "OP_FAULT_CODE = 118"
definition OP_UNREACHABLE :: u8 where [simp]: "OP_UNREACHABLE = 119"
definition OP_DIGEST :: u8 where [simp]: "OP_DIGEST = 120"
definition OP_EQ_DIGEST :: u8 where [simp]: "OP_EQ_DIGEST = 121"
definition OP_NE_DIGEST :: u8 where [simp]: "OP_NE_DIGEST = 122"
definition OP_BYTES_SLICE :: u8 where [simp]: "OP_BYTES_SLICE = 123"
definition OP_BYTES_CONCAT :: u8 where [simp]: "OP_BYTES_CONCAT = 124"
definition OP_BYTES_STARTS_WITH :: u8 where [simp]: "OP_BYTES_STARTS_WITH = 125"
definition OP_BYTES_FIND_INDEX :: u8 where [simp]: "OP_BYTES_FIND_INDEX = 126"
definition OP_BYTES_HEX :: u8 where [simp]: "OP_BYTES_HEX = 127"
definition OP_BYTES_IS_UTF8 :: u8 where [simp]: "OP_BYTES_IS_UTF8 = 128"
definition OP_EQ_BYTES :: u8 where [simp]: "OP_EQ_BYTES = 129"
definition OP_NE_BYTES :: u8 where [simp]: "OP_NE_BYTES = 130"
definition OP_SB_LEN :: u8 where [simp]: "OP_SB_LEN = 131"
definition OP_SB_CLEAR :: u8 where [simp]: "OP_SB_CLEAR = 132"
definition OP_BB_EXTEND :: u8 where [simp]: "OP_BB_EXTEND = 133"
definition OP_BB_RESERVE :: u8 where [simp]: "OP_BB_RESERVE = 134"
definition OP_BB_CLEAR :: u8 where [simp]: "OP_BB_CLEAR = 135"
definition OP_FAULT_DENIED :: u8 where [simp]: "OP_FAULT_DENIED = 136"
definition OP_REQUEST_OP :: u8 where [simp]: "OP_REQUEST_OP = 137"
definition OP_TEXT_AT :: u8 where [simp]: "OP_TEXT_AT = 138"
definition OP_TEXT_SLICE :: u8 where [simp]: "OP_TEXT_SLICE = 139"
definition OP_TEXT_IS_BOUNDARY :: u8 where [simp]: "OP_TEXT_IS_BOUNDARY = 140"
definition OP_TEXT_SLICE_BYTES :: u8 where [simp]: "OP_TEXT_SLICE_BYTES = 141"
definition OP_TEXT_BYTES :: u8 where [simp]: "OP_TEXT_BYTES = 142"
definition OP_TEXT_LT :: u8 where [simp]: "OP_TEXT_LT = 143"
definition OP_TEXT_LE :: u8 where [simp]: "OP_TEXT_LE = 144"
definition OP_TEXT_GT :: u8 where [simp]: "OP_TEXT_GT = 145"
definition OP_TEXT_GE :: u8 where [simp]: "OP_TEXT_GE = 146"
definition OP_TEXT_TO_STRING :: u8 where [simp]: "OP_TEXT_TO_STRING = 147"
definition OP_CHAR_CODEPOINT :: u8 where [simp]: "OP_CHAR_CODEPOINT = 148"
definition OP_CHAR_UTF8_LEN :: u8 where [simp]: "OP_CHAR_UTF8_LEN = 149"
definition OP_EQ_CHAR :: u8 where [simp]: "OP_EQ_CHAR = 150"
definition OP_NE_CHAR :: u8 where [simp]: "OP_NE_CHAR = 151"
definition OP_LT_CHAR :: u8 where [simp]: "OP_LT_CHAR = 152"
definition OP_LE_CHAR :: u8 where [simp]: "OP_LE_CHAR = 153"
definition OP_GT_CHAR :: u8 where [simp]: "OP_GT_CHAR = 154"
definition OP_GE_CHAR :: u8 where [simp]: "OP_GE_CHAR = 155"
definition OP_BYTES_COMPACT :: u8 where [simp]: "OP_BYTES_COMPACT = 156"
definition OP_BYTES_TEXT_VIEW :: u8 where [simp]: "OP_BYTES_TEXT_VIEW = 157"
definition OP_LT_BYTES :: u8 where [simp]: "OP_LT_BYTES = 158"
definition OP_LE_BYTES :: u8 where [simp]: "OP_LE_BYTES = 159"
definition OP_GT_BYTES :: u8 where [simp]: "OP_GT_BYTES = 160"
definition OP_GE_BYTES :: u8 where [simp]: "OP_GE_BYTES = 161"
definition OP_SB_APPEND_CHAR :: u8 where [simp]: "OP_SB_APPEND_CHAR = 162"
definition OP_SB_BYTE_LEN :: u8 where [simp]: "OP_SB_BYTE_LEN = 163"
definition OP_SB_FINISH :: u8 where [simp]: "OP_SB_FINISH = 164"
definition OP_BB_FINISH :: u8 where [simp]: "OP_BB_FINISH = 165"
definition OP_TEXT_FIND_BYTE_INDEX :: u8 where [simp]: "OP_TEXT_FIND_BYTE_INDEX = 166"
definition OP_TEXT_AT_BYTE :: u8 where [simp]: "OP_TEXT_AT_BYTE = 167"
definition OP_TEXT_TRIM :: u8 where [simp]: "OP_TEXT_TRIM = 168"
definition OP_TEXT_TRIM_START :: u8 where [simp]: "OP_TEXT_TRIM_START = 169"
definition OP_TEXT_TRIM_END :: u8 where [simp]: "OP_TEXT_TRIM_END = 170"
definition OP_TEXT_TO_LOWER_ASCII :: u8 where [simp]: "OP_TEXT_TO_LOWER_ASCII = 171"
definition OP_TEXT_TO_UPPER_ASCII :: u8 where [simp]: "OP_TEXT_TO_UPPER_ASCII = 172"
definition OP_TEXT_REPLACE :: u8 where [simp]: "OP_TEXT_REPLACE = 173"
definition OP_TEXT_PARSE_INT_STATUS :: u8 where [simp]: "OP_TEXT_PARSE_INT_STATUS = 174"
definition OP_TEXT_PARSE_INT_VALUE :: u8 where [simp]: "OP_TEXT_PARSE_INT_VALUE = 175"
definition OP_BYTES_ENDS_WITH :: u8 where [simp]: "OP_BYTES_ENDS_WITH = 176"
definition OP_BYTES_CONTAINS :: u8 where [simp]: "OP_BYTES_CONTAINS = 177"
definition OP_TEXT_SPLIT :: u8 where [simp]: "OP_TEXT_SPLIT = 178"
definition OP_TEXT_LINES :: u8 where [simp]: "OP_TEXT_LINES = 179"
definition OP_BB_AT :: u8 where [simp]: "OP_BB_AT = 180"
definition OP_BB_FIND_FROM :: u8 where [simp]: "OP_BB_FIND_FROM = 181"
definition OP_OPTION_SOME :: u8 where [simp]: "OP_OPTION_SOME = 184"
definition OP_OPTION_NONE :: u8 where [simp]: "OP_OPTION_NONE = 185"
definition OP_LIST_GET :: u8 where [simp]: "OP_LIST_GET = 186"
definition OP_MAP_GET :: u8 where [simp]: "OP_MAP_GET = 187"
definition OP_CALL_INTERFACE :: u8 where [simp]: "OP_CALL_INTERFACE = 188"
definition OP_LIST_EPOCH :: u8 where [simp]: "OP_LIST_EPOCH = 189"
definition OP_LIST_ITER_LEN :: u8 where [simp]: "OP_LIST_ITER_LEN = 190"
definition OP_MAP_EPOCH :: u8 where [simp]: "OP_MAP_EPOCH = 191"
definition OP_MAP_ITER_LEN :: u8 where [simp]: "OP_MAP_ITER_LEN = 192"
definition OP_MAP_KEY_AT :: u8 where [simp]: "OP_MAP_KEY_AT = 193"
definition OP_MAP_VALUE_AT :: u8 where [simp]: "OP_MAP_VALUE_AT = 194"
definition OP_LIST_CAPACITY :: u8 where [simp]: "OP_LIST_CAPACITY = 195"
definition OP_LIST_SET :: u8 where [simp]: "OP_LIST_SET = 196"
definition OP_LIST_POP :: u8 where [simp]: "OP_LIST_POP = 197"
definition OP_LIST_INSERT :: u8 where [simp]: "OP_LIST_INSERT = 198"
definition OP_LIST_REMOVE :: u8 where [simp]: "OP_LIST_REMOVE = 199"
definition OP_LIST_SWAP_REMOVE :: u8 where [simp]: "OP_LIST_SWAP_REMOVE = 200"
definition OP_LIST_RESERVE :: u8 where [simp]: "OP_LIST_RESERVE = 201"
definition OP_LIST_TRUNCATE :: u8 where [simp]: "OP_LIST_TRUNCATE = 202"
definition OP_LIST_CONTAINS :: u8 where [simp]: "OP_LIST_CONTAINS = 203"
definition OP_MAP_REMOVE :: u8 where [simp]: "OP_MAP_REMOVE = 204"
definition OP_MAP_CLEAR :: u8 where [simp]: "OP_MAP_CLEAR = 205"
definition OP_MAP_RESERVE :: u8 where [simp]: "OP_MAP_RESERVE = 206"
definition OP_MAKE_CALLBACK :: u8 where [simp]: "OP_MAKE_CALLBACK = 207"
definition OP_AS_CALLBACK :: u8 where [simp]: "OP_AS_CALLBACK = 208"
definition OP_OPTION_PAYLOAD :: u8 where [simp]: "OP_OPTION_PAYLOAD = 209"
definition OP_LIST_REORDER :: u8 where [simp]: "OP_LIST_REORDER = 210"
definition OP_CALL_SLOT :: u8 where [simp]: "OP_CALL_SLOT = 211"
definition OP_NEW_SLOT :: u8 where [simp]: "OP_NEW_SLOT = 212"
definition OP_LOAD_SLOT :: u8 where [simp]: "OP_LOAD_SLOT = 213"
definition OP_SEND_SLOT :: u8 where [simp]: "OP_SEND_SLOT = 214"
definition OP_SYNTAX_TREE_ROOT :: u8 where [simp]: "OP_SYNTAX_TREE_ROOT = 215"
definition OP_SYNTAX_KIND :: u8 where [simp]: "OP_SYNTAX_KIND = 216"
definition OP_SYNTAX_CATEGORY :: u8 where [simp]: "OP_SYNTAX_CATEGORY = 217"
definition OP_SYNTAX_RANGE_START :: u8 where [simp]: "OP_SYNTAX_RANGE_START = 218"
definition OP_SYNTAX_RANGE_END :: u8 where [simp]: "OP_SYNTAX_RANGE_END = 219"
definition OP_SYNTAX_TEXT :: u8 where [simp]: "OP_SYNTAX_TEXT = 220"
definition OP_SYNTAX_CHILDREN :: u8 where [simp]: "OP_SYNTAX_CHILDREN = 221"
definition OP_SYNTAX_DETACH :: u8 where [simp]: "OP_SYNTAX_DETACH = 222"
definition OP_DYN_PACK :: u8 where [simp]: "OP_DYN_PACK = 223"
definition OP_DYN_RENDER :: u8 where [simp]: "OP_DYN_RENDER = 224"
definition OP_SYNTAX_BUILD_TOKEN :: u8 where [simp]: "OP_SYNTAX_BUILD_TOKEN = 225"
definition OP_SYNTAX_BUILD_TRIVIA :: u8 where [simp]: "OP_SYNTAX_BUILD_TRIVIA = 226"
definition OP_SYNTAX_BUILD_NODE :: u8 where [simp]: "OP_SYNTAX_BUILD_NODE = 227"
definition OP_SYNTAX_TO_TREE :: u8 where [simp]: "OP_SYNTAX_TO_TREE = 228"
definition OP_FUNCTION_CODE :: u8 where [simp]: "OP_FUNCTION_CODE = 229"
definition OP_CLASS_CODE :: u8 where [simp]: "OP_CLASS_CODE = 230"
definition OP_CODE_SOURCE :: u8 where [simp]: "OP_CODE_SOURCE = 231"
definition OP_FAULT_SITE :: u8 where [simp]: "OP_FAULT_SITE = 232"
definition OP_FAULT_TRACE :: u8 where [simp]: "OP_FAULT_TRACE = 233"
definition OP_CODE_DEFINITION :: u8 where [simp]: "OP_CODE_DEFINITION = 234"
definition OP_RAISE_USER_PANIC :: u8 where [simp]: "OP_RAISE_USER_PANIC = 235"
definition OP_RAISE_ASSERTION_FAILED :: u8 where [simp]: "OP_RAISE_ASSERTION_FAILED = 236"
definition OP_TEXT_HASH :: u8 where [simp]: "OP_TEXT_HASH = 237"
definition OP_BYTES_HASH :: u8 where [simp]: "OP_BYTES_HASH = 238"
definition OP_MAP_PROBE :: u8 where [simp]: "OP_MAP_PROBE = 239"
definition OP_MAP_PROBE_FOUND :: u8 where [simp]: "OP_MAP_PROBE_FOUND = 240"
definition OP_MAP_PROBE_KEY :: u8 where [simp]: "OP_MAP_PROBE_KEY = 241"
definition OP_MAP_PROBE_VALUE :: u8 where [simp]: "OP_MAP_PROBE_VALUE = 242"
definition OP_MAP_PROBE_SET_VALUE :: u8 where [simp]: "OP_MAP_PROBE_SET_VALUE = 243"
definition OP_MAP_PROBE_REMOVE :: u8 where [simp]: "OP_MAP_PROBE_REMOVE = 244"
definition OP_MAP_INSERT_HASHED :: u8 where [simp]: "OP_MAP_INSERT_HASHED = 245"
definition OP_MAP_WRITE_GUARD :: u8 where [simp]: "OP_MAP_WRITE_GUARD = 246"
definition OP_HASH_COMBINE :: u8 where [simp]: "OP_HASH_COMBINE = 247"
definition OP_HASH_UNORDERED_COMBINE :: u8 where [simp]: "OP_HASH_UNORDERED_COMBINE = 248"
definition OP_MAP_NEXT_INDEX :: u8 where [simp]: "OP_MAP_NEXT_INDEX = 249"
definition OP_SEAL_INSTANCE :: u8 where [simp]: "OP_SEAL_INSTANCE = 250"
definition OP_NUMERIC :: u8 where [simp]: "OP_NUMERIC = 251"
definition OP_CONST_FLOAT :: u8 where [simp]: "OP_CONST_FLOAT = 252"
definition OP_CONST_BYTES :: u8 where [simp]: "OP_CONST_BYTES = 253"
definition OP_EXTENSION :: u8 where [simp]: "OP_EXTENSION = 254"
definition OP_PREPARE_WAIT :: u8 where [simp]: "OP_PREPARE_WAIT = 255"
definition EXT_TEXT_PAD_START :: u8 where [simp]: "EXT_TEXT_PAD_START = 0"
definition EXT_TEXT_PAD_END :: u8 where [simp]: "EXT_TEXT_PAD_END = 1"
definition EXT_MAP_PUT_TEXT :: u8 where [simp]: "EXT_MAP_PUT_TEXT = 2"
definition EXT_BYTES_TEXT_RANGE :: u8 where [simp]: "EXT_BYTES_TEXT_RANGE = 3"
definition EXT_MAP_INTERN_TEXT_RANGE :: u8 where [simp]: "EXT_MAP_INTERN_TEXT_RANGE = 4"
definition EXT_CONST_REGEX :: u8 where [simp]: "EXT_CONST_REGEX = 5"
definition EXT_REGEX_COMPILE_STATUS :: u8 where [simp]: "EXT_REGEX_COMPILE_STATUS = 6"
definition EXT_REGEX_COMPILE_VALUE :: u8 where [simp]: "EXT_REGEX_COMPILE_VALUE = 7"
definition EXT_REGEX_SOURCE :: u8 where [simp]: "EXT_REGEX_SOURCE = 8"
definition EXT_REGEX_IS_MATCH :: u8 where [simp]: "EXT_REGEX_IS_MATCH = 9"
definition EXT_REGEX_COUNT :: u8 where [simp]: "EXT_REGEX_COUNT = 10"
definition EXT_REGEX_SPLIT :: u8 where [simp]: "EXT_REGEX_SPLIT = 11"
definition EXT_REGEX_REPLACE_ALL :: u8 where [simp]: "EXT_REGEX_REPLACE_ALL = 12"
definition EXT_REGEX_MATCH_START :: u8 where [simp]: "EXT_REGEX_MATCH_START = 13"
definition EXT_REGEX_MATCH_END :: u8 where [simp]: "EXT_REGEX_MATCH_END = 14"
definition EXT_REGEX_MATCH_TEXT :: u8 where [simp]: "EXT_REGEX_MATCH_TEXT = 15"
definition EXT_REGEX_MATCH_GROUP_COUNT :: u8 where [simp]: "EXT_REGEX_MATCH_GROUP_COUNT = 16"
definition EXT_REGEX_CAPTURES :: u8 where [simp]: "EXT_REGEX_CAPTURES = 17"
definition EXT_REGEX_MATCH_GROUP :: u8 where [simp]: "EXT_REGEX_MATCH_GROUP = 18"
definition EXT_REGEX_MATCH_NAMED :: u8 where [simp]: "EXT_REGEX_MATCH_NAMED = 19"
definition EXT_LIST_SWAP :: u8 where [simp]: "EXT_LIST_SWAP = 20"
definition EXT_BB_SET :: u8 where [simp]: "EXT_BB_SET = 21"
definition EXT_BB_CAPACITY :: u8 where [simp]: "EXT_BB_CAPACITY = 22"
definition EXT_BB_TRUNCATE :: u8 where [simp]: "EXT_BB_TRUNCATE = 23"
definition EXT_BYTES_READ_U32_BE :: u8 where [simp]: "EXT_BYTES_READ_U32_BE = 24"
definition EXT_BYTES_READ_U32_LE :: u8 where [simp]: "EXT_BYTES_READ_U32_LE = 25"
definition EXT_MODULE_CODE :: u8 where [simp]: "EXT_MODULE_CODE = 26"
definition EXT_REFLECTION_DECLARATIONS :: u8 where [simp]: "EXT_REFLECTION_DECLARATIONS = 27"
definition EXT_REFLECTION_MEMBERS :: u8 where [simp]: "EXT_REFLECTION_MEMBERS = 28"
definition EXT_REFLECTION_NAME :: u8 where [simp]: "EXT_REFLECTION_NAME = 29"
definition EXT_REFLECTION_DECLARATION_KIND :: u8 where [simp]: "EXT_REFLECTION_DECLARATION_KIND = 30"
definition EXT_REFLECTION_MEMBER_KIND :: u8 where [simp]: "EXT_REFLECTION_MEMBER_KIND = 31"
definition EXT_REFLECTION_REFINE :: u8 where [simp]: "EXT_REFLECTION_REFINE = 32"
definition EXT_REFLECTION_END :: u8 where [simp]: "EXT_REFLECTION_END = 33"
definition EXT_REFLECTION_TYPE_PARAMETER_COUNT :: u8 where [simp]: "EXT_REFLECTION_TYPE_PARAMETER_COUNT = 34"
definition EXT_REFLECTION_INTERFACE_NAMES :: u8 where [simp]: "EXT_REFLECTION_INTERFACE_NAMES = 35"
definition EXT_REFLECTION_OPEN :: u8 where [simp]: "EXT_REFLECTION_OPEN = 36"

end
