(* ===== verification/Codec.thy ===== *)
theory Codec
  imports Bytecode Opcodes
begin

text \<open>
  The instruction codec of \<open>crates/lm-bytecode/src/lib.rs\<close>: the byte cursor with
  its errors, the encoder of every instruction and the decoder. The decoder's one
  \<open>match\<close> on the opcode is a chain of segments in source order; a segment answers
  \<^const>\<open>None\<close> for an opcode that is not one of its arms.
\<close>

section \<open>Bytes\<close>

primrec le_bytes :: "nat \<Rightarrow> 'a::len word \<Rightarrow> u8 list" where
  "le_bytes 0 w = []"
| "le_bytes (Suc n) w = ucast w # le_bytes n (drop_bit 8 w)"

primrec from_le_bytes :: "u8 list \<Rightarrow> 'a::len word" where
  "from_le_bytes [] = 0"
| "from_le_bytes (b # bs) = ucast b OR push_bit 8 (from_le_bytes bs)"

definition write_u32 :: "u32 \<Rightarrow> u8 list" where
  "write_u32 v = le_bytes 4 v"

definition NO_APP :: u32 where
  "NO_APP = - 1"

definition encode_optional_index :: "u32 \<Rightarrow> u8 list" where
  "encode_optional_index v = (if v = NO_APP then [0] else [1] @ write_u32 v)"

section \<open>The cursor\<close>

datatype DebugError =
    DebugBadMagic
  | DebugBadVersion
  | DebugBadLength
  | DebugBadText
  | DebugBadTag
  | DebugBadIndex
  | DebugBadRange
  | DebugBadSyntax
  | DebugNonCanonical
  | DebugTrailingBytes

datatype (plugins only: code size) DecodeError =
    Truncated
  | BadMagic
  | BadVersion "16 word"
  | BadBundle "u8 list" "u8 list"
  | BadOpcode u8
  | BadTypeTag u8
  | BadRowTag u8
  | BadClassKind u8
  | BadSlot
  | BadFlag u8
  | BadUtf8
  | BadCharacter
  | BadLength
  | TrailingBytes
  | BadSectionTable
  | ExportCountMismatch
  | BadExport
  | BadBinding
  | BadImport
  | MutMarkerCount
  | BadCoreRole
  | BadDebug DebugError

record Cursor =
  cur_bytes :: "u8 list"
  cur_pos :: nat

type_synonym ('e, 'a) cursor_reader = "Cursor \<Rightarrow> 'e + 'a \<times> Cursor"

type_synonym 'a reader = "(DecodeError, 'a) cursor_reader"

text \<open>The \<open>?\<close> operator: stop at the first error, otherwise go on with the value and the cursor.\<close>

definition p_bind :: "('e, 'a) cursor_reader \<Rightarrow> ('a \<Rightarrow> ('e, 'b) cursor_reader) \<Rightarrow> ('e, 'b) cursor_reader" where
  "p_bind p f c = (case p c of Inl e \<Rightarrow> Inl e | Inr (a, c') \<Rightarrow> f a c')"

definition p_ret :: "'a \<Rightarrow> ('e, 'a) cursor_reader" where
  "p_ret a c = Inr (a, c)"

definition p_err :: "'e \<Rightarrow> ('e, 'a) cursor_reader" where
  "p_err e c = Inl e"

definition p_opt :: "'e \<Rightarrow> 'a option \<Rightarrow> ('e, 'a) cursor_reader" where
  "p_opt e x = (case x of None \<Rightarrow> p_err e | Some a \<Rightarrow> p_ret a)"

definition cur_take :: "nat \<Rightarrow> u8 list reader" where
  "cur_take len c =
     (let end = cur_pos c + len
      in if end > length (cur_bytes c) then Inl Truncated
         else Inr (take len (drop (cur_pos c) (cur_bytes c)), c\<lparr>cur_pos := end\<rparr>))"

definition cur_u8 :: "u8 reader" where
  "cur_u8 = p_bind (cur_take 1) (\<lambda>b. p_ret (b ! 0))"

definition cur_u16 :: "16 word reader" where
  "cur_u16 = p_bind (cur_take 2) (\<lambda>b. p_ret (from_le_bytes b))"

definition cur_u32 :: "u32 reader" where
  "cur_u32 = p_bind (cur_take 4) (\<lambda>b. p_ret (from_le_bytes b))"

text \<open>\<open>i64\<close> and \<open>u64\<close> read the same eight bytes.\<close>

definition cur_u64 :: "u64 reader" where
  "cur_u64 = p_bind (cur_take 8) (\<lambda>b. p_ret (from_le_bytes b))"

definition cur_remaining :: "Cursor \<Rightarrow> nat" where
  "cur_remaining c = length (cur_bytes c) - cur_pos c"

definition cur_len :: "nat reader" where
  "cur_len = p_bind cur_u32 (\<lambda>count c.
     if unat count > length (cur_bytes c) - cur_pos c then Inl BadLength else Inr (unat count, c))"

definition cur_flag :: "bool reader" where
  "cur_flag = p_bind cur_u8 (\<lambda>b.
     if b = 0 then p_ret False else if b = 1 then p_ret True else p_err (BadFlag b))"

definition decode_optional_index :: "u32 reader" where
  "decode_optional_index = p_bind cur_flag (\<lambda>present. if present then cur_u32 else p_ret NO_APP)"

section \<open>Tags\<close>

primrec tag_IntOp :: "IntOp \<Rightarrow> u8" where
  "tag_IntOp IntBitAnd = 0"
| "tag_IntOp IntBitOr = 1"
| "tag_IntOp IntBitXor = 2"
| "tag_IntOp IntBitNot = 3"
| "tag_IntOp IntShl = 4"
| "tag_IntOp IntShr = 5"
| "tag_IntOp IntUshr = 6"
| "tag_IntOp IntWrappingAdd = 7"
| "tag_IntOp IntWrappingSub = 8"
| "tag_IntOp IntWrappingMul = 9"
| "tag_IntOp IntRotateLeft = 10"
| "tag_IntOp IntRotateRight = 11"
| "tag_IntOp IntCountOnes = 38"
| "tag_IntOp IntLeadingZeros = 39"
| "tag_IntOp IntTrailingZeros = 40"
| "tag_IntOp IntSignum = 41"
| "tag_IntOp IntRotateLeft32 = 78"
| "tag_IntOp IntRotateRight32 = 79"

primrec tag_FloatOp :: "FloatOp \<Rightarrow> u8" where
  "tag_FloatOp IntToFloat = 12"
| "tag_FloatOp FloatNeg = 13"
| "tag_FloatOp FloatAdd = 14"
| "tag_FloatOp FloatSub = 15"
| "tag_FloatOp FloatMul = 16"
| "tag_FloatOp FloatDiv = 17"
| "tag_FloatOp FloatAbs = 42"
| "tag_FloatOp FloatMin = 43"
| "tag_FloatOp FloatMax = 44"
| "tag_FloatOp FloatSqrt = 45"
| "tag_FloatOp FloatFloor = 46"
| "tag_FloatOp FloatCeil = 47"
| "tag_FloatOp FloatRound = 48"
| "tag_FloatOp FloatTrunc = 49"
| "tag_FloatOp FloatRem = 52"
| "tag_FloatOp FloatCopySign = 53"
| "tag_FloatOp FloatMulAdd = 54"

primrec tag_FloatTestOp :: "FloatTestOp \<Rightarrow> u8" where
  "tag_FloatTestOp FloatEq = 18"
| "tag_FloatTestOp FloatNe = 19"
| "tag_FloatTestOp FloatLt = 20"
| "tag_FloatTestOp FloatLe = 21"
| "tag_FloatTestOp FloatGt = 22"
| "tag_FloatTestOp FloatGe = 23"
| "tag_FloatTestOp FloatIsNan = 24"
| "tag_FloatTestOp FloatHash = 25"
| "tag_FloatTestOp FloatBits = 26"
| "tag_FloatTestOp FloatFromBits = 27"
| "tag_FloatTestOp FloatToIntStatus = 28"
| "tag_FloatTestOp FloatToIntValue = 29"
| "tag_FloatTestOp FloatFixed = 37"
| "tag_FloatTestOp FloatIsFinite = 50"
| "tag_FloatTestOp FloatIsInfinite = 51"

primrec tag_NumericBufferOp :: "NumericBufferOp \<Rightarrow> u8" where
  "tag_NumericBufferOp SbAppendFloat = 30"
| "tag_NumericBufferOp BytesBitAnd = 31"
| "tag_NumericBufferOp BytesBitOr = 32"
| "tag_NumericBufferOp BytesBitXor = 33"
| "tag_NumericBufferOp BytesBitNot = 34"
| "tag_NumericBufferOp TextParseFloatStatus = 35"
| "tag_NumericBufferOp TextParseFloatValue = 36"

primrec tag_ExpOp :: "ExpOp \<Rightarrow> u8" where
  "tag_ExpOp FloatPow = 55"
| "tag_ExpOp FloatExp = 56"
| "tag_ExpOp FloatExp2 = 57"
| "tag_ExpOp FloatExpM1 = 58"
| "tag_ExpOp FloatLn = 59"
| "tag_ExpOp FloatLog2 = 60"
| "tag_ExpOp FloatLog10 = 61"
| "tag_ExpOp FloatLn1P = 62"
| "tag_ExpOp FloatCbrt = 63"
| "tag_ExpOp FloatHypot = 64"

primrec tag_TrigOp :: "TrigOp \<Rightarrow> u8" where
  "tag_TrigOp FloatSin = 65"
| "tag_TrigOp FloatCos = 66"
| "tag_TrigOp FloatTan = 67"
| "tag_TrigOp FloatAsin = 68"
| "tag_TrigOp FloatAcos = 69"
| "tag_TrigOp FloatAtan = 70"
| "tag_TrigOp FloatAtan2 = 71"
| "tag_TrigOp FloatSinh = 72"
| "tag_TrigOp FloatCosh = 73"
| "tag_TrigOp FloatTanh = 74"
| "tag_TrigOp FloatAsinh = 75"
| "tag_TrigOp FloatAcosh = 76"
| "tag_TrigOp FloatAtanh = 77"

primrec numeric_tag :: "NumericInstr \<Rightarrow> u8" where
  "numeric_tag (NInt x) = tag_IntOp x"
| "numeric_tag (NFloat x) = tag_FloatOp x"
| "numeric_tag (NFloatTest x) = tag_FloatTestOp x"
| "numeric_tag (NBuffer x) = tag_NumericBufferOp x"
| "numeric_tag (NExp x) = tag_ExpOp x"
| "numeric_tag (NTrig x) = tag_TrigOp x"

definition numeric_from_tag_low :: "u8 \<Rightarrow> NumericInstr option" where
  "numeric_from_tag_low tag =
     (if tag = 0 then Some (NInt IntBitAnd)
      else if tag = 1 then Some (NInt IntBitOr)
      else if tag = 2 then Some (NInt IntBitXor)
      else if tag = 3 then Some (NInt IntBitNot)
      else if tag = 4 then Some (NInt IntShl)
      else if tag = 5 then Some (NInt IntShr)
      else if tag = 6 then Some (NInt IntUshr)
      else if tag = 7 then Some (NInt IntWrappingAdd)
      else if tag = 8 then Some (NInt IntWrappingSub)
      else if tag = 9 then Some (NInt IntWrappingMul)
      else if tag = 10 then Some (NInt IntRotateLeft)
      else if tag = 11 then Some (NInt IntRotateRight)
      else if tag = 12 then Some (NFloat IntToFloat)
      else if tag = 13 then Some (NFloat FloatNeg)
      else if tag = 14 then Some (NFloat FloatAdd)
      else if tag = 15 then Some (NFloat FloatSub)
      else if tag = 16 then Some (NFloat FloatMul)
      else if tag = 17 then Some (NFloat FloatDiv)
      else if tag = 18 then Some (NFloatTest FloatEq)
      else if tag = 19 then Some (NFloatTest FloatNe)
      else if tag = 20 then Some (NFloatTest FloatLt)
      else if tag = 21 then Some (NFloatTest FloatLe)
      else if tag = 22 then Some (NFloatTest FloatGt)
      else if tag = 23 then Some (NFloatTest FloatGe)
      else if tag = 24 then Some (NFloatTest FloatIsNan)
      else if tag = 25 then Some (NFloatTest FloatHash)
      else if tag = 26 then Some (NFloatTest FloatBits)
      else if tag = 27 then Some (NFloatTest FloatFromBits)
      else if tag = 28 then Some (NFloatTest FloatToIntStatus)
      else if tag = 29 then Some (NFloatTest FloatToIntValue)
      else if tag = 30 then Some (NBuffer SbAppendFloat)
      else if tag = 31 then Some (NBuffer BytesBitAnd)
      else if tag = 32 then Some (NBuffer BytesBitOr)
      else if tag = 33 then Some (NBuffer BytesBitXor)
      else if tag = 34 then Some (NBuffer BytesBitNot)
      else if tag = 35 then Some (NBuffer TextParseFloatStatus)
      else if tag = 36 then Some (NBuffer TextParseFloatValue)
      else if tag = 37 then Some (NFloatTest FloatFixed)
      else if tag = 38 then Some (NInt IntCountOnes)
      else if tag = 39 then Some (NInt IntLeadingZeros)
      else None)"

definition numeric_from_tag_high :: "u8 \<Rightarrow> NumericInstr option" where
  "numeric_from_tag_high tag =
     (if tag = 40 then Some (NInt IntTrailingZeros)
      else if tag = 41 then Some (NInt IntSignum)
      else if tag = 42 then Some (NFloat FloatAbs)
      else if tag = 43 then Some (NFloat FloatMin)
      else if tag = 44 then Some (NFloat FloatMax)
      else if tag = 45 then Some (NFloat FloatSqrt)
      else if tag = 46 then Some (NFloat FloatFloor)
      else if tag = 47 then Some (NFloat FloatCeil)
      else if tag = 48 then Some (NFloat FloatRound)
      else if tag = 49 then Some (NFloat FloatTrunc)
      else if tag = 50 then Some (NFloatTest FloatIsFinite)
      else if tag = 51 then Some (NFloatTest FloatIsInfinite)
      else if tag = 52 then Some (NFloat FloatRem)
      else if tag = 53 then Some (NFloat FloatCopySign)
      else if tag = 54 then Some (NFloat FloatMulAdd)
      else if tag = 55 then Some (NExp FloatPow)
      else if tag = 56 then Some (NExp FloatExp)
      else if tag = 57 then Some (NExp FloatExp2)
      else if tag = 58 then Some (NExp FloatExpM1)
      else if tag = 59 then Some (NExp FloatLn)
      else if tag = 60 then Some (NExp FloatLog2)
      else if tag = 61 then Some (NExp FloatLog10)
      else if tag = 62 then Some (NExp FloatLn1P)
      else if tag = 63 then Some (NExp FloatCbrt)
      else if tag = 64 then Some (NExp FloatHypot)
      else if tag = 65 then Some (NTrig FloatSin)
      else if tag = 66 then Some (NTrig FloatCos)
      else if tag = 67 then Some (NTrig FloatTan)
      else if tag = 68 then Some (NTrig FloatAsin)
      else if tag = 69 then Some (NTrig FloatAcos)
      else if tag = 70 then Some (NTrig FloatAtan)
      else if tag = 71 then Some (NTrig FloatAtan2)
      else if tag = 72 then Some (NTrig FloatSinh)
      else if tag = 73 then Some (NTrig FloatCosh)
      else if tag = 74 then Some (NTrig FloatTanh)
      else if tag = 75 then Some (NTrig FloatAsinh)
      else if tag = 76 then Some (NTrig FloatAcosh)
      else if tag = 77 then Some (NTrig FloatAtanh)
      else if tag = 78 then Some (NInt IntRotateLeft32)
      else if tag = 79 then Some (NInt IntRotateRight32)
      else None)"

definition numeric_from_tag :: "u8 \<Rightarrow> NumericInstr option" where
  "numeric_from_tag tag =
     (case numeric_from_tag_low tag of Some i \<Rightarrow> Some i | None \<Rightarrow> numeric_from_tag_high tag)"

fun native_extension_tag :: "NativeInstr \<Rightarrow> u8 option" where
  "native_extension_tag (VRegex RegexCompileStatus) = Some EXT_REGEX_COMPILE_STATUS"
| "native_extension_tag (VRegex RegexCompileValue) = Some EXT_REGEX_COMPILE_VALUE"
| "native_extension_tag (VRegex RegexSource) = Some EXT_REGEX_SOURCE"
| "native_extension_tag (VRegex RegexIsMatch) = Some EXT_REGEX_IS_MATCH"
| "native_extension_tag (VRegex RegexCount) = Some EXT_REGEX_COUNT"
| "native_extension_tag (VRegex RegexSplit) = Some EXT_REGEX_SPLIT"
| "native_extension_tag (VRegex RegexReplaceAll) = Some EXT_REGEX_REPLACE_ALL"
| "native_extension_tag (VRegex RegexMatchStart) = Some EXT_REGEX_MATCH_START"
| "native_extension_tag (VRegex RegexMatchEnd) = Some EXT_REGEX_MATCH_END"
| "native_extension_tag (VRegex RegexMatchText) = Some EXT_REGEX_MATCH_TEXT"
| "native_extension_tag (VRegex RegexMatchGroupCount) = Some EXT_REGEX_MATCH_GROUP_COUNT"
| "native_extension_tag (VBuffer BbSet) = Some EXT_BB_SET"
| "native_extension_tag (VBuffer BbCapacity) = Some EXT_BB_CAPACITY"
| "native_extension_tag (VBuffer BbTruncate) = Some EXT_BB_TRUNCATE"
| "native_extension_tag (VBytes BytesReadU32Be) = Some EXT_BYTES_READ_U32_BE"
| "native_extension_tag (VBytes BytesReadU32Le) = Some EXT_BYTES_READ_U32_LE"
| "native_extension_tag _ = None"

section \<open>Encoding\<close>

primrec encode_StrOp :: "StrOp \<Rightarrow> u8 list" where
  "encode_StrOp EqStr = [OP_EQ_STR]"
| "encode_StrOp NeStr = [OP_NE_STR]"
| "encode_StrOp StrByteLen = [OP_STR_BYTE_LEN]"
| "encode_StrOp StrCharCount = [OP_STR_CHAR_COUNT]"
| "encode_StrOp StrConcat = [OP_STR_CONCAT]"
| "encode_StrOp StrStartsWith = [OP_STR_STARTS_WITH]"
| "encode_StrOp StrEndsWith = [OP_STR_ENDS_WITH]"
| "encode_StrOp StrContains = [OP_STR_CONTAINS]"
| "encode_StrOp StrFindIndex = [OP_STR_FIND_INDEX]"
| "encode_StrOp TextFindByteIndex = [OP_TEXT_FIND_BYTE_INDEX]"
| "encode_StrOp TextAtByte = [OP_TEXT_AT_BYTE]"

primrec encode_TextOp :: "TextOp \<Rightarrow> u8 list" where
  "encode_TextOp TextTrim = [OP_TEXT_TRIM]"
| "encode_TextOp TextTrimStart = [OP_TEXT_TRIM_START]"
| "encode_TextOp TextTrimEnd = [OP_TEXT_TRIM_END]"
| "encode_TextOp TextToLowerAscii = [OP_TEXT_TO_LOWER_ASCII]"
| "encode_TextOp TextToUpperAscii = [OP_TEXT_TO_UPPER_ASCII]"
| "encode_TextOp TextReplace = [OP_TEXT_REPLACE]"
| "encode_TextOp TextParseIntStatus = [OP_TEXT_PARSE_INT_STATUS]"
| "encode_TextOp TextParseIntValue = [OP_TEXT_PARSE_INT_VALUE]"
| "encode_TextOp TextPadStart = [OP_EXTENSION, EXT_TEXT_PAD_START]"
| "encode_TextOp TextPadEnd = [OP_EXTENSION, EXT_TEXT_PAD_END]"
| "encode_TextOp TextSplit = [OP_TEXT_SPLIT]"
| "encode_TextOp TextLines = [OP_TEXT_LINES]"
| "encode_TextOp TextAt = [OP_TEXT_AT]"
| "encode_TextOp TextSlice = [OP_TEXT_SLICE]"
| "encode_TextOp TextIsBoundary = [OP_TEXT_IS_BOUNDARY]"
| "encode_TextOp TextSliceBytes = [OP_TEXT_SLICE_BYTES]"
| "encode_TextOp TextBytes = [OP_TEXT_BYTES]"

primrec encode_CharOp :: "CharOp \<Rightarrow> u8 list" where
  "encode_CharOp TextLt = [OP_TEXT_LT]"
| "encode_CharOp TextLe = [OP_TEXT_LE]"
| "encode_CharOp TextGt = [OP_TEXT_GT]"
| "encode_CharOp TextGe = [OP_TEXT_GE]"
| "encode_CharOp TextToString = [OP_TEXT_TO_STRING]"
| "encode_CharOp CharCodepoint = [OP_CHAR_CODEPOINT]"
| "encode_CharOp CharUtf8Len = [OP_CHAR_UTF8_LEN]"
| "encode_CharOp EqChar = [OP_EQ_CHAR]"
| "encode_CharOp NeChar = [OP_NE_CHAR]"
| "encode_CharOp LtChar = [OP_LT_CHAR]"
| "encode_CharOp LeChar = [OP_LE_CHAR]"
| "encode_CharOp GtChar = [OP_GT_CHAR]"
| "encode_CharOp GeChar = [OP_GE_CHAR]"

primrec encode_BuilderOp :: "BuilderOp \<Rightarrow> u8 list" where
  "encode_BuilderOp SbNew = [OP_SB_NEW]"
| "encode_BuilderOp SbAppendStr = [OP_SB_APPEND_STR]"
| "encode_BuilderOp SbAppendInt = [OP_SB_APPEND_INT]"
| "encode_BuilderOp SbAppendBool = [OP_SB_APPEND_BOOL]"
| "encode_BuilderOp SbBuild = [OP_SB_BUILD]"
| "encode_BuilderOp SbAppendChar = [OP_SB_APPEND_CHAR]"
| "encode_BuilderOp SbByteLen = [OP_SB_BYTE_LEN]"
| "encode_BuilderOp SbFinish = [OP_SB_FINISH]"
| "encode_BuilderOp SbLen = [OP_SB_LEN]"
| "encode_BuilderOp SbClear = [OP_SB_CLEAR]"

primrec encode_BufferOp :: "BufferOp \<Rightarrow> u8 list" where
  "encode_BufferOp BbNew = [OP_BB_NEW]"
| "encode_BufferOp BbAppend = [OP_BB_APPEND]"
| "encode_BufferOp BbLen = [OP_BB_LEN]"
| "encode_BufferOp BbBuild = [OP_BB_BUILD]"
| "encode_BufferOp BbFinish = [OP_BB_FINISH]"
| "encode_BufferOp BbExtend = [OP_BB_EXTEND]"
| "encode_BufferOp BbReserve = [OP_BB_RESERVE]"
| "encode_BufferOp BbClear = [OP_BB_CLEAR]"
| "encode_BufferOp BbAt = [OP_BB_AT]"
| "encode_BufferOp BbSet = [OP_EXTENSION, the (native_extension_tag (VBuffer BbSet))]"
| "encode_BufferOp BbCapacity = [OP_EXTENSION, the (native_extension_tag (VBuffer BbCapacity))]"
| "encode_BufferOp BbTruncate = [OP_EXTENSION, the (native_extension_tag (VBuffer BbTruncate))]"
| "encode_BufferOp BbFindFrom = [OP_BB_FIND_FROM]"

primrec encode_BytesOp :: "BytesOp \<Rightarrow> u8 list" where
  "encode_BytesOp BytesEndsWith = [OP_BYTES_ENDS_WITH]"
| "encode_BytesOp BytesContains = [OP_BYTES_CONTAINS]"
| "encode_BytesOp BytesNew = [OP_BYTES_NEW]"
| "encode_BytesOp BytesLen = [OP_BYTES_LEN]"
| "encode_BytesOp BytesText = [OP_BYTES_TEXT]"
| "encode_BytesOp BytesTextRange = [OP_EXTENSION, EXT_BYTES_TEXT_RANGE]"
| "encode_BytesOp BytesAt = [OP_BYTES_AT]"
| "encode_BytesOp BytesGet = [OP_BYTES_GET]"
| "encode_BytesOp BytesReadU32Be = [OP_EXTENSION, the (native_extension_tag (VBytes BytesReadU32Be))]"
| "encode_BytesOp BytesReadU32Le = [OP_EXTENSION, the (native_extension_tag (VBytes BytesReadU32Le))]"
| "encode_BytesOp BytesSlice = [OP_BYTES_SLICE]"
| "encode_BytesOp BytesConcat = [OP_BYTES_CONCAT]"
| "encode_BytesOp BytesStartsWith = [OP_BYTES_STARTS_WITH]"
| "encode_BytesOp BytesFindIndex = [OP_BYTES_FIND_INDEX]"
| "encode_BytesOp BytesHex = [OP_BYTES_HEX]"
| "encode_BytesOp BytesIsUtf8 = [OP_BYTES_IS_UTF8]"

primrec encode_HashOp :: "HashOp \<Rightarrow> u8 list" where
  "encode_HashOp EqBytes = [OP_EQ_BYTES]"
| "encode_HashOp NeBytes = [OP_NE_BYTES]"
| "encode_HashOp LtBytes = [OP_LT_BYTES]"
| "encode_HashOp LeBytes = [OP_LE_BYTES]"
| "encode_HashOp GtBytes = [OP_GT_BYTES]"
| "encode_HashOp GeBytes = [OP_GE_BYTES]"
| "encode_HashOp BytesCompact = [OP_BYTES_COMPACT]"
| "encode_HashOp BytesTextView = [OP_BYTES_TEXT_VIEW]"
| "encode_HashOp TextHash = [OP_TEXT_HASH]"
| "encode_HashOp BytesHash = [OP_BYTES_HASH]"
| "encode_HashOp HashCombine = [OP_HASH_COMBINE]"
| "encode_HashOp HashUnorderedCombine = [OP_HASH_UNORDERED_COMBINE]"

primrec encode_RegexOp :: "RegexOp \<Rightarrow> u8 list" where
  "encode_RegexOp RegexCompileStatus = [OP_EXTENSION, the (native_extension_tag (VRegex RegexCompileStatus))]"
| "encode_RegexOp RegexCompileValue = [OP_EXTENSION, the (native_extension_tag (VRegex RegexCompileValue))]"
| "encode_RegexOp RegexSource = [OP_EXTENSION, the (native_extension_tag (VRegex RegexSource))]"
| "encode_RegexOp RegexIsMatch = [OP_EXTENSION, the (native_extension_tag (VRegex RegexIsMatch))]"
| "encode_RegexOp RegexCount = [OP_EXTENSION, the (native_extension_tag (VRegex RegexCount))]"
| "encode_RegexOp RegexSplit = [OP_EXTENSION, the (native_extension_tag (VRegex RegexSplit))]"
| "encode_RegexOp RegexReplaceAll = [OP_EXTENSION, the (native_extension_tag (VRegex RegexReplaceAll))]"
| "encode_RegexOp RegexMatchStart = [OP_EXTENSION, the (native_extension_tag (VRegex RegexMatchStart))]"
| "encode_RegexOp RegexMatchEnd = [OP_EXTENSION, the (native_extension_tag (VRegex RegexMatchEnd))]"
| "encode_RegexOp RegexMatchText = [OP_EXTENSION, the (native_extension_tag (VRegex RegexMatchText))]"
| "encode_RegexOp RegexMatchGroupCount = [OP_EXTENSION, the (native_extension_tag (VRegex RegexMatchGroupCount))]"

primrec encode_native :: "NativeInstr \<Rightarrow> u8 list" where
  "encode_native (VStr x) = encode_StrOp x"
| "encode_native (VText x) = encode_TextOp x"
| "encode_native (VChar x) = encode_CharOp x"
| "encode_native (VBuilder x) = encode_BuilderOp x"
| "encode_native (VBuffer x) = encode_BufferOp x"
| "encode_native (VBytes x) = encode_BytesOp x"
| "encode_native (VHash x) = encode_HashOp x"
| "encode_native (VRegex x) = encode_RegexOp x"

primrec encode_ValueOp :: "ValueOp \<Rightarrow> u8 list" where
  "encode_ValueOp (MakeCallback func captures) = [OP_MAKE_CALLBACK] @ write_u32 func @ write_u32 captures"
| "encode_ValueOp AsCallback = [OP_AS_CALLBACK]"
| "encode_ValueOp (OptionSome ty) = [OP_OPTION_SOME] @ write_u32 ty"
| "encode_ValueOp (OptionNone ty) = [OP_OPTION_NONE] @ write_u32 ty"
| "encode_ValueOp (OptionPayload ty) = [OP_OPTION_PAYLOAD] @ write_u32 ty"
| "encode_ValueOp SealInstance = [OP_SEAL_INSTANCE]"

primrec encode_ListOp :: "ListOp \<Rightarrow> u8 list" where
  "encode_ListOp (ListGet ty) = [OP_LIST_GET] @ write_u32 ty"
| "encode_ListOp ListEpoch = [OP_LIST_EPOCH]"
| "encode_ListOp ListIterLen = [OP_LIST_ITER_LEN]"
| "encode_ListOp ListCapacity = [OP_LIST_CAPACITY]"
| "encode_ListOp ListSet = [OP_LIST_SET]"
| "encode_ListOp (ListPop ty) = [OP_LIST_POP] @ write_u32 ty"
| "encode_ListOp ListInsert = [OP_LIST_INSERT]"
| "encode_ListOp ListRemove = [OP_LIST_REMOVE]"
| "encode_ListOp ListSwapRemove = [OP_LIST_SWAP_REMOVE]"
| "encode_ListOp ListSwap = [OP_EXTENSION, EXT_LIST_SWAP]"
| "encode_ListOp ListReserve = [OP_LIST_RESERVE]"
| "encode_ListOp ListTruncate = [OP_LIST_TRUNCATE]"
| "encode_ListOp ListContains = [OP_LIST_CONTAINS]"
| "encode_ListOp ListReorder = [OP_LIST_REORDER]"

primrec encode_MapOp :: "MapOp \<Rightarrow> u8 list" where
  "encode_MapOp (MapGet ty) = [OP_MAP_GET] @ write_u32 ty"
| "encode_MapOp (MapPutText ty discard) = [OP_EXTENSION, EXT_MAP_PUT_TEXT] @ write_u32 ty @ [of_bool discard]"
| "encode_MapOp MapInternTextRange = [OP_EXTENSION, EXT_MAP_INTERN_TEXT_RANGE]"
| "encode_MapOp MapEpoch = [OP_MAP_EPOCH]"
| "encode_MapOp MapIterLen = [OP_MAP_ITER_LEN]"
| "encode_MapOp MapNextIndex = [OP_MAP_NEXT_INDEX]"
| "encode_MapOp MapKeyAt = [OP_MAP_KEY_AT]"
| "encode_MapOp MapValueAt = [OP_MAP_VALUE_AT]"
| "encode_MapOp (MapRemove ty) = [OP_MAP_REMOVE] @ write_u32 ty"
| "encode_MapOp MapClear = [OP_MAP_CLEAR]"
| "encode_MapOp MapReserve = [OP_MAP_RESERVE]"

primrec encode_ProbeOp :: "ProbeOp \<Rightarrow> u8 list" where
  "encode_ProbeOp MapProbe = [OP_MAP_PROBE]"
| "encode_ProbeOp MapProbeFound = [OP_MAP_PROBE_FOUND]"
| "encode_ProbeOp MapProbeKey = [OP_MAP_PROBE_KEY]"
| "encode_ProbeOp MapProbeValue = [OP_MAP_PROBE_VALUE]"
| "encode_ProbeOp MapProbeSetValue = [OP_MAP_PROBE_SET_VALUE]"
| "encode_ProbeOp MapProbeRemove = [OP_MAP_PROBE_REMOVE]"
| "encode_ProbeOp MapInsertHashed = [OP_MAP_INSERT_HASHED]"
| "encode_ProbeOp MapWriteGuard = [OP_MAP_WRITE_GUARD]"

primrec encode_SlotOp :: "SlotOp \<Rightarrow> u8 list" where
  "encode_SlotOp (CallSlot slot app) = [OP_CALL_SLOT] @ write_u32 slot @ encode_optional_index app"
| "encode_SlotOp (NewSlot slot app) = [OP_NEW_SLOT] @ write_u32 slot @ encode_optional_index app"
| "encode_SlotOp (LoadSlot slot) = [OP_LOAD_SLOT] @ write_u32 slot"
| "encode_SlotOp (SendSlot slot) = [OP_SEND_SLOT] @ write_u32 slot"
| "encode_SlotOp (DynPack ty) = [OP_DYN_PACK] @ write_u32 ty"
| "encode_SlotOp DynRender = [OP_DYN_RENDER]"
| "encode_SlotOp (PrepareWait op_argc reply_ty) = (let (op, argc) = wait_parts op_argc
        in [OP_PREPARE_WAIT] @ write_u32 op @ write_u32 argc @ write_u32 reply_ty)"
| "encode_SlotOp (RegexCaptures ty) = [OP_EXTENSION, EXT_REGEX_CAPTURES] @ write_u32 ty"
| "encode_SlotOp (RegexMatchGroup ty) = [OP_EXTENSION, EXT_REGEX_MATCH_GROUP] @ write_u32 ty"
| "encode_SlotOp (RegexMatchNamed ty) = [OP_EXTENSION, EXT_REGEX_MATCH_NAMED] @ write_u32 ty"

primrec encode_SyntaxOp :: "SyntaxOp \<Rightarrow> u8 list" where
  "encode_SyntaxOp SyntaxTreeRoot = [OP_SYNTAX_TREE_ROOT]"
| "encode_SyntaxOp SyntaxKind = [OP_SYNTAX_KIND]"
| "encode_SyntaxOp SyntaxCategory = [OP_SYNTAX_CATEGORY]"
| "encode_SyntaxOp SyntaxRangeStart = [OP_SYNTAX_RANGE_START]"
| "encode_SyntaxOp SyntaxRangeEnd = [OP_SYNTAX_RANGE_END]"
| "encode_SyntaxOp SyntaxText = [OP_SYNTAX_TEXT]"
| "encode_SyntaxOp SyntaxChildren = [OP_SYNTAX_CHILDREN]"
| "encode_SyntaxOp SyntaxDetach = [OP_SYNTAX_DETACH]"
| "encode_SyntaxOp SyntaxBuildToken = [OP_SYNTAX_BUILD_TOKEN]"
| "encode_SyntaxOp SyntaxBuildTrivia = [OP_SYNTAX_BUILD_TRIVIA]"
| "encode_SyntaxOp SyntaxBuildNode = [OP_SYNTAX_BUILD_NODE]"
| "encode_SyntaxOp SyntaxToTree = [OP_SYNTAX_TO_TREE]"

primrec encode_CodeOp :: "CodeOp \<Rightarrow> u8 list" where
  "encode_CodeOp (FunctionCode func) = [OP_FUNCTION_CODE] @ write_u32 func"
| "encode_CodeOp (ClassCode cls) = [OP_CLASS_CODE] @ write_u32 cls"
| "encode_CodeOp (ModuleCode modul) = [OP_EXTENSION, EXT_MODULE_CODE] @ write_u32 modul"
| "encode_CodeOp ReflectionDeclarations = [OP_EXTENSION, EXT_REFLECTION_DECLARATIONS]"
| "encode_CodeOp ReflectionOpen = [OP_EXTENSION, EXT_REFLECTION_OPEN]"
| "encode_CodeOp ReflectionMembers = [OP_EXTENSION, EXT_REFLECTION_MEMBERS]"
| "encode_CodeOp ReflectionName = [OP_EXTENSION, EXT_REFLECTION_NAME]"
| "encode_CodeOp ReflectionDeclarationKind = [OP_EXTENSION, EXT_REFLECTION_DECLARATION_KIND]"
| "encode_CodeOp ReflectionMemberKind = [OP_EXTENSION, EXT_REFLECTION_MEMBER_KIND]"
| "encode_CodeOp ReflectionTypeParameterCount = [OP_EXTENSION, EXT_REFLECTION_TYPE_PARAMETER_COUNT]"
| "encode_CodeOp ReflectionInterfaceNames = [OP_EXTENSION, EXT_REFLECTION_INTERFACE_NAMES]"
| "encode_CodeOp (ReflectionRefine pattern fail) = [OP_EXTENSION, EXT_REFLECTION_REFINE, reflection_kind_tag (reflection_pattern_kind pattern)]
       @ write_u32 (reflection_pattern_function pattern) @ write_u32 fail"
| "encode_CodeOp (ReflectionEnd pattern bases) = [OP_EXTENSION, EXT_REFLECTION_END]
       @ write_u32 pattern @ write_u32 (reflection_type_base bases) @ write_u32 (reflection_effect_base bases)"
| "encode_CodeOp (CodeSource ty) = [OP_CODE_SOURCE] @ write_u32 ty"
| "encode_CodeOp CodeDefinition = [OP_CODE_DEFINITION]"
| "encode_CodeOp (FaultSite ty) = [OP_FAULT_SITE] @ write_u32 ty"
| "encode_CodeOp (FaultTrace ty) = [OP_FAULT_TRACE] @ write_u32 ty"

primrec encode_extended :: "ExtendedInstr \<Rightarrow> u8 list" where
  "encode_extended (XValue x) = encode_ValueOp x"
| "encode_extended (XList x) = encode_ListOp x"
| "encode_extended (XMap x) = encode_MapOp x"
| "encode_extended (XProbe x) = encode_ProbeOp x"
| "encode_extended (XSlot x) = encode_SlotOp x"
| "encode_extended (XSyntax x) = encode_SyntaxOp x"
| "encode_extended (XCode x) = encode_CodeOp x"

primrec encode_ConstOp :: "ConstOp \<Rightarrow> u8 list" where
  "encode_ConstOp ConstUnit = [OP_CONST_UNIT]"
| "encode_ConstOp (ConstBool v) = [OP_CONST_BOOL, of_bool v]"
| "encode_ConstOp (ConstInt v) = [OP_CONST_INT] @ le_bytes 8 v"
| "encode_ConstOp (ConstFloat bits) = [OP_CONST_FLOAT] @ le_bytes 8 bits"
| "encode_ConstOp (ConstChar value) = [OP_CONST_CHAR] @ write_u32 value"
| "encode_ConstOp (ConstStr idx) = [OP_CONST_STR] @ write_u32 idx"
| "encode_ConstOp (ConstBytes idx) = [OP_CONST_BYTES] @ write_u32 idx"
| "encode_ConstOp (ConstRegex idx) = [OP_EXTENSION, EXT_CONST_REGEX] @ write_u32 idx"
| "encode_ConstOp (LoadLocal slot) = [OP_LOAD_LOCAL] @ write_u32 slot"
| "encode_ConstOp (StoreLocal slot) = [OP_STORE_LOCAL] @ write_u32 slot"
| "encode_ConstOp Pop = [OP_POP]"

primrec encode_ArithOp :: "ArithOp \<Rightarrow> u8 list" where
  "encode_ArithOp Add = [OP_ADD]"
| "encode_ArithOp Sub = [OP_SUB]"
| "encode_ArithOp Mul = [OP_MUL]"
| "encode_ArithOp Div = [OP_DIV]"
| "encode_ArithOp Rem = [OP_REM]"
| "encode_ArithOp Neg = [OP_NEG]"
| "encode_ArithOp NotBool = [OP_NOT]"
| "encode_ArithOp LtInt = [OP_LT_INT]"
| "encode_ArithOp LeInt = [OP_LE_INT]"
| "encode_ArithOp GtInt = [OP_GT_INT]"
| "encode_ArithOp GeInt = [OP_GE_INT]"
| "encode_ArithOp EqInt = [OP_EQ_INT]"
| "encode_ArithOp NeInt = [OP_NE_INT]"
| "encode_ArithOp EqBool = [OP_EQ_BOOL]"
| "encode_ArithOp NeBool = [OP_NE_BOOL]"

primrec encode_CallOp :: "CallOp \<Rightarrow> u8 list" where
  "encode_CallOp (Call idx) = [OP_CALL] @ write_u32 idx"
| "encode_CallOp (CallG func app) = [OP_CALL_G] @ write_u32 func @ write_u32 app"
| "encode_CallOp (CallVirtual selector argc) = [OP_CALL_VIRTUAL] @ write_u32 selector @ write_u32 argc"
| "encode_CallOp (CallVirtualG selector argc app) = [OP_CALL_VIRTUAL_G] @ write_u32 selector @ write_u32 argc @ write_u32 app"
| "encode_CallOp (CallValue argc) = [OP_CALL_VALUE] @ write_u32 argc"
| "encode_CallOp (MakeClosure func captures) = [OP_MAKE_CLOSURE] @ write_u32 func @ write_u32 captures"
| "encode_CallOp (LoadCapture idx) = [OP_LOAD_CAPTURE] @ write_u32 idx"
| "encode_CallOp (CallInterface site recv_ty app) = [OP_CALL_INTERFACE] @ write_u32 site @ write_u32 recv_ty @ encode_optional_index app"

primrec encode_ObjectOp :: "ObjectOp \<Rightarrow> u8 list" where
  "encode_ObjectOp (New cls) = [OP_NEW] @ write_u32 cls"
| "encode_ObjectOp (NewG cls app) = [OP_NEW_G] @ write_u32 cls @ write_u32 app"
| "encode_ObjectOp (LoadField field) = [OP_LOAD_FIELD] @ write_u32 field"
| "encode_ObjectOp (StoreField field) = [OP_STORE_FIELD] @ write_u32 field"
| "encode_ObjectOp (TupleNew ty count) = [OP_TUPLE_NEW] @ write_u32 ty @ write_u32 count"
| "encode_ObjectOp (TupleGet index) = [OP_TUPLE_GET] @ write_u32 index"
| "encode_ObjectOp (IsType ty) = [OP_IS_TYPE] @ write_u32 ty"
| "encode_ObjectOp (CastType ty) = [OP_CAST_TYPE] @ write_u32 ty"
| "encode_ObjectOp EqRef = [OP_EQ_REF]"
| "encode_ObjectOp NeRef = [OP_NE_REF]"
| "encode_ObjectOp EqValue = [OP_EQ_VALUE]"
| "encode_ObjectOp NeValue = [OP_NE_VALUE]"
| "encode_ObjectOp Freeze = [OP_FREEZE]"
| "encode_ObjectOp (Digest ty) = [OP_DIGEST] @ write_u32 ty"
| "encode_ObjectOp EqDigest = [OP_EQ_DIGEST]"
| "encode_ObjectOp NeDigest = [OP_NE_DIGEST]"

primrec encode_CollOp :: "CollOp \<Rightarrow> u8 list" where
  "encode_CollOp (ListNew ty count) = [OP_LIST_NEW] @ write_u32 ty @ write_u32 count"
| "encode_CollOp ListLen = [OP_LIST_LEN]"
| "encode_CollOp ListAt = [OP_LIST_AT]"
| "encode_CollOp ListPush = [OP_LIST_PUSH]"
| "encode_CollOp (MapNew ty count) = [OP_MAP_NEW] @ write_u32 ty @ write_u32 count"
| "encode_CollOp MapLen = [OP_MAP_LEN]"
| "encode_CollOp MapHas = [OP_MAP_HAS]"
| "encode_CollOp MapAt = [OP_MAP_AT]"
| "encode_CollOp (MapPut ty discard) = [OP_MAP_PUT] @ write_u32 ty @ [of_bool discard]"

primrec encode_ControlOp :: "ControlOp \<Rightarrow> u8 list" where
  "encode_ControlOp (Jump block) = [OP_JUMP] @ write_u32 block"
| "encode_ControlOp (JumpIfFalse block) = [OP_JUMP_IF_FALSE] @ write_u32 block"
| "encode_ControlOp (JumpIfTrue block) = [OP_JUMP_IF_TRUE] @ write_u32 block"
| "encode_ControlOp Return = [OP_RETURN]"
| "encode_ControlOp Unreachable = [OP_UNREACHABLE]"
| "encode_ControlOp RaiseUserPanic = [OP_RAISE_USER_PANIC]"
| "encode_ControlOp RaiseAssertionFailed = [OP_RAISE_ASSERTION_FAILED]"
| "encode_ControlOp RaiseFault = [OP_RAISE_FAULT]"

primrec encode_EffectOp :: "EffectOp \<Rightarrow> u8 list" where
  "encode_EffectOp (Perform op argc reply_ty) = [OP_PERFORM] @ write_u32 op @ write_u32 argc @ write_u32 reply_ty"
| "encode_EffectOp (PerformValue argc reply_ty) = [OP_PERFORM_VALUE] @ write_u32 argc @ write_u32 reply_ty"
| "encode_EffectOp (OpConst op) = [OP_OP_CONST] @ write_u32 op"
| "encode_EffectOp (TableEdit action kind slot) = [OP_TABLE_EDIT] @ write_u32 action @ write_u32 kind @ write_u32 slot"
| "encode_EffectOp (AsCall op ty) = [OP_AS_CALL] @ write_u32 op @ write_u32 ty"
| "encode_EffectOp CallArgs = [OP_CALL_ARGS]"
| "encode_EffectOp FaultCodeOf = [OP_FAULT_CODE]"
| "encode_EffectOp RequestOp = [OP_REQUEST_OP]"
| "encode_EffectOp FaultDenied = [OP_FAULT_DENIED]"

primrec encode_instr :: "Instr \<Rightarrow> u8 list" where
  "encode_instr (IConst x) = encode_ConstOp x"
| "encode_instr (IArith x) = encode_ArithOp x"
| "encode_instr (ICall x) = encode_CallOp x"
| "encode_instr (IObject x) = encode_ObjectOp x"
| "encode_instr (IColl x) = encode_CollOp x"
| "encode_instr (IControl x) = encode_ControlOp x"
| "encode_instr (IEffect x) = encode_EffectOp x"
| "encode_instr (Native x) = encode_native x"
| "encode_instr (Numeric x) = [OP_NUMERIC, numeric_tag x]"
| "encode_instr (Extended x) = encode_extended x"

section \<open>Decoding\<close>

definition decode_extension_text :: "u8 \<Rightarrow> Instr reader option" where
  "decode_extension_text tag =
     (if tag = EXT_TEXT_PAD_START then Some (p_ret (Native (VText TextPadStart)))
      else if tag = EXT_TEXT_PAD_END then Some (p_ret (Native (VText TextPadEnd)))
      else if tag = EXT_MAP_PUT_TEXT then Some (p_bind cur_u32 (\<lambda>ty. p_bind cur_flag (\<lambda>discard. p_ret (Extended (XMap (MapPutText ty discard))))))
      else if tag = EXT_BYTES_TEXT_RANGE then Some (p_ret (Native (VBytes BytesTextRange)))
      else if tag = EXT_MAP_INTERN_TEXT_RANGE then Some (p_ret (Extended (XMap MapInternTextRange)))
      else if tag = EXT_CONST_REGEX then Some (p_bind cur_u32 (\<lambda>x. p_ret (IConst (ConstRegex x))))
      else if tag = EXT_REGEX_COMPILE_STATUS then Some (p_ret (Native (VRegex RegexCompileStatus)))
      else if tag = EXT_REGEX_COMPILE_VALUE then Some (p_ret (Native (VRegex RegexCompileValue)))
      else if tag = EXT_REGEX_SOURCE then Some (p_ret (Native (VRegex RegexSource)))
      else if tag = EXT_REGEX_IS_MATCH then Some (p_ret (Native (VRegex RegexIsMatch)))
      else if tag = EXT_REGEX_COUNT then Some (p_ret (Native (VRegex RegexCount)))
      else if tag = EXT_REGEX_SPLIT then Some (p_ret (Native (VRegex RegexSplit)))
      else if tag = EXT_REGEX_REPLACE_ALL then Some (p_ret (Native (VRegex RegexReplaceAll)))
      else if tag = EXT_REGEX_MATCH_START then Some (p_ret (Native (VRegex RegexMatchStart)))
      else if tag = EXT_REGEX_MATCH_END then Some (p_ret (Native (VRegex RegexMatchEnd)))
      else if tag = EXT_REGEX_MATCH_TEXT then Some (p_ret (Native (VRegex RegexMatchText)))
      else if tag = EXT_REGEX_MATCH_GROUP_COUNT then Some (p_ret (Native (VRegex RegexMatchGroupCount)))
      else if tag = EXT_REGEX_CAPTURES then Some (p_bind cur_u32 (\<lambda>ty. p_ret (Extended (XSlot (RegexCaptures ty)))))
      else if tag = EXT_REGEX_MATCH_GROUP then Some (p_bind cur_u32 (\<lambda>ty. p_ret (Extended (XSlot (RegexMatchGroup ty)))))
      else if tag = EXT_REGEX_MATCH_NAMED then Some (p_bind cur_u32 (\<lambda>ty. p_ret (Extended (XSlot (RegexMatchNamed ty)))))
      else None)"

definition decode_extension_code :: "u8 \<Rightarrow> Instr reader option" where
  "decode_extension_code tag =
     (if tag = EXT_LIST_SWAP then Some (p_ret (Extended (XList ListSwap)))
      else if tag = EXT_BB_SET then Some (p_ret (Native (VBuffer BbSet)))
      else if tag = EXT_BB_CAPACITY then Some (p_ret (Native (VBuffer BbCapacity)))
      else if tag = EXT_BB_TRUNCATE then Some (p_ret (Native (VBuffer BbTruncate)))
      else if tag = EXT_BYTES_READ_U32_BE then Some (p_ret (Native (VBytes BytesReadU32Be)))
      else if tag = EXT_BYTES_READ_U32_LE then Some (p_ret (Native (VBytes BytesReadU32Le)))
      else if tag = EXT_MODULE_CODE then Some (p_bind cur_u32 (\<lambda>modul. p_ret (Extended (XCode (ModuleCode modul)))))
      else if tag = EXT_REFLECTION_DECLARATIONS then Some (p_ret (Extended (XCode ReflectionDeclarations)))
      else if tag = EXT_REFLECTION_OPEN then Some (p_ret (Extended (XCode ReflectionOpen)))
      else if tag = EXT_REFLECTION_MEMBERS then Some (p_ret (Extended (XCode ReflectionMembers)))
      else if tag = EXT_REFLECTION_NAME then Some (p_ret (Extended (XCode ReflectionName)))
      else if tag = EXT_REFLECTION_DECLARATION_KIND then Some (p_ret (Extended (XCode ReflectionDeclarationKind)))
      else if tag = EXT_REFLECTION_MEMBER_KIND then Some (p_ret (Extended (XCode ReflectionMemberKind)))
      else if tag = EXT_REFLECTION_TYPE_PARAMETER_COUNT then Some (p_ret (Extended (XCode ReflectionTypeParameterCount)))
      else if tag = EXT_REFLECTION_INTERFACE_NAMES then Some (p_ret (Extended (XCode ReflectionInterfaceNames)))
      else if tag = EXT_REFLECTION_REFINE then Some (p_bind cur_u8 (\<lambda>tag. p_bind (p_opt (BadOpcode OP_EXTENSION) (reflection_kind_from_tag tag)) (\<lambda>kind.
          p_bind cur_u32 (\<lambda>function. p_bind (p_opt BadLength (reflection_pattern_new kind function)) (\<lambda>pattern.
          p_bind cur_u32 (\<lambda>fail. p_ret (Extended (XCode (ReflectionRefine pattern fail)))))))))
      else if tag = EXT_REFLECTION_END then Some (p_bind cur_u32 (\<lambda>pattern. p_bind cur_u32 (\<lambda>type_base. p_bind cur_u32 (\<lambda>effect_base.
          p_bind (p_opt BadLength (reflection_bases_new type_base effect_base)) (\<lambda>bases.
          p_ret (Extended (XCode (ReflectionEnd pattern bases))))))))
      else None)"

definition decode_extension :: "Instr reader" where
  "decode_extension = p_bind cur_u8 (\<lambda>tag.
     case decode_extension_text tag of
       Some p \<Rightarrow> p
     | None \<Rightarrow> (case decode_extension_code tag of Some p \<Rightarrow> p | None \<Rightarrow> p_err (BadOpcode OP_EXTENSION)))"

definition decode_scalars :: "u8 \<Rightarrow> Instr reader option" where
  "decode_scalars op =
     (if op = OP_CONST_UNIT then Some (p_ret (IConst ConstUnit))
      else if op = OP_CONST_BOOL then Some (p_bind cur_u8 (\<lambda>b. p_ret (IConst (ConstBool (b \<noteq> 0)))))
      else if op = OP_CONST_INT then Some (p_bind cur_u64 (\<lambda>x. p_ret (IConst (ConstInt x))))
      else if op = OP_CONST_FLOAT then Some (p_bind cur_u64 (\<lambda>x. p_ret (IConst (ConstFloat x))))
      else if op = OP_CONST_CHAR then Some (p_bind cur_u32 (\<lambda>x. p_ret (IConst (ConstChar x))))
      else if op = OP_CONST_STR then Some (p_bind cur_u32 (\<lambda>x. p_ret (IConst (ConstStr x))))
      else if op = OP_CONST_BYTES then Some (p_bind cur_u32 (\<lambda>x. p_ret (IConst (ConstBytes x))))
      else if op = OP_NUMERIC then Some (p_bind cur_u8 (\<lambda>tag. p_bind (p_opt (BadOpcode OP_NUMERIC) (numeric_from_tag tag)) (\<lambda>x. p_ret (Numeric x))))
      else if op = OP_LOAD_LOCAL then Some (p_bind cur_u32 (\<lambda>x. p_ret (IConst (LoadLocal x))))
      else if op = OP_STORE_LOCAL then Some (p_bind cur_u32 (\<lambda>x. p_ret (IConst (StoreLocal x))))
      else if op = OP_POP then Some (p_ret (IConst Pop))
      else if op = OP_ADD then Some (p_ret (IArith Add))
      else if op = OP_SUB then Some (p_ret (IArith Sub))
      else if op = OP_MUL then Some (p_ret (IArith Mul))
      else if op = OP_DIV then Some (p_ret (IArith Div))
      else if op = OP_REM then Some (p_ret (IArith Rem))
      else if op = OP_NEG then Some (p_ret (IArith Neg))
      else if op = OP_NOT then Some (p_ret (IArith NotBool))
      else if op = OP_LT_INT then Some (p_ret (IArith LtInt))
      else if op = OP_LE_INT then Some (p_ret (IArith LeInt))
      else if op = OP_GT_INT then Some (p_ret (IArith GtInt))
      else if op = OP_GE_INT then Some (p_ret (IArith GeInt))
      else if op = OP_EQ_INT then Some (p_ret (IArith EqInt))
      else if op = OP_NE_INT then Some (p_ret (IArith NeInt))
      else if op = OP_EQ_BOOL then Some (p_ret (IArith EqBool))
      else if op = OP_NE_BOOL then Some (p_ret (IArith NeBool))
      else None)"

definition decode_text :: "u8 \<Rightarrow> Instr reader option" where
  "decode_text op =
     (if op = OP_EQ_STR then Some (p_ret (Native (VStr EqStr)))
      else if op = OP_NE_STR then Some (p_ret (Native (VStr NeStr)))
      else if op = OP_STR_BYTE_LEN then Some (p_ret (Native (VStr StrByteLen)))
      else if op = OP_STR_CHAR_COUNT then Some (p_ret (Native (VStr StrCharCount)))
      else if op = OP_STR_CONCAT then Some (p_ret (Native (VStr StrConcat)))
      else if op = OP_STR_STARTS_WITH then Some (p_ret (Native (VStr StrStartsWith)))
      else if op = OP_STR_ENDS_WITH then Some (p_ret (Native (VStr StrEndsWith)))
      else if op = OP_STR_CONTAINS then Some (p_ret (Native (VStr StrContains)))
      else if op = OP_STR_FIND_INDEX then Some (p_ret (Native (VStr StrFindIndex)))
      else if op = OP_TEXT_FIND_BYTE_INDEX then Some (p_ret (Native (VStr TextFindByteIndex)))
      else if op = OP_TEXT_AT_BYTE then Some (p_ret (Native (VStr TextAtByte)))
      else if op = OP_TEXT_TRIM then Some (p_ret (Native (VText TextTrim)))
      else if op = OP_TEXT_TRIM_START then Some (p_ret (Native (VText TextTrimStart)))
      else if op = OP_TEXT_TRIM_END then Some (p_ret (Native (VText TextTrimEnd)))
      else if op = OP_TEXT_TO_LOWER_ASCII then Some (p_ret (Native (VText TextToLowerAscii)))
      else if op = OP_TEXT_TO_UPPER_ASCII then Some (p_ret (Native (VText TextToUpperAscii)))
      else if op = OP_TEXT_REPLACE then Some (p_ret (Native (VText TextReplace)))
      else if op = OP_TEXT_PARSE_INT_STATUS then Some (p_ret (Native (VText TextParseIntStatus)))
      else if op = OP_TEXT_PARSE_INT_VALUE then Some (p_ret (Native (VText TextParseIntValue)))
      else if op = OP_EXTENSION then Some (decode_extension)
      else if op = OP_BYTES_ENDS_WITH then Some (p_ret (Native (VBytes BytesEndsWith)))
      else if op = OP_BYTES_CONTAINS then Some (p_ret (Native (VBytes BytesContains)))
      else if op = OP_TEXT_SPLIT then Some (p_ret (Native (VText TextSplit)))
      else if op = OP_TEXT_LINES then Some (p_ret (Native (VText TextLines)))
      else if op = OP_TEXT_AT then Some (p_ret (Native (VText TextAt)))
      else if op = OP_TEXT_SLICE then Some (p_ret (Native (VText TextSlice)))
      else if op = OP_TEXT_IS_BOUNDARY then Some (p_ret (Native (VText TextIsBoundary)))
      else if op = OP_TEXT_SLICE_BYTES then Some (p_ret (Native (VText TextSliceBytes)))
      else if op = OP_TEXT_BYTES then Some (p_ret (Native (VText TextBytes)))
      else if op = OP_TEXT_LT then Some (p_ret (Native (VChar TextLt)))
      else if op = OP_TEXT_LE then Some (p_ret (Native (VChar TextLe)))
      else if op = OP_TEXT_GT then Some (p_ret (Native (VChar TextGt)))
      else if op = OP_TEXT_GE then Some (p_ret (Native (VChar TextGe)))
      else if op = OP_TEXT_TO_STRING then Some (p_ret (Native (VChar TextToString)))
      else if op = OP_CHAR_CODEPOINT then Some (p_ret (Native (VChar CharCodepoint)))
      else if op = OP_CHAR_UTF8_LEN then Some (p_ret (Native (VChar CharUtf8Len)))
      else if op = OP_EQ_CHAR then Some (p_ret (Native (VChar EqChar)))
      else if op = OP_NE_CHAR then Some (p_ret (Native (VChar NeChar)))
      else if op = OP_LT_CHAR then Some (p_ret (Native (VChar LtChar)))
      else if op = OP_LE_CHAR then Some (p_ret (Native (VChar LeChar)))
      else if op = OP_GT_CHAR then Some (p_ret (Native (VChar GtChar)))
      else if op = OP_GE_CHAR then Some (p_ret (Native (VChar GeChar)))
      else None)"

definition decode_calls :: "u8 \<Rightarrow> Instr reader option" where
  "decode_calls op =
     (if op = OP_EQ_REF then Some (p_ret (IObject EqRef))
      else if op = OP_EQ_VALUE then Some (p_ret (IObject EqValue))
      else if op = OP_NE_VALUE then Some (p_ret (IObject NeValue))
      else if op = OP_NE_REF then Some (p_ret (IObject NeRef))
      else if op = OP_CALL then Some (p_bind cur_u32 (\<lambda>x. p_ret (ICall (Call x))))
      else if op = OP_CALL_G then Some (p_bind cur_u32 (\<lambda>func. p_bind cur_u32 (\<lambda>app. p_ret (ICall (CallG func app)))))
      else if op = OP_CALL_VIRTUAL then Some (p_bind cur_u32 (\<lambda>selector. p_bind cur_u32 (\<lambda>argc. p_ret (ICall (CallVirtual selector argc)))))
      else if op = OP_CALL_VIRTUAL_G then Some (p_bind cur_u32 (\<lambda>selector. p_bind cur_u32 (\<lambda>argc. p_bind cur_u32 (\<lambda>app. p_ret (ICall (CallVirtualG selector argc app))))))
      else if op = OP_CALL_INTERFACE then Some (p_bind cur_u32 (\<lambda>site. p_bind cur_u32 (\<lambda>recv_ty. p_bind decode_optional_index (\<lambda>app. p_ret (ICall (CallInterface site recv_ty app))))))
      else if op = OP_CALL_VALUE then Some (p_bind cur_u32 (\<lambda>argc. p_ret (ICall (CallValue argc))))
      else if op = OP_MAKE_CLOSURE then Some (p_bind cur_u32 (\<lambda>func. p_bind cur_u32 (\<lambda>captures. p_ret (ICall (MakeClosure func captures)))))
      else if op = OP_MAKE_CALLBACK then Some (p_bind cur_u32 (\<lambda>func. p_bind cur_u32 (\<lambda>captures. p_ret (Extended (XValue (MakeCallback func captures))))))
      else if op = OP_AS_CALLBACK then Some (p_ret (Extended (XValue AsCallback)))
      else if op = OP_LOAD_CAPTURE then Some (p_bind cur_u32 (\<lambda>x. p_ret (ICall (LoadCapture x))))
      else if op = OP_NEW then Some (p_bind cur_u32 (\<lambda>x. p_ret (IObject (New x))))
      else if op = OP_NEW_G then Some (p_bind cur_u32 (\<lambda>cls. p_bind cur_u32 (\<lambda>app. p_ret (IObject (NewG cls app)))))
      else if op = OP_LOAD_FIELD then Some (p_bind cur_u32 (\<lambda>x. p_ret (IObject (LoadField x))))
      else if op = OP_STORE_FIELD then Some (p_bind cur_u32 (\<lambda>x. p_ret (IObject (StoreField x))))
      else if op = OP_TUPLE_NEW then Some (p_bind cur_u32 (\<lambda>ty. p_bind cur_u32 (\<lambda>count. p_ret (IObject (TupleNew ty count)))))
      else if op = OP_TUPLE_GET then Some (p_bind cur_u32 (\<lambda>x. p_ret (IObject (TupleGet x))))
      else if op = OP_IS_TYPE then Some (p_bind cur_u32 (\<lambda>x. p_ret (IObject (IsType x))))
      else if op = OP_CAST_TYPE then Some (p_bind cur_u32 (\<lambda>x. p_ret (IObject (CastType x))))
      else None)"

definition decode_collections :: "u8 \<Rightarrow> Instr reader option" where
  "decode_collections op =
     (if op = OP_LIST_NEW then Some (p_bind cur_u32 (\<lambda>ty. p_bind cur_u32 (\<lambda>count. p_ret (IColl (ListNew ty count)))))
      else if op = OP_LIST_LEN then Some (p_ret (IColl ListLen))
      else if op = OP_LIST_AT then Some (p_ret (IColl ListAt))
      else if op = OP_LIST_PUSH then Some (p_ret (IColl ListPush))
      else if op = OP_MAP_NEW then Some (p_bind cur_u32 (\<lambda>ty. p_bind cur_u32 (\<lambda>count. p_ret (IColl (MapNew ty count)))))
      else if op = OP_MAP_LEN then Some (p_ret (IColl MapLen))
      else if op = OP_MAP_HAS then Some (p_ret (IColl MapHas))
      else if op = OP_MAP_AT then Some (p_ret (IColl MapAt))
      else if op = OP_MAP_PUT then Some (p_bind cur_u32 (\<lambda>ty. p_bind cur_flag (\<lambda>discard. p_ret (IColl (MapPut ty discard)))))
      else if op = OP_OPTION_SOME then Some (p_bind cur_u32 (\<lambda>ty. p_ret (Extended (XValue (OptionSome ty)))))
      else if op = OP_OPTION_NONE then Some (p_bind cur_u32 (\<lambda>ty. p_ret (Extended (XValue (OptionNone ty)))))
      else if op = OP_OPTION_PAYLOAD then Some (p_bind cur_u32 (\<lambda>ty. p_ret (Extended (XValue (OptionPayload ty)))))
      else if op = OP_LIST_GET then Some (p_bind cur_u32 (\<lambda>ty. p_ret (Extended (XList (ListGet ty)))))
      else if op = OP_MAP_GET then Some (p_bind cur_u32 (\<lambda>ty. p_ret (Extended (XMap (MapGet ty)))))
      else if op = OP_LIST_EPOCH then Some (p_ret (Extended (XList ListEpoch)))
      else if op = OP_LIST_ITER_LEN then Some (p_ret (Extended (XList ListIterLen)))
      else if op = OP_MAP_EPOCH then Some (p_ret (Extended (XMap MapEpoch)))
      else if op = OP_MAP_ITER_LEN then Some (p_ret (Extended (XMap MapIterLen)))
      else if op = OP_MAP_NEXT_INDEX then Some (p_ret (Extended (XMap MapNextIndex)))
      else if op = OP_SEAL_INSTANCE then Some (p_ret (Extended (XValue SealInstance)))
      else if op = OP_MAP_KEY_AT then Some (p_ret (Extended (XMap MapKeyAt)))
      else if op = OP_MAP_VALUE_AT then Some (p_ret (Extended (XMap MapValueAt)))
      else if op = OP_LIST_CAPACITY then Some (p_ret (Extended (XList ListCapacity)))
      else if op = OP_LIST_SET then Some (p_ret (Extended (XList ListSet)))
      else if op = OP_LIST_POP then Some (p_bind cur_u32 (\<lambda>ty. p_ret (Extended (XList (ListPop ty)))))
      else if op = OP_LIST_INSERT then Some (p_ret (Extended (XList ListInsert)))
      else if op = OP_LIST_REMOVE then Some (p_ret (Extended (XList ListRemove)))
      else if op = OP_LIST_SWAP_REMOVE then Some (p_ret (Extended (XList ListSwapRemove)))
      else if op = OP_LIST_RESERVE then Some (p_ret (Extended (XList ListReserve)))
      else if op = OP_LIST_TRUNCATE then Some (p_ret (Extended (XList ListTruncate)))
      else if op = OP_LIST_CONTAINS then Some (p_ret (Extended (XList ListContains)))
      else if op = OP_LIST_REORDER then Some (p_ret (Extended (XList ListReorder)))
      else if op = OP_MAP_REMOVE then Some (p_bind cur_u32 (\<lambda>ty. p_ret (Extended (XMap (MapRemove ty)))))
      else if op = OP_MAP_CLEAR then Some (p_ret (Extended (XMap MapClear)))
      else if op = OP_MAP_RESERVE then Some (p_ret (Extended (XMap MapReserve)))
      else if op = OP_CALL_SLOT then Some (p_bind cur_u32 (\<lambda>slot. p_bind decode_optional_index (\<lambda>app. p_ret (Extended (XSlot (CallSlot slot app))))))
      else if op = OP_NEW_SLOT then Some (p_bind cur_u32 (\<lambda>slot. p_bind decode_optional_index (\<lambda>app. p_ret (Extended (XSlot (NewSlot slot app))))))
      else if op = OP_LOAD_SLOT then Some (p_bind cur_u32 (\<lambda>slot. p_ret (Extended (XSlot (LoadSlot slot)))))
      else if op = OP_SEND_SLOT then Some (p_bind cur_u32 (\<lambda>slot. p_ret (Extended (XSlot (SendSlot slot)))))
      else None)"

definition decode_syntax :: "u8 \<Rightarrow> Instr reader option" where
  "decode_syntax op =
     (if op = OP_SYNTAX_TREE_ROOT then Some (p_ret (Extended (XSyntax SyntaxTreeRoot)))
      else if op = OP_SYNTAX_KIND then Some (p_ret (Extended (XSyntax SyntaxKind)))
      else if op = OP_SYNTAX_CATEGORY then Some (p_ret (Extended (XSyntax SyntaxCategory)))
      else if op = OP_SYNTAX_RANGE_START then Some (p_ret (Extended (XSyntax SyntaxRangeStart)))
      else if op = OP_SYNTAX_RANGE_END then Some (p_ret (Extended (XSyntax SyntaxRangeEnd)))
      else if op = OP_SYNTAX_TEXT then Some (p_ret (Extended (XSyntax SyntaxText)))
      else if op = OP_SYNTAX_CHILDREN then Some (p_ret (Extended (XSyntax SyntaxChildren)))
      else if op = OP_SYNTAX_DETACH then Some (p_ret (Extended (XSyntax SyntaxDetach)))
      else if op = OP_DYN_PACK then Some (p_bind cur_u32 (\<lambda>ty. p_ret (Extended (XSlot (DynPack ty)))))
      else if op = OP_DYN_RENDER then Some (p_ret (Extended (XSlot DynRender)))
      else if op = OP_SYNTAX_BUILD_TOKEN then Some (p_ret (Extended (XSyntax SyntaxBuildToken)))
      else if op = OP_SYNTAX_BUILD_TRIVIA then Some (p_ret (Extended (XSyntax SyntaxBuildTrivia)))
      else if op = OP_SYNTAX_BUILD_NODE then Some (p_ret (Extended (XSyntax SyntaxBuildNode)))
      else if op = OP_SYNTAX_TO_TREE then Some (p_ret (Extended (XSyntax SyntaxToTree)))
      else if op = OP_FUNCTION_CODE then Some (p_bind cur_u32 (\<lambda>func. p_ret (Extended (XCode (FunctionCode func)))))
      else if op = OP_CLASS_CODE then Some (p_bind cur_u32 (\<lambda>cls. p_ret (Extended (XCode (ClassCode cls)))))
      else if op = OP_CODE_SOURCE then Some (p_bind cur_u32 (\<lambda>ty. p_ret (Extended (XCode (CodeSource ty)))))
      else if op = OP_CODE_DEFINITION then Some (p_ret (Extended (XCode CodeDefinition)))
      else if op = OP_FAULT_SITE then Some (p_bind cur_u32 (\<lambda>ty. p_ret (Extended (XCode (FaultSite ty)))))
      else if op = OP_FAULT_TRACE then Some (p_bind cur_u32 (\<lambda>ty. p_ret (Extended (XCode (FaultTrace ty)))))
      else if op = OP_MAP_PROBE then Some (p_ret (Extended (XProbe MapProbe)))
      else if op = OP_MAP_PROBE_FOUND then Some (p_ret (Extended (XProbe MapProbeFound)))
      else if op = OP_MAP_PROBE_KEY then Some (p_ret (Extended (XProbe MapProbeKey)))
      else if op = OP_MAP_PROBE_VALUE then Some (p_ret (Extended (XProbe MapProbeValue)))
      else if op = OP_MAP_PROBE_SET_VALUE then Some (p_ret (Extended (XProbe MapProbeSetValue)))
      else if op = OP_MAP_PROBE_REMOVE then Some (p_ret (Extended (XProbe MapProbeRemove)))
      else if op = OP_MAP_INSERT_HASHED then Some (p_ret (Extended (XProbe MapInsertHashed)))
      else if op = OP_MAP_WRITE_GUARD then Some (p_ret (Extended (XProbe MapWriteGuard)))
      else None)"

definition decode_buffers :: "u8 \<Rightarrow> Instr reader option" where
  "decode_buffers op =
     (if op = OP_SB_NEW then Some (p_ret (Native (VBuilder SbNew)))
      else if op = OP_SB_APPEND_STR then Some (p_ret (Native (VBuilder SbAppendStr)))
      else if op = OP_SB_APPEND_INT then Some (p_ret (Native (VBuilder SbAppendInt)))
      else if op = OP_SB_APPEND_BOOL then Some (p_ret (Native (VBuilder SbAppendBool)))
      else if op = OP_SB_BUILD then Some (p_ret (Native (VBuilder SbBuild)))
      else if op = OP_SB_LEN then Some (p_ret (Native (VBuilder SbLen)))
      else if op = OP_SB_CLEAR then Some (p_ret (Native (VBuilder SbClear)))
      else if op = OP_BB_NEW then Some (p_ret (Native (VBuffer BbNew)))
      else if op = OP_BB_APPEND then Some (p_ret (Native (VBuffer BbAppend)))
      else if op = OP_BB_LEN then Some (p_ret (Native (VBuffer BbLen)))
      else if op = OP_BB_BUILD then Some (p_ret (Native (VBuffer BbBuild)))
      else if op = OP_SB_APPEND_CHAR then Some (p_ret (Native (VBuilder SbAppendChar)))
      else if op = OP_SB_BYTE_LEN then Some (p_ret (Native (VBuilder SbByteLen)))
      else if op = OP_SB_FINISH then Some (p_ret (Native (VBuilder SbFinish)))
      else if op = OP_BB_FINISH then Some (p_ret (Native (VBuffer BbFinish)))
      else if op = OP_BYTES_COMPACT then Some (p_ret (Native (VHash BytesCompact)))
      else if op = OP_BYTES_TEXT_VIEW then Some (p_ret (Native (VHash BytesTextView)))
      else if op = OP_TEXT_HASH then Some (p_ret (Native (VHash TextHash)))
      else if op = OP_BYTES_HASH then Some (p_ret (Native (VHash BytesHash)))
      else if op = OP_HASH_COMBINE then Some (p_ret (Native (VHash HashCombine)))
      else if op = OP_HASH_UNORDERED_COMBINE then Some (p_ret (Native (VHash HashUnorderedCombine)))
      else if op = OP_LT_BYTES then Some (p_ret (Native (VHash LtBytes)))
      else if op = OP_LE_BYTES then Some (p_ret (Native (VHash LeBytes)))
      else if op = OP_GT_BYTES then Some (p_ret (Native (VHash GtBytes)))
      else if op = OP_GE_BYTES then Some (p_ret (Native (VHash GeBytes)))
      else if op = OP_BB_EXTEND then Some (p_ret (Native (VBuffer BbExtend)))
      else if op = OP_BB_RESERVE then Some (p_ret (Native (VBuffer BbReserve)))
      else if op = OP_BB_CLEAR then Some (p_ret (Native (VBuffer BbClear)))
      else if op = OP_BB_AT then Some (p_ret (Native (VBuffer BbAt)))
      else if op = OP_BB_FIND_FROM then Some (p_ret (Native (VBuffer BbFindFrom)))
      else if op = OP_BYTES_NEW then Some (p_ret (Native (VBytes BytesNew)))
      else if op = OP_BYTES_LEN then Some (p_ret (Native (VBytes BytesLen)))
      else if op = OP_BYTES_TEXT then Some (p_ret (Native (VBytes BytesText)))
      else if op = OP_BYTES_AT then Some (p_ret (Native (VBytes BytesAt)))
      else if op = OP_BYTES_GET then Some (p_ret (Native (VBytes BytesGet)))
      else if op = OP_BYTES_SLICE then Some (p_ret (Native (VBytes BytesSlice)))
      else if op = OP_BYTES_CONCAT then Some (p_ret (Native (VBytes BytesConcat)))
      else if op = OP_BYTES_STARTS_WITH then Some (p_ret (Native (VBytes BytesStartsWith)))
      else if op = OP_BYTES_FIND_INDEX then Some (p_ret (Native (VBytes BytesFindIndex)))
      else if op = OP_BYTES_HEX then Some (p_ret (Native (VBytes BytesHex)))
      else if op = OP_BYTES_IS_UTF8 then Some (p_ret (Native (VBytes BytesIsUtf8)))
      else if op = OP_EQ_BYTES then Some (p_ret (Native (VHash EqBytes)))
      else if op = OP_NE_BYTES then Some (p_ret (Native (VHash NeBytes)))
      else None)"

definition decode_control :: "u8 \<Rightarrow> Instr reader option" where
  "decode_control op =
     (if op = OP_FREEZE then Some (p_ret (IObject Freeze))
      else if op = OP_DIGEST then Some (p_bind cur_u32 (\<lambda>ty. p_ret (IObject (Digest ty))))
      else if op = OP_EQ_DIGEST then Some (p_ret (IObject EqDigest))
      else if op = OP_NE_DIGEST then Some (p_ret (IObject NeDigest))
      else if op = OP_JUMP then Some (p_bind cur_u32 (\<lambda>x. p_ret (IControl (Jump x))))
      else if op = OP_JUMP_IF_FALSE then Some (p_bind cur_u32 (\<lambda>x. p_ret (IControl (JumpIfFalse x))))
      else if op = OP_JUMP_IF_TRUE then Some (p_bind cur_u32 (\<lambda>x. p_ret (IControl (JumpIfTrue x))))
      else if op = OP_RETURN then Some (p_ret (IControl Return))
      else if op = OP_PERFORM then Some (p_bind cur_u32 (\<lambda>op. p_bind cur_u32 (\<lambda>argc. p_bind cur_u32 (\<lambda>reply_ty. p_ret (IEffect (Perform op argc reply_ty))))))
      else if op = OP_PERFORM_VALUE then Some (p_bind cur_u32 (\<lambda>argc. p_bind cur_u32 (\<lambda>reply_ty. p_ret (IEffect (PerformValue argc reply_ty)))))
      else if op = OP_OP_CONST then Some (p_bind cur_u32 (\<lambda>x. p_ret (IEffect (OpConst x))))
      else if op = OP_PREPARE_WAIT then Some (p_bind cur_u32 (\<lambda>op. p_bind cur_u32 (\<lambda>argc. p_bind cur_u32 (\<lambda>reply_ty.
          p_bind (p_opt BadLength (prepare_wait op argc reply_ty)) (\<lambda>instruction. p_ret (Extended instruction))))))
      else if op = OP_TABLE_EDIT then Some (p_bind cur_u32 (\<lambda>action. p_bind cur_u32 (\<lambda>kind. p_bind cur_u32 (\<lambda>slot. p_ret (IEffect (TableEdit action kind slot))))))
      else if op = OP_AS_CALL then Some (p_bind cur_u32 (\<lambda>op. p_bind cur_u32 (\<lambda>ty. p_ret (IEffect (AsCall op ty)))))
      else if op = OP_CALL_ARGS then Some (p_ret (IEffect CallArgs))
      else if op = OP_FAULT_CODE then Some (p_ret (IEffect FaultCodeOf))
      else if op = OP_FAULT_DENIED then Some (p_ret (IEffect FaultDenied))
      else if op = OP_RAISE_USER_PANIC then Some (p_ret (IControl RaiseUserPanic))
      else if op = OP_RAISE_ASSERTION_FAILED then Some (p_ret (IControl RaiseAssertionFailed))
      else if op = OP_RAISE_FAULT then Some (p_ret (IControl RaiseFault))
      else if op = OP_REQUEST_OP then Some (p_ret (IEffect RequestOp))
      else if op = OP_UNREACHABLE then Some (p_ret (IControl Unreachable))
      else None)"

definition decode_instr :: "Instr reader" where
  "decode_instr = p_bind cur_u8 (\<lambda>op.
      (case decode_scalars op of Some p \<Rightarrow> p | None \<Rightarrow>
      (case decode_text op of Some p \<Rightarrow> p | None \<Rightarrow>
      (case decode_calls op of Some p \<Rightarrow> p | None \<Rightarrow>
      (case decode_collections op of Some p \<Rightarrow> p | None \<Rightarrow>
      (case decode_syntax op of Some p \<Rightarrow> p | None \<Rightarrow>
      (case decode_buffers op of Some p \<Rightarrow> p | None \<Rightarrow>
      (case decode_control op of Some p \<Rightarrow> p | None \<Rightarrow>
      p_err (BadOpcode op)))))))))"

end
