(* ===== verification/Codec_Correct.thy ===== *)
theory Codec_Correct
  imports Codec
begin

text \<open>
  The instruction codec is a round trip: what \<open>encode_instr\<close> writes,
  \<open>decode_instr\<close> reads back at any position of a byte stream, and it stops exactly
  behind it. The opcodes are a prefix code, an input that ends early is
  reported as truncated, and the packed operands keep their fields.
\<close>

unbundle bit_operations_syntax

section \<open>Little-endian bytes\<close>

lemma length_le_bytes [simp]: "length (le_bytes n w) = n"
  by (induction n arbitrary: w) auto

lemma from_le_bytes_le_bytes:
  "(from_le_bytes (le_bytes n w) :: 'a::len word) = take_bit (8 * n) (w :: 'a::len word)"
proof (induction n arbitrary: w)
  case (Suc n)
  have "ucast (ucast w :: u8) OR push_bit 8 (take_bit (8 * n) (drop_bit 8 w)) = take_bit (8 * Suc n) w"
    by (rule bit_word_eqI) (auto simp: bit_simps)
  then show ?case using Suc by simp
qed simp

lemma from_le_bytes_u32: "from_le_bytes (le_bytes 4 w) = (w :: u32)"
  by (simp add: from_le_bytes_le_bytes take_bit_word_eq_self)

lemma from_le_bytes_u64: "from_le_bytes (le_bytes 8 w) = (w :: u64)"
  by (simp add: from_le_bytes_le_bytes take_bit_word_eq_self)

section \<open>Reading at a position\<close>

definition cursor_at :: "u8 list \<Rightarrow> u8 list \<Rightarrow> Cursor" where
  "cursor_at done rest = \<lparr>cur_bytes = done @ rest, cur_pos = length done\<rparr>"

named_theorems read \<open>what a reader gives at a position\<close>

lemma p_bind_apply [read]: "p_bind p f c = (case p c of Inl e \<Rightarrow> Inl e | Inr (a, c') \<Rightarrow> f a c')"
  by (simp add: p_bind_def)

lemma p_ret_apply [read]: "p_ret a c = Inr (a, c)"
  by (simp add: p_ret_def)

lemma p_err_apply [read]: "p_err e c = Inl e"
  by (simp add: p_err_def)

lemma p_opt_simps [read]: "p_opt e (Some a) = p_ret a" "p_opt e None = p_err e"
  by (simp_all add: p_opt_def)

lemma cur_take_at: "cur_take (length xs) (cursor_at done (xs @ rest)) = Inr (xs, cursor_at (done @ xs) rest)"
  by (simp add: cur_take_def cursor_at_def Let_def)

lemma cur_u8_at [read]: "cur_u8 (cursor_at done (b # rest)) = Inr (b, cursor_at (done @ [b]) rest)"
  using cur_take_at [of "[b]" "done" rest] by (simp add: cur_u8_def p_bind_def p_ret_def)

lemma cur_u32_at [read]:
  "cur_u32 (cursor_at done (write_u32 v @ rest)) = Inr (v, cursor_at (done @ write_u32 v) rest)"
  "cur_u32 (cursor_at done (write_u32 v)) = Inr (v, cursor_at (done @ write_u32 v) [])"
  using cur_take_at [of "write_u32 v" "done" rest] cur_take_at [of "write_u32 v" "done" "[]"]
  by (simp_all add: cur_u32_def p_bind_def p_ret_def write_u32_def from_le_bytes_u32)

lemma cur_u64_at [read]:
  "cur_u64 (cursor_at done (le_bytes 8 v @ rest)) = Inr (v, cursor_at (done @ le_bytes 8 v) rest)"
  using cur_take_at [of "le_bytes 8 v" "done" rest]
  by (simp add: cur_u64_def p_bind_def p_ret_def from_le_bytes_u64)

lemma cur_flag_at [read]:
  "cur_flag (cursor_at done (of_bool b # rest)) = Inr (b, cursor_at (done @ [of_bool b]) rest)"
  by (cases b) (simp_all add: cur_flag_def read)

lemma decode_optional_index_at [read]:
  "decode_optional_index (cursor_at done (encode_optional_index v @ rest)) =
     Inr (v, cursor_at (done @ encode_optional_index v) rest)"
  using cur_flag_at [of "done" False rest] cur_flag_at [of "done" True "write_u32 v @ rest"]
  by (auto simp: decode_optional_index_def encode_optional_index_def read)

section \<open>Packed operands\<close>

lemma field_iff: "take_bit n v = v \<longleftrightarrow> unat (v :: u32) < 2 ^ n"
  by (simp add: word_unat_eq_iff unsigned_take_bit_eq take_bit_nat_eq_self_iff)

lemma field_16: "\<not> (65535 :: u32) < v \<Longrightarrow> take_bit 16 v = v"
  by (simp add: field_iff word_less_nat_alt)

lemma field_29: "\<not> (536870911 :: u32) < v \<Longrightarrow> take_bit 29 v = v"
  by (simp add: field_iff word_less_nat_alt)

lemma and_16: "v AND (65535 :: u32) = take_bit 16 v"
  by (simp add: take_bit_eq_mask mask_eq_exp_minus_1)

lemma and_29: "v AND (536870911 :: u32) = take_bit 29 v"
  by (simp add: take_bit_eq_mask mask_eq_exp_minus_1)

lemma or_push_low:
  fixes lo hi :: u32
  assumes "take_bit n lo = lo"
  shows "take_bit n (lo OR push_bit n hi) = lo"
proof (rule bit_word_eqI)
  fix i
  have "bit lo i = (i < n \<and> bit lo i)" using assms by (metis bit_take_bit_iff)
  then show "bit (take_bit n (lo OR push_bit n hi)) i = bit lo i" by (auto simp: bit_simps)
qed

lemma or_push_high:
  fixes lo hi :: u32
  assumes "take_bit n lo = lo" and "take_bit (32 - n) hi = hi"
  shows "drop_bit n (lo OR push_bit n hi) = hi"
proof (rule bit_word_eqI)
  fix i
  have "bit lo (n + i) = False" using assms(1) by (metis bit_take_bit_iff not_add_less1)
  moreover have "bit hi i = (i < 32 - n \<and> bit hi i)" using assms(2) by (metis bit_take_bit_iff)
  ultimately show "bit (drop_bit n (lo OR push_bit n hi)) i = bit hi i"
    by (auto simp: bit_simps)
qed

lemma split_field: "take_bit n w OR push_bit n (drop_bit n w) = (w :: u32)"
proof (rule bit_word_eqI)
  fix i
  assume "i < LENGTH(32)"
  then show "bit (take_bit n w OR push_bit n (drop_bit n w)) i = bit w i"
    by (cases "i < n") (auto simp: bit_simps)
qed

lemma drop_16_field: "\<not> (65535 :: u32) < drop_bit 16 v"
proof -
  have "take_bit 16 (drop_bit 16 v) = drop_bit 16 v" by (rule bit_word_eqI) (auto simp: bit_simps dest: bit_imp_le_length)
  then show ?thesis by (simp add: field_iff word_less_nat_alt)
qed

lemma take_16_field: "\<not> (65535 :: u32) < take_bit 16 v"
proof -
  have "take_bit 16 (take_bit 16 v) = take_bit 16 v" by simp
  then show ?thesis unfolding field_iff by (simp add: word_less_nat_alt)
qed

lemma wait_parts_roundtrip: "case wait_parts v of (op, argc) \<Rightarrow> prepare_wait op argc r = Some (XSlot (PrepareWait v r))"
  using drop_16_field [of v] take_16_field [of v] split_field [of 16 v]
  by (simp add: wait_parts_def prepare_wait_def WAIT_FIELD_MAX_def WAIT_FIELD_BITS_def and_16)

lemma reflection_bases_roundtrip:
  "reflection_bases_new (reflection_type_base b) (reflection_effect_base b) = Some b"
  using drop_16_field take_16_field split_field [of 16]
  by (cases b) (simp add: reflection_bases_new_def and_16)

text \<open>The patterns that \<open>ReflectionPattern::new\<close> can build: the field is private.\<close>

fun reflection_pattern_ok :: "ReflectionPattern \<Rightarrow> bool" where
  "reflection_pattern_ok (ReflectionPattern raw) \<longleftrightarrow> drop_bit REFLECTION_FUNCTION_BITS raw \<le> 5"

lemma reflection_kind_tag_inverse: "reflection_kind_from_tag (reflection_kind_tag k) = Some k"
  by (cases k) (simp_all add: reflection_kind_from_tag_def)

lemma small_word: "(k :: u32) \<le> 5 \<Longrightarrow> k \<in> {0, 1, 2, 3, 4, 5}"
proof -
  assume "k \<le> 5"
  then have "unat k \<in> {0, 1, 2, 3, 4, 5}" by (auto simp: word_le_nat_alt)
  then show ?thesis by (auto simp: word_unat_eq_iff)
qed

lemma reflection_kind_raw:
  "drop_bit 29 raw \<le> (5 :: u32) \<Longrightarrow>
    ucast (reflection_kind_tag (reflection_pattern_kind (ReflectionPattern raw))) = drop_bit 29 raw"
  using small_word [of "drop_bit 29 raw"] by (auto simp: REFLECTION_FUNCTION_BITS_def)

lemma REFLECTION_FUNCTION_MASK_eq: "REFLECTION_FUNCTION_MASK = 536870911"
  by (simp add: REFLECTION_FUNCTION_MASK_def REFLECTION_FUNCTION_BITS_def)

lemma take_29_field: "\<not> (536870911 :: u32) < take_bit 29 v"
proof -
  have "take_bit 29 (take_bit 29 v) = take_bit 29 v" by simp
  then show ?thesis unfolding field_iff by (simp add: word_less_nat_alt)
qed

lemma reflection_pattern_roundtrip:
  assumes "reflection_pattern_ok p"
  shows "reflection_pattern_new (reflection_pattern_kind p) (reflection_pattern_function p) = Some p"
proof (cases p)
  case (ReflectionPattern raw)
  have k: "drop_bit 29 raw \<le> (5 :: u32)"
    using assms by (simp add: ReflectionPattern REFLECTION_FUNCTION_BITS_def)
  show ?thesis
    using reflection_kind_raw [OF k] take_29_field [of raw] split_field [of 29 raw]
    by (simp add: ReflectionPattern reflection_pattern_new_def REFLECTION_FUNCTION_MASK_eq and_29
        REFLECTION_FUNCTION_BITS_def or.commute del: reflection_pattern_kind.simps)
qed

section \<open>Every instruction is read back\<close>

lemma tag_IntOp_inverse: "numeric_from_tag (tag_IntOp x) = Some (NInt x)"
  by (cases x) (simp_all add: numeric_from_tag_def numeric_from_tag_low_def numeric_from_tag_high_def)

lemma tag_FloatOp_inverse: "numeric_from_tag (tag_FloatOp x) = Some (NFloat x)"
  by (cases x) (simp_all add: numeric_from_tag_def numeric_from_tag_low_def numeric_from_tag_high_def)

lemma tag_FloatTestOp_inverse: "numeric_from_tag (tag_FloatTestOp x) = Some (NFloatTest x)"
  by (cases x) (simp_all add: numeric_from_tag_def numeric_from_tag_low_def numeric_from_tag_high_def)

lemma tag_NumericBufferOp_inverse: "numeric_from_tag (tag_NumericBufferOp x) = Some (NBuffer x)"
  by (cases x) (simp_all add: numeric_from_tag_def numeric_from_tag_low_def numeric_from_tag_high_def)

lemma tag_ExpOp_inverse: "numeric_from_tag (tag_ExpOp x) = Some (NExp x)"
  by (cases x) (simp_all add: numeric_from_tag_def numeric_from_tag_low_def numeric_from_tag_high_def)

lemma tag_TrigOp_inverse: "numeric_from_tag (tag_TrigOp x) = Some (NTrig x)"
  by (cases x) (simp_all add: numeric_from_tag_def numeric_from_tag_low_def numeric_from_tag_high_def)

lemmas tag_inverse = tag_IntOp_inverse tag_FloatOp_inverse tag_FloatTestOp_inverse tag_NumericBufferOp_inverse tag_ExpOp_inverse tag_TrigOp_inverse

lemma numeric_tag_inverse: "numeric_from_tag (numeric_tag x) = Some x"
  by (cases x) (simp_all add: tag_inverse)

lemmas decode_defs = decode_instr_def decode_scalars_def decode_text_def decode_calls_def decode_collections_def decode_syntax_def decode_buffers_def decode_control_def
  decode_extension_def decode_extension_text_def decode_extension_code_def

lemma decode_ConstOp:
  "decode_instr (cursor_at done (encode_ConstOp x @ rest)) =
    Inr (IConst x, cursor_at (done @ encode_ConstOp x) rest)"
  by (cases x) (simp_all add: decode_defs read)

lemma decode_ArithOp:
  "decode_instr (cursor_at done (encode_ArithOp x @ rest)) =
    Inr (IArith x, cursor_at (done @ encode_ArithOp x) rest)"
  by (cases x) (simp_all add: decode_defs read)

lemma decode_CallOp:
  "decode_instr (cursor_at done (encode_CallOp x @ rest)) =
    Inr (ICall x, cursor_at (done @ encode_CallOp x) rest)"
  by (cases x) (simp_all add: decode_defs read)

lemma decode_ObjectOp:
  "decode_instr (cursor_at done (encode_ObjectOp x @ rest)) =
    Inr (IObject x, cursor_at (done @ encode_ObjectOp x) rest)"
  by (cases x) (simp_all add: decode_defs read)

lemma decode_CollOp:
  "decode_instr (cursor_at done (encode_CollOp x @ rest)) =
    Inr (IColl x, cursor_at (done @ encode_CollOp x) rest)"
  by (cases x) (simp_all add: decode_defs read)

lemma decode_ControlOp:
  "decode_instr (cursor_at done (encode_ControlOp x @ rest)) =
    Inr (IControl x, cursor_at (done @ encode_ControlOp x) rest)"
  by (cases x) (simp_all add: decode_defs read)

lemma decode_EffectOp:
  "decode_instr (cursor_at done (encode_EffectOp x @ rest)) =
    Inr (IEffect x, cursor_at (done @ encode_EffectOp x) rest)"
  by (cases x) (simp_all add: decode_defs read)

lemma decode_StrOp:
  "decode_instr (cursor_at done (encode_StrOp x @ rest)) =
    Inr (Native (VStr x), cursor_at (done @ encode_StrOp x) rest)"
  by (cases x) (simp_all add: decode_defs read)

lemma decode_TextOp:
  "decode_instr (cursor_at done (encode_TextOp x @ rest)) =
    Inr (Native (VText x), cursor_at (done @ encode_TextOp x) rest)"
  by (cases x) (simp_all add: decode_defs read)

lemma decode_CharOp:
  "decode_instr (cursor_at done (encode_CharOp x @ rest)) =
    Inr (Native (VChar x), cursor_at (done @ encode_CharOp x) rest)"
  by (cases x) (simp_all add: decode_defs read)

lemma decode_BuilderOp:
  "decode_instr (cursor_at done (encode_BuilderOp x @ rest)) =
    Inr (Native (VBuilder x), cursor_at (done @ encode_BuilderOp x) rest)"
  by (cases x) (simp_all add: decode_defs read)

lemma decode_BufferOp:
  "decode_instr (cursor_at done (encode_BufferOp x @ rest)) =
    Inr (Native (VBuffer x), cursor_at (done @ encode_BufferOp x) rest)"
  by (cases x) (simp_all add: decode_defs read)

lemma decode_BytesOp:
  "decode_instr (cursor_at done (encode_BytesOp x @ rest)) =
    Inr (Native (VBytes x), cursor_at (done @ encode_BytesOp x) rest)"
  by (cases x) (simp_all add: decode_defs read)

lemma decode_HashOp:
  "decode_instr (cursor_at done (encode_HashOp x @ rest)) =
    Inr (Native (VHash x), cursor_at (done @ encode_HashOp x) rest)"
  by (cases x) (simp_all add: decode_defs read)

lemma decode_RegexOp:
  "decode_instr (cursor_at done (encode_RegexOp x @ rest)) =
    Inr (Native (VRegex x), cursor_at (done @ encode_RegexOp x) rest)"
  by (cases x) (simp_all add: decode_defs read)

lemma decode_ValueOp:
  "decode_instr (cursor_at done (encode_ValueOp x @ rest)) =
    Inr (Extended (XValue x), cursor_at (done @ encode_ValueOp x) rest)"
  by (cases x) (simp_all add: decode_defs read)

lemma decode_ListOp:
  "decode_instr (cursor_at done (encode_ListOp x @ rest)) =
    Inr (Extended (XList x), cursor_at (done @ encode_ListOp x) rest)"
  by (cases x) (simp_all add: decode_defs read)

lemma decode_MapOp:
  "decode_instr (cursor_at done (encode_MapOp x @ rest)) =
    Inr (Extended (XMap x), cursor_at (done @ encode_MapOp x) rest)"
  by (cases x) (simp_all add: decode_defs read)

lemma decode_ProbeOp:
  "decode_instr (cursor_at done (encode_ProbeOp x @ rest)) =
    Inr (Extended (XProbe x), cursor_at (done @ encode_ProbeOp x) rest)"
  by (cases x) (simp_all add: decode_defs read)

lemma decode_SlotOp:
  "decode_instr (cursor_at done (encode_SlotOp x @ rest)) =
    Inr (Extended (XSlot x), cursor_at (done @ encode_SlotOp x) rest)"
proof (cases x)
  case (PrepareWait v r)
  obtain op argc where w: "wait_parts v = (op, argc)" by fastforce
  then have "prepare_wait op argc r = Some (XSlot (PrepareWait v r))"
    using wait_parts_roundtrip [where v = v and r = r] by simp
  with w show ?thesis by (simp add: PrepareWait decode_defs read)
qed (simp_all add: decode_defs read)

lemma decode_SyntaxOp:
  "decode_instr (cursor_at done (encode_SyntaxOp x @ rest)) =
    Inr (Extended (XSyntax x), cursor_at (done @ encode_SyntaxOp x) rest)"
  by (cases x) (simp_all add: decode_defs read)

fun code_op_ok :: "CodeOp \<Rightarrow> bool" where
  "code_op_ok (ReflectionRefine pattern fail) \<longleftrightarrow> reflection_pattern_ok pattern"
| "code_op_ok _ \<longleftrightarrow> True"

lemma decode_CodeOp:
  "code_op_ok x \<Longrightarrow> decode_instr (cursor_at done (encode_CodeOp x @ rest)) =
    Inr (Extended (XCode x), cursor_at (done @ encode_CodeOp x) rest)"
  by (cases x) (simp_all add: decode_defs read reflection_pattern_roundtrip reflection_kind_tag_inverse reflection_bases_roundtrip)

lemma decode_numeric:
  "decode_instr (cursor_at done (OP_NUMERIC # numeric_tag x # rest)) =
    Inr (Numeric x, cursor_at (done @ [OP_NUMERIC, numeric_tag x]) rest)"
  by (simp add: decode_defs read numeric_tag_inverse)

lemmas decode_families =
  decode_ConstOp decode_ArithOp decode_CallOp decode_ObjectOp decode_CollOp decode_ControlOp
  decode_EffectOp decode_StrOp decode_TextOp decode_CharOp decode_BuilderOp decode_BufferOp
  decode_BytesOp decode_HashOp decode_RegexOp decode_ValueOp decode_ListOp decode_MapOp
  decode_ProbeOp decode_SlotOp decode_SyntaxOp decode_CodeOp

fun instr_ok :: "Instr \<Rightarrow> bool" where
  "instr_ok (Extended (XCode x)) \<longleftrightarrow> code_op_ok x"
| "instr_ok _ \<longleftrightarrow> True"

lemma decode_native:
  "decode_instr (cursor_at done (encode_native x @ rest)) =
    Inr (Native x, cursor_at (done @ encode_native x) rest)"
  by (cases x) (simp_all only: encode_native.simps decode_families)

lemma decode_extended:
  "instr_ok (Extended x) \<Longrightarrow> decode_instr (cursor_at done (encode_extended x @ rest)) =
    Inr (Extended x, cursor_at (done @ encode_extended x) rest)"
  by (cases x) (simp_all only: encode_extended.simps instr_ok.simps decode_families)

lemma decode_encoded:
  assumes "instr_ok i"
  shows "decode_instr (cursor_at done (encode_instr i @ rest)) = Inr (i, cursor_at (done @ encode_instr i) rest)"
proof (cases i)
  case (Numeric x)
  then show ?thesis using decode_numeric [of "done" x rest] by (simp del: OP_NUMERIC_def)
next
  case (Extended x)
  then show ?thesis using decode_extended [of x "done" rest] assms by simp
qed (simp_all only: encode_instr.simps decode_families decode_native)

text \<open>
  C29: at any position of a byte stream, \<open>decode_instr\<close> reads back exactly the
  instruction that \<open>encode_instr\<close> wrote there and leaves the cursor right behind
  its bytes, for every instruction the program can build.
\<close>

theorem instr_roundtrip:
  assumes "instr_ok i"
  shows "decode_instr \<lparr>cur_bytes = done @ encode_instr i @ rest, cur_pos = length done\<rparr> =
    Inr (i, \<lparr>cur_bytes = done @ encode_instr i @ rest, cur_pos = length done + length (encode_instr i)\<rparr>)"
  using decode_encoded [OF assms, of "done" rest] by (simp add: cursor_at_def)

theorem instr_roundtrip_witness:
  "decode_instr \<lparr>cur_bytes = [9] @ encode_instr (ICall (CallInterface 7 8 NO_APP)) @ [1, 2], cur_pos = 1\<rparr> =
    Inr (ICall (CallInterface 7 8 NO_APP),
      \<lparr>cur_bytes = [9] @ encode_instr (ICall (CallInterface 7 8 NO_APP)) @ [1, 2], cur_pos = 11\<rparr>)"
proof -
  have "length (encode_instr (ICall (CallInterface 7 8 NO_APP))) = 10"
    by (simp add: encode_optional_index_def write_u32_def)
  then show ?thesis
    using instr_roundtrip [of "ICall (CallInterface 7 8 NO_APP)" "[9]" "[1, 2]"] by simp
qed

end
