(* ===== verification/Codec_Stream.thy ===== *)
theory Codec_Stream
  imports Codec_Correct "HOL-Library.Sublist"
begin

text \<open>
  Streams of encoded instructions: the encoding keeps and reflects prefixes of a list of
  instructions, and an instruction cut short is rejected as truncated.
\<close>

section \<open>Streams of instructions\<close>

text \<open>The instruction loop of one basic block: \<open>count\<close> calls of \<open>decode_instr\<close>.\<close>

primrec decode_instrs :: "nat \<Rightarrow> Instr list reader" where
  "decode_instrs 0 = p_ret []"
| "decode_instrs (Suc n) = p_bind decode_instr (\<lambda>i. p_bind (decode_instrs n) (\<lambda>is. p_ret (i # is)))"

lemma decode_instrs_encoded:
  assumes "\<forall>i \<in> set is. instr_ok i"
  shows "decode_instrs (length is) (cursor_at done (concat (map encode_instr is) @ rest)) =
    Inr (is, cursor_at (done @ concat (map encode_instr is)) rest)"
  using assms
proof (induction "is" arbitrary: "done")
  case (Cons i "is")
  then show ?case
    using decode_encoded [of i "done" "concat (map encode_instr is) @ rest"]
    by (simp add: p_bind_apply p_ret_apply del: encode_instr.simps)
qed (simp add: p_ret_apply)

lemma code_op_ok_cases: "code_op_ok x \<or> (\<exists>p f. x = ReflectionRefine p f)"
  by (cases x) auto

lemma encode_instr_nonempty: "encode_instr i \<noteq> []"
proof
  assume empty: "encode_instr i = []"
  have "instr_ok i \<or> (\<exists>p f. i = Extended (XCode (ReflectionRefine p f)))"
    using code_op_ok_cases by (cases i rule: instr_ok.cases) auto
  then show False
  proof
    assume "instr_ok i"
    from decode_encoded [OF this, of "[]" "[]"] empty show False
      by (simp add: decode_instr_def cur_u8_def cur_take_def cursor_at_def p_bind_def)
  qed (use empty in auto)
qed

lemma concat_encode_Nil: "concat (map encode_instr is) = [] \<Longrightarrow> is = []"
  by (cases "is") (auto simp: encode_instr_nonempty)

lemma encode_first:
  assumes "instr_ok i" and "instr_ok j" and "encode_instr i @ xs = encode_instr j @ ys"
  shows "i = j"
proof -
  have "decode_instr (cursor_at [] (encode_instr i @ xs)) = Inr (i, cursor_at (encode_instr i) xs)"
    using decode_encoded [OF assms(1), of "[]" xs] by simp
  moreover have "decode_instr (cursor_at [] (encode_instr j @ ys)) = Inr (j, cursor_at (encode_instr j) ys)"
    using decode_encoded [OF assms(2), of "[]" ys] by simp
  ultimately show "i = j" using assms(3) by (simp del: encode_instr.simps)
qed

text \<open>
  C30: on instructions the codec can represent (\<open>instr_ok\<close>), the bytes of a list are a prefix of the bytes of
  another exactly when the one list is a prefix of the other. A block is therefore never read as a part of
  a different block, no instruction is the beginning of another one, and equal bytes are equal lists.
\<close>

theorem encode_instrs_prefix:
  assumes "\<forall>i \<in> set is. instr_ok i" and "\<forall>i \<in> set js. instr_ok i"
  shows "prefix (concat (map encode_instr is)) (concat (map encode_instr js)) \<longleftrightarrow> prefix is js"
  using assms
proof (induction "is" arbitrary: js)
  case (Cons i "is")
  show ?case
  proof (cases js)
    case Nil
    then show ?thesis using concat_encode_Nil [of "i # is"] by (auto simp del: encode_instr.simps)
  next
    case (Cons j ks)
    have eq: "prefix (concat (map encode_instr is)) (concat (map encode_instr ks)) \<longleftrightarrow> prefix is ks"
      using Cons Cons.prems by (intro Cons.IH) auto
    have "i = j" if "prefix (encode_instr i @ concat (map encode_instr is)) (encode_instr j @ concat (map encode_instr ks))"
      using that Cons Cons.prems encode_first [of j i] by (auto simp: prefix_def simp del: encode_instr.simps)
    then show ?thesis using Cons eq by (auto simp del: encode_instr.simps)
  qed
qed simp

theorem encode_instrs_prefix_witness:
  "prefix (concat (map encode_instr [IConst (ConstBool True)])) (concat (map encode_instr [IConst (ConstBool True), IControl Return])) \<and>
   \<not> prefix (concat (map encode_instr [IConst (ConstBool False)])) (concat (map encode_instr [IConst (ConstBool True), IControl Return]))"
  using encode_instrs_prefix [of "[IConst (ConstBool True)]" "[IConst (ConstBool True), IControl Return]"]
    encode_instrs_prefix [of "[IConst (ConstBool False)]" "[IConst (ConstBool True), IControl Return]"]
  by simp

section \<open>Truncated input\<close>

definition extend_input :: "Cursor \<Rightarrow> u8 list \<Rightarrow> Cursor" where
  "extend_input c ys = c\<lparr>cur_bytes := cur_bytes c @ ys\<rparr>"

text \<open>
  A reader that reports nothing but truncation because of the end of the input:
  more input changes neither a value nor another error, and the position stays
  inside the input.
\<close>

definition honest :: "'a reader \<Rightarrow> bool" where
  "honest r \<longleftrightarrow>
     (\<forall>c ys. cur_pos c \<le> length (cur_bytes c) \<longrightarrow>
        (case r c of
           Inr (a, c') \<Rightarrow> r (extend_input c ys) = Inr (a, extend_input c' ys) \<and> cur_pos c' \<le> length (cur_bytes c') \<and>
             cur_bytes c' = cur_bytes c
         | Inl e \<Rightarrow> e = Truncated \<or> r (extend_input c ys) = Inl e))"

named_theorems honest_intro \<open>readers that report truncation only at the end\<close>

lemma honest_ret [honest_intro]: "honest (p_ret a)"
  by (simp add: honest_def p_ret_def)

lemma honest_err [honest_intro]: "honest (p_err e)"
  by (simp add: honest_def p_err_def)

lemma honest_opt [honest_intro]: "honest (p_opt e x)"
  by (cases x) (simp_all add: p_opt_simps honest_ret honest_err)

lemma honest_bind [honest_intro]:
  assumes "honest r" and "\<And>a. honest (f a)"
  shows "honest (p_bind r f)"
  unfolding honest_def
proof (intro allI impI)
  fix c :: Cursor and ys
  assume c: "cur_pos c \<le> length (cur_bytes c)"
  have r: "case r c of Inr (a, c') \<Rightarrow> r (extend_input c ys) = Inr (a, extend_input c' ys) \<and> cur_pos c' \<le> length (cur_bytes c') \<and>
      cur_bytes c' = cur_bytes c | Inl e \<Rightarrow> e = Truncated \<or> r (extend_input c ys) = Inl e"
    using assms(1) c unfolding honest_def by blast
  show "case p_bind r f c of Inr (a, c') \<Rightarrow> p_bind r f (extend_input c ys) = Inr (a, extend_input c' ys) \<and>
      cur_pos c' \<le> length (cur_bytes c') \<and> cur_bytes c' = cur_bytes c
    | Inl e \<Rightarrow> e = Truncated \<or> p_bind r f (extend_input c ys) = Inl e"
  proof (cases "r c")
    case (Inl e)
    then show ?thesis using r by (auto simp: p_bind_apply)
  next
    case (Inr ac)
    obtain a c' where ac: "ac = (a, c')" by fastforce
    have "case f a c' of Inr (b, c'') \<Rightarrow> f a (extend_input c' ys) = Inr (b, extend_input c'' ys) \<and>
        cur_pos c'' \<le> length (cur_bytes c'') \<and> cur_bytes c'' = cur_bytes c'
      | Inl e \<Rightarrow> e = Truncated \<or> f a (extend_input c' ys) = Inl e"
      using assms(2) [of a] r Inr ac unfolding honest_def by auto
    then show ?thesis using r Inr ac by (auto simp: p_bind_apply split: sum.splits prod.splits)
  qed
qed

lemma honest_take [honest_intro]: "honest (cur_take n)"
  by (auto simp: honest_def cur_take_def extend_input_def Let_def)

lemma honest_if [honest_intro]: "honest p \<Longrightarrow> honest q \<Longrightarrow> honest (if b then p else q)"
  by simp

lemma honest_reads [honest_intro]:
  "honest cur_u8" "honest cur_u32" "honest cur_u64" "honest cur_flag" "honest decode_optional_index"
  unfolding cur_flag_def decode_optional_index_def cur_u8_def cur_u32_def cur_u64_def
  by (intro honest_intro)+

lemma honest_decode_extension_text: "decode_extension_text op = Some p \<Longrightarrow> honest p"
  by (auto simp only: decode_extension_text_def option.inject option.distinct intro!: honest_intro split: if_splits)

lemma honest_decode_extension_code: "decode_extension_code op = Some p \<Longrightarrow> honest p"
  by (auto simp only: decode_extension_code_def option.inject option.distinct intro!: honest_intro split: if_splits)

lemma honest_extension [honest_intro]: "honest decode_extension"
  unfolding decode_extension_def
  by (intro honest_intro) (auto split: option.split intro: honest_decode_extension_text honest_decode_extension_code honest_intro)

lemma honest_decode_scalars: "decode_scalars op = Some p \<Longrightarrow> honest p"
  by (auto simp only: decode_scalars_def option.inject option.distinct intro!: honest_intro split: if_splits)

lemma honest_decode_text: "decode_text op = Some p \<Longrightarrow> honest p"
  by (auto simp only: decode_text_def option.inject option.distinct intro!: honest_intro split: if_splits)

lemma honest_decode_calls: "decode_calls op = Some p \<Longrightarrow> honest p"
  by (auto simp only: decode_calls_def option.inject option.distinct intro!: honest_intro split: if_splits)

lemma honest_decode_collections: "decode_collections op = Some p \<Longrightarrow> honest p"
  by (auto simp only: decode_collections_def option.inject option.distinct intro!: honest_intro split: if_splits)

lemma honest_decode_syntax: "decode_syntax op = Some p \<Longrightarrow> honest p"
  by (auto simp only: decode_syntax_def option.inject option.distinct intro!: honest_intro split: if_splits)

lemma honest_decode_buffers: "decode_buffers op = Some p \<Longrightarrow> honest p"
  by (auto simp only: decode_buffers_def option.inject option.distinct intro!: honest_intro split: if_splits)

lemma honest_decode_control: "decode_control op = Some p \<Longrightarrow> honest p"
  by (auto simp only: decode_control_def option.inject option.distinct intro!: honest_intro split: if_splits)

lemma honest_decode_instr: "honest decode_instr"
  unfolding decode_instr_def
  by (intro honest_bind honest_reads)
    (auto split: option.split intro: honest_err
      honest_decode_scalars honest_decode_text honest_decode_calls honest_decode_collections honest_decode_syntax honest_decode_buffers honest_decode_control)

text \<open>
  C31: an instruction whose last bytes are missing is rejected as truncated: on
  every proper prefix of an encoded instruction \<open>decode_instr\<close> answers
  \<open>Truncated\<close>, never another instruction or another error.
\<close>

theorem decode_truncated:
  assumes "instr_ok i" and "encode_instr i = xs @ ys" and "ys \<noteq> []"
  shows "decode_instr \<lparr>cur_bytes = done @ xs, cur_pos = length done\<rparr> = Inl Truncated"
proof -
  define c where "c = \<lparr>cur_bytes = done @ xs, cur_pos = length done\<rparr>"
  have full: "decode_instr (extend_input c ys) = Inr (i, \<lparr>cur_bytes = done @ xs @ ys,
      cur_pos = length done + length (xs @ ys)\<rparr>)"
    using decode_encoded [OF assms(1), of "done" "[]"] by (simp add: c_def extend_input_def cursor_at_def assms(2))
  have h: "case decode_instr c of Inr (a, c') \<Rightarrow> decode_instr (extend_input c ys) = Inr (a, extend_input c' ys) \<and>
      cur_pos c' \<le> length (cur_bytes c') \<and> cur_bytes c' = cur_bytes c
    | Inl e \<Rightarrow> e = Truncated \<or> decode_instr (extend_input c ys) = Inl e"
    using honest_decode_instr [unfolded honest_def, rule_format, of c ys] by (simp add: c_def)
  show ?thesis
  proof (cases "decode_instr c")
    case (Inl e)
    then show ?thesis using h full by (auto simp: c_def)
  next
    case (Inr ac)
    obtain a c' where ac: "ac = (a, c')" by fastforce
    have "extend_input c' ys = \<lparr>cur_bytes = done @ xs @ ys, cur_pos = length done + length (xs @ ys)\<rparr>"
      and le: "cur_pos c' \<le> length (cur_bytes c)"
      using h Inr ac full by auto
    then have "cur_pos (extend_input c' ys) = length done + length (xs @ ys)" by simp
    then have "cur_pos c' = length done + length (xs @ ys)" by (simp add: extend_input_def)
    then show ?thesis using le assms(3) by (simp add: c_def)
  qed
qed

theorem decode_truncated_witness:
  "decode_instr \<lparr>cur_bytes = [7] @ [1], cur_pos = 1\<rparr> = Inl Truncated"
  using decode_truncated [of "IConst (ConstBool True)" "[1]" "[1]" "[7]"] by simp

end
