(* ===== verification/Wire.thy ===== *)
theory Wire
  imports Codec_Stream
begin

text \<open>
  What the module container, the debug section and the syntax records share: the
  text type of Rust as valid UTF-8 byte lists, the counted tables of the container
  with their two guards (input size and reserved memory).
\<close>

type_synonym u16 = "16 word"

section \<open>Text\<close>

text \<open>\<open>String::from_utf8\<close>: the well-formed byte sequences of the Unicode standard.\<close>

definition utf8_cont :: "u8 \<Rightarrow> bool" where
  "utf8_cont b \<longleftrightarrow> 0x80 \<le> b \<and> b \<le> 0xBF"

definition utf8_second :: "u8 \<Rightarrow> u8 \<Rightarrow> bool" where
  "utf8_second b0 b1 \<longleftrightarrow>
     (if b0 = 0xE0 then 0xA0 else if b0 = 0xF0 then 0x90 else 0x80) \<le> b1 \<and>
     b1 \<le> (if b0 = 0xED then 0x9F else if b0 = 0xF4 then 0x8F else 0xBF)"

fun utf8_valid :: "u8 list \<Rightarrow> bool" where
  "utf8_valid [] = True"
| "utf8_valid (b0 # bs) =
     (if b0 < 0x80 then utf8_valid bs
      else case bs of [] \<Rightarrow> False
        | b1 # bs1 \<Rightarrow>
            if 0xC2 \<le> b0 \<and> b0 \<le> 0xDF then utf8_cont b1 \<and> utf8_valid bs1
            else case bs1 of [] \<Rightarrow> False
              | b2 # bs2 \<Rightarrow>
                  if 0xE0 \<le> b0 \<and> b0 \<le> 0xEF then utf8_second b0 b1 \<and> utf8_cont b2 \<and> utf8_valid bs2
                  else case bs2 of [] \<Rightarrow> False
                    | b3 # bs3 \<Rightarrow>
                        0xF0 \<le> b0 \<and> b0 \<le> 0xF4 \<and> utf8_second b0 b1 \<and> utf8_cont b2 \<and> utf8_cont b3 \<and> utf8_valid bs3)"

declare utf8_valid.simps(2) [simp del]

lemma utf8_valid_ascii: "(\<forall>b \<in> set bs. b < 0x80) \<Longrightarrow> utf8_valid bs"
  by (induction bs) (simp_all add: utf8_valid.simps(2))

text \<open>A byte string literal.\<close>

definition ascii :: "string \<Rightarrow> u8 list" where
  "ascii s = map (of_nat \<circ> of_char) s"

text \<open>\<open>str::is_char_boundary\<close> and \<open>str::get\<close> with a range.\<close>

definition is_char_boundary :: "u8 list \<Rightarrow> nat \<Rightarrow> bool" where
  "is_char_boundary s i \<longleftrightarrow> i = 0 \<or> i = length s \<or> (i < length s \<and> \<not> utf8_cont (s ! i))"

definition str_get :: "u8 list \<Rightarrow> nat \<Rightarrow> nat \<Rightarrow> u8 list option" where
  "str_get s lo hi =
     (if lo \<le> hi \<and> is_char_boundary s lo \<and> is_char_boundary s hi then Some (take (hi - lo) (drop lo s)) else None)"

text \<open>\<open>char::from_u32\<close>.\<close>

definition char_from_u32 :: "u32 \<Rightarrow> u32 option" where
  "char_from_u32 v = (if v < 0xD800 \<or> (0xE000 \<le> v \<and> v \<le> 0x10FFFF) then Some v else None)"

section \<open>Writing\<close>

definition write_bytes :: "u8 list \<Rightarrow> u8 list" where
  "write_bytes bs = write_u32 (of_nat (length bs)) @ bs"

definition write_flag :: "bool \<Rightarrow> u8 list" where
  "write_flag b = [of_bool b]"

text \<open>A counted table: the number of entries, then the entries.\<close>

definition write_table :: "('a \<Rightarrow> u8 list) \<Rightarrow> 'a list \<Rightarrow> u8 list" where
  "write_table f xs = write_u32 (of_nat (length xs)) @ concat (map f xs)"

section \<open>Reading\<close>

definition cur_string :: "u8 list reader" where
  "cur_string = p_bind cur_u32 (\<lambda>len. p_bind (cur_take (unat len)) (\<lambda>bytes.
     if utf8_valid bytes then p_ret bytes else p_err BadUtf8))"

definition cur_blob :: "u8 list reader" where
  "cur_blob = p_bind cur_u32 (\<lambda>len. cur_take (unat len))"

definition p_if :: "bool \<Rightarrow> 'e \<Rightarrow> ('e, unit) cursor_reader" where
  "p_if ok e = (if ok then p_ret () else p_err e)"

definition p_need :: "nat \<Rightarrow> nat \<Rightarrow> unit reader" where
  "p_need count k c = (if count > cur_remaining c div k then Inl BadLength else Inr ((), c))"

text \<open>
  The element types of the decoded vectors. Their sizes and the allocator belong to
  the platform: \<open>size_of\<close> is \<open>std::mem::size_of\<close> and \<open>can_reserve\<close> says whether
  \<open>try_reserve_exact\<close> gets that many bytes.
\<close>

datatype (plugins only: code size) Elem =
    EString | EBlob | EType | EApp | EInterface | EUse | EBounds | EAssociated | EMethod
  | EPremise | EConformance | EConfPremise | EImport | ESlot | EClass | EField | EMethodRef
  | EReflection | EFunc | EBlock | EInstr | EIndex | EFlag | ERow | ERowElem
  | EBinding | EExport | EConst | ESyntaxRecord

record Host =
  size_of :: "Elem \<Rightarrow> nat"
  can_reserve :: "nat \<Rightarrow> bool"

definition MAX_DECODE_VECTOR_BYTES :: int where
  "MAX_DECODE_VECTOR_BYTES = 64 * 1024 * 1024"

definition vec_fits :: "Host \<Rightarrow> Elem \<Rightarrow> nat \<Rightarrow> bool" where
  "vec_fits h e count \<longleftrightarrow>
     int (count * max (size_of h e) 1) \<le> MAX_DECODE_VECTOR_BYTES \<and> can_reserve h (count * size_of h e)"

definition decode_vec :: "Host \<Rightarrow> Elem \<Rightarrow> nat \<Rightarrow> unit reader" where
  "decode_vec h e count =
     (let bytes = int (count * max (size_of h e) 1)
      in if bytes > MAX_DECODE_VECTOR_BYTES then p_err BadLength
         else if can_reserve h (count * size_of h e) then p_ret () else p_err BadLength)"

primrec read_seq :: "nat \<Rightarrow> ('e, 'a) cursor_reader \<Rightarrow> ('e, 'a list) cursor_reader" where
  "read_seq 0 r = p_ret []"
| "read_seq (Suc n) r = p_bind r (\<lambda>x. p_bind (read_seq n r) (\<lambda>xs. p_ret (x # xs)))"

text \<open>
  A table whose entries take at least \<open>k\<close> bytes: the count, the guard against the
  remaining input, the guarded reservation, the entries. With \<open>k = 1\<close> the second guard
  repeats the one of \<^const>\<open>cur_len\<close>, so it stands for a table without a guard of its own.
\<close>

definition read_table :: "Host \<Rightarrow> Elem \<Rightarrow> nat \<Rightarrow> 'a reader \<Rightarrow> 'a list reader" where
  "read_table h e k r = p_bind cur_len (\<lambda>count. p_bind (p_need count k) (\<lambda>_.
     p_bind (decode_vec h e count) (\<lambda>_. read_seq count r)))"

text \<open>A table whose count the context fixes, with the error for another count.\<close>

definition read_counted :: "Host \<Rightarrow> Elem \<Rightarrow> (nat \<Rightarrow> bool) \<Rightarrow> DecodeError \<Rightarrow> 'a reader \<Rightarrow> 'a list reader" where
  "read_counted h e ok err r = p_bind cur_len (\<lambda>count. p_bind (p_if (ok count) err) (\<lambda>_.
     p_bind (decode_vec h e count) (\<lambda>_. read_seq count r)))"

text \<open>A loop over a table that is already there and rewrites each entry.\<close>

primrec read_each :: "('b \<Rightarrow> ('e, 'a) cursor_reader) \<Rightarrow> 'b list \<Rightarrow> ('e, 'a list) cursor_reader" where
  "read_each f [] = p_ret []"
| "read_each f (y # ys) = p_bind (f y) (\<lambda>x. p_bind (read_each f ys) (\<lambda>xs. p_ret (x # xs)))"

end
