(* ===== verification/Module_Data.thy ===== *)
theory Module_Data
  imports Wire
begin

text \<open>
  The decoded module of \<open>crates/lm-bytecode/src/lib.rs\<close>: the type table, the class,
  interface, conformance, slot, import, function, binding and export tables. A field
  keeps the name of its struct field behind a short prefix of the struct. A string is
  its UTF-8 bytes, a 32-byte digest a byte list, a table a list.
\<close>

type_synonym str = "u8 list"
type_synonym digest = "u8 list"

definition NO_PARENT :: u32 where "NO_PARENT = - 1"
definition NO_FUNC :: u32 where "NO_FUNC = - 1"
definition NO_ROLE :: u32 where "NO_ROLE = - 1"
definition NO_CLASS :: u32 where "NO_CLASS = - 1"
definition NO_CTOR :: u32 where "NO_CTOR = - 1"
definition NO_IMPORT_DEF :: u32 where "NO_IMPORT_DEF = - 1"

definition CORE_ROLE_COUNT :: nat where
  "CORE_ROLE_COUNT = 269"

section \<open>Keys\<close>

text \<open>The content hash of \<open>lm_abi::hash\<close> is a parameter.\<close>

definition qualified_key :: "str \<Rightarrow> str \<Rightarrow> str" where
  "qualified_key module name = (if module = [] then name else module @ ascii ''.'' @ name)"

definition slot_key :: "(u8 list \<Rightarrow> digest) \<Rightarrow> str \<Rightarrow> digest \<Rightarrow> digest" where
  "slot_key hash binding contract_hash = hash (ascii ''lm-slot-key-v2'' @ [0] @ binding @ contract_hash)"

definition ad_hoc_slot_key :: "(u8 list \<Rightarrow> digest) \<Rightarrow> str \<Rightarrow> digest" where
  "ad_hoc_slot_key hash binding = hash (ascii ''lm-ad-hoc-slot-key-v1'' @ [0] @ binding)"

definition CTOR_SEGMENT :: str where
  "CTOR_SEGMENT = ascii ''<new>''"

definition ctor_binding_key :: "str \<Rightarrow> str" where
  "ctor_binding_key class_key = class_key @ ascii ''.'' @ CTOR_SEGMENT"

section \<open>Types and rows\<close>

datatype BcRow = RowOp u32 | RowGroup u32 | RowVar u32

record TypeApp =
  app_types :: "u32 list"
  app_rows :: "BcRow list list"

record BcInterfaceUse =
  use_interface :: u32
  use_types :: "u32 list"
  use_rows :: "BcRow list list"

type_synonym TypeBounds = "BcInterfaceUse list list"

datatype (plugins only: code size) BcType =
    TyUnit
  | TyNever
  | TyBool
  | TyInt
  | TyFloat
  | TyStr
  | TyClass u32
  | TyInst u32 "u32 list"
  | TyList u32
  | TyMap u32 u32
  | TyTuple "u32 list"
  | TyFn "u32 list" "bool list" u32 "BcRow list"
  | TyCallback "u32 list" "bool list" u32 "BcRow list"
  | TyVar u32
  | TyProjection u32 u32 u32
  | TyFault
  | TyRequest
  | TyPolicyTable
  | TyVm
  | TyRun u32
  | TyWait u32
  | TyPendingCall u32 u32
  | TyHandle u32 u32
  | TyOp u32 u32
  | TyDigest
  | TyVmSnapshot
  | TyRunSnapshot u32
  | TyBytes
  | TyFileHandle
  | TyResourceHandle
  | TyHostResource

section \<open>Classes and interfaces\<close>

datatype BcClassKind = KindNormal | KindAbstract | KindCase

record BcClass =
  cls_name :: str
  cls_key :: str
  cls_is_final :: bool
  cls_is_frozen :: bool
  cls_parent :: u32
  cls_parent_args :: "u32 list"
  cls_type_params :: u32
  cls_kind :: BcClassKind
  cls_fields :: "(str \<times> u32) list"
  cls_methods :: "(u32 \<times> u32) list"
  cls_field_defaults :: "bool list"
  cls_own_start :: u32
  cls_has_init :: bool

definition class_parent :: "BcClass \<Rightarrow> u32 option" where
  "class_parent c = (if cls_parent c = NO_PARENT then None else Some (cls_parent c))"

record BcAssociated =
  as_name :: str
  as_bounds :: "BcInterfaceUse list"

record BcTypePremise =
  tp_subject :: u32
  tp_bounds :: "BcInterfaceUse list"

record BcInterfaceMethod =
  im_selector :: u32
  im_mut_self :: bool
  im_type_params :: u32
  im_type_bounds :: TypeBounds
  im_effect_params :: u32
  im_premises :: "BcTypePremise list"
  im_params :: "u32 list"
  im_param_muts :: "bool list"
  im_param_names :: "str list"
  im_ret :: u32
  im_row :: "BcRow list"
  im_default :: u32

record BcInterface =
  if_name :: str
  if_key :: str
  if_type_params :: u32
  if_effect_params :: u32
  if_generic_is_effect :: "bool list"
  if_parents :: "BcInterfaceUse list"
  if_type_bounds :: TypeBounds
  if_associated :: "BcAssociated list"
  if_methods :: "BcInterfaceMethod list"

record BcConformancePremise =
  cp_param :: u32
  cp_bounds :: "BcInterfaceUse list"

record BcConformance =
  cf_class :: u32
  cf_application :: BcInterfaceUse
  cf_premises :: "BcConformancePremise list"
  cf_associated :: "u32 list"
  cf_method_overrides :: "bool list"

section \<open>Slots, imports and exports\<close>

record BcCallableContract =
  cc_type_params :: u32
  cc_effect_params :: u32
  cc_type_bounds :: TypeBounds
  cc_params :: "u32 list"
  cc_param_muts :: "bool list"
  cc_ret :: u32
  cc_row :: "BcRow list"

datatype SlotContract =
    SlotFunction BcCallableContract
  | SlotMethod BcCallableContract
  | SlotClass u32 digest u32 BcCallableContract
  | SlotValue u32
  | SlotProcess u32 u32

datatype SlotTarget = TargetFunction u32 | TargetClass u32 u32

record SlotSpec =
  sl_binding :: str
  sl_late :: bool
  sl_key :: digest
  sl_contract_hash :: digest
  sl_contract :: SlotContract
  sl_initial :: "SlotTarget option"

datatype ImportKind = ImportClass | ImportCtor | ImportMethod | ImportFunc | ImportConstant

primrec import_kind_tag :: "ImportKind \<Rightarrow> u8" where
  "import_kind_tag ImportClass = 0"
| "import_kind_tag ImportCtor = 1"
| "import_kind_tag ImportMethod = 2"
| "import_kind_tag ImportFunc = 3"
| "import_kind_tag ImportConstant = 4"

definition import_is_func :: "ImportKind \<Rightarrow> bool" where
  "import_is_func k \<longleftrightarrow> k = ImportCtor \<or> k = ImportMethod \<or> k = ImportFunc"

record Import =
  imp_module :: str
  imp_name :: str
  imp_kind :: ImportKind
  imp_def :: u32
  imp_hash :: digest

datatype ExportKind = ExportFunction | ExportClass | ExportEnum | ExportEnumCase | ExportInterface | ExportConstant

primrec export_kind_tag :: "ExportKind \<Rightarrow> u8" where
  "export_kind_tag ExportFunction = 0"
| "export_kind_tag ExportClass = 1"
| "export_kind_tag ExportEnum = 2"
| "export_kind_tag ExportEnumCase = 3"
| "export_kind_tag ExportInterface = 4"
| "export_kind_tag ExportConstant = 5"

definition export_kind_from_tag :: "u8 \<Rightarrow> ExportKind option" where
  "export_kind_from_tag tag =
     (if tag = 0 then Some ExportFunction
      else if tag = 1 then Some ExportClass
      else if tag = 2 then Some ExportEnum
      else if tag = 3 then Some ExportEnumCase
      else if tag = 4 then Some ExportInterface
      else if tag = 5 then Some ExportConstant
      else None)"

definition export_is_class :: "ExportKind \<Rightarrow> bool" where
  "export_is_class k \<longleftrightarrow> k = ExportClass \<or> k = ExportEnum \<or> k = ExportEnumCase"

definition export_is_interface :: "ExportKind \<Rightarrow> bool" where
  "export_is_interface k \<longleftrightarrow> k = ExportInterface"

definition export_is_constant :: "ExportKind \<Rightarrow> bool" where
  "export_is_constant k \<longleftrightarrow> k = ExportConstant"

record FuncBinding =
  fb_key :: str
  fb_func :: u32
  fb_class :: u32

datatype ConstValue =
    CvUnit
  | CvBool bool
  | CvInt i64
  | CvFloat u64
  | CvChar u32
  | CvString str
  | CvBytes "u8 list"
  | CvTuple "ConstValue list"

record Constant =
  ct_ty :: u32
  ct_value :: ConstValue

record Export =
  ex_kind :: ExportKind
  ex_name :: str
  ex_source :: bool
  ex_def :: u32
  ex_ctor :: u32
  ex_constant :: "Constant option"

record ReflectionModule =
  rm_name :: str
  rm_semantic_hash :: digest

section \<open>Functions and the module\<close>

record Func =
  fn_name :: str
  fn_type_params :: u32
  fn_effect_params :: u32
  fn_params :: "u32 list"
  fn_param_muts :: "bool list"
  fn_ret :: u32
  fn_row :: "BcRow list"
  fn_captures :: "u32 list"
  fn_local_types :: "u32 list"
  fn_blocks :: "Instr list list"
  fn_param_names :: "str list"

definition local_count :: "Func \<Rightarrow> u32" where
  "local_count f = of_nat (length (fn_local_types f))"

record Module =
  m_strings :: "str list"
  m_bytes :: "u8 list list"
  m_types :: "BcType list"
  m_selectors :: "str list"
  m_apps :: "TypeApp list"
  m_interfaces :: "BcInterface list"
  m_conformances :: "BcConformance list"
  m_class_bounds :: "TypeBounds list"
  m_func_bounds :: "TypeBounds list"
  m_imports :: "Import list"
  m_slots :: "SlotSpec list"
  m_core_roles :: "u32 list"
  m_reflections :: "ReflectionModule list"
  m_classes :: "BcClass list"
  m_funcs :: "Func list"
  m_entry :: u32
  m_exports :: "Export list"
  m_bindings :: "FuncBinding list"
  m_debug :: "u8 list"

end
