(* ===== verification/Module_Encode.thy ===== *)
theory Module_Encode
  imports Module_Data
begin

text \<open>
  The container encoder of \<open>crates/lm-bytecode/src/lib.rs\<close>: \<open>encode_semantic\<close> writes
  every table except the definition names, \<open>encode_exports\<close> the names, bindings and
  exports, \<open>encode_with_bundle\<close> the header, the section table and the three sections.
  A loop body of \<open>encode_semantic\<close> or \<open>encode_exports\<close> is a definition of its own.
\<close>

section \<open>Rows, uses and types\<close>

definition ROW_OP :: u8 where "ROW_OP = 0"
definition ROW_VAR :: u8 where "ROW_VAR = 1"
definition ROW_GROUP :: u8 where "ROW_GROUP = 2"

primrec encode_row_elem :: "BcRow \<Rightarrow> u8 list" where
  "encode_row_elem (RowOp i) = [ROW_OP] @ write_u32 i"
| "encode_row_elem (RowGroup i) = [ROW_GROUP] @ write_u32 i"
| "encode_row_elem (RowVar i) = [ROW_VAR] @ write_u32 i"

definition encode_row :: "BcRow list \<Rightarrow> u8 list" where
  "encode_row row = write_table encode_row_elem row"

definition encode_interface_use :: "BcInterfaceUse \<Rightarrow> u8 list" where
  "encode_interface_use u =
     write_u32 (use_interface u) @ write_table write_u32 (use_types u) @ write_table encode_row (use_rows u)"

definition encode_bounds :: "BcInterfaceUse list \<Rightarrow> u8 list" where
  "encode_bounds us = write_table encode_interface_use us"

definition encode_type_bounds :: "TypeBounds \<Rightarrow> u8 list" where
  "encode_type_bounds bs = write_table encode_bounds bs"

definition encode_signature :: "u32 list \<Rightarrow> bool list \<Rightarrow> u32 \<Rightarrow> BcRow list \<Rightarrow> u8 list" where
  "encode_signature params muts ret row =
     write_table write_u32 params @ write_table write_flag muts @ write_u32 ret @ encode_row row"

definition TY_UNIT :: u8 where "TY_UNIT = 0"
definition TY_BOOL :: u8 where "TY_BOOL = 1"
definition TY_INT :: u8 where "TY_INT = 2"
definition TY_STR :: u8 where "TY_STR = 3"
definition TY_CLASS :: u8 where "TY_CLASS = 4"
definition TY_LIST :: u8 where "TY_LIST = 5"
definition TY_MAP :: u8 where "TY_MAP = 6"
definition TY_FN :: u8 where "TY_FN = 7"
definition TY_INST :: u8 where "TY_INST = 10"
definition TY_TUPLE :: u8 where "TY_TUPLE = 11"
definition TY_VAR :: u8 where "TY_VAR = 12"
definition TY_FAULT :: u8 where "TY_FAULT = 13"
definition TY_REQUEST :: u8 where "TY_REQUEST = 14"
definition TY_POLICY_TABLE :: u8 where "TY_POLICY_TABLE = 15"
definition TY_VM :: u8 where "TY_VM = 16"
definition TY_RUN :: u8 where "TY_RUN = 17"
definition TY_PENDING_CALL :: u8 where "TY_PENDING_CALL = 18"
definition TY_OP :: u8 where "TY_OP = 19"
definition TY_DIGEST :: u8 where "TY_DIGEST = 20"
definition TY_HANDLE :: u8 where "TY_HANDLE = 21"
definition TY_VM_SNAPSHOT :: u8 where "TY_VM_SNAPSHOT = 22"
definition TY_RUN_SNAPSHOT :: u8 where "TY_RUN_SNAPSHOT = 23"
definition TY_BYTES :: u8 where "TY_BYTES = 24"
definition TY_FILE_HANDLE :: u8 where "TY_FILE_HANDLE = 25"
definition TY_RESOURCE_HANDLE :: u8 where "TY_RESOURCE_HANDLE = 26"
definition TY_WAIT :: u8 where "TY_WAIT = 27"
definition TY_PROJECTION :: u8 where "TY_PROJECTION = 28"
definition TY_CALLBACK :: u8 where "TY_CALLBACK = 29"
definition TY_HOST_RESOURCE :: u8 where "TY_HOST_RESOURCE = 30"
definition TY_FLOAT :: u8 where "TY_FLOAT = 31"
definition TY_NEVER :: u8 where "TY_NEVER = 32"

lemmas ty_tags =
  TY_UNIT_def TY_BOOL_def TY_INT_def TY_STR_def TY_CLASS_def TY_LIST_def TY_MAP_def TY_FN_def TY_INST_def
  TY_TUPLE_def TY_VAR_def TY_FAULT_def TY_REQUEST_def TY_POLICY_TABLE_def TY_VM_def TY_RUN_def
  TY_PENDING_CALL_def TY_OP_def TY_DIGEST_def TY_HANDLE_def TY_VM_SNAPSHOT_def TY_RUN_SNAPSHOT_def
  TY_BYTES_def TY_FILE_HANDLE_def TY_RESOURCE_HANDLE_def TY_WAIT_def TY_PROJECTION_def TY_CALLBACK_def
  TY_HOST_RESOURCE_def TY_FLOAT_def TY_NEVER_def

primrec encode_type :: "BcType \<Rightarrow> u8 list" where
  "encode_type TyUnit = [TY_UNIT]"
| "encode_type TyNever = [TY_NEVER]"
| "encode_type TyBool = [TY_BOOL]"
| "encode_type TyInt = [TY_INT]"
| "encode_type TyFloat = [TY_FLOAT]"
| "encode_type TyStr = [TY_STR]"
| "encode_type (TyClass c) = [TY_CLASS] @ write_u32 c"
| "encode_type (TyInst c args) = [TY_INST] @ write_u32 c @ write_table write_u32 args"
| "encode_type (TyList e) = [TY_LIST] @ write_u32 e"
| "encode_type (TyMap k v) = [TY_MAP] @ write_u32 k @ write_u32 v"
| "encode_type (TyTuple elems) = [TY_TUPLE] @ write_table write_u32 elems"
| "encode_type (TyFn params muts ret row) = [TY_FN] @ encode_signature params muts ret row"
| "encode_type (TyCallback params muts ret row) = [TY_CALLBACK] @ encode_signature params muts ret row"
| "encode_type (TyVar i) = [TY_VAR] @ write_u32 i"
| "encode_type (TyProjection base interface assoc) =
     [TY_PROJECTION] @ write_u32 base @ write_u32 interface @ write_u32 assoc"
| "encode_type TyDigest = [TY_DIGEST]"
| "encode_type TyFault = [TY_FAULT]"
| "encode_type TyRequest = [TY_REQUEST]"
| "encode_type TyPolicyTable = [TY_POLICY_TABLE]"
| "encode_type TyVm = [TY_VM]"
| "encode_type (TyRun t) = [TY_RUN] @ write_u32 t"
| "encode_type (TyWait t) = [TY_WAIT] @ write_u32 t"
| "encode_type (TyPendingCall a r) = [TY_PENDING_CALL] @ write_u32 a @ write_u32 r"
| "encode_type (TyHandle m r) = [TY_HANDLE] @ write_u32 m @ write_u32 r"
| "encode_type TyVmSnapshot = [TY_VM_SNAPSHOT]"
| "encode_type (TyRunSnapshot t) = [TY_RUN_SNAPSHOT] @ write_u32 t"
| "encode_type TyBytes = [TY_BYTES]"
| "encode_type TyFileHandle = [TY_FILE_HANDLE]"
| "encode_type TyResourceHandle = [TY_RESOURCE_HANDLE]"
| "encode_type TyHostResource = [TY_HOST_RESOURCE]"
| "encode_type (TyOp op f) = [TY_OP] @ write_u32 op @ write_u32 f"

section \<open>The entries of the semantic tables\<close>

definition encode_app :: "TypeApp \<Rightarrow> u8 list" where
  "encode_app a = write_table write_u32 (app_types a) @ write_table encode_row (app_rows a)"

definition encode_associated :: "BcAssociated \<Rightarrow> u8 list" where
  "encode_associated a = write_bytes (as_name a) @ encode_bounds (as_bounds a)"

definition encode_type_premise :: "BcTypePremise \<Rightarrow> u8 list" where
  "encode_type_premise p = write_u32 (tp_subject p) @ encode_bounds (tp_bounds p)"

definition encode_interface_method :: "BcInterfaceMethod \<Rightarrow> u8 list" where
  "encode_interface_method m =
     write_u32 (im_selector m) @ write_flag (im_mut_self m) @ write_u32 (im_type_params m) @
     encode_type_bounds (im_type_bounds m) @ write_u32 (im_effect_params m) @
     write_table encode_type_premise (im_premises m) @
     encode_signature (im_params m) (im_param_muts m) (im_ret m) (im_row m) @ write_u32 (im_default m)"

definition encode_interface_def :: "BcInterface \<Rightarrow> u8 list" where
  "encode_interface_def i =
     write_u32 (if_type_params i) @ write_u32 (if_effect_params i) @
     write_table write_flag (if_generic_is_effect i) @ write_table encode_interface_use (if_parents i) @
     encode_type_bounds (if_type_bounds i) @ write_table encode_associated (if_associated i) @
     write_table encode_interface_method (if_methods i)"

definition encode_conformance_premise :: "BcConformancePremise \<Rightarrow> u8 list" where
  "encode_conformance_premise p = write_u32 (cp_param p) @ encode_bounds (cp_bounds p)"

definition encode_conformance :: "BcConformance \<Rightarrow> u8 list" where
  "encode_conformance c =
     write_u32 (cf_class c) @ encode_interface_use (cf_application c) @
     write_table encode_conformance_premise (cf_premises c) @ write_table write_u32 (cf_associated c) @
     write_table write_flag (cf_method_overrides c)"

definition encode_import :: "Import \<Rightarrow> u8 list" where
  "encode_import i =
     write_bytes (imp_module i) @ write_bytes (imp_name i) @ [import_kind_tag (imp_kind i)] @
     write_u32 (imp_def i) @ imp_hash i"

definition encode_callable_contract :: "BcCallableContract \<Rightarrow> u8 list" where
  "encode_callable_contract c =
     write_u32 (cc_type_params c) @ write_u32 (cc_effect_params c) @ encode_type_bounds (cc_type_bounds c) @
     encode_signature (cc_params c) (cc_param_muts c) (cc_ret c) (cc_row c)"

definition SLOT_FUNCTION :: u8 where "SLOT_FUNCTION = 0"
definition SLOT_METHOD :: u8 where "SLOT_METHOD = 1"
definition SLOT_CLASS :: u8 where "SLOT_CLASS = 2"
definition SLOT_VALUE :: u8 where "SLOT_VALUE = 3"
definition SLOT_PROCESS :: u8 where "SLOT_PROCESS = 4"

primrec encode_slot_contract :: "SlotContract \<Rightarrow> u8 list" where
  "encode_slot_contract (SlotFunction c) = [SLOT_FUNCTION] @ encode_callable_contract c"
| "encode_slot_contract (SlotMethod c) = [SLOT_METHOD] @ encode_callable_contract c"
| "encode_slot_contract (SlotClass type_params abi ty constructor) =
     [SLOT_CLASS] @ write_u32 type_params @ abi @ write_u32 ty @ encode_callable_contract constructor"
| "encode_slot_contract (SlotValue ty) = [SLOT_VALUE] @ write_u32 ty"
| "encode_slot_contract (SlotProcess message result) = [SLOT_PROCESS] @ write_u32 message @ write_u32 result"

fun encode_slot_target :: "SlotTarget option \<Rightarrow> u8 list" where
  "encode_slot_target None = [0]"
| "encode_slot_target (Some (TargetFunction func)) = [1] @ write_u32 func"
| "encode_slot_target (Some (TargetClass class_index constructor)) =
     [2] @ write_u32 class_index @ write_u32 constructor"

definition encode_slot :: "SlotSpec \<Rightarrow> u8 list" where
  "encode_slot s =
     sl_key s @ sl_contract_hash s @ encode_slot_contract (sl_contract s) @ encode_slot_target (sl_initial s)"

definition KIND_NORMAL :: u8 where "KIND_NORMAL = 0"
definition KIND_ABSTRACT :: u8 where "KIND_ABSTRACT = 1"
definition KIND_CASE :: u8 where "KIND_CASE = 2"

primrec class_kind_tag :: "BcClassKind \<Rightarrow> u8" where
  "class_kind_tag KindNormal = KIND_NORMAL"
| "class_kind_tag KindAbstract = KIND_ABSTRACT"
| "class_kind_tag KindCase = KIND_CASE"

definition encode_field :: "str \<times> u32 \<Rightarrow> u8 list" where
  "encode_field f = write_bytes (fst f) @ write_u32 (snd f)"

definition encode_method_ref :: "u32 \<times> u32 \<Rightarrow> u8 list" where
  "encode_method_ref p = write_u32 (fst p) @ write_u32 (snd p)"

definition encode_class :: "BcClass \<Rightarrow> u8 list" where
  "encode_class c =
     write_u32 (cls_parent c) @ write_table write_u32 (cls_parent_args c) @ write_u32 (cls_type_params c) @
     [class_kind_tag (cls_kind c)] @ write_flag (cls_is_final c) @ write_flag (cls_is_frozen c) @
     write_table encode_field (cls_fields c) @ write_table encode_method_ref (cls_methods c)"

definition encode_reflection :: "ReflectionModule \<Rightarrow> u8 list" where
  "encode_reflection r = write_bytes (rm_name r) @ rm_semantic_hash r"

definition encode_block :: "Instr list \<Rightarrow> u8 list" where
  "encode_block b = write_table encode_instr b"

definition encode_func :: "Func \<Rightarrow> u8 list" where
  "encode_func f =
     write_u32 (fn_type_params f) @ write_u32 (fn_effect_params f) @
     encode_signature (fn_params f) (fn_param_muts f) (fn_ret f) (fn_row f) @
     write_table write_u32 (fn_captures f) @ write_table write_u32 (fn_local_types f) @
     write_table encode_block (fn_blocks f)"

definition encode_semantic :: "Module \<Rightarrow> u8 list" where
  "encode_semantic m =
     write_table write_bytes (m_strings m) @
     write_table write_bytes (m_bytes m) @
     write_table encode_type (m_types m) @
     write_table write_bytes (m_selectors m) @
     write_table encode_app (m_apps m) @
     write_table encode_interface_def (m_interfaces m) @
     write_table encode_conformance (m_conformances m) @
     write_table encode_type_bounds (m_class_bounds m) @
     write_table encode_type_bounds (m_func_bounds m) @
     write_table encode_import (m_imports m) @
     write_table encode_slot (m_slots m) @
     concat (map write_u32 (m_core_roles m)) @
     write_table encode_class (m_classes m) @
     write_table encode_reflection (m_reflections m) @
     write_table encode_func (m_funcs m) @
     write_u32 (m_entry m)"

definition semantic_section :: "Module \<Rightarrow> u8 list" where
  "semantic_section m = encode_semantic m"

section \<open>The export section\<close>

fun encode_const_value :: "ConstValue \<Rightarrow> u8 list" where
  "encode_const_value CvUnit = [0]"
| "encode_const_value (CvBool v) = [1] @ write_flag v"
| "encode_const_value (CvInt v) = [2] @ le_bytes 8 v"
| "encode_const_value (CvFloat v) = [3] @ le_bytes 8 v"
| "encode_const_value (CvChar v) = [7] @ write_u32 v"
| "encode_const_value (CvString v) = [4] @ write_bytes v"
| "encode_const_value (CvBytes v) = [5] @ write_u32 (of_nat (length v)) @ v"
| "encode_const_value (CvTuple items) =
     [6] @ write_u32 (of_nat (length items)) @ concat (map encode_const_value items)"

definition encode_interface_names :: "BcInterface \<Rightarrow> u8 list" where
  "encode_interface_names i =
     write_bytes (if_name i) @ write_bytes (if_key i) @
     concat (map (\<lambda>m. write_table write_bytes (im_param_names m)) (if_methods i))"

definition encode_class_names :: "BcClass \<Rightarrow> u8 list" where
  "encode_class_names c =
     write_bytes (cls_name c) @ write_bytes (cls_key c) @ write_table write_flag (cls_field_defaults c) @
     write_u32 (cls_own_start c) @ write_flag (cls_has_init c)"

definition encode_func_names :: "Func \<Rightarrow> u8 list" where
  "encode_func_names f = write_bytes (fn_name f) @ write_table write_bytes (fn_param_names f)"

definition encode_slot_names :: "SlotSpec \<Rightarrow> u8 list" where
  "encode_slot_names s = write_bytes (sl_binding s) @ write_flag (sl_late s)"

definition encode_binding :: "FuncBinding \<Rightarrow> u8 list" where
  "encode_binding b = write_bytes (fb_key b) @ write_u32 (fb_func b) @ write_u32 (fb_class b)"

primrec encode_constant :: "Constant option \<Rightarrow> u8 list" where
  "encode_constant None = [0]"
| "encode_constant (Some c) = [1] @ write_u32 (ct_ty c) @ encode_const_value (ct_value c)"

definition encode_export :: "Export \<Rightarrow> u8 list" where
  "encode_export e =
     [export_kind_tag (ex_kind e)] @ write_bytes (ex_name e) @ write_flag (ex_source e) @
     write_u32 (ex_def e) @ write_u32 (ex_ctor e) @ encode_constant (ex_constant e)"

definition encode_exports :: "Module \<Rightarrow> u8 list" where
  "encode_exports m =
     write_table encode_interface_names (m_interfaces m) @
     write_table encode_class_names (m_classes m) @
     write_table encode_func_names (m_funcs m) @
     write_table encode_slot_names (m_slots m) @
     write_table encode_binding (m_bindings m) @
     write_table encode_export (m_exports m)"

definition linkage_section :: "Module \<Rightarrow> u8 list" where
  "linkage_section m = encode_exports m"

section \<open>The container\<close>

definition MAGIC :: "u8 list" where
  "MAGIC = [76, 77, 66, 67]"

definition VERSION :: "16 word" where
  "VERSION = 76"

definition HEADER_LEN :: nat where
  "HEADER_LEN = 4 + 2 + 32 + 3 * 8"

text \<open>The section table: the running offset is a 32-bit integer.\<close>

primrec write_sections :: "u32 \<Rightarrow> u8 list list \<Rightarrow> u8 list" where
  "write_sections offset [] = []"
| "write_sections offset (section # sections) =
     write_u32 offset @ write_u32 (of_nat (length section)) @
     write_sections (offset + of_nat (length section)) sections"

definition encode_with_bundle :: "digest \<Rightarrow> Module \<Rightarrow> u8 list" where
  "encode_with_bundle bundle_digest m =
     (let semantic = encode_semantic m;
          exports = encode_exports m;
          debug = m_debug m
      in MAGIC @ le_bytes 2 VERSION @ bundle_digest @
         write_sections (of_nat HEADER_LEN) [semantic, exports, debug] @
         semantic @ exports @ debug)"

end
