(* ===== verification/Syntax_View.thy ===== *)
theory Syntax_View
  imports Wire
begin

text \<open>
  The portable syntax records of \<open>crates/lm-abi/src/syntax.rs\<close>: a header, fixed-size
  records and a child table in one byte string, the checked view on it, the encoder,
  the leaf and node builders and the extraction of a subtree. A slice index outside
  the bytes is a panic, a value of the result type. What the allocator grants is a
  parameter, the \<open>can_reserve\<close> of \<^typ>\<open>Host\<close>.
\<close>

section \<open>Kinds and classes\<close>

datatype SyntaxClass = SynNode | SynToken | SynTrivia | SynInvalid

primrec syntax_class_tag :: "SyntaxClass \<Rightarrow> u8" where
  "syntax_class_tag SynNode = 0"
| "syntax_class_tag SynToken = 1"
| "syntax_class_tag SynTrivia = 2"
| "syntax_class_tag SynInvalid = 3"

definition syntax_class_from_tag :: "u8 \<Rightarrow> SyntaxClass option" where
  "syntax_class_from_tag tag =
     (if tag = 0 then Some SynNode
      else if tag = 1 then Some SynToken
      else if tag = 2 then Some SynTrivia
      else if tag = 3 then Some SynInvalid
      else None)"

definition KIND_MODULE :: u16 where "KIND_MODULE = 1"
definition KIND_USE :: u16 where "KIND_USE = 2"
definition KIND_INTERFACE :: u16 where "KIND_INTERFACE = 3"
definition KIND_CLASS :: u16 where "KIND_CLASS = 4"
definition KIND_ENUM :: u16 where "KIND_ENUM = 5"
definition KIND_FUNCTION :: u16 where "KIND_FUNCTION = 6"
definition KIND_STATEMENT :: u16 where "KIND_STATEMENT = 7"
definition KIND_INVALID :: u16 where "KIND_INVALID = 8"
definition KIND_CONST :: u16 where "KIND_CONST = 9"
definition KIND_INT :: u16 where "KIND_INT = 100"
definition KIND_STRING :: u16 where "KIND_STRING = 101"
definition KIND_IDENTIFIER :: u16 where "KIND_IDENTIFIER = 102"
definition KIND_KEYWORD :: u16 where "KIND_KEYWORD = 103"
definition KIND_LPAREN :: u16 where "KIND_LPAREN = 104"
definition KIND_RPAREN :: u16 where "KIND_RPAREN = 105"
definition KIND_LBRACKET :: u16 where "KIND_LBRACKET = 106"
definition KIND_RBRACKET :: u16 where "KIND_RBRACKET = 107"
definition KIND_LBRACE :: u16 where "KIND_LBRACE = 108"
definition KIND_RBRACE :: u16 where "KIND_RBRACE = 109"
definition KIND_COMMA :: u16 where "KIND_COMMA = 110"
definition KIND_COLON :: u16 where "KIND_COLON = 111"
definition KIND_DOT :: u16 where "KIND_DOT = 112"
definition KIND_PIPE :: u16 where "KIND_PIPE = 113"
definition KIND_ARROW :: u16 where "KIND_ARROW = 114"
definition KIND_ASSIGN :: u16 where "KIND_ASSIGN = 115"
definition KIND_EQ :: u16 where "KIND_EQ = 116"
definition KIND_NE :: u16 where "KIND_NE = 117"
definition KIND_LT :: u16 where "KIND_LT = 118"
definition KIND_LE :: u16 where "KIND_LE = 119"
definition KIND_GT :: u16 where "KIND_GT = 120"
definition KIND_GE :: u16 where "KIND_GE = 121"
definition KIND_PLUS :: u16 where "KIND_PLUS = 122"
definition KIND_MINUS :: u16 where "KIND_MINUS = 123"
definition KIND_STAR :: u16 where "KIND_STAR = 124"
definition KIND_SLASH :: u16 where "KIND_SLASH = 125"
definition KIND_PERCENT :: u16 where "KIND_PERCENT = 126"
definition KIND_NEWLINE :: u16 where "KIND_NEWLINE = 127"
definition KIND_QUESTION :: u16 where "KIND_QUESTION = 128"
definition KIND_FLOAT :: u16 where "KIND_FLOAT = 129"
definition KIND_BYTES :: u16 where "KIND_BYTES = 130"
definition KIND_AMP :: u16 where "KIND_AMP = 131"
definition KIND_CARET :: u16 where "KIND_CARET = 132"
definition KIND_SHL :: u16 where "KIND_SHL = 133"
definition KIND_SHR :: u16 where "KIND_SHR = 134"
definition KIND_USHR :: u16 where "KIND_USHR = 135"
definition KIND_TILDE :: u16 where "KIND_TILDE = 136"
definition KIND_CHAR :: u16 where "KIND_CHAR = 137"
definition KIND_REGEX :: u16 where "KIND_REGEX = 138"
definition KIND_WHITESPACE :: u16 where "KIND_WHITESPACE = 500"
definition KIND_COMMENT :: u16 where "KIND_COMMENT = 501"
definition KIND_BOM :: u16 where "KIND_BOM = 502"

lemmas kind_defs =
  KIND_MODULE_def KIND_USE_def KIND_INTERFACE_def KIND_CLASS_def KIND_ENUM_def KIND_FUNCTION_def
  KIND_STATEMENT_def KIND_INVALID_def KIND_CONST_def KIND_INT_def KIND_STRING_def KIND_IDENTIFIER_def
  KIND_KEYWORD_def KIND_LPAREN_def KIND_RPAREN_def KIND_LBRACKET_def KIND_RBRACKET_def KIND_LBRACE_def
  KIND_RBRACE_def KIND_COMMA_def KIND_COLON_def KIND_DOT_def KIND_PIPE_def KIND_ARROW_def KIND_ASSIGN_def
  KIND_EQ_def KIND_NE_def KIND_LT_def KIND_LE_def KIND_GT_def KIND_GE_def KIND_PLUS_def KIND_MINUS_def
  KIND_STAR_def KIND_SLASH_def KIND_PERCENT_def KIND_NEWLINE_def KIND_QUESTION_def KIND_FLOAT_def
  KIND_BYTES_def KIND_AMP_def KIND_CARET_def KIND_SHL_def KIND_SHR_def KIND_USHR_def KIND_TILDE_def
  KIND_CHAR_def KIND_REGEX_def KIND_WHITESPACE_def KIND_COMMENT_def KIND_BOM_def

definition syntax_kind_class :: "u16 \<Rightarrow> SyntaxClass option" where
  "syntax_kind_class kind =
     (if kind \<in> {KIND_MODULE, KIND_USE, KIND_INTERFACE, KIND_CLASS, KIND_ENUM, KIND_FUNCTION, KIND_STATEMENT, KIND_CONST}
      then Some SynNode
      else if kind = KIND_INVALID then Some SynInvalid
      else if KIND_INT \<le> kind \<and> kind \<le> KIND_REGEX then Some SynToken
      else if kind \<in> {KIND_WHITESPACE, KIND_COMMENT, KIND_BOM} then Some SynTrivia
      else None)"

definition syntax_kind_name :: "u16 \<Rightarrow> string option" where
  "syntax_kind_name kind =
     (if kind = KIND_MODULE then Some ''Module''
      else if kind = KIND_USE then Some ''UseDeclaration''
      else if kind = KIND_INTERFACE then Some ''InterfaceDeclaration''
      else if kind = KIND_CLASS then Some ''ClassDeclaration''
      else if kind = KIND_ENUM then Some ''EnumDeclaration''
      else if kind = KIND_FUNCTION then Some ''FunctionDeclaration''
      else if kind = KIND_STATEMENT then Some ''Statement''
      else if kind = KIND_INVALID then Some ''InvalidFragment''
      else if kind = KIND_CONST then Some ''ConstantDeclaration''
      else if kind = KIND_INT then Some ''IntegerToken''
      else if kind = KIND_STRING then Some ''StringToken''
      else if kind = KIND_IDENTIFIER then Some ''IdentifierToken''
      else if kind = KIND_KEYWORD then Some ''KeywordToken''
      else if kind = KIND_LPAREN then Some ''LeftParenthesisToken''
      else if kind = KIND_RPAREN then Some ''RightParenthesisToken''
      else if kind = KIND_LBRACKET then Some ''LeftBracketToken''
      else if kind = KIND_RBRACKET then Some ''RightBracketToken''
      else if kind = KIND_LBRACE then Some ''LeftBraceToken''
      else if kind = KIND_RBRACE then Some ''RightBraceToken''
      else if kind = KIND_COMMA then Some ''CommaToken''
      else if kind = KIND_COLON then Some ''ColonToken''
      else if kind = KIND_DOT then Some ''DotToken''
      else if kind = KIND_PIPE then Some ''PipeToken''
      else if kind = KIND_ARROW then Some ''ArrowToken''
      else if kind = KIND_ASSIGN then Some ''AssignmentToken''
      else if kind = KIND_EQ then Some ''EqualToken''
      else if kind = KIND_NE then Some ''NotEqualToken''
      else if kind = KIND_LT then Some ''LessToken''
      else if kind = KIND_LE then Some ''LessEqualToken''
      else if kind = KIND_GT then Some ''GreaterToken''
      else if kind = KIND_GE then Some ''GreaterEqualToken''
      else if kind = KIND_PLUS then Some ''PlusToken''
      else if kind = KIND_MINUS then Some ''MinusToken''
      else if kind = KIND_STAR then Some ''StarToken''
      else if kind = KIND_SLASH then Some ''SlashToken''
      else if kind = KIND_PERCENT then Some ''PercentToken''
      else if kind = KIND_QUESTION then Some ''QuestionToken''
      else if kind = KIND_FLOAT then Some ''FloatToken''
      else if kind = KIND_BYTES then Some ''BytesToken''
      else if kind = KIND_CHAR then Some ''CharacterToken''
      else if kind = KIND_REGEX then Some ''RegexToken''
      else if kind = KIND_AMP then Some ''AmpersandToken''
      else if kind = KIND_CARET then Some ''CaretToken''
      else if kind = KIND_SHL then Some ''ShiftLeftToken''
      else if kind = KIND_SHR then Some ''ShiftRightToken''
      else if kind = KIND_USHR then Some ''UnsignedShiftRightToken''
      else if kind = KIND_TILDE then Some ''TildeToken''
      else if kind = KIND_NEWLINE then Some ''NewlineToken''
      else if kind = KIND_WHITESPACE then Some ''WhitespaceTrivia''
      else if kind = KIND_COMMENT then Some ''CommentTrivia''
      else if kind = KIND_BOM then Some ''ByteOrderMarkTrivia''
      else None)"

section \<open>Results\<close>

datatype SyntaxError = SynHeader | SynVersion | SynLength | SynReference | SynRange | SynKind

datatype 'a syn = SynOk 'a | SynErr SyntaxError | SynPanic

definition s_bind :: "'a syn \<Rightarrow> ('a \<Rightarrow> 'b syn) \<Rightarrow> 'b syn" where
  "s_bind r f = (case r of SynOk a \<Rightarrow> f a | SynErr e \<Rightarrow> SynErr e | SynPanic \<Rightarrow> SynPanic)"

definition s_if :: "bool \<Rightarrow> SyntaxError \<Rightarrow> unit syn" where
  "s_if ok e = (if ok then SynOk () else SynErr e)"

definition s_opt :: "SyntaxError \<Rightarrow> 'a option \<Rightarrow> 'a syn" where
  "s_opt e x = (case x of None \<Rightarrow> SynErr e | Some a \<Rightarrow> SynOk a)"

text \<open>A slice index.\<close>

definition s_at :: "u8 list \<Rightarrow> nat \<Rightarrow> u8 syn" where
  "s_at bytes i = (case get_opt bytes i of None \<Rightarrow> SynPanic | Some b \<Rightarrow> SynOk b)"

text \<open>\<open>u32::try_from\<close> on a \<open>usize\<close>, and \<open>u32::checked_add\<close>.\<close>

definition try_u32 :: "nat \<Rightarrow> u32 option" where
  "try_u32 n = (if int n \<le> 4294967295 then Some (of_nat n) else None)"

definition checked_add :: "u32 \<Rightarrow> u32 \<Rightarrow> u32 option" where
  "checked_add a b = (if uint a + uint b \<le> 4294967295 then Some (a + b) else None)"

text \<open>Plain \<open>-\<close> on \<open>u32\<close>: an underflow panics, as in a build with overflow checks.\<close>

definition s_sub :: "u32 \<Rightarrow> u32 \<Rightarrow> u32 syn" where
  "s_sub a b = (if b \<le> a then SynOk (a - b) else SynPanic)"

definition s_reserve :: "Host \<Rightarrow> nat \<Rightarrow> unit syn" where
  "s_reserve h bytes = s_if (can_reserve h bytes) SynLength"

section \<open>The view\<close>

definition SYNTAX_MAGIC :: "u8 list" where
  "SYNTAX_MAGIC = [76, 77, 83, 89, 78, 84, 0, 1]"

definition FORMAT_VERSION :: u16 where "FORMAT_VERSION = 1"
definition GRAMMAR_MAJOR :: u16 where "GRAMMAR_MAJOR = 1"
definition GRAMMAR_MINOR :: u16 where "GRAMMAR_MINOR = 5"
definition HEADER_SIZE :: nat where "HEADER_SIZE = 28"
definition RECORD_SIZE :: nat where "RECORD_SIZE = 20"

record SyntaxRecord =
  sr_class :: SyntaxClass
  sr_kind :: u16
  sr_lo :: u32
  sr_hi :: u32
  sr_child_start :: u32
  sr_child_len :: u32

record SyntaxView =
  sv_bytes :: "u8 list"
  sv_source_len :: u32
  sv_items :: u32
  sv_children :: u32
  sv_root :: u32

definition read_u16 :: "u8 list \<Rightarrow> nat \<Rightarrow> u16 syn" where
  "read_u16 bytes at =
     (if at + 2 \<le> length bytes then SynOk (from_le_bytes (take 2 (drop at bytes))) else SynErr SynLength)"

definition read_u32 :: "u8 list \<Rightarrow> nat \<Rightarrow> u32 syn" where
  "read_u32 bytes at =
     (if at + 4 \<le> length bytes then SynOk (from_le_bytes (take 4 (drop at bytes))) else SynErr SynLength)"

definition view_record :: "SyntaxView \<Rightarrow> u32 \<Rightarrow> SyntaxRecord syn" where
  "view_record v index =
     s_bind (s_if (index < sv_items v) SynReference) (\<lambda>_.
     let at = HEADER_SIZE + unat index * RECORD_SIZE in
     s_bind (s_at (sv_bytes v) at) (\<lambda>tag.
     s_bind (s_opt SynKind (syntax_class_from_tag tag)) (\<lambda>cls.
     s_bind (s_at (sv_bytes v) (at + 1)) (\<lambda>pad.
     s_bind (s_if (pad = 0) SynKind) (\<lambda>_.
     s_bind (read_u16 (sv_bytes v) (at + 2)) (\<lambda>kind.
     s_bind (s_if (syntax_kind_class kind = Some cls) SynKind) (\<lambda>_.
     s_bind (read_u32 (sv_bytes v) (at + 4)) (\<lambda>lo.
     s_bind (read_u32 (sv_bytes v) (at + 8)) (\<lambda>hi.
     s_bind (read_u32 (sv_bytes v) (at + 12)) (\<lambda>child_start.
     s_bind (read_u32 (sv_bytes v) (at + 16)) (\<lambda>child_len.
     s_bind (s_opt SynReference (checked_add child_start child_len)) (\<lambda>child_end.
     s_bind (s_if (\<not> (lo > hi \<or> hi > sv_source_len v)) SynRange) (\<lambda>_.
     s_bind (s_if (\<not> (child_end > sv_children v \<or> (cls \<in> {SynToken, SynTrivia} \<and> child_len \<noteq> 0))) SynReference) (\<lambda>_.
     SynOk \<lparr>sr_class = cls, sr_kind = kind, sr_lo = lo, sr_hi = hi,
            sr_child_start = child_start, sr_child_len = child_len\<rparr>))))))))))))))"

definition view_child :: "SyntaxView \<Rightarrow> SyntaxRecord \<Rightarrow> u32 \<Rightarrow> u32 syn" where
  "view_child v rec offset =
     s_bind (s_if (offset < sr_child_len rec) SynReference) (\<lambda>_.
     s_bind (s_opt SynReference (checked_add (sr_child_start rec) offset)) (\<lambda>ordinal.
     let base = HEADER_SIZE + unat (sv_items v) * RECORD_SIZE in
     s_bind (read_u32 (sv_bytes v) (base + unat ordinal * 4)) (\<lambda>index.
     s_bind (s_if (index < sv_items v) SynReference) (\<lambda>_. SynOk index))))"

definition syntax_view_new :: "u8 list \<Rightarrow> nat \<Rightarrow> SyntaxView syn" where
  "syntax_view_new bytes source_len =
     s_bind (s_if (\<not> (length bytes < HEADER_SIZE \<or> take 8 bytes \<noteq> SYNTAX_MAGIC)) SynHeader) (\<lambda>_.
     s_bind (read_u16 bytes 8) (\<lambda>format.
     s_bind (read_u16 bytes 10) (\<lambda>major.
     s_bind (read_u16 bytes 12) (\<lambda>minor.
     s_bind (read_u16 bytes 14) (\<lambda>zero.
     s_bind (s_if (format = FORMAT_VERSION \<and> major = GRAMMAR_MAJOR \<and> minor = GRAMMAR_MINOR \<and> zero = 0) SynVersion) (\<lambda>_.
     s_bind (read_u32 bytes 16) (\<lambda>items.
     s_bind (read_u32 bytes 20) (\<lambda>children.
     s_bind (read_u32 bytes 24) (\<lambda>root.
     s_bind (s_if (root < items) SynReference) (\<lambda>_.
     let expected = HEADER_SIZE + unat items * RECORD_SIZE + unat children * 4 in
     s_bind (s_if (\<not> (expected \<noteq> length bytes \<or> int source_len > 4294967295)) SynLength) (\<lambda>_.
     let v = \<lparr>sv_bytes = bytes, sv_source_len = of_nat source_len, sv_items = items,
              sv_children = children, sv_root = root\<rparr> in
     s_bind (view_record v root) (\<lambda>_. SynOk v))))))))))))"

section \<open>The encoder\<close>

definition encode_record :: "SyntaxRecord \<Rightarrow> u8 list" where
  "encode_record r =
     [syntax_class_tag (sr_class r), 0] @ le_bytes 2 (sr_kind r) @ le_bytes 4 (sr_lo r) @ le_bytes 4 (sr_hi r) @
     le_bytes 4 (sr_child_start r) @ le_bytes 4 (sr_child_len r)"

definition syntax_header :: "nat \<Rightarrow> nat \<Rightarrow> u32 \<Rightarrow> u8 list" where
  "syntax_header records children root =
     SYNTAX_MAGIC @ le_bytes 2 FORMAT_VERSION @ le_bytes 2 GRAMMAR_MAJOR @ le_bytes 2 GRAMMAR_MINOR @
     le_bytes 2 (0 :: u16) @ le_bytes 4 (of_nat records :: u32) @ le_bytes 4 (of_nat children :: u32) @ le_bytes 4 root"

definition encode_syntax :: "Host \<Rightarrow> SyntaxRecord list \<Rightarrow> u32 list \<Rightarrow> u32 \<Rightarrow> u8 list syn" where
  "encode_syntax h records children root =
     s_bind (s_if (unat root < length records) SynReference) (\<lambda>_.
     s_bind (s_if (\<not> (int (length records) > 4294967295 \<or> int (length children) > 4294967295)) SynLength) (\<lambda>_.
     let size = HEADER_SIZE + length records * RECORD_SIZE + length children * 4 in
     s_bind (s_reserve h size) (\<lambda>_.
     SynOk (syntax_header (length records) (length children) root @
            concat (map encode_record records) @ concat (map (le_bytes 4) children)))))"

section \<open>Extracting a subtree\<close>

record DetachedSyntax =
  ds_source_start :: u32
  ds_source_end :: u32
  ds_records :: "u8 list"
  ds_root :: u32

text \<open>The children of a record, last one first, so that the first one ends on top of the stack.\<close>

primrec push_children :: "SyntaxView \<Rightarrow> SyntaxRecord \<Rightarrow> nat \<Rightarrow> u32 list \<Rightarrow> u32 list syn" where
  "push_children v rec 0 stack = SynOk stack"
| "push_children v rec (Suc k) stack =
     s_bind (view_child v rec (of_nat k)) (\<lambda>child.
     s_bind (view_record v child) (\<lambda>child_record.
     s_bind (s_if (\<not> (sr_lo child_record < sr_lo rec \<or> sr_hi child_record > sr_hi rec)) SynRange) (\<lambda>_.
     push_children v rec k (child # stack))))"

definition detach_visit :: "SyntaxView \<Rightarrow> SyntaxRecord \<Rightarrow> u32 \<Rightarrow> u32 list \<Rightarrow> u32 list syn" where
  "detach_visit v root current stack =
     s_bind (view_record v current) (\<lambda>rec.
     s_bind (s_if (\<not> (sr_lo rec < sr_lo root \<or> sr_hi rec > sr_hi root)) SynRange) (\<lambda>_.
     push_children v rec (unat (sr_child_len rec)) stack))"

lemma count_unseen_update:
  "i < length seen \<Longrightarrow> \<not> seen ! i \<Longrightarrow> length (filter Not (seen[i := True])) < length (filter Not seen)"
proof (induction seen arbitrary: i)
  case (Cons b seen)
  then show ?case by (cases i) auto
qed simp

text \<open>The walk: each round marks an item that was not marked before, or stops. The stack can outgrow its
  reservation where an item is listed as a child more than once; \<^verbatim>\<open>push\<close> then grows the vector, and the
  second pop of that item ends the walk with an error.\<close>

function detach_walk :: "SyntaxView \<Rightarrow> SyntaxRecord \<Rightarrow> bool list \<Rightarrow> u32 list \<Rightarrow> u32 list \<Rightarrow> u32 list syn" where
  "detach_walk v root seen order [] = SynOk order"
| "detach_walk v root seen order (current # stack) =
     (case get_opt seen (unat current) of
        None \<Rightarrow> SynErr SynReference
      | Some True \<Rightarrow> SynErr SynReference
      | Some False \<Rightarrow>
          (case detach_visit v root current stack of
             SynOk stack' \<Rightarrow> detach_walk v root (seen[unat current := True]) (order @ [current]) stack'
           | SynErr e \<Rightarrow> SynErr e
           | SynPanic \<Rightarrow> SynPanic))"
  by pat_completeness auto

termination
  by (relation "measure (\<lambda>(v, root, seen, order, stack). length (filter Not seen))")
     (auto simp: get_opt_Some_iff intro: count_unseen_update)

primrec detach_mapping :: "u32 list \<Rightarrow> nat \<Rightarrow> u32 list \<Rightarrow> u32 list option" where
  "detach_mapping mapping new [] = Some mapping"
| "detach_mapping mapping new (old # order) =
     (if unat old < length mapping then detach_mapping (mapping[unat old := of_nat new]) (Suc new) order else None)"

primrec detach_child_total :: "SyntaxView \<Rightarrow> u32 list \<Rightarrow> nat \<Rightarrow> nat syn" where
  "detach_child_total v [] acc = SynOk acc"
| "detach_child_total v (old # order) acc =
     s_bind (view_record v old) (\<lambda>rec. detach_child_total v order (acc + unat (sr_child_len rec)))"

primrec map_children :: "SyntaxView \<Rightarrow> u32 list \<Rightarrow> SyntaxRecord \<Rightarrow> nat list \<Rightarrow> u32 list \<Rightarrow> u32 list syn" where
  "map_children v mapping rec [] children = SynOk children"
| "map_children v mapping rec (offset # offsets) children =
     s_bind (view_child v rec (of_nat offset)) (\<lambda>child.
     s_bind (s_opt SynReference (case get_opt mapping (unat child) of
        Some mapped \<Rightarrow> if mapped \<noteq> - 1 then Some mapped else None | None \<Rightarrow> None)) (\<lambda>mapped.
     map_children v mapping rec offsets (children @ [mapped])))"

primrec detach_records ::
  "SyntaxView \<Rightarrow> SyntaxRecord \<Rightarrow> u32 list \<Rightarrow> u32 list \<Rightarrow> SyntaxRecord list \<Rightarrow> u32 list \<Rightarrow>
     (SyntaxRecord list \<times> u32 list) syn" where
  "detach_records v root mapping [] records children = SynOk (records, children)"
| "detach_records v root mapping (old # order) records children =
     s_bind (view_record v old) (\<lambda>source.
     s_bind (map_children v mapping source [0..<unat (sr_child_len source)] children) (\<lambda>children'.
     s_bind (s_sub (sr_lo source) (sr_lo root)) (\<lambda>lo.
     s_bind (s_sub (sr_hi source) (sr_lo root)) (\<lambda>hi.
     detach_records v root mapping order
       (records @ [\<lparr>sr_class = sr_class source, sr_kind = sr_kind source, sr_lo = lo, sr_hi = hi,
          sr_child_start = of_nat (length children), sr_child_len = sr_child_len source\<rparr>])
       children'))))"

definition detach_syntax :: "Host \<Rightarrow> u8 list \<Rightarrow> nat \<Rightarrow> u32 \<Rightarrow> DetachedSyntax syn" where
  "detach_syntax h bytes source_len index =
     s_bind (syntax_view_new bytes source_len) (\<lambda>v.
     s_bind (view_record v index) (\<lambda>root.
     let item_count = unat (sv_items v) in
     s_bind (s_reserve h item_count) (\<lambda>_.
     s_bind (s_reserve h (item_count * 4)) (\<lambda>_.
     s_bind (s_reserve h (item_count * 4)) (\<lambda>_.
     s_bind (detach_walk v root (replicate item_count False) [] [index]) (\<lambda>order.
     s_bind (s_reserve h (item_count * 4)) (\<lambda>_.
     (case detach_mapping (replicate item_count (- 1)) 0 order of
        None \<Rightarrow> SynPanic
      | Some mapping \<Rightarrow>
          s_bind (s_reserve h (length order * size_of h ESyntaxRecord)) (\<lambda>_.
          s_bind (detach_child_total v order 0) (\<lambda>child_total.
          s_bind (s_reserve h (child_total * 4)) (\<lambda>_.
          s_bind (detach_records v root mapping order [] []) (\<lambda>(records, children).
          s_bind (encode_syntax h records children 0) (\<lambda>out.
          SynOk \<lparr>ds_source_start = sr_lo root, ds_source_end = sr_hi root, ds_records = out, ds_root = 0\<rparr>)))))))))))))"

section \<open>Building leaves and nodes\<close>

definition build_syntax_leaf :: "Host \<Rightarrow> SyntaxClass \<Rightarrow> u16 \<Rightarrow> u8 list \<Rightarrow> u8 list syn" where
  "build_syntax_leaf h cls kind txt =
     s_bind (s_if (\<not> (syntax_kind_class kind \<noteq> Some cls \<or> cls \<notin> {SynToken, SynTrivia})) SynKind) (\<lambda>_.
     s_bind (s_opt SynLength (try_u32 (length txt))) (\<lambda>hi.
     encode_syntax h [\<lparr>sr_class = cls, sr_kind = kind, sr_lo = 0, sr_hi = hi, sr_child_start = 0, sr_child_len = 0\<rparr>] [] 0))"

record SyntaxPart =
  sp_source :: "u8 list"
  sp_records :: "u8 list"
  sp_index :: u32

record BuiltSyntax =
  bs_source :: "u8 list"
  bs_records :: "u8 list"

record BuildState =
  bd_source :: "u8 list"
  bd_records :: "SyntaxRecord list"
  bd_children :: "u32 list"
  bd_roots :: "u32 list"

primrec copy_children :: "SyntaxView \<Rightarrow> u32 \<Rightarrow> SyntaxRecord \<Rightarrow> nat list \<Rightarrow> u32 list \<Rightarrow> u32 list syn" where
  "copy_children v base rec [] children = SynOk children"
| "copy_children v base rec (offset # offsets) children =
     s_bind (view_child v rec (of_nat offset)) (\<lambda>child.
     s_bind (s_opt SynLength (checked_add base child)) (\<lambda>moved.
     copy_children v base rec offsets (children @ [moved])))"

primrec copy_records ::
  "Host \<Rightarrow> SyntaxView \<Rightarrow> u32 \<Rightarrow> u32 \<Rightarrow> nat list \<Rightarrow> SyntaxRecord list \<Rightarrow> u32 list \<Rightarrow>
     (SyntaxRecord list \<times> u32 list) syn" where
  "copy_records h v base source_offset [] records children = SynOk (records, children)"
| "copy_records h v base source_offset (index # indices) records children =
     s_bind (view_record v (of_nat index)) (\<lambda>rec.
     s_bind (s_reserve h ((length children + unat (sr_child_len rec)) * 4)) (\<lambda>_.
     s_bind (s_opt SynLength (try_u32 (length children))) (\<lambda>child_start.
     s_bind (copy_children v base rec [0..<unat (sr_child_len rec)] children) (\<lambda>children'.
     s_bind (s_opt SynLength (checked_add source_offset (sr_lo rec))) (\<lambda>lo.
     s_bind (s_opt SynLength (checked_add source_offset (sr_hi rec))) (\<lambda>hi.
     copy_records h v base source_offset indices
       (records @ [\<lparr>sr_class = sr_class rec, sr_kind = sr_kind rec, sr_lo = lo, sr_hi = hi,
          sr_child_start = child_start, sr_child_len = sr_child_len rec\<rparr>])
       children'))))))"

definition build_part :: "Host \<Rightarrow> SyntaxPart \<Rightarrow> BuildState \<Rightarrow> BuildState syn" where
  "build_part h part st =
     s_bind (detach_syntax h (sp_records part) (length (sp_source part)) (sp_index part)) (\<lambda>detached.
     s_bind (s_opt SynRange (str_get (sp_source part) (unat (ds_source_start detached)) (unat (ds_source_end detached)))) (\<lambda>txt.
     s_bind (s_opt SynLength (try_u32 (length (bd_source st)))) (\<lambda>source_offset.
     s_bind (s_reserve h (length (bd_source st) + length txt)) (\<lambda>_.
     s_bind (syntax_view_new (ds_records detached) (length txt)) (\<lambda>v.
     s_bind (s_reserve h ((length (bd_records st) + unat (sv_items v)) * size_of h ESyntaxRecord)) (\<lambda>_.
     s_bind (s_opt SynLength (try_u32 (length (bd_records st)))) (\<lambda>base.
     s_bind (s_opt SynLength (checked_add base (sv_root v))) (\<lambda>moved_root.
     s_bind (copy_records h v base source_offset [0..<unat (sv_items v)] (bd_records st) (bd_children st)) (\<lambda>(records, children).
     SynOk \<lparr>bd_source = bd_source st @ txt, bd_records = records, bd_children = children,
            bd_roots = bd_roots st @ [moved_root]\<rparr>)))))))))"

primrec build_parts :: "Host \<Rightarrow> SyntaxPart list \<Rightarrow> BuildState \<Rightarrow> BuildState syn" where
  "build_parts h [] st = SynOk st"
| "build_parts h (part # parts) st = s_bind (build_part h part st) (\<lambda>st'. build_parts h parts st')"

definition build_syntax_node :: "Host \<Rightarrow> u16 \<Rightarrow> SyntaxPart list \<Rightarrow> BuiltSyntax syn" where
  "build_syntax_node h kind parts =
     s_bind (s_opt SynKind (syntax_kind_class kind)) (\<lambda>cls.
     s_bind (s_if (cls \<in> {SynNode, SynInvalid}) SynKind) (\<lambda>_.
     s_bind (s_reserve h (length parts * 4)) (\<lambda>_.
     s_bind (build_parts h parts \<lparr>bd_source = [], bd_records = [], bd_children = [], bd_roots = []\<rparr>) (\<lambda>st.
     s_bind (s_opt SynLength (try_u32 (length (bd_children st)))) (\<lambda>child_start.
     s_bind (s_opt SynLength (try_u32 (length (bd_roots st)))) (\<lambda>child_len.
     s_bind (s_reserve h ((length (bd_children st) + length (bd_roots st)) * 4)) (\<lambda>_.
     s_bind (s_opt SynLength (try_u32 (length (bd_records st)))) (\<lambda>root.
     s_bind (s_reserve h ((length (bd_records st) + 1) * size_of h ESyntaxRecord)) (\<lambda>_.
     s_bind (s_opt SynLength (try_u32 (length (bd_source st)))) (\<lambda>hi.
     s_bind (encode_syntax h
        (bd_records st @ [\<lparr>sr_class = cls, sr_kind = kind, sr_lo = 0, sr_hi = hi,
           sr_child_start = child_start, sr_child_len = child_len\<rparr>])
        (bd_children st @ bd_roots st) root) (\<lambda>out.
     SynOk \<lparr>bs_source = bd_source st, bs_records = out\<rparr>)))))))))))"

end
