(* ===== verification/Debug_Info.thy ===== *)
theory Debug_Info
  imports Module_Data Syntax_View
begin

text \<open>
  The debug section of \<open>crates/lm-bytecode/src/debug.rs\<close>: its records, its own cursor
  with its own errors, the encoder and the decoder, the source origin of a definition,
  the validation against a module and the relocation at linking. The content hash
  (BLAKE3 behind \<open>identity::container_hash\<close>) is the parameter \<open>hash\<close>.
\<close>

section \<open>Records\<close>

record DebugSource =
  dso_path :: str
  dso_text :: str
  dso_syntax :: "u8 list"

datatype DefinitionKind = DefFunction | DefClass

record DebugDefinition =
  dd_kind :: DefinitionKind
  dd_target :: u32
  dd_source :: u32
  dd_lo :: u32
  dd_hi :: u32
  dd_syntax :: u32
  dd_origin :: digest

record DebugFunction =
  df_function :: u32
  df_source :: u32
  df_lo :: u32
  df_hi :: u32

record DebugCodeOrigin =
  dc_function :: u32
  dc_block :: u32
  dc_instruction :: u32
  dc_origin :: digest

record DebugInfo =
  di_sources :: "DebugSource list"
  di_definitions :: "DebugDefinition list"
  di_functions :: "DebugFunction list"
  di_code_origins :: "DebugCodeOrigin list"

definition debug_default :: DebugInfo where
  "debug_default = \<lparr>di_sources = [], di_definitions = [], di_functions = [], di_code_origins = []\<rparr>"

section \<open>Encoding\<close>

definition DEBUG_MAGIC :: "u8 list" where "DEBUG_MAGIC = [76, 77, 68, 66]"
definition DEBUG_VERSION :: u16 where "DEBUG_VERSION = 2"

primrec definition_kind_tag :: "DefinitionKind \<Rightarrow> u8" where
  "definition_kind_tag DefFunction = 0"
| "definition_kind_tag DefClass = 1"

definition encode_debug_source :: "DebugSource \<Rightarrow> u8 list" where
  "encode_debug_source s = write_bytes (dso_path s) @ write_bytes (dso_text s) @ write_bytes (dso_syntax s)"

definition encode_debug_definition :: "DebugDefinition \<Rightarrow> u8 list" where
  "encode_debug_definition d =
     [definition_kind_tag (dd_kind d)] @ write_u32 (dd_target d) @ write_u32 (dd_source d) @ write_u32 (dd_lo d) @
     write_u32 (dd_hi d) @ write_u32 (dd_syntax d) @ dd_origin d"

definition encode_debug_function :: "DebugFunction \<Rightarrow> u8 list" where
  "encode_debug_function f =
     write_u32 (df_function f) @ write_u32 (df_source f) @ write_u32 (df_lo f) @ write_u32 (df_hi f)"

definition encode_code_origin :: "DebugCodeOrigin \<Rightarrow> u8 list" where
  "encode_code_origin c =
     write_u32 (dc_function c) @ write_u32 (dc_block c) @ write_u32 (dc_instruction c) @ dc_origin c"

definition debug_encode :: "DebugInfo \<Rightarrow> u8 list" where
  "debug_encode info =
     (if di_sources info = [] \<and> di_definitions info = [] \<and> di_functions info = [] \<and> di_code_origins info = [] then []
      else DEBUG_MAGIC @ le_bytes 2 DEBUG_VERSION @
           write_table encode_debug_source (di_sources info) @
           write_table encode_debug_definition (di_definitions info) @
           write_table encode_debug_function (di_functions info) @
           write_table encode_code_origin (di_code_origins info))"

section \<open>Decoding\<close>

type_synonym 'a dreader = "(DebugError, 'a) cursor_reader"

definition dcur_take :: "nat \<Rightarrow> u8 list dreader" where
  "dcur_take len c =
     (let end = cur_pos c + len
      in if end > length (cur_bytes c) then Inl DebugBadLength
         else Inr (take len (drop (cur_pos c) (cur_bytes c)), c\<lparr>cur_pos := end\<rparr>))"

definition dcur_u8 :: "u8 dreader" where
  "dcur_u8 = p_bind (dcur_take 1) (\<lambda>b. p_ret (b ! 0))"

definition dcur_u16 :: "u16 dreader" where
  "dcur_u16 = p_bind (dcur_take 2) (\<lambda>b. p_ret (from_le_bytes b))"

definition dcur_u32 :: "u32 dreader" where
  "dcur_u32 = p_bind (dcur_take 4) (\<lambda>b. p_ret (from_le_bytes b))"

definition dcur_count :: "nat \<Rightarrow> nat dreader" where
  "dcur_count item_bytes = p_bind dcur_u32 (\<lambda>count c.
     if unat count > (length (cur_bytes c) - cur_pos c) div item_bytes then Inl DebugBadLength else Inr (unat count, c))"

definition dcur_bytes :: "u8 list dreader" where
  "dcur_bytes = p_bind dcur_u32 (\<lambda>len. dcur_take (unat len))"

definition dcur_string :: "str dreader" where
  "dcur_string = p_bind dcur_bytes (\<lambda>bytes. if utf8_valid bytes then p_ret bytes else p_err DebugBadText)"

definition dread_table :: "nat \<Rightarrow> 'a dreader \<Rightarrow> 'a list dreader" where
  "dread_table item_bytes r = p_bind (dcur_count item_bytes) (\<lambda>count. read_seq count r)"

definition decode_debug_source :: "DebugSource dreader" where
  "decode_debug_source = p_bind dcur_string (\<lambda>path. p_bind dcur_string (\<lambda>txt. p_bind dcur_bytes (\<lambda>syn.
     p_ret \<lparr>dso_path = path, dso_text = txt, dso_syntax = syn\<rparr>)))"

definition decode_debug_definition :: "DebugDefinition dreader" where
  "decode_debug_definition =
     p_bind dcur_u8 (\<lambda>tag.
     p_bind (if tag = 0 then p_ret DefFunction else if tag = 1 then p_ret DefClass else p_err DebugBadTag) (\<lambda>kind.
     p_bind dcur_u32 (\<lambda>target. p_bind dcur_u32 (\<lambda>source. p_bind dcur_u32 (\<lambda>lo. p_bind dcur_u32 (\<lambda>hi.
     p_bind dcur_u32 (\<lambda>syn. p_bind (dcur_take 32) (\<lambda>origin.
     p_ret \<lparr>dd_kind = kind, dd_target = target, dd_source = source, dd_lo = lo, dd_hi = hi,
            dd_syntax = syn, dd_origin = origin\<rparr>))))))))"

definition decode_debug_function :: "DebugFunction dreader" where
  "decode_debug_function =
     p_bind dcur_u32 (\<lambda>function_index. p_bind dcur_u32 (\<lambda>source. p_bind dcur_u32 (\<lambda>lo. p_bind dcur_u32 (\<lambda>hi.
     p_ret \<lparr>df_function = function_index, df_source = source, df_lo = lo, df_hi = hi\<rparr>))))"

definition decode_code_origin :: "DebugCodeOrigin dreader" where
  "decode_code_origin =
     p_bind dcur_u32 (\<lambda>function_index. p_bind dcur_u32 (\<lambda>block. p_bind dcur_u32 (\<lambda>instruction.
     p_bind (dcur_take 32) (\<lambda>origin.
     p_ret \<lparr>dc_function = function_index, dc_block = block, dc_instruction = instruction, dc_origin = origin\<rparr>))))"

definition debug_tables :: "DebugInfo dreader" where
  "debug_tables =
     p_bind (dcur_take 4) (\<lambda>magic. p_bind (p_if (magic = DEBUG_MAGIC) DebugBadMagic) (\<lambda>_.
     p_bind dcur_u16 (\<lambda>version. p_bind (p_if (version = DEBUG_VERSION) DebugBadVersion) (\<lambda>_.
     p_bind (dread_table 12 decode_debug_source) (\<lambda>sources.
     p_bind (dread_table 53 decode_debug_definition) (\<lambda>definitions.
     p_bind (dread_table 16 decode_debug_function) (\<lambda>functions.
     p_bind (dread_table 44 decode_code_origin) (\<lambda>code_origins.
     p_ret \<lparr>di_sources = sources, di_definitions = definitions, di_functions = functions,
            di_code_origins = code_origins\<rparr>))))))))"

definition debug_decode :: "u8 list \<Rightarrow> DebugError + DebugInfo" where
  "debug_decode bytes =
     (if bytes = [] then Inr debug_default
      else case debug_tables \<lparr>cur_bytes = bytes, cur_pos = 0\<rparr> of
             Inl e \<Rightarrow> Inl e
           | Inr (info, c) \<Rightarrow> if cur_pos c \<noteq> length bytes then Inl DebugTrailingBytes else Inr info)"

section \<open>Origins and validation\<close>

definition definition_origin ::
  "(u8 list \<Rightarrow> digest) \<Rightarrow> str \<Rightarrow> str \<Rightarrow> DefinitionKind \<Rightarrow> u32 \<Rightarrow> u32 \<Rightarrow> DebugError + digest" where
  "definition_origin hash path txt kind lo hi =
     e_bind (e_if (\<not> lo > hi) DebugBadRange) (\<lambda>_.
     e_bind (e_opt DebugBadRange (str_get txt (unat lo) (unat hi))) (\<lambda>selected.
     Inr (hash (ascii ''loom-definition-origin-v1'' @ write_bytes path @ [definition_kind_tag kind] @ write_u32 lo @ write_u32 hi @
                write_bytes selected))))"

type_synonym origin_key = "u32 \<times> DefinitionKind \<times> u32 \<times> u32"
type_synonym definition_key = "digest \<times> DefinitionKind \<times> u32"

text \<open>A view that cannot be built is \<open>BadSyntax\<close>; building one never panics.\<close>

definition debug_views :: "DebugInfo \<Rightarrow> DebugError + SyntaxView list" where
  "debug_views info = e_all (\<lambda>source.
     case syntax_view_new (dso_syntax source) (length (dso_text source)) of
       SynOk v \<Rightarrow> Inr v | _ \<Rightarrow> Inl DebugBadSyntax) (di_sources info)"

definition cached_origin ::
  "(u8 list \<Rightarrow> digest) \<Rightarrow> (origin_key \<times> digest) list \<Rightarrow> DebugSource \<Rightarrow> DebugDefinition \<Rightarrow>
     DebugError + digest \<times> (origin_key \<times> digest) list" where
  "cached_origin hash origins source d =
     (let key = (dd_source d, dd_kind d, dd_lo d, dd_hi d)
      in case map_of origins key of
           Some origin \<Rightarrow> Inr (origin, origins)
         | None \<Rightarrow>
             e_bind (definition_origin hash (dso_path source) (dso_text source) (dd_kind d) (dd_lo d) (dd_hi d)) (\<lambda>origin.
             Inr (origin, (key, origin) # origins)))"

definition valid_target :: "Module \<Rightarrow> DefinitionKind \<Rightarrow> u32 \<Rightarrow> bool" where
  "valid_target m kind target =
     (case kind of DefFunction \<Rightarrow> unat target < length (m_funcs m) | DefClass \<Rightarrow> unat target < length (m_classes m))"

definition validate_definition ::
  "(u8 list \<Rightarrow> digest) \<Rightarrow> DebugInfo \<Rightarrow> Module \<Rightarrow> SyntaxView list \<Rightarrow> (origin_key \<times> digest) list \<Rightarrow> DebugDefinition \<Rightarrow>
     DebugError + (origin_key \<times> digest) list" where
  "validate_definition hash info m views origins d =
     e_bind (e_opt DebugBadIndex (get_opt (di_sources info) (unat (dd_source d)))) (\<lambda>source.
     e_bind (e_if (\<not> (dd_lo d > dd_hi d \<or> unat (dd_hi d) > length (dso_text source))) DebugBadRange) (\<lambda>_.
     e_bind (e_opt DebugBadIndex (get_opt views (unat (dd_source d)))) (\<lambda>view.
     e_bind (case view_record view (dd_syntax d) of SynOk r \<Rightarrow> Inr r | _ \<Rightarrow> Inl DebugBadIndex) (\<lambda>rec.
     e_bind (e_if (\<not> (sr_lo rec \<noteq> dd_lo d \<or> sr_hi rec \<noteq> dd_hi d)) DebugBadRange) (\<lambda>_.
     e_bind (cached_origin hash origins source d) (\<lambda>(expected, origins').
     e_bind (e_if (dd_origin d = expected) DebugBadIndex) (\<lambda>_.
     e_bind (e_if (valid_target m (dd_kind d) (dd_target d)) DebugBadIndex) (\<lambda>_.
     Inr origins'))))))))"

primrec validate_definitions ::
  "(u8 list \<Rightarrow> digest) \<Rightarrow> DebugInfo \<Rightarrow> Module \<Rightarrow> SyntaxView list \<Rightarrow> (origin_key \<times> digest) list \<Rightarrow> definition_key list \<Rightarrow>
     DebugDefinition list \<Rightarrow> DebugError + definition_key list" where
  "validate_definitions hash info m views origins keys [] = Inr keys"
| "validate_definitions hash info m views origins keys (d # ds) =
     e_bind (validate_definition hash info m views origins d) (\<lambda>origins'.
     validate_definitions hash info m views origins' ((dd_origin d, dd_kind d, dd_target d) # keys) ds)"

definition validate_function :: "DebugInfo \<Rightarrow> Module \<Rightarrow> DebugFunction \<Rightarrow> DebugError + unit" where
  "validate_function info m f =
     e_bind (e_opt DebugBadIndex (get_opt (di_sources info) (unat (df_source f)))) (\<lambda>source.
     e_if (\<not> (unat (df_function f) \<ge> length (m_funcs m) \<or> df_lo f > df_hi f \<or> unat (df_hi f) > length (dso_text source)))
       DebugBadRange)"

fun code_origin_key :: "digest \<Rightarrow> Instr \<Rightarrow> definition_key option" where
  "code_origin_key origin (Extended (XCode (FunctionCode func))) = Some (origin, DefFunction, func)"
| "code_origin_key origin (Extended (XCode (ClassCode cls))) = Some (origin, DefClass, cls)"
| "code_origin_key origin _ = None"

definition validate_code_origin :: "Module \<Rightarrow> definition_key list \<Rightarrow> DebugCodeOrigin \<Rightarrow> DebugError + unit" where
  "validate_code_origin m keys og =
     e_bind (e_opt DebugBadIndex (get_opt (m_funcs m) (unat (dc_function og)))) (\<lambda>f.
     e_bind (e_opt DebugBadIndex (get_opt (fn_blocks f) (unat (dc_block og)))) (\<lambda>block.
     e_bind (e_opt DebugBadIndex (get_opt block (unat (dc_instruction og)))) (\<lambda>instruction.
     e_bind (e_opt DebugBadIndex (code_origin_key (dc_origin og) instruction)) (\<lambda>key.
     e_if (key \<in> set keys) DebugBadIndex))))"

definition debug_validate :: "(u8 list \<Rightarrow> digest) \<Rightarrow> DebugInfo \<Rightarrow> Module \<Rightarrow> DebugError + unit" where
  "debug_validate hash info m =
     e_bind (debug_views info) (\<lambda>views.
     e_bind (validate_definitions hash info m views [] [] (di_definitions info)) (\<lambda>keys.
     e_bind (e_all (validate_function info m) (di_functions info)) (\<lambda>_.
     e_bind (e_all (validate_code_origin m keys) (di_code_origins info)) (\<lambda>_. Inr ()))))"

section \<open>Relocation\<close>

definition relocate_definition ::
  "u32 \<Rightarrow> u32 list \<Rightarrow> u32 list \<Rightarrow> DebugDefinition \<Rightarrow> DebugError + DebugDefinition" where
  "relocate_definition source_base functions classes d =
     e_bind (e_opt DebugBadIndex (case dd_kind d of
        DefFunction \<Rightarrow> get_opt functions (unat (dd_target d)) | DefClass \<Rightarrow> get_opt classes (unat (dd_target d)))) (\<lambda>target.
     e_bind (e_opt DebugBadLength (checked_add source_base (dd_source d))) (\<lambda>source.
     Inr (d\<lparr>dd_target := target, dd_source := source\<rparr>)))"

definition relocate_function :: "u32 \<Rightarrow> u32 list \<Rightarrow> DebugFunction \<Rightarrow> DebugError + DebugFunction" where
  "relocate_function source_base functions f =
     e_bind (e_opt DebugBadIndex (get_opt functions (unat (df_function f)))) (\<lambda>target.
     e_bind (e_opt DebugBadLength (checked_add source_base (df_source f))) (\<lambda>source.
     Inr (f\<lparr>df_function := target, df_source := source\<rparr>)))"

definition relocate_code_origin :: "u32 list \<Rightarrow> DebugCodeOrigin \<Rightarrow> DebugError + DebugCodeOrigin" where
  "relocate_code_origin functions og =
     e_bind (e_opt DebugBadIndex (get_opt functions (unat (dc_function og)))) (\<lambda>target.
     Inr (og\<lparr>dc_function := target\<rparr>))"

definition append_relocated :: "DebugInfo \<Rightarrow> DebugInfo \<Rightarrow> u32 list \<Rightarrow> u32 list \<Rightarrow> DebugError + DebugInfo" where
  "append_relocated self other functions classes =
     e_bind (e_opt DebugBadLength (try_u32 (length (di_sources self)))) (\<lambda>source_base.
     e_bind (e_all (relocate_definition source_base functions classes) (di_definitions other)) (\<lambda>definitions.
     e_bind (e_all (relocate_function source_base functions) (di_functions other)) (\<lambda>funcs.
     e_bind (e_all (relocate_code_origin functions) (di_code_origins other)) (\<lambda>code_origins.
     Inr \<lparr>di_sources = di_sources self @ di_sources other,
          di_definitions = di_definitions self @ definitions,
          di_functions = di_functions self @ funcs,
          di_code_origins = di_code_origins self @ code_origins\<rparr>))))"

end
