(* ===== verification/Module_Decode.thy ===== *)
theory Module_Decode
  imports Module_Encode Debug_Info
begin

text \<open>
  The container decoder of \<open>crates/lm-bytecode/src/lib.rs\<close>. \<open>decode_semantic\<close> reads the
  tables and checks the import slots and the core roles, \<open>decode_exports\<close> fills in the
  names and reads the bindings and exports against the tables that are there,
  \<open>decode_with_bundle\<close> checks the header and the section table before it reads a
  section, and the debug section last. A loop body is a definition of its own.
\<close>

section \<open>Rows, uses and types\<close>

definition decode_row_elem :: "BcRow reader" where
  "decode_row_elem = p_bind cur_u8 (\<lambda>tag.
     if tag = ROW_OP then p_bind cur_u32 (\<lambda>i. p_ret (RowOp i))
     else if tag = ROW_GROUP then p_bind cur_u32 (\<lambda>i. p_ret (RowGroup i))
     else if tag = ROW_VAR then p_bind cur_u32 (\<lambda>i. p_ret (RowVar i))
     else p_err (BadRowTag tag))"

definition decode_row :: "Host \<Rightarrow> BcRow list reader" where
  "decode_row h = read_table h ERowElem 1 decode_row_elem"

definition decode_interface_use :: "Host \<Rightarrow> BcInterfaceUse reader" where
  "decode_interface_use h =
     p_bind cur_u32 (\<lambda>interface.
     p_bind (read_table h EIndex 4 cur_u32) (\<lambda>types.
     p_bind (read_table h ERow 1 (decode_row h)) (\<lambda>rows.
     p_ret \<lparr>use_interface = interface, use_types = types, use_rows = rows\<rparr>)))"

definition decode_bounds :: "Host \<Rightarrow> nat \<Rightarrow> BcInterfaceUse list reader" where
  "decode_bounds h k = read_table h EUse k (decode_interface_use h)"

definition decode_type_bounds :: "Host \<Rightarrow> TypeBounds reader" where
  "decode_type_bounds h = read_table h EBounds 1 (decode_bounds h 1)"

definition decode_signature :: "Host \<Rightarrow> nat \<Rightarrow> (u32 list \<times> bool list \<times> u32 \<times> BcRow list) reader" where
  "decode_signature h k =
     p_bind (read_table h EIndex k cur_u32) (\<lambda>params.
     p_bind (read_counted h EFlag (\<lambda>count. count = length params) MutMarkerCount cur_flag) (\<lambda>muts.
     p_bind cur_u32 (\<lambda>ret.
     p_bind (decode_row h) (\<lambda>row.
     p_ret (params, muts, ret, row)))))"

definition decode_type :: "Host \<Rightarrow> BcType reader" where
  "decode_type h = p_bind cur_u8 (\<lambda>tag.
     if tag = TY_UNIT then p_ret TyUnit
     else if tag = TY_NEVER then p_ret TyNever
     else if tag = TY_BOOL then p_ret TyBool
     else if tag = TY_INT then p_ret TyInt
     else if tag = TY_FLOAT then p_ret TyFloat
     else if tag = TY_STR then p_ret TyStr
     else if tag = TY_CLASS then p_bind cur_u32 (\<lambda>c. p_ret (TyClass c))
     else if tag = TY_INST then p_bind cur_u32 (\<lambda>c. p_bind (read_table h EIndex 1 cur_u32) (\<lambda>args. p_ret (TyInst c args)))
     else if tag = TY_LIST then p_bind cur_u32 (\<lambda>e. p_ret (TyList e))
     else if tag = TY_MAP then p_bind cur_u32 (\<lambda>k. p_bind cur_u32 (\<lambda>v. p_ret (TyMap k v)))
     else if tag = TY_TUPLE then p_bind (read_table h EIndex 1 cur_u32) (\<lambda>elems. p_ret (TyTuple elems))
     else if tag = TY_FN then p_bind (decode_signature h 1) (\<lambda>(params, muts, ret, row). p_ret (TyFn params muts ret row))
     else if tag = TY_CALLBACK then
       p_bind (decode_signature h 1) (\<lambda>(params, muts, ret, row). p_ret (TyCallback params muts ret row))
     else if tag = TY_VAR then p_bind cur_u32 (\<lambda>i. p_ret (TyVar i))
     else if tag = TY_PROJECTION then
       p_bind cur_u32 (\<lambda>base. p_bind cur_u32 (\<lambda>interface. p_bind cur_u32 (\<lambda>assoc. p_ret (TyProjection base interface assoc))))
     else if tag = TY_DIGEST then p_ret TyDigest
     else if tag = TY_FAULT then p_ret TyFault
     else if tag = TY_REQUEST then p_ret TyRequest
     else if tag = TY_POLICY_TABLE then p_ret TyPolicyTable
     else if tag = TY_VM then p_ret TyVm
     else if tag = TY_RUN then p_bind cur_u32 (\<lambda>t. p_ret (TyRun t))
     else if tag = TY_WAIT then p_bind cur_u32 (\<lambda>t. p_ret (TyWait t))
     else if tag = TY_PENDING_CALL then p_bind cur_u32 (\<lambda>a. p_bind cur_u32 (\<lambda>r. p_ret (TyPendingCall a r)))
     else if tag = TY_HANDLE then p_bind cur_u32 (\<lambda>m. p_bind cur_u32 (\<lambda>r. p_ret (TyHandle m r)))
     else if tag = TY_VM_SNAPSHOT then p_ret TyVmSnapshot
     else if tag = TY_RUN_SNAPSHOT then p_bind cur_u32 (\<lambda>t. p_ret (TyRunSnapshot t))
     else if tag = TY_BYTES then p_ret TyBytes
     else if tag = TY_FILE_HANDLE then p_ret TyFileHandle
     else if tag = TY_RESOURCE_HANDLE then p_ret TyResourceHandle
     else if tag = TY_HOST_RESOURCE then p_ret TyHostResource
     else if tag = TY_OP then p_bind cur_u32 (\<lambda>op. p_bind cur_u32 (\<lambda>f. p_ret (TyOp op f)))
     else p_err (BadTypeTag tag))"

section \<open>The entries of the semantic tables\<close>

definition decode_app :: "Host \<Rightarrow> TypeApp reader" where
  "decode_app h =
     p_bind (read_table h EIndex 1 cur_u32) (\<lambda>types.
     p_bind (read_table h ERow 1 (decode_row h)) (\<lambda>rows.
     p_ret \<lparr>app_types = types, app_rows = rows\<rparr>))"

definition decode_associated :: "Host \<Rightarrow> BcAssociated reader" where
  "decode_associated h =
     p_bind cur_string (\<lambda>name. p_bind (decode_bounds h 12) (\<lambda>bounds.
     p_ret \<lparr>as_name = name, as_bounds = bounds\<rparr>))"

definition decode_type_premise :: "Host \<Rightarrow> BcTypePremise reader" where
  "decode_type_premise h =
     p_bind cur_u32 (\<lambda>subject. p_bind (decode_bounds h 1) (\<lambda>bounds.
     p_ret \<lparr>tp_subject = subject, tp_bounds = bounds\<rparr>))"

definition decode_interface_method :: "Host \<Rightarrow> BcInterfaceMethod reader" where
  "decode_interface_method h =
     p_bind cur_u32 (\<lambda>selector.
     p_bind cur_flag (\<lambda>mut_self.
     p_bind cur_u32 (\<lambda>type_params.
     p_bind (decode_type_bounds h) (\<lambda>type_bounds.
     p_bind cur_u32 (\<lambda>effect_params.
     p_bind (read_table h EPremise 1 (decode_type_premise h)) (\<lambda>premises.
     p_bind (decode_signature h 4) (\<lambda>(params, param_muts, ret, row).
     p_bind cur_u32 (\<lambda>default.
     p_ret \<lparr>im_selector = selector, im_mut_self = mut_self, im_type_params = type_params,
            im_type_bounds = type_bounds, im_effect_params = effect_params, im_premises = premises,
            im_params = params, im_param_muts = param_muts, im_param_names = [], im_ret = ret, im_row = row,
            im_default = default\<rparr>))))))))"

definition decode_interface_def :: "Host \<Rightarrow> BcInterface reader" where
  "decode_interface_def h =
     p_bind cur_u32 (\<lambda>type_params.
     p_bind cur_u32 (\<lambda>effect_params.
     p_bind (read_table h EFlag 1 cur_flag) (\<lambda>generic_is_effect.
     p_bind (read_table h EUse 1 (decode_interface_use h)) (\<lambda>parents.
     p_bind (decode_type_bounds h) (\<lambda>type_bounds.
     p_bind (read_table h EAssociated 1 (decode_associated h)) (\<lambda>associated.
     p_bind (read_table h EMethod 1 (decode_interface_method h)) (\<lambda>methods.
     p_ret \<lparr>if_name = [], if_key = [], if_type_params = type_params, if_effect_params = effect_params,
            if_generic_is_effect = generic_is_effect, if_parents = parents, if_type_bounds = type_bounds,
            if_associated = associated, if_methods = methods\<rparr>)))))))"

definition decode_conformance_premise :: "Host \<Rightarrow> BcConformancePremise reader" where
  "decode_conformance_premise h =
     p_bind cur_u32 (\<lambda>param. p_bind (decode_bounds h 12) (\<lambda>bounds.
     p_ret \<lparr>cp_param = param, cp_bounds = bounds\<rparr>))"

definition decode_conformance :: "Host \<Rightarrow> BcConformance reader" where
  "decode_conformance h =
     p_bind cur_u32 (\<lambda>cls.
     p_bind (decode_interface_use h) (\<lambda>application.
     p_bind (read_table h EConfPremise 8 (decode_conformance_premise h)) (\<lambda>premises.
     p_bind (read_table h EIndex 4 cur_u32) (\<lambda>associated.
     p_bind (read_table h EFlag 1 cur_flag) (\<lambda>method_overrides.
     p_ret \<lparr>cf_class = cls, cf_application = application, cf_premises = premises, cf_associated = associated,
            cf_method_overrides = method_overrides\<rparr>)))))"

definition decode_import :: "Import reader" where
  "decode_import =
     p_bind cur_string (\<lambda>module_path.
     p_bind cur_string (\<lambda>name.
     p_bind cur_u8 (\<lambda>tag.
     p_bind (if tag = 0 then p_ret ImportClass
             else if tag = 1 then p_ret ImportCtor
             else if tag = 2 then p_ret ImportMethod
             else if tag = 3 then p_ret ImportFunc
             else if tag = 4 then p_ret ImportConstant
             else p_err BadImport) (\<lambda>kind.
     p_bind cur_u32 (\<lambda>def.
     p_bind (cur_take 32) (\<lambda>hash.
     p_ret \<lparr>imp_module = module_path, imp_name = name, imp_kind = kind, imp_def = def, imp_hash = hash\<rparr>))))))"

definition decode_callable_contract :: "Host \<Rightarrow> BcCallableContract reader" where
  "decode_callable_contract h =
     p_bind cur_u32 (\<lambda>type_params.
     p_bind cur_u32 (\<lambda>effect_params.
     p_bind (decode_type_bounds h) (\<lambda>type_bounds.
     p_bind (decode_signature h 4) (\<lambda>(params, param_muts, ret, row).
     p_ret \<lparr>cc_type_params = type_params, cc_effect_params = effect_params, cc_type_bounds = type_bounds,
            cc_params = params, cc_param_muts = param_muts, cc_ret = ret, cc_row = row\<rparr>))))"

definition decode_slot_contract :: "Host \<Rightarrow> SlotContract reader" where
  "decode_slot_contract h = p_bind cur_u8 (\<lambda>tag.
     if tag = SLOT_FUNCTION then p_bind (decode_callable_contract h) (\<lambda>c. p_ret (SlotFunction c))
     else if tag = SLOT_METHOD then p_bind (decode_callable_contract h) (\<lambda>c. p_ret (SlotMethod c))
     else if tag = SLOT_CLASS then
       p_bind cur_u32 (\<lambda>type_params. p_bind (cur_take 32) (\<lambda>abi. p_bind cur_u32 (\<lambda>ty.
       p_bind (decode_callable_contract h) (\<lambda>constructor. p_ret (SlotClass type_params abi ty constructor)))))
     else if tag = SLOT_VALUE then p_bind cur_u32 (\<lambda>ty. p_ret (SlotValue ty))
     else if tag = SLOT_PROCESS then p_bind cur_u32 (\<lambda>message. p_bind cur_u32 (\<lambda>result. p_ret (SlotProcess message result)))
     else p_err BadSlot)"

definition decode_slot_target :: "SlotTarget option reader" where
  "decode_slot_target = p_bind cur_u8 (\<lambda>tag.
     if tag = 0 then p_ret None
     else if tag = 1 then p_bind cur_u32 (\<lambda>func. p_ret (Some (TargetFunction func)))
     else if tag = 2 then p_bind cur_u32 (\<lambda>cls. p_bind cur_u32 (\<lambda>constructor. p_ret (Some (TargetClass cls constructor))))
     else p_err BadSlot)"

definition decode_slot :: "Host \<Rightarrow> SlotSpec reader" where
  "decode_slot h =
     p_bind (cur_take 32) (\<lambda>key.
     p_bind (cur_take 32) (\<lambda>contract_hash.
     p_bind (decode_slot_contract h) (\<lambda>contract.
     p_bind decode_slot_target (\<lambda>initial.
     p_ret \<lparr>sl_binding = [], sl_late = False, sl_key = key, sl_contract_hash = contract_hash,
            sl_contract = contract, sl_initial = initial\<rparr>))))"

definition decode_field :: "(str \<times> u32) reader" where
  "decode_field = p_bind cur_string (\<lambda>fname. p_bind cur_u32 (\<lambda>fty. p_ret (fname, fty)))"

definition decode_method_ref :: "(u32 \<times> u32) reader" where
  "decode_method_ref = p_bind cur_u32 (\<lambda>sel. p_bind cur_u32 (\<lambda>func. p_ret (sel, func)))"

definition decode_class :: "Host \<Rightarrow> BcClass reader" where
  "decode_class h =
     p_bind cur_u32 (\<lambda>parent.
     p_bind (read_table h EIndex 1 cur_u32) (\<lambda>parent_args.
     p_bind cur_u32 (\<lambda>type_params.
     p_bind cur_u8 (\<lambda>tag.
     p_bind (if tag = KIND_NORMAL then p_ret KindNormal
             else if tag = KIND_ABSTRACT then p_ret KindAbstract
             else if tag = KIND_CASE then p_ret KindCase
             else p_err (BadClassKind tag)) (\<lambda>kind.
     p_bind cur_flag (\<lambda>is_final.
     p_bind cur_flag (\<lambda>is_frozen.
     p_bind (read_table h EField 1 decode_field) (\<lambda>fields.
     p_bind (read_table h EMethodRef 1 decode_method_ref) (\<lambda>methods.
     p_ret \<lparr>cls_name = [], cls_key = [], cls_is_final = is_final, cls_is_frozen = is_frozen, cls_parent = parent,
            cls_parent_args = parent_args, cls_type_params = type_params, cls_kind = kind, cls_fields = fields,
            cls_methods = methods, cls_field_defaults = [], cls_own_start = 0, cls_has_init = False\<rparr>)))))))))"

definition decode_reflection :: "ReflectionModule reader" where
  "decode_reflection = p_bind cur_string (\<lambda>name. p_bind (cur_take 32) (\<lambda>semantic_hash.
     p_ret \<lparr>rm_name = name, rm_semantic_hash = semantic_hash\<rparr>))"

definition decode_block :: "Host \<Rightarrow> Instr list reader" where
  "decode_block h = read_table h EInstr 1 decode_instr"

definition decode_func :: "Host \<Rightarrow> Func reader" where
  "decode_func h =
     p_bind cur_u32 (\<lambda>type_params.
     p_bind cur_u32 (\<lambda>effect_params.
     p_bind (decode_signature h 1) (\<lambda>(params, param_muts, ret, row).
     p_bind (read_table h EIndex 1 cur_u32) (\<lambda>captures.
     p_bind (read_table h EIndex 4 cur_u32) (\<lambda>local_types.
     p_bind (read_table h EBlock 1 (decode_block h)) (\<lambda>blocks.
     p_ret \<lparr>fn_name = [], fn_type_params = type_params, fn_effect_params = effect_params, fn_params = params,
            fn_param_muts = param_muts, fn_ret = ret, fn_row = row, fn_captures = captures,
            fn_local_types = local_types, fn_blocks = blocks, fn_param_names = []\<rparr>))))))"

section \<open>The semantic region\<close>

definition semantic_tables :: "Host \<Rightarrow> Module reader" where
  "semantic_tables h =
     p_bind (read_table h EString 1 cur_string) (\<lambda>strings.
     p_bind (read_table h EBlob 4 cur_blob) (\<lambda>literal_bytes.
     p_bind (read_table h EType 1 (decode_type h)) (\<lambda>types.
     p_bind (read_table h EString 1 cur_string) (\<lambda>selectors.
     p_bind (read_table h EApp 1 (decode_app h)) (\<lambda>apps.
     p_bind (read_table h EInterface 1 (decode_interface_def h)) (\<lambda>interfaces.
     p_bind (read_table h EConformance 1 (decode_conformance h)) (\<lambda>conformances.
     p_bind (read_table h EBounds 1 (decode_type_bounds h)) (\<lambda>class_bounds.
     p_bind (read_table h EBounds 1 (decode_type_bounds h)) (\<lambda>func_bounds.
     p_bind (read_table h EImport 1 decode_import) (\<lambda>imports.
     p_bind (read_table h ESlot 66 (decode_slot h)) (\<lambda>slots.
     p_bind (read_seq CORE_ROLE_COUNT cur_u32) (\<lambda>core_roles.
     p_bind (read_table h EClass 1 (decode_class h)) (\<lambda>classes.
     p_bind (read_table h EReflection 1 decode_reflection) (\<lambda>reflections.
     p_bind (read_table h EFunc 1 (decode_func h)) (\<lambda>funcs.
     p_bind (p_if (\<not> (length class_bounds \<noteq> length classes \<or> length func_bounds \<noteq> length funcs)) BadLength) (\<lambda>_.
     p_bind cur_u32 (\<lambda>entry.
     p_ret \<lparr>m_strings = strings, m_bytes = literal_bytes, m_types = types, m_selectors = selectors, m_apps = apps,
            m_interfaces = interfaces, m_conformances = conformances, m_class_bounds = class_bounds,
            m_func_bounds = func_bounds, m_imports = imports, m_slots = slots, m_core_roles = core_roles,
            m_reflections = reflections, m_classes = classes, m_funcs = funcs, m_entry = entry,
            m_exports = [], m_bindings = [], m_debug = []\<rparr>)))))))))))))))))"

text \<open>Every import slot names a definition of its own kind that no slot before it took.\<close>

fun claim_imports :: "bool list \<Rightarrow> bool list \<Rightarrow> Import list \<Rightarrow> bool" where
  "claim_imports claimed_classes claimed_funcs [] = True"
| "claim_imports claimed_classes claimed_funcs (i # is) =
     (let idx = unat (imp_def i)
      in if imp_kind i = ImportConstant then imp_def i = NO_IMPORT_DEF \<and> claim_imports claimed_classes claimed_funcs is
         else if import_is_func (imp_kind i)
         then get_opt claimed_funcs idx = Some False \<and> claim_imports claimed_classes (claimed_funcs[idx := True]) is
         else get_opt claimed_classes idx = Some False \<and> claim_imports (claimed_classes[idx := True]) claimed_funcs is)"

text \<open>Every filled core role names a class of the module, and no two roles name one class.\<close>

fun claim_roles :: "nat \<Rightarrow> u32 list \<Rightarrow> u32 list \<Rightarrow> bool" where
  "claim_roles classes taken [] = True"
| "claim_roles classes taken (slot # slots) =
     (if slot = NO_ROLE then claim_roles classes taken slots
      else \<not> (unat slot \<ge> classes \<or> slot \<in> set taken) \<and> claim_roles classes (taken @ [slot]) slots)"

definition decode_semantic :: "Host \<Rightarrow> u8 list \<Rightarrow> DecodeError + Module" where
  "decode_semantic h bytes =
     (case semantic_tables h \<lparr>cur_bytes = bytes, cur_pos = 0\<rparr> of
        Inl e \<Rightarrow> Inl e
      | Inr (m, c) \<Rightarrow>
          if cur_pos c \<noteq> length bytes then Inl TrailingBytes
          else if \<not> claim_imports (replicate (length (m_classes m)) False) (replicate (length (m_funcs m)) False) (m_imports m)
          then Inl BadImport
          else if \<not> claim_roles (length (m_classes m)) [] (m_core_roles m) then Inl BadCoreRole
          else Inr m)"

section \<open>The export section\<close>

text \<open>
  A constant: the nesting depth counts down from its limit, and the bytes that tuples
  take in memory are added up over all constants of the section.
\<close>

definition MAX_TYPE_DEPTH :: nat where
  "MAX_TYPE_DEPTH = 32"

primrec read_items :: "(nat \<Rightarrow> ('a \<times> nat) reader) \<Rightarrow> nat \<Rightarrow> nat \<Rightarrow> ('a list \<times> nat) reader" where
  "read_items r 0 allocation = p_ret ([], allocation)"
| "read_items r (Suc n) allocation =
     p_bind (r allocation) (\<lambda>(x, allocation'). p_bind (read_items r n allocation') (\<lambda>(xs, allocation'').
     p_ret (x # xs, allocation'')))"

definition charge_items :: "Host \<Rightarrow> nat \<Rightarrow> nat \<Rightarrow> nat reader" where
  "charge_items h count allocation =
     (let allocation' = allocation + count * max (size_of h EConst) 1
      in if int allocation' > MAX_DECODE_VECTOR_BYTES then p_err BadLength else p_ret allocation')"

primrec decode_const_value :: "Host \<Rightarrow> nat \<Rightarrow> nat \<Rightarrow> (ConstValue \<times> nat) reader" where
  "decode_const_value h 0 = (\<lambda>allocation. p_err BadLength)"
| "decode_const_value h (Suc room) = (\<lambda>allocation. p_bind cur_u8 (\<lambda>tag.
     if tag = 0 then p_ret (CvUnit, allocation)
     else if tag = 1 then p_bind cur_flag (\<lambda>v. p_ret (CvBool v, allocation))
     else if tag = 2 then p_bind cur_u64 (\<lambda>v. p_ret (CvInt v, allocation))
     else if tag = 3 then p_bind cur_u64 (\<lambda>v. p_ret (CvFloat v, allocation))
     else if tag = 7 then p_bind cur_u32 (\<lambda>v. p_bind (p_opt BadCharacter (char_from_u32 v)) (\<lambda>v. p_ret (CvChar v, allocation)))
     else if tag = 4 then p_bind cur_string (\<lambda>v. p_ret (CvString v, allocation))
     else if tag = 5 then p_bind cur_len (\<lambda>length. p_bind (cur_take length) (\<lambda>v. p_ret (CvBytes v, allocation)))
     else if tag = 6 then
       p_bind cur_len (\<lambda>count.
       p_bind (p_need count 1) (\<lambda>_.
       p_bind (charge_items h count allocation) (\<lambda>allocation'.
       p_bind (decode_vec h EConst count) (\<lambda>_.
       p_bind (read_items (decode_const_value h room) count allocation') (\<lambda>(items, allocation'').
       p_ret (CvTuple items, allocation''))))))
     else p_err (BadTypeTag tag)))"

definition decode_interface_names :: "Host \<Rightarrow> BcInterface \<Rightarrow> BcInterface reader" where
  "decode_interface_names h i =
     p_bind cur_string (\<lambda>name. p_bind cur_string (\<lambda>key.
     p_bind (read_each (\<lambda>m.
        p_bind (read_counted h EString (\<lambda>count. count = length (im_params m)) ExportCountMismatch cur_string) (\<lambda>names.
        p_ret (m\<lparr>im_param_names := names\<rparr>))) (if_methods i)) (\<lambda>methods.
     p_ret (i\<lparr>if_name := name, if_key := key, if_methods := methods\<rparr>))))"

definition decode_class_names :: "Host \<Rightarrow> BcClass \<Rightarrow> BcClass reader" where
  "decode_class_names h c =
     p_bind cur_string (\<lambda>name. p_bind cur_string (\<lambda>key.
     p_bind (read_counted h EFlag (\<lambda>count. count = length (cls_fields c)) ExportCountMismatch cur_flag) (\<lambda>defaults.
     p_bind cur_u32 (\<lambda>own_start. p_bind cur_flag (\<lambda>has_init.
     p_ret (c\<lparr>cls_name := name, cls_key := key, cls_field_defaults := defaults, cls_own_start := own_start,
              cls_has_init := has_init\<rparr>))))))"

definition decode_func_names :: "Host \<Rightarrow> Func \<Rightarrow> Func reader" where
  "decode_func_names h f =
     p_bind cur_string (\<lambda>name.
     p_bind (read_counted h EString (\<lambda>count. \<not> (count \<noteq> 0 \<and> count \<noteq> length (fn_params f))) ExportCountMismatch cur_string) (\<lambda>names.
     p_ret (f\<lparr>fn_name := name, fn_param_names := names\<rparr>)))"

definition decode_slot_names :: "SlotSpec \<Rightarrow> SlotSpec reader" where
  "decode_slot_names s =
     p_bind cur_string (\<lambda>binding. p_bind cur_flag (\<lambda>late. p_ret (s\<lparr>sl_binding := binding, sl_late := late\<rparr>)))"

definition decode_binding :: "Module \<Rightarrow> FuncBinding reader" where
  "decode_binding m =
     p_bind cur_string (\<lambda>key. p_bind cur_u32 (\<lambda>func. p_bind cur_u32 (\<lambda>cls.
     p_bind (p_if (\<not> (unat func \<ge> length (m_funcs m))) BadBinding) (\<lambda>_.
     p_bind (p_if (\<not> (cls \<noteq> NO_CLASS \<and> unat cls \<ge> length (m_classes m))) BadBinding) (\<lambda>_.
     p_ret \<lparr>fb_key = key, fb_func = func, fb_class = cls\<rparr>)))))"

definition decode_constant :: "Host \<Rightarrow> Module \<Rightarrow> nat \<Rightarrow> (Constant option \<times> nat) reader" where
  "decode_constant h m allocation = p_bind cur_u8 (\<lambda>tag.
     if tag = 0 then p_ret (None, allocation)
     else if tag = 1 then
       p_bind cur_u32 (\<lambda>ty.
       p_bind (p_if (\<not> (unat ty \<ge> length (m_types m))) BadExport) (\<lambda>_.
       p_bind (decode_const_value h MAX_TYPE_DEPTH allocation) (\<lambda>(value, allocation').
       p_ret (Some \<lparr>ct_ty = ty, ct_value = value\<rparr>, allocation'))))
     else p_err BadExport)"

definition export_limit :: "Module \<Rightarrow> ExportKind \<Rightarrow> nat" where
  "export_limit m kind =
     (if export_is_class kind then length (m_classes m)
      else if export_is_interface kind then length (m_interfaces m)
      else length (m_funcs m))"

definition export_ok :: "Module \<Rightarrow> Export \<Rightarrow> bool" where
  "export_ok m e \<longleftrightarrow>
     (export_is_constant (ex_kind e) \<longleftrightarrow> ex_constant e \<noteq> None) \<and>
     (if export_is_constant (ex_kind e) then ex_def e = NO_CTOR \<and> ex_ctor e = NO_CTOR
      else unat (ex_def e) < export_limit m (ex_kind e) \<and>
           (ex_ctor e = NO_CTOR \<or> unat (ex_ctor e) < length (m_funcs m)) \<and>
           (export_is_class (ex_kind e) \<or> ex_ctor e = NO_CTOR))"

definition decode_export :: "Host \<Rightarrow> Module \<Rightarrow> nat \<Rightarrow> (Export \<times> nat) reader" where
  "decode_export h m allocation =
     p_bind cur_u8 (\<lambda>tag. p_bind (p_opt BadExport (export_kind_from_tag tag)) (\<lambda>kind.
     p_bind cur_string (\<lambda>name. p_bind cur_flag (\<lambda>source. p_bind cur_u32 (\<lambda>def. p_bind cur_u32 (\<lambda>ctor.
     p_bind (decode_constant h m allocation) (\<lambda>(constant, allocation').
     let e = \<lparr>ex_kind = kind, ex_name = name, ex_source = source, ex_def = def, ex_ctor = ctor, ex_constant = constant\<rparr>
     in p_bind (p_if (export_ok m e) BadExport) (\<lambda>_. p_ret (e, allocation')))))))))"

text \<open>A table of names for a table that is there: the counts must agree, then each entry is rewritten.\<close>

definition read_names :: "('a \<Rightarrow> 'a reader) \<Rightarrow> 'a list \<Rightarrow> 'a list reader" where
  "read_names r xs = p_bind cur_len (\<lambda>count. p_bind (p_if (count = length xs) ExportCountMismatch) (\<lambda>_. read_each r xs))"

definition export_tables :: "Host \<Rightarrow> Module \<Rightarrow> Module reader" where
  "export_tables h m0 =
     p_bind (read_names (decode_interface_names h) (m_interfaces m0)) (\<lambda>interfaces.
     p_bind (read_names (decode_class_names h) (m_classes m0)) (\<lambda>classes.
     p_bind (read_names (decode_func_names h) (m_funcs m0)) (\<lambda>funcs.
     p_bind (read_names decode_slot_names (m_slots m0)) (\<lambda>slots.
     let m = m0\<lparr>m_interfaces := interfaces, m_classes := classes, m_funcs := funcs, m_slots := slots\<rparr>
     in
     p_bind (read_table h EBinding 12 (decode_binding m)) (\<lambda>bindings.
     p_bind cur_len (\<lambda>export_count.
     p_bind (decode_vec h EExport export_count) (\<lambda>_.
     p_bind (read_items (decode_export h m) export_count 0) (\<lambda>(exports, allocation).
     p_ret (m\<lparr>m_bindings := bindings, m_exports := exports\<rparr>)))))))))"

definition decode_exports :: "Host \<Rightarrow> u8 list \<Rightarrow> Module \<Rightarrow> DecodeError + Module" where
  "decode_exports h bytes m =
     (case export_tables h m \<lparr>cur_bytes = bytes, cur_pos = 0\<rparr> of
        Inl e \<Rightarrow> Inl e
      | Inr (m', c) \<Rightarrow> if cur_pos c \<noteq> length bytes then Inl TrailingBytes else Inr m')"

section \<open>The container\<close>

text \<open>
  The section table: three pairs of offset and length, which must be contiguous, in
  order and inside the input. The offsets are added as 64-bit integers, which three
  32-bit lengths cannot overflow.
\<close>

primrec read_sections :: "nat \<Rightarrow> nat \<Rightarrow> nat \<Rightarrow> ((nat \<times> nat) list \<times> nat) reader" where
  "read_sections input expected 0 = p_ret ([], expected)"
| "read_sections input expected (Suc n) =
     p_bind cur_u32 (\<lambda>offset. p_bind cur_u32 (\<lambda>len.
     p_bind (p_if (unat offset = expected) BadSectionTable) (\<lambda>_.
     let expected' = expected + unat len in
     p_bind (p_if (\<not> expected' > input) BadSectionTable) (\<lambda>_.
     p_bind (read_sections input expected' n) (\<lambda>(sections, end).
     p_ret ((unat offset, unat len) # sections, end))))))"

definition read_header :: "digest \<Rightarrow> nat \<Rightarrow> (nat \<times> nat) list reader" where
  "read_header bundle_digest input =
     p_bind (cur_take 4) (\<lambda>magic. p_bind (p_if (magic = MAGIC) BadMagic) (\<lambda>_.
     p_bind cur_u16 (\<lambda>version. p_bind (p_if (version = VERSION) (BadVersion version)) (\<lambda>_.
     p_bind (cur_take 32) (\<lambda>found. p_bind (p_if (found = bundle_digest) (BadBundle bundle_digest found)) (\<lambda>_.
     p_bind (read_sections input HEADER_LEN 3) (\<lambda>(sections, end).
     p_bind (p_if (end = input) BadSectionTable) (\<lambda>_.
     p_ret sections))))))))"

definition slice :: "u8 list \<Rightarrow> nat \<times> nat \<Rightarrow> u8 list" where
  "slice bytes s = take (snd s) (drop (fst s) bytes)"

definition decode_debug_section :: "(u8 list \<Rightarrow> digest) \<Rightarrow> u8 list \<Rightarrow> Module \<Rightarrow> DecodeError + Module" where
  "decode_debug_section hash debug_bytes m =
     (case debug_decode debug_bytes of
        Inl e \<Rightarrow> Inl (BadDebug e)
      | Inr info \<Rightarrow>
          (case debug_validate hash info m of
             Inl e \<Rightarrow> Inl (BadDebug e)
           | Inr _ \<Rightarrow>
               if debug_encode info \<noteq> debug_bytes then Inl (BadDebug DebugNonCanonical)
               else Inr (m\<lparr>m_debug := debug_bytes\<rparr>)))"

definition decode_with_bundle :: "Host \<Rightarrow> (u8 list \<Rightarrow> digest) \<Rightarrow> digest \<Rightarrow> u8 list \<Rightarrow> DecodeError + Module" where
  "decode_with_bundle h hash bundle_digest bytes =
     (case read_header bundle_digest (length bytes) \<lparr>cur_bytes = bytes, cur_pos = 0\<rparr> of
        Inl e \<Rightarrow> Inl e
      | Inr (sections, c) \<Rightarrow>
          e_bind (decode_semantic h (slice bytes (sections ! 0))) (\<lambda>m.
          e_bind (decode_exports h (slice bytes (sections ! 1)) m) (\<lambda>m'.
          decode_debug_section hash (slice bytes (sections ! 2)) m')))"

end
