(* ===== verification/Wire_Rules.thy ===== *)
theory Wire_Rules
  imports Wire
begin

text \<open>
  Rules for readers. \<open>reads r bs a\<close>: wherever the bytes \<open>bs\<close> stand, \<open>r\<close> gives \<open>a\<close> and
  stops behind them. \<open>yields r P\<close>: every value \<open>r\<close> gives satisfies \<open>P\<close>.
\<close>

section \<open>What a reader reads\<close>

definition reads :: "('e, 'a) cursor_reader \<Rightarrow> u8 list \<Rightarrow> 'a \<Rightarrow> bool" where
  "reads r bs a \<longleftrightarrow> (\<forall>done rest. r (cursor_at done (bs @ rest)) = Inr (a, cursor_at (done @ bs) rest))"

named_theorems reads_intro \<open>readers of the wire formats\<close>
named_theorems wire_len \<open>lengths of encodings\<close>

lemma readsI: "(\<And>done rest. r (cursor_at done (bs @ rest)) = Inr (a, cursor_at (done @ bs) rest)) \<Longrightarrow> reads r bs a"
  by (simp add: reads_def)

lemma readsD: "reads r bs a \<Longrightarrow> r (cursor_at done (bs @ rest)) = Inr (a, cursor_at (done @ bs) rest)"
  by (simp add: reads_def)

lemma reads_whole: "reads r bs a \<Longrightarrow> r \<lparr>cur_bytes = bs, cur_pos = 0\<rparr> = Inr (a, \<lparr>cur_bytes = bs, cur_pos = length bs\<rparr>)"
  using readsD [of r bs a "[]" "[]"] by (simp add: cursor_at_def)

lemma reads_ret: "a = b \<Longrightarrow> reads (p_ret a) [] b"
  by (simp add: reads_def p_ret_def)

lemma reads_bind: "reads p bs a \<Longrightarrow> reads (f a) cs b \<Longrightarrow> reads (p_bind p f) (bs @ cs) b"
  by (simp add: reads_def p_bind_def)

lemma reads_last: "reads p bs a \<Longrightarrow> reads (f a) [] b \<Longrightarrow> reads (p_bind p f) bs b"
  using reads_bind [of p bs a f "[]" b] by simp

lemma reads_skip: "reads p [] a \<Longrightarrow> reads (f a) cs b \<Longrightarrow> reads (p_bind p f) cs b"
  using reads_bind [of p "[]" a f cs b] by simp

lemma reads_if: "ok \<Longrightarrow> reads (f ()) cs b \<Longrightarrow> reads (p_bind (p_if ok e) f) cs b"
  by (rule reads_skip [where a = "()"]) (simp_all add: p_if_def reads_ret)

lemma reads_assoc: "reads r (as @ bs @ cs) b \<Longrightarrow> reads r ((as @ bs) @ cs) b"
  by simp

lemma reads_prod: "reads (f a b) bs x \<Longrightarrow> reads (case_prod f (a, b)) bs x"
  by simp

lemmas reads_step = reads_prod reads_assoc reads_if reads_bind reads_last

text \<open>Injectivity: two values with one encoding are equal.\<close>

lemma reads_unique: "reads r bs a \<Longrightarrow> reads r bs b \<Longrightarrow> a = b"
  using readsD [of r bs a "[]" "[]"] readsD [of r bs b "[]" "[]"] by simp

section \<open>Scalars and text\<close>

lemma reads_take [reads_intro]: "length bs = n \<Longrightarrow> reads (cur_take n) bs bs"
  by (rule readsI) (metis cur_take_at)

lemma reads_u8 [reads_intro]: "reads cur_u8 [b] b"
  by (rule readsI) (simp add: read)

lemma from_le_bytes_u16: "from_le_bytes (le_bytes 2 w) = (w :: u16)"
  by (simp add: from_le_bytes_le_bytes take_bit_word_eq_self)

lemma reads_u16 [reads_intro]: "reads cur_u16 (le_bytes 2 v) v"
  unfolding cur_u16_def
  by (rule reads_last [OF reads_take], simp, rule reads_ret) (simp add: from_le_bytes_u16)

lemma reads_u32 [reads_intro]: "reads cur_u32 (write_u32 v) v"
  by (rule readsI) (simp add: read)

lemma reads_u64 [reads_intro]: "reads cur_u64 (le_bytes 8 v) v"
  by (rule readsI) (simp add: read)

lemma reads_flag [reads_intro]: "reads cur_flag (write_flag b) b"
  by (rule readsI) (simp add: read write_flag_def)

lemma reads_instr [reads_intro]: "instr_ok i \<Longrightarrow> reads decode_instr (encode_instr i) i"
  by (rule readsI) (rule decode_encoded)

lemma length_write_u32 [simp, wire_len]: "length (write_u32 v) = 4"
  by (simp add: write_u32_def)

lemma length_write_flag [simp, wire_len]: "length (write_flag v) = 1"
  by (simp add: write_flag_def)

lemma length_write_bytes [simp, wire_len]: "length (write_bytes v) = 4 + length v"
  by (simp add: write_bytes_def)

lemma length_write_table [wire_len]: "length (write_table f xs) = 4 + length (concat (map f xs))"
  by (simp add: write_table_def)

lemma unat_of_length: "int n < 4294967296 \<Longrightarrow> unat (of_nat n :: u32) = n"
  by (simp add: unsigned_of_nat take_bit_nat_eq_self)

definition blob_fits :: "u8 list \<Rightarrow> bool" where
  "blob_fits bs \<longleftrightarrow> int (length bs) < 4294967296"

definition str_fits :: "u8 list \<Rightarrow> bool" where
  "str_fits s \<longleftrightarrow> blob_fits s \<and> utf8_valid s"

lemma reads_blob [reads_intro]: "blob_fits bs \<Longrightarrow> reads cur_blob (write_bytes bs) bs"
  unfolding cur_blob_def write_bytes_def
  by (rule reads_bind [OF reads_u32], rule reads_take) (simp add: unat_of_length blob_fits_def)

lemma reads_string [reads_intro]: "str_fits s \<Longrightarrow> reads cur_string (write_bytes s) s"
  unfolding cur_string_def write_bytes_def
  by (rule reads_bind [OF reads_u32], rule reads_last [OF reads_take])
     (simp_all add: unat_of_length blob_fits_def str_fits_def reads_ret)

section \<open>Tables\<close>

definition table_fits :: "Host \<Rightarrow> Elem \<Rightarrow> ('a \<Rightarrow> bool) \<Rightarrow> 'a list \<Rightarrow> bool" where
  "table_fits h e P xs \<longleftrightarrow> vec_fits h e (length xs) \<and> list_all P xs"

lemma vec_fits_small: "vec_fits h e n \<Longrightarrow> int n < 4294967296"
proof -
  assume "vec_fits h e n"
  then have "int n * int (max (size_of h e) 1) \<le> 67108864"
    by (simp add: vec_fits_def MAX_DECODE_VECTOR_BYTES_def del: of_nat_max)
  moreover have "int n * 1 \<le> int n * int (max (size_of h e) 1)"
    by (rule mult_left_mono) auto
  ultimately show ?thesis by linarith
qed

lemma reads_vec: "vec_fits h e n \<Longrightarrow> reads (f ()) cs b \<Longrightarrow> reads (p_bind (decode_vec h e n) f) cs b"
  by (rule reads_skip [where a = "()"]) (simp_all add: decode_vec_def vec_fits_def reads_ret)

lemma reads_seq:
  "list_all P xs \<Longrightarrow> (\<And>x. P x \<Longrightarrow> reads r (f x) (g x)) \<Longrightarrow> reads (read_seq (length xs) r) (concat (map f xs)) (map g xs)"
proof (induction xs)
  case Nil
  then show ?case by (simp add: reads_ret)
next
  case (Cons x xs)
  have "reads (p_bind (read_seq (length xs) r) (\<lambda>ys. p_ret (g x # ys))) (concat (map f xs)) (g x # map g xs)"
    by (rule reads_last [where a = "map g xs"]) (use Cons in \<open>auto simp: reads_ret\<close>)
  then show ?case using Cons.prems reads_bind [of r "f x" "g x"] by simp
qed

lemma reads_each:
  "list_all P xs \<Longrightarrow> (\<And>x. P x \<Longrightarrow> reads (r (g x)) (f x) x) \<Longrightarrow> reads (read_each r (map g xs)) (concat (map f xs)) xs"
proof (induction xs)
  case Nil
  then show ?case by (simp add: reads_ret)
next
  case (Cons x xs)
  have "reads (p_bind (read_each r (map g xs)) (\<lambda>ys. p_ret (x # ys))) (concat (map f xs)) (x # xs)"
    by (rule reads_last [where a = xs]) (use Cons in \<open>auto simp: reads_ret\<close>)
  then show ?case using Cons.prems reads_bind [of "r (g x)" "f x" x] by simp
qed

lemma concat_map_length: "(\<And>x. k \<le> length (f x)) \<Longrightarrow> k * length xs \<le> length (concat (map f xs))"
proof (induction xs)
  case (Cons x xs)
  then show ?case using Cons.prems [of x] by (simp add: add_mono)
qed simp

text \<open>
  A count that the bytes behind it can hold passes the guards: the reader of the rest
  sees exactly that count.
\<close>

lemma reads_len:
  assumes "int n < 4294967296" and "n \<le> length cs" and "reads (f n) cs b"
  shows "reads (p_bind cur_len f) (write_u32 (of_nat n) @ cs) b"
proof (rule readsI)
  fix "done" rest
  have "cur_len (cursor_at done (write_u32 (of_nat n) @ cs @ rest)) = Inr (n, cursor_at (done @ write_u32 (of_nat n)) (cs @ rest))"
    using assms(1,2) unfolding cur_len_def p_bind_def cur_u32_at by (simp add: unat_of_length cursor_at_def)
  then show "p_bind cur_len f (cursor_at done ((write_u32 (of_nat n) @ cs) @ rest)) =
      Inr (b, cursor_at (done @ write_u32 (of_nat n) @ cs) rest)"
    using readsD [OF assms(3), of "done @ write_u32 (of_nat n)" rest] by (simp add: p_bind_def)
qed

lemma reads_need:
  assumes "n * k \<le> length cs" and "0 < k" and "reads (f ()) cs b"
  shows "reads (p_bind (p_need n k) f) cs b"
proof (rule readsI)
  fix "done" rest
  have "n \<le> length (cs @ rest) div k"
    using assms(1,2) by (simp add: less_eq_div_iff_mult_less_eq trans_le_add1)
  then have "p_need n k (cursor_at done (cs @ rest)) = Inr ((), cursor_at done (cs @ rest))"
    by (simp add: p_need_def cur_remaining_def cursor_at_def)
  then show "p_bind (p_need n k) f (cursor_at done (cs @ rest)) = Inr (b, cursor_at (done @ cs) rest)"
    using readsD [OF assms(3)] by (simp add: p_bind_def)
qed

lemma reads_table_map:
  assumes "table_fits h e P xs" and "\<And>x. P x \<Longrightarrow> reads r (f x) (g x)" and "\<And>x. k \<le> length (f x)" and "0 < k"
  shows "reads (read_table h e k r) (write_table f xs) (map g xs)"
  unfolding read_table_def write_table_def
proof (rule reads_len)
  have k: "length xs * k \<le> length (concat (map f xs))"
    using concat_map_length [of k f xs] assms(3) by (simp add: mult.commute)
  show "int (length xs) < 4294967296" using assms(1) vec_fits_small by (auto simp: table_fits_def)
  have "length xs * 1 \<le> length xs * k" using assms(4) by (intro mult_le_mono) auto
  then show "length xs \<le> length (concat (map f xs))" using k by linarith
  show "reads (p_bind (p_need (length xs) k) (\<lambda>_. p_bind (decode_vec h e (length xs)) (\<lambda>_. read_seq (length xs) r)))
     (concat (map f xs)) (map g xs)"
    using assms(1,2,4) k by (intro reads_need reads_vec reads_seq [where P = P]) (auto simp: table_fits_def)
qed

lemma reads_table:
  assumes "table_fits h e P xs" and "\<And>x. P x \<Longrightarrow> reads r (f x) x" and "\<And>x. k \<le> length (f x)" and "0 < k"
  shows "reads (read_table h e k r) (write_table f xs) xs"
  using reads_table_map [of h e P xs r f id k] assms by simp

lemma reads_counted:
  assumes "table_fits h e P xs" and "\<And>x. P x \<Longrightarrow> reads r (f x) x" and "\<And>x. 1 \<le> length (f x)" and "ok (length xs)"
  shows "reads (read_counted h e ok err r) (write_table f xs) xs"
  unfolding read_counted_def write_table_def
proof (rule reads_len)
  show "int (length xs) < 4294967296" using assms(1) vec_fits_small by (auto simp: table_fits_def)
  show "length xs \<le> length (concat (map f xs))" using concat_map_length [of 1 f xs] assms(3) by simp
  have "reads (read_seq (length xs) r) (concat (map f xs)) xs"
    using reads_seq [of P xs r f id] assms(1,2) by (auto simp: table_fits_def)
  then show "reads (p_bind (p_if (ok (length xs)) err) (\<lambda>_. p_bind (decode_vec h e (length xs)) (\<lambda>_. read_seq (length xs) r)))
     (concat (map f xs)) xs"
    using assms(1,4) by (intro reads_if reads_vec) (auto simp: table_fits_def)
qed

lemma table_fits_True: "table_fits h e (\<lambda>_. True) xs \<longleftrightarrow> vec_fits h e (length xs)"
  by (simp add: table_fits_def list_all_iff)

lemma reads_indices: "vec_fits h e (length xs) \<Longrightarrow> 0 < k \<Longrightarrow> k \<le> 4 \<Longrightarrow> reads (read_table h e k cur_u32) (write_table write_u32 xs) xs"
  by (rule reads_table [where P = "\<lambda>_. True"]) (simp_all add: table_fits_True reads_u32)

lemma reads_flags: "vec_fits h e (length xs) \<Longrightarrow> reads (read_table h e 1 cur_flag) (write_table write_flag xs) xs"
  by (rule reads_table [where P = "\<lambda>_. True"]) (simp_all add: table_fits_True reads_flag)

lemma reads_markers:
  "vec_fits h e (length xs) \<Longrightarrow> ok (length xs) \<Longrightarrow> reads (read_counted h e ok err cur_flag) (write_table write_flag xs) xs"
  by (rule reads_counted [where P = "\<lambda>_. True"]) (simp_all add: table_fits_True reads_flag)

end
