(* ===== verification/Module_Codec.thy ===== *)
theory Module_Codec
  imports Module_Decode Wire_Rules
begin

text \<open>
  The container round trip. \<open>module_fits\<close> names what a module must satisfy to survive
  it: valid text, tables that the decoder's memory guards admit, the alignments and
  index ranges the decoder checks. The semantic region keeps everything except the
  names (\<open>strip_names\<close>); the export section restores them.
\<close>

section \<open>Rows, uses and types\<close>

definition row_fits :: "Host \<Rightarrow> BcRow list \<Rightarrow> bool" where
  "row_fits h row \<longleftrightarrow> vec_fits h ERowElem (length row)"

definition use_fits :: "Host \<Rightarrow> BcInterfaceUse \<Rightarrow> bool" where
  "use_fits h u \<longleftrightarrow> vec_fits h EIndex (length (use_types u)) \<and> table_fits h ERow (row_fits h) (use_rows u)"

definition bounds_fit :: "Host \<Rightarrow> TypeBounds \<Rightarrow> bool" where
  "bounds_fit h bs \<longleftrightarrow> table_fits h EBounds (table_fits h EUse (use_fits h)) bs"

definition signature_fits :: "Host \<Rightarrow> u32 list \<Rightarrow> bool list \<Rightarrow> BcRow list \<Rightarrow> bool" where
  "signature_fits h params muts row \<longleftrightarrow>
     vec_fits h EIndex (length params) \<and> vec_fits h EFlag (length muts) \<and> length muts = length params \<and> row_fits h row"

fun type_fits :: "Host \<Rightarrow> BcType \<Rightarrow> bool" where
  "type_fits h (TyInst c args) = vec_fits h EIndex (length args)"
| "type_fits h (TyTuple elems) = vec_fits h EIndex (length elems)"
| "type_fits h (TyFn params muts ret row) = signature_fits h params muts row"
| "type_fits h (TyCallback params muts ret row) = signature_fits h params muts row"
| "type_fits h _ = True"

lemma row_elem_len [wire_len]: "length (encode_row_elem e) = 5"
  by (cases e) simp_all

lemma reads_row_elem [reads_intro]: "reads decode_row_elem (encode_row_elem e) e"
  unfolding decode_row_elem_def
  by (cases e; simp only: encode_row_elem.simps; rule reads_bind [OF reads_u8])
     (simp_all add: ROW_OP_def ROW_GROUP_def ROW_VAR_def reads_last [OF reads_u32 reads_ret])

lemma reads_row [reads_intro]: "row_fits h row \<Longrightarrow> reads (decode_row h) (encode_row row) row"
  unfolding decode_row_def encode_row_def row_fits_def
  by (rule reads_table [where P = "\<lambda>_. True"]) (simp_all add: table_fits_True reads_row_elem row_elem_len)

lemma row_len [wire_len]: "4 \<le> length (encode_row row)"
  by (simp add: encode_row_def length_write_table)

lemma reads_rows: "table_fits h ERow (row_fits h) rows \<Longrightarrow> reads (read_table h ERow 1 (decode_row h)) (write_table encode_row rows) rows"
  by (rule reads_table [where P = "row_fits h"]) (auto intro: reads_row order_trans [OF _ row_len])

lemma reads_use [reads_intro]: "use_fits h u \<Longrightarrow> reads (decode_interface_use h) (encode_interface_use u) u"
  unfolding decode_interface_use_def encode_interface_use_def use_fits_def
  by (rule reads_step reads_u32 reads_indices reads_rows reads_ret | simp)+

lemma use_len [wire_len]: "12 \<le> length (encode_interface_use u)"
  by (simp add: encode_interface_use_def length_write_table)

lemma reads_bounds_k:
  "table_fits h EUse (use_fits h) us \<Longrightarrow> 0 < k \<Longrightarrow> k \<le> 12 \<Longrightarrow> reads (decode_bounds h k) (encode_bounds us) us"
  unfolding decode_bounds_def encode_bounds_def
  by (rule reads_table [where P = "use_fits h"]) (auto intro: reads_use order_trans [OF _ use_len])

lemma bounds_len [wire_len]: "4 \<le> length (encode_bounds us)"
  by (simp add: encode_bounds_def length_write_table)

lemma reads_type_bounds [reads_intro]: "bounds_fit h bs \<Longrightarrow> reads (decode_type_bounds h) (encode_type_bounds bs) bs"
  unfolding decode_type_bounds_def encode_type_bounds_def bounds_fit_def
  by (rule reads_table [where P = "table_fits h EUse (use_fits h)"])
     (auto intro: reads_bounds_k order_trans [OF _ bounds_len])

lemma type_bounds_len [wire_len]: "4 \<le> length (encode_type_bounds bs)"
  by (simp add: encode_type_bounds_def length_write_table)

lemma reads_signature:
  "signature_fits h params muts row \<Longrightarrow> 0 < k \<Longrightarrow> k \<le> 4 \<Longrightarrow>
     reads (decode_signature h k) (encode_signature params muts ret row) (params, muts, ret, row)"
  unfolding decode_signature_def encode_signature_def signature_fits_def
  by (elim conjE) (rule reads_step reads_u32 reads_indices reads_markers reads_row reads_ret | simp)+

lemma reads_type [reads_intro]: "type_fits h t \<Longrightarrow> reads (decode_type h) (encode_type t) t"
  unfolding decode_type_def
  by (cases t; simp only: encode_type.simps;
      (rule reads_bind [OF reads_u8] | rule reads_last [OF reads_u8]); simp add: ty_tags;
      (rule reads_step reads_u32 reads_indices reads_signature reads_ret | simp)+)

lemma type_len [wire_len]: "1 \<le> length (encode_type t)"
  by (cases t) simp_all

section \<open>Applications, interfaces, conformances\<close>

definition app_fits :: "Host \<Rightarrow> TypeApp \<Rightarrow> bool" where
  "app_fits h a \<longleftrightarrow> vec_fits h EIndex (length (app_types a)) \<and> table_fits h ERow (row_fits h) (app_rows a)"

definition associated_fits :: "Host \<Rightarrow> BcAssociated \<Rightarrow> bool" where
  "associated_fits h a \<longleftrightarrow> str_fits (as_name a) \<and> table_fits h EUse (use_fits h) (as_bounds a)"

definition premise_fits :: "Host \<Rightarrow> BcTypePremise \<Rightarrow> bool" where
  "premise_fits h p \<longleftrightarrow> table_fits h EUse (use_fits h) (tp_bounds p)"

definition method_fits :: "Host \<Rightarrow> BcInterfaceMethod \<Rightarrow> bool" where
  "method_fits h m \<longleftrightarrow>
     bounds_fit h (im_type_bounds m) \<and> table_fits h EPremise (premise_fits h) (im_premises m) \<and>
     signature_fits h (im_params m) (im_param_muts m) (im_row m)"

definition strip_method :: "BcInterfaceMethod \<Rightarrow> BcInterfaceMethod" where
  "strip_method m = m\<lparr>im_param_names := []\<rparr>"

definition interface_fits :: "Host \<Rightarrow> BcInterface \<Rightarrow> bool" where
  "interface_fits h i \<longleftrightarrow>
     vec_fits h EFlag (length (if_generic_is_effect i)) \<and> table_fits h EUse (use_fits h) (if_parents i) \<and>
     bounds_fit h (if_type_bounds i) \<and> table_fits h EAssociated (associated_fits h) (if_associated i) \<and>
     table_fits h EMethod (method_fits h) (if_methods i)"

definition strip_interface :: "BcInterface \<Rightarrow> BcInterface" where
  "strip_interface i = i\<lparr>if_name := [], if_key := [], if_methods := map strip_method (if_methods i)\<rparr>"

definition conf_premise_fits :: "Host \<Rightarrow> BcConformancePremise \<Rightarrow> bool" where
  "conf_premise_fits h p \<longleftrightarrow> table_fits h EUse (use_fits h) (cp_bounds p)"

definition conformance_fits :: "Host \<Rightarrow> BcConformance \<Rightarrow> bool" where
  "conformance_fits h c \<longleftrightarrow>
     use_fits h (cf_application c) \<and> table_fits h EConfPremise (conf_premise_fits h) (cf_premises c) \<and>
     vec_fits h EIndex (length (cf_associated c)) \<and> vec_fits h EFlag (length (cf_method_overrides c))"

lemma reads_app: "app_fits h a \<Longrightarrow> reads (decode_app h) (encode_app a) a"
  unfolding decode_app_def encode_app_def app_fits_def
  by (rule reads_step reads_indices reads_rows reads_ret | simp)+

lemma reads_associated: "associated_fits h a \<Longrightarrow> reads (decode_associated h) (encode_associated a) a"
  unfolding decode_associated_def encode_associated_def associated_fits_def
  by (rule reads_step reads_string reads_bounds_k reads_ret | simp)+

lemma reads_premise: "premise_fits h p \<Longrightarrow> reads (decode_type_premise h) (encode_type_premise p) p"
  unfolding decode_type_premise_def encode_type_premise_def premise_fits_def
  by (rule reads_step reads_u32 reads_bounds_k reads_ret | simp)+

lemma premise_len: "Suc 0 \<le> length (encode_type_premise p)"
  by (simp add: encode_type_premise_def)

lemma reads_premises:
  "table_fits h EPremise (premise_fits h) xs \<Longrightarrow> reads (read_table h EPremise 1 (decode_type_premise h)) (write_table encode_type_premise xs) xs"
  by (rule reads_table, assumption) (auto intro: reads_premise premise_len)

lemma reads_method: "method_fits h m \<Longrightarrow> reads (decode_interface_method h) (encode_interface_method m) (strip_method m)"
  unfolding decode_interface_method_def encode_interface_method_def method_fits_def
  by (rule reads_step reads_u32 reads_flag reads_type_bounds reads_signature reads_ret reads_premises
      | simp add: strip_method_def)+

lemma associated_len: "Suc 0 \<le> length (encode_associated a)"
  by (simp add: encode_associated_def)

lemma method_len: "Suc 0 \<le> length (encode_interface_method m)"
  by (simp add: encode_interface_method_def)

lemma use_len1: "Suc 0 \<le> length (encode_interface_use u)"
  by (simp add: encode_interface_use_def)

lemma reads_uses:
  "table_fits h EUse (use_fits h) xs \<Longrightarrow> reads (read_table h EUse 1 (decode_interface_use h)) (write_table encode_interface_use xs) xs"
  by (rule reads_table, assumption) (auto intro: reads_use use_len1)

lemma reads_associateds:
  "table_fits h EAssociated (associated_fits h) xs \<Longrightarrow> reads (read_table h EAssociated 1 (decode_associated h)) (write_table encode_associated xs) xs"
  by (rule reads_table, assumption) (auto intro: reads_associated associated_len)

lemma reads_methods:
  "table_fits h EMethod (method_fits h) xs \<Longrightarrow> reads (read_table h EMethod 1 (decode_interface_method h)) (write_table encode_interface_method xs) (map strip_method xs)"
  by (rule reads_table_map, assumption) (auto intro: reads_method method_len)

lemma reads_interface: "interface_fits h i \<Longrightarrow> reads (decode_interface_def h) (encode_interface_def i) (strip_interface i)"
  unfolding decode_interface_def_def encode_interface_def_def interface_fits_def
  by (rule reads_step reads_u32 reads_flags reads_type_bounds reads_ret reads_uses reads_associateds reads_methods
      | simp add: strip_interface_def)+

lemma reads_conf_premise: "conf_premise_fits h p \<Longrightarrow> reads (decode_conformance_premise h) (encode_conformance_premise p) p"
  unfolding decode_conformance_premise_def encode_conformance_premise_def conf_premise_fits_def
  by (rule reads_step reads_u32 reads_bounds_k reads_ret | simp)+

lemma conf_premise_len: "8 \<le> length (encode_conformance_premise p)"
  by (simp add: encode_conformance_premise_def encode_bounds_def length_write_table)

lemma reads_conf_premises:
  "table_fits h EConfPremise (conf_premise_fits h) xs \<Longrightarrow> reads (read_table h EConfPremise 8 (decode_conformance_premise h)) (write_table encode_conformance_premise xs) xs"
  by (rule reads_table, assumption) (auto intro: reads_conf_premise conf_premise_len)

lemma reads_conformance: "conformance_fits h c \<Longrightarrow> reads (decode_conformance h) (encode_conformance c) c"
  unfolding decode_conformance_def encode_conformance_def conformance_fits_def
  by (rule reads_step reads_u32 reads_use reads_indices reads_flags reads_ret reads_conf_premises
      | simp)+

section \<open>Imports, slots, classes, functions\<close>

definition import_fits :: "Import \<Rightarrow> bool" where
  "import_fits i \<longleftrightarrow> str_fits (imp_module i) \<and> str_fits (imp_name i) \<and> length (imp_hash i) = 32"

definition callable_fits :: "Host \<Rightarrow> BcCallableContract \<Rightarrow> bool" where
  "callable_fits h c \<longleftrightarrow> bounds_fit h (cc_type_bounds c) \<and> signature_fits h (cc_params c) (cc_param_muts c) (cc_row c)"

fun contract_fits :: "Host \<Rightarrow> SlotContract \<Rightarrow> bool" where
  "contract_fits h (SlotFunction c) = callable_fits h c"
| "contract_fits h (SlotMethod c) = callable_fits h c"
| "contract_fits h (SlotClass type_params abi ty c) = (length abi = 32 \<and> callable_fits h c)"
| "contract_fits h _ = True"

definition slot_fits :: "Host \<Rightarrow> SlotSpec \<Rightarrow> bool" where
  "slot_fits h s \<longleftrightarrow> length (sl_key s) = 32 \<and> length (sl_contract_hash s) = 32 \<and> contract_fits h (sl_contract s)"

definition strip_slot :: "SlotSpec \<Rightarrow> SlotSpec" where
  "strip_slot s = s\<lparr>sl_binding := [], sl_late := False\<rparr>"

definition field_fits :: "str \<times> u32 \<Rightarrow> bool" where
  "field_fits f \<longleftrightarrow> str_fits (fst f)"

definition class_fits :: "Host \<Rightarrow> BcClass \<Rightarrow> bool" where
  "class_fits h c \<longleftrightarrow>
     vec_fits h EIndex (length (cls_parent_args c)) \<and> table_fits h EField field_fits (cls_fields c) \<and>
     vec_fits h EMethodRef (length (cls_methods c))"

definition strip_class :: "BcClass \<Rightarrow> BcClass" where
  "strip_class c = c\<lparr>cls_name := [], cls_key := [], cls_field_defaults := [], cls_own_start := 0, cls_has_init := False\<rparr>"

definition reflection_fits :: "ReflectionModule \<Rightarrow> bool" where
  "reflection_fits r \<longleftrightarrow> str_fits (rm_name r) \<and> length (rm_semantic_hash r) = 32"

definition func_fits :: "Host \<Rightarrow> Func \<Rightarrow> bool" where
  "func_fits h f \<longleftrightarrow>
     signature_fits h (fn_params f) (fn_param_muts f) (fn_row f) \<and> vec_fits h EIndex (length (fn_captures f)) \<and>
     vec_fits h EIndex (length (fn_local_types f)) \<and> table_fits h EBlock (table_fits h EInstr instr_ok) (fn_blocks f)"

definition strip_func :: "Func \<Rightarrow> Func" where
  "strip_func f = f\<lparr>fn_name := [], fn_param_names := []\<rparr>"

lemma reads_tag: "g = p_ret a \<Longrightarrow> reads (f a) cs b \<Longrightarrow> reads (p_bind g f) cs b"
  using reads_skip [of g a f cs b] by (simp add: reads_ret)

lemma import_kind_read:
  "(if import_kind_tag k = 0 then p_ret ImportClass else if import_kind_tag k = 1 then p_ret ImportCtor
    else if import_kind_tag k = 2 then p_ret ImportMethod else if import_kind_tag k = 3 then p_ret ImportFunc
    else if import_kind_tag k = 4 then p_ret ImportConstant else p_err BadImport) = p_ret k"
  by (cases k) simp_all

lemma class_kind_read:
  "(if class_kind_tag k = KIND_NORMAL then p_ret KindNormal else if class_kind_tag k = KIND_ABSTRACT then p_ret KindAbstract
    else if class_kind_tag k = KIND_CASE then p_ret KindCase else p_err (BadClassKind (class_kind_tag k))) = p_ret k"
  by (cases k) (simp_all add: KIND_NORMAL_def KIND_ABSTRACT_def KIND_CASE_def)

lemma reads_import: "import_fits i \<Longrightarrow> reads decode_import (encode_import i) i"
  unfolding decode_import_def encode_import_def import_fits_def
  by (rule reads_tag [OF import_kind_read] reads_step reads_string reads_u8 reads_u32 reads_take reads_ret | simp)+

lemma reads_callable: "callable_fits h c \<Longrightarrow> reads (decode_callable_contract h) (encode_callable_contract c) c"
  unfolding decode_callable_contract_def encode_callable_contract_def callable_fits_def
  by (rule reads_step reads_u32 reads_type_bounds reads_signature reads_ret | simp)+

lemmas slot_tags = SLOT_FUNCTION_def SLOT_METHOD_def SLOT_CLASS_def SLOT_VALUE_def SLOT_PROCESS_def

lemma reads_contract: "contract_fits h c \<Longrightarrow> reads (decode_slot_contract h) (encode_slot_contract c) c"
  unfolding decode_slot_contract_def
  by (cases c; simp only: encode_slot_contract.simps; rule reads_bind [OF reads_u8]; simp add: slot_tags;
      (rule reads_step reads_u32 reads_take reads_callable reads_ret | simp)+)

lemma reads_slot_target: "reads decode_slot_target (encode_slot_target t) t"
  unfolding decode_slot_target_def
  by (cases t rule: encode_slot_target.cases; simp only: encode_slot_target.simps;
      (rule reads_bind [OF reads_u8] | rule reads_last [OF reads_u8]); simp;
      (rule reads_step reads_u32 reads_ret | simp)+)

lemma reads_slot: "slot_fits h s \<Longrightarrow> reads (decode_slot h) (encode_slot s) (strip_slot s)"
  unfolding decode_slot_def encode_slot_def slot_fits_def
  by (rule reads_step reads_take reads_contract reads_slot_target reads_ret | simp add: strip_slot_def)+

lemma reads_field: "field_fits f \<Longrightarrow> reads decode_field (encode_field f) f"
  unfolding decode_field_def encode_field_def field_fits_def
  by (rule reads_step reads_string reads_u32 reads_ret | simp)+

lemma field_len: "Suc 0 \<le> length (encode_field f)"
  by (simp add: encode_field_def)

lemma reads_fields: "table_fits h EField field_fits xs \<Longrightarrow> reads (read_table h EField 1 decode_field) (write_table encode_field xs) xs"
  by (rule reads_table, assumption) (auto intro: reads_field field_len)

lemma reads_method_ref: "reads decode_method_ref (encode_method_ref p) p"
  unfolding decode_method_ref_def encode_method_ref_def
  by (rule reads_step reads_u32 reads_ret | simp)+

lemma reads_method_refs:
  "vec_fits h EMethodRef (length xs) \<Longrightarrow> reads (read_table h EMethodRef 1 decode_method_ref) (write_table encode_method_ref xs) xs"
  by (rule reads_table [where P = "\<lambda>_. True"]) (simp_all add: table_fits_True reads_method_ref, simp add: encode_method_ref_def)

lemma reads_class: "class_fits h c \<Longrightarrow> reads (decode_class h) (encode_class c) (strip_class c)"
  unfolding decode_class_def encode_class_def class_fits_def
  by (rule reads_tag [OF class_kind_read] reads_step reads_u8 reads_u32 reads_flag reads_indices reads_fields reads_method_refs reads_ret
      | simp add: strip_class_def)+

lemma reads_reflection: "reflection_fits r \<Longrightarrow> reads decode_reflection (encode_reflection r) r"
  unfolding decode_reflection_def encode_reflection_def reflection_fits_def
  by (rule reads_step reads_string reads_take reads_ret | simp)+

lemma instr_len: "Suc 0 \<le> length (encode_instr i)"
  using encode_instr_nonempty [of i] by (cases "encode_instr i") auto

lemma reads_block: "table_fits h EInstr instr_ok b \<Longrightarrow> reads (decode_block h) (encode_block b) b"
  unfolding decode_block_def encode_block_def
  by (rule reads_table, assumption) (auto intro: reads_instr simp: instr_len simp del: encode_instr.simps)

lemma block_len: "Suc 0 \<le> length (encode_block b)"
  by (simp add: encode_block_def length_write_table)

lemma reads_blocks:
  "table_fits h EBlock (table_fits h EInstr instr_ok) xs \<Longrightarrow> reads (read_table h EBlock 1 (decode_block h)) (write_table encode_block xs) xs"
  by (rule reads_table, assumption) (auto intro: reads_block block_len)

lemma reads_func: "func_fits h f \<Longrightarrow> reads (decode_func h) (encode_func f) (strip_func f)"
  unfolding decode_func_def encode_func_def func_fits_def
  by (rule reads_step reads_u32 reads_signature reads_indices reads_blocks reads_ret | simp add: strip_func_def)+

end
