(* ===== verification/Module_Roundtrip.thy ===== *)
theory Module_Roundtrip
  imports Module_Codec
begin

text \<open>
  The two regions of the container, the debug section and the container itself: what
  the encoder writes, the decoder reads back.
\<close>

section \<open>The semantic region\<close>

definition strip_names :: "Module \<Rightarrow> Module" where
  "strip_names m = m\<lparr>m_interfaces := map strip_interface (m_interfaces m), m_slots := map strip_slot (m_slots m),
     m_classes := map strip_class (m_classes m), m_funcs := map strip_func (m_funcs m),
     m_exports := [], m_bindings := [], m_debug := []\<rparr>"

definition tables_fit :: "Host \<Rightarrow> Module \<Rightarrow> bool" where
  "tables_fit h m \<longleftrightarrow>
     table_fits h EString str_fits (m_strings m) \<and> table_fits h EBlob blob_fits (m_bytes m) \<and>
     table_fits h EType (type_fits h) (m_types m) \<and> table_fits h EString str_fits (m_selectors m) \<and>
     table_fits h EApp (app_fits h) (m_apps m) \<and> table_fits h EInterface (interface_fits h) (m_interfaces m) \<and>
     table_fits h EConformance (conformance_fits h) (m_conformances m) \<and>
     table_fits h EBounds (bounds_fit h) (m_class_bounds m) \<and> table_fits h EBounds (bounds_fit h) (m_func_bounds m) \<and>
     table_fits h EImport import_fits (m_imports m) \<and> table_fits h ESlot (slot_fits h) (m_slots m) \<and>
     table_fits h EClass (class_fits h) (m_classes m) \<and> table_fits h EReflection reflection_fits (m_reflections m) \<and>
     table_fits h EFunc (func_fits h) (m_funcs m)"

definition aligned :: "Module \<Rightarrow> bool" where
  "aligned m \<longleftrightarrow>
     length (m_core_roles m) = CORE_ROLE_COUNT \<and> length (m_class_bounds m) = length (m_classes m) \<and>
     length (m_func_bounds m) = length (m_funcs m)"

definition claims_ok :: "Module \<Rightarrow> bool" where
  "claims_ok m \<longleftrightarrow>
     claim_imports (replicate (length (m_classes m)) False) (replicate (length (m_funcs m)) False) (m_imports m) \<and>
     claim_roles (length (m_classes m)) [] (m_core_roles m)"

lemma reads_strings: "table_fits h EString str_fits xs \<Longrightarrow> reads (read_table h EString 1 cur_string) (write_table write_bytes xs) xs"
  by (rule reads_table, assumption) (auto intro: reads_string)

lemma reads_blobs: "table_fits h EBlob blob_fits xs \<Longrightarrow> reads (read_table h EBlob 4 cur_blob) (write_table write_bytes xs) xs"
  by (rule reads_table, assumption) (auto intro: reads_blob)

lemma reads_types: "table_fits h EType (type_fits h) xs \<Longrightarrow> reads (read_table h EType 1 (decode_type h)) (write_table encode_type xs) xs"
  by (rule reads_table, assumption) (use type_len in \<open>auto intro: reads_type\<close>)

lemma reads_apps: "table_fits h EApp (app_fits h) xs \<Longrightarrow> reads (read_table h EApp 1 (decode_app h)) (write_table encode_app xs) xs"
  by (rule reads_table, assumption, erule reads_app) (simp_all add: encode_app_def length_write_table)

lemma reads_interfaces:
  "table_fits h EInterface (interface_fits h) xs \<Longrightarrow>
     reads (read_table h EInterface 1 (decode_interface_def h)) (write_table encode_interface_def xs) (map strip_interface xs)"
  by (rule reads_table_map, assumption, erule reads_interface) (simp_all add: encode_interface_def_def)

lemma reads_conformances:
  "table_fits h EConformance (conformance_fits h) xs \<Longrightarrow>
     reads (read_table h EConformance 1 (decode_conformance h)) (write_table encode_conformance xs) xs"
  by (rule reads_table, assumption, erule reads_conformance) (simp_all add: encode_conformance_def)

lemma reads_bounds_table:
  "table_fits h EBounds (bounds_fit h) xs \<Longrightarrow>
     reads (read_table h EBounds 1 (decode_type_bounds h)) (write_table encode_type_bounds xs) xs"
  by (rule reads_table, assumption, erule reads_type_bounds) (simp_all add: encode_type_bounds_def length_write_table)

lemma reads_imports: "table_fits h EImport import_fits xs \<Longrightarrow> reads (read_table h EImport 1 decode_import) (write_table encode_import xs) xs"
  by (rule reads_table, assumption, erule reads_import) (simp_all add: encode_import_def)

lemma contract_len: "5 \<le> length (encode_slot_contract c)"
  by (cases c) (simp_all add: encode_callable_contract_def)

lemma target_len: "1 \<le> length (encode_slot_target t)"
  by (cases t rule: encode_slot_target.cases) simp_all

text \<open>The guard of the slot table counts 66 bytes for a slot: two digests, a tag and a target tag.\<close>

lemma reads_slots:
  assumes "table_fits h ESlot (slot_fits h) xs"
  shows "reads (read_table h ESlot 66 (decode_slot h)) (write_table encode_slot xs) (map strip_slot xs)"
proof -
  have len: "66 \<le> length (encode_slot s)" if "slot_fits h s" for s
    using that contract_len [of "sl_contract s"] target_len [of "sl_initial s"] by (simp add: encode_slot_def slot_fits_def)
  have all: "list_all (slot_fits h) xs" and vec: "vec_fits h ESlot (length xs)" using assms by (auto simp: table_fits_def)
  have "length xs * 66 \<le> length (concat (map encode_slot xs))"
    using all
  proof (induction xs)
    case (Cons x xs)
    then show ?case using len [of x] by simp
  qed simp
  then show ?thesis
    unfolding read_table_def write_table_def
    by (intro reads_len reads_need reads_vec vec reads_seq [OF all reads_slot] vec_fits_small [OF vec]) simp_all
qed

lemma reads_roles:
  "length xs = CORE_ROLE_COUNT \<Longrightarrow> reads (read_seq CORE_ROLE_COUNT cur_u32) (concat (map write_u32 xs)) xs"
  using reads_seq [of "\<lambda>_. True" xs cur_u32 write_u32 id] by (simp add: list_all_iff reads_u32)

lemma reads_classes:
  "table_fits h EClass (class_fits h) xs \<Longrightarrow>
     reads (read_table h EClass 1 (decode_class h)) (write_table encode_class xs) (map strip_class xs)"
  by (rule reads_table_map, assumption, erule reads_class) (simp_all add: encode_class_def)

lemma reads_reflections:
  "table_fits h EReflection reflection_fits xs \<Longrightarrow>
     reads (read_table h EReflection 1 decode_reflection) (write_table encode_reflection xs) xs"
  by (rule reads_table, assumption, erule reads_reflection) (simp_all add: encode_reflection_def)

lemma reads_funcs:
  "table_fits h EFunc (func_fits h) xs \<Longrightarrow>
     reads (read_table h EFunc 1 (decode_func h)) (write_table encode_func xs) (map strip_func xs)"
  by (rule reads_table_map, assumption, erule reads_func) (simp_all add: encode_func_def)

lemma reads_semantic:
  assumes "tables_fit h m" and "aligned m"
  shows "reads (semantic_tables h) (encode_semantic m) (strip_names m)"
  using assms unfolding semantic_tables_def encode_semantic_def tables_fit_def aligned_def
  by (elim conjE) (rule reads_step reads_strings reads_blobs reads_types reads_apps reads_interfaces reads_conformances
      reads_bounds_table reads_imports reads_slots reads_roles reads_classes reads_reflections reads_funcs reads_u32 reads_ret
      | assumption | simp add: strip_names_def)+

lemma decode_semantic_encoded:
  assumes "tables_fit h m" and "aligned m" and "claims_ok m"
  shows "decode_semantic h (encode_semantic m) = Inr (strip_names m)"
  using reads_whole [OF reads_semantic [OF assms(1,2)]] assms(3)
  unfolding decode_semantic_def by (simp add: claims_ok_def strip_names_def)

section \<open>Constants\<close>

fun const_cost :: "Host \<Rightarrow> ConstValue \<Rightarrow> nat" where
  "const_cost h (CvTuple items) = length items * max (size_of h EConst) 1 + sum_list (map (const_cost h) items)"
| "const_cost h _ = 0"

primrec const_fits :: "Host \<Rightarrow> nat \<Rightarrow> ConstValue \<Rightarrow> bool" where
  "const_fits h 0 = (\<lambda>v. False)"
| "const_fits h (Suc room) = (\<lambda>v. case v of
     CvChar c \<Rightarrow> char_from_u32 c \<noteq> None
   | CvString s \<Rightarrow> str_fits s
   | CvBytes b \<Rightarrow> blob_fits b
   | CvTuple items \<Rightarrow> vec_fits h EConst (length items) \<and> list_all (const_fits h room) items
   | _ \<Rightarrow> True)"

lemma reads_items:
  assumes "\<And>x al. P x \<Longrightarrow> int (al + cost x) \<le> limit \<Longrightarrow> reads (r al) (f x) (x, al + cost x)"
  shows "list_all P xs \<Longrightarrow> int (al + sum_list (map cost xs)) \<le> limit \<Longrightarrow>
    reads (read_items r (length xs) al) (concat (map f xs)) (xs, al + sum_list (map cost xs))"
proof (induction xs arbitrary: al)
  case Nil
  then show ?case by (simp add: reads_ret)
next
  case (Cons x xs)
  have x: "reads (r al) (f x) (x, al + cost x)" by (rule assms) (use Cons.prems in auto)
  have xs: "reads (read_items r (length xs) (al + cost x)) (concat (map f xs)) (xs, al + cost x + sum_list (map cost xs))"
    by (rule Cons.IH) (use Cons.prems in auto)
  show ?case
    by (simp only: list.map concat.simps list.size add_0_right add_Suc_right read_items.simps sum_list.Cons)
       (rule reads_bind [OF x], rule reads_prod, rule reads_last [OF xs], rule reads_prod, rule reads_ret, simp)
qed

lemma const_len: "Suc 0 \<le> length (encode_const_value v)"
  by (cases v) simp_all

lemma reads_const_scalar:
  assumes "const_fits h (Suc room) v" and "\<forall>items. v \<noteq> CvTuple items"
  shows "reads (decode_const_value h (Suc room) al) (encode_const_value v) (v, al)"
proof (cases v)
  case CvUnit
  show ?thesis unfolding CvUnit decode_const_value.simps encode_const_value.simps
    by (rule reads_last [OF reads_u8]) (simp add: reads_ret)
next
  case (CvBool b)
  show ?thesis unfolding CvBool decode_const_value.simps encode_const_value.simps
    by (rule reads_bind [OF reads_u8]) (simp add: reads_last [OF reads_flag] reads_ret)
next
  case (CvInt i)
  show ?thesis unfolding CvInt decode_const_value.simps encode_const_value.simps
    by (rule reads_bind [OF reads_u8]) (simp add: reads_last [OF reads_u64] reads_ret)
next
  case (CvFloat f)
  show ?thesis unfolding CvFloat decode_const_value.simps encode_const_value.simps
    by (rule reads_bind [OF reads_u8]) (simp add: reads_last [OF reads_u64] reads_ret)
next
  case (CvChar c)
  then have c: "char_from_u32 c = Some c" using assms(1) by (auto simp: char_from_u32_def split: if_splits)
  show ?thesis unfolding CvChar decode_const_value.simps encode_const_value.simps
    by (rule reads_bind [OF reads_u8]) (simp add: reads_last [OF reads_u32] reads_tag [of _ c] c p_opt_def reads_ret)
next
  case (CvString t)
  then have "str_fits t" using assms(1) by simp
  then show ?thesis unfolding CvString decode_const_value.simps encode_const_value.simps
    by (intro reads_bind [OF reads_u8]) (simp add: reads_last [OF reads_string] reads_ret)
next
  case (CvBytes b)
  then have "int (length b) < 4294967296" using assms(1) by (simp add: blob_fits_def)
  then show ?thesis unfolding CvBytes decode_const_value.simps encode_const_value.simps
    by (intro reads_bind [OF reads_u8]) (simp add: reads_len reads_last [OF reads_take] reads_ret)
qed (use assms(2) in simp)

lemma reads_const:
  "const_fits h room v \<Longrightarrow> int (al + const_cost h v) \<le> MAX_DECODE_VECTOR_BYTES \<Longrightarrow>
     reads (decode_const_value h room al) (encode_const_value v) (v, al + const_cost h v)"
proof (induction room arbitrary: v al)
  case (Suc room)
  show ?case
  proof (cases v)
    case (CvTuple items)
    let ?al = "al + length items * max (size_of h EConst) 1"
    have items: "vec_fits h EConst (length items)" "list_all (const_fits h room) items"
      using Suc.prems(1) CvTuple by simp_all
    have cost: "int (?al + sum_list (map (const_cost h) items)) \<le> MAX_DECODE_VECTOR_BYTES"
      using Suc.prems(2) CvTuple by (simp add: add.assoc del: of_nat_max)
    have rest: "reads (read_items (decode_const_value h room) (length items) ?al) (concat (map encode_const_value items))
        (items, ?al + sum_list (map (const_cost h) items))"
      by (rule reads_items [OF Suc.IH items(2) cost])
    have charge: "charge_items h (length items) al = p_ret ?al"
      using cost by (simp add: charge_items_def del: of_nat_max)
    have len: "length items \<le> length (concat (map encode_const_value items))"
      using concat_map_length [of 1 encode_const_value items] const_len by simp
    have body: "reads (p_bind (p_need (length items) 1) (\<lambda>_. p_bind (charge_items h (length items) al) (\<lambda>allocation'.
        p_bind (decode_vec h EConst (length items)) (\<lambda>_.
        p_bind (read_items (decode_const_value h room) (length items) allocation') (\<lambda>(items, allocation'').
        p_ret (CvTuple items, allocation''))))))
        (concat (map encode_const_value items)) (v, al + const_cost h v)"
      by (rule reads_need, use len in simp, simp, rule reads_tag [OF charge], rule reads_vec [OF items(1)],
          rule reads_last [OF rest], rule reads_prod, rule reads_ret) (simp add: CvTuple)
    show ?thesis
      unfolding CvTuple decode_const_value.simps encode_const_value.simps
      by (rule reads_bind [OF reads_u8], simp, rule reads_len)
         (use vec_fits_small [OF items(1)] len body [unfolded CvTuple] in simp_all)
  qed (use reads_const_scalar [of h room v al] Suc.prems(1) in auto)
qed simp

section \<open>The export section\<close>

definition method_names_fit :: "Host \<Rightarrow> BcInterfaceMethod \<Rightarrow> bool" where
  "method_names_fit h m \<longleftrightarrow> table_fits h EString str_fits (im_param_names m) \<and> length (im_param_names m) = length (im_params m)"

definition interface_names_fit :: "Host \<Rightarrow> BcInterface \<Rightarrow> bool" where
  "interface_names_fit h i \<longleftrightarrow> str_fits (if_name i) \<and> str_fits (if_key i) \<and> list_all (method_names_fit h) (if_methods i)"

definition class_names_fit :: "Host \<Rightarrow> BcClass \<Rightarrow> bool" where
  "class_names_fit h c \<longleftrightarrow>
     str_fits (cls_name c) \<and> str_fits (cls_key c) \<and> vec_fits h EFlag (length (cls_field_defaults c)) \<and>
     length (cls_field_defaults c) = length (cls_fields c)"

definition func_names_fit :: "Host \<Rightarrow> Func \<Rightarrow> bool" where
  "func_names_fit h f \<longleftrightarrow>
     str_fits (fn_name f) \<and> table_fits h EString str_fits (fn_param_names f) \<and>
     (fn_param_names f = [] \<or> length (fn_param_names f) = length (fn_params f))"

definition slot_names_fit :: "SlotSpec \<Rightarrow> bool" where
  "slot_names_fit s \<longleftrightarrow> str_fits (sl_binding s)"

definition binding_fits :: "Module \<Rightarrow> FuncBinding \<Rightarrow> bool" where
  "binding_fits m b \<longleftrightarrow>
     str_fits (fb_key b) \<and> unat (fb_func b) < length (m_funcs m) \<and>
     (fb_class b = NO_CLASS \<or> unat (fb_class b) < length (m_classes m))"

definition constant_fits :: "Host \<Rightarrow> Module \<Rightarrow> Constant \<Rightarrow> bool" where
  "constant_fits h m c \<longleftrightarrow> unat (ct_ty c) < length (m_types m) \<and> const_fits h MAX_TYPE_DEPTH (ct_value c)"

definition opt_constant_fits :: "Host \<Rightarrow> Module \<Rightarrow> Constant option \<Rightarrow> bool" where
  "opt_constant_fits h m c = (case c of None \<Rightarrow> True | Some k \<Rightarrow> constant_fits h m k)"

definition export_fits :: "Host \<Rightarrow> Module \<Rightarrow> Export \<Rightarrow> bool" where
  "export_fits h m e \<longleftrightarrow> str_fits (ex_name e) \<and> export_ok m e \<and> opt_constant_fits h m (ex_constant e)"

definition export_cost :: "Host \<Rightarrow> Export \<Rightarrow> nat" where
  "export_cost h e = (case ex_constant e of None \<Rightarrow> 0 | Some c \<Rightarrow> const_cost h (ct_value c))"

definition names_fit :: "Host \<Rightarrow> Module \<Rightarrow> bool" where
  "names_fit h m \<longleftrightarrow>
     list_all (interface_names_fit h) (m_interfaces m) \<and> list_all (class_names_fit h) (m_classes m) \<and>
     list_all (func_names_fit h) (m_funcs m) \<and> list_all slot_names_fit (m_slots m) \<and>
     table_fits h EBinding (binding_fits m) (m_bindings m) \<and> table_fits h EExport (export_fits h m) (m_exports m) \<and>
     int (sum_list (map (export_cost h) (m_exports m))) \<le> MAX_DECODE_VECTOR_BYTES"

lemma update_self:
  "(im :: BcInterfaceMethod)\<lparr>im_param_names := im_param_names im\<rparr> = im"
  "(i :: BcInterface)\<lparr>if_methods := if_methods i\<rparr> = i"
  "(f :: Func)\<lparr>fn_param_names := fn_param_names f\<rparr> = f"
  "(m :: Module)\<lparr>m_exports := m_exports m\<rparr> = m" "(m :: Module)\<lparr>m_debug := m_debug m\<rparr> = m"
  by simp_all

lemma reads_names:
  assumes "int (length xs) < 4294967296" and "list_all P xs" and "\<And>x. P x \<Longrightarrow> reads (r (g x)) (f x) x"
    and "\<And>x. Suc 0 \<le> length (f x)"
  shows "reads (read_names r (map g xs)) (write_table f xs) xs"
  unfolding read_names_def write_table_def
  by (rule reads_len [OF assms(1)], use concat_map_length [of 1 f xs] assms(4) in simp, rule reads_if, simp,
      rule reads_each [OF assms(2)], rule assms(3))

lemma reads_method_names:
  "method_names_fit h m \<Longrightarrow>
     reads (p_bind (read_counted h EString (\<lambda>count. count = length (im_params (strip_method m))) ExportCountMismatch cur_string) (\<lambda>names.
        p_ret ((strip_method m)\<lparr>im_param_names := names\<rparr>)))
       (write_table write_bytes (im_param_names m)) m"
  unfolding method_names_fit_def
  by (elim conjE, rule reads_last, rule reads_counted, assumption)
     (auto intro: reads_string simp: strip_method_def update_self intro!: reads_ret)

lemma reads_interface_names:
  "interface_names_fit h i \<Longrightarrow> reads (decode_interface_names h (strip_interface i)) (encode_interface_names i) i"
  unfolding decode_interface_names_def encode_interface_names_def interface_names_fit_def
proof (elim conjE, rule reads_bind [OF reads_string], assumption, rule reads_bind [OF reads_string], assumption)
  assume m: "list_all (method_names_fit h) (if_methods i)"
  have "reads (read_each (\<lambda>m.
        p_bind (read_counted h EString (\<lambda>count. count = length (im_params m)) ExportCountMismatch cur_string) (\<lambda>names.
        p_ret (m\<lparr>im_param_names := names\<rparr>))) (map strip_method (if_methods i)))
      (concat (map (\<lambda>m. write_table write_bytes (im_param_names m)) (if_methods i))) (if_methods i)"
    by (rule reads_each [OF m]) (rule reads_method_names)
  then show "reads (p_bind (read_each (\<lambda>m.
        p_bind (read_counted h EString (\<lambda>count. count = length (im_params m)) ExportCountMismatch cur_string) (\<lambda>names.
        p_ret (m\<lparr>im_param_names := names\<rparr>))) (if_methods (strip_interface i))) (\<lambda>methods.
        p_ret ((strip_interface i)\<lparr>if_name := if_name i, if_key := if_key i, if_methods := methods\<rparr>)))
      (concat (map (\<lambda>m. write_table write_bytes (im_param_names m)) (if_methods i))) i"
    by (intro reads_last reads_ret) (simp add: strip_interface_def, cases i, simp add: strip_interface_def)
qed

lemma reads_class_names:
  "class_names_fit h c \<Longrightarrow> reads (decode_class_names h (strip_class c)) (encode_class_names c) c"
  unfolding decode_class_names_def encode_class_names_def class_names_fit_def
  by (elim conjE) (rule reads_step reads_string reads_markers reads_u32 reads_flag reads_ret | assumption | simp add: strip_class_def)+

lemma reads_func_names:
  "func_names_fit h f \<Longrightarrow> reads (decode_func_names h (strip_func f)) (encode_func_names f) f"
  unfolding decode_func_names_def encode_func_names_def func_names_fit_def
  by (elim conjE, rule reads_bind [OF reads_string], assumption, rule reads_last, rule reads_counted, assumption)
     (auto intro: reads_string simp: strip_func_def update_self intro!: reads_ret)

lemma reads_slot_names: "slot_names_fit s \<Longrightarrow> reads (decode_slot_names (strip_slot s)) (encode_slot_names s) s"
  unfolding decode_slot_names_def encode_slot_names_def slot_names_fit_def
  by (rule reads_step reads_string reads_flag reads_ret | simp add: strip_slot_def)+

lemma reads_binding: "binding_fits m b \<Longrightarrow> reads (decode_binding m) (encode_binding b) b"
  unfolding decode_binding_def encode_binding_def binding_fits_def
  by (elim conjE, rule reads_bind [OF reads_string], assumption, rule reads_bind [OF reads_u32], rule reads_last [OF reads_u32])
     (auto intro!: reads_if reads_ret)

lemma export_kind_read: "p_opt BadExport (export_kind_from_tag (export_kind_tag k)) = p_ret k"
  by (cases k) (simp_all add: export_kind_from_tag_def p_opt_def)

lemma reads_constant:
  assumes "opt_constant_fits h m c"
    and "int (al + (case c of None \<Rightarrow> 0 | Some c \<Rightarrow> const_cost h (ct_value c))) \<le> MAX_DECODE_VECTOR_BYTES"
  shows "reads (decode_constant h m al) (encode_constant c) (c, al + (case c of None \<Rightarrow> 0 | Some c \<Rightarrow> const_cost h (ct_value c)))"
proof (cases c)
  case None
  then show ?thesis unfolding decode_constant_def by simp (rule reads_last [OF reads_u8], simp add: reads_ret)
next
  case (Some k)
  have ty: "unat (ct_ty k) < length (m_types m)" and fits: "const_fits h MAX_TYPE_DEPTH (ct_value k)"
    using assms(1) Some by (auto simp: opt_constant_fits_def constant_fits_def)
  have val: "reads (decode_const_value h MAX_TYPE_DEPTH al) (encode_const_value (ct_value k)) (ct_value k, al + const_cost h (ct_value k))"
    by (rule reads_const [OF fits]) (use assms(2) Some in simp)
  show ?thesis unfolding decode_constant_def Some encode_constant.simps
    by (rule reads_bind [OF reads_u8], simp, rule reads_bind [OF reads_u32], rule reads_if, use ty in simp,
        rule reads_last [OF val], rule reads_prod, rule reads_ret) simp
qed

lemma reads_export:
  assumes "export_fits h m e" and "int (al + export_cost h e) \<le> MAX_DECODE_VECTOR_BYTES"
  shows "reads (decode_export h m al) (encode_export e) (e, al + export_cost h e)"
proof -
  have name: "str_fits (ex_name e)" and ok: "export_ok m e" and c: "opt_constant_fits h m (ex_constant e)"
    using assms(1) by (auto simp: export_fits_def)
  have e: "\<lparr>ex_kind = ex_kind e, ex_name = ex_name e, ex_source = ex_source e, ex_def = ex_def e, ex_ctor = ex_ctor e,
     ex_constant = ex_constant e\<rparr> = e" by simp
  show ?thesis unfolding decode_export_def encode_export_def
    by (rule reads_bind [OF reads_u8], rule reads_tag [OF export_kind_read], rule reads_bind [OF reads_string [OF name]],
        rule reads_bind [OF reads_flag], rule reads_bind [OF reads_u32], rule reads_bind [OF reads_u32],
        rule reads_last [OF reads_constant [OF c assms(2) [unfolded export_cost_def]]], rule reads_prod)
       (simp add: Let_def e ok reads_if reads_ret export_cost_def)
qed

lemma reads_bindings:
  "table_fits h EBinding (binding_fits m) xs \<Longrightarrow> reads (read_table h EBinding 12 (decode_binding m)) (write_table encode_binding xs) xs"
  by (rule reads_table, assumption, erule reads_binding) (simp_all add: encode_binding_def)

lemma binding_fits_same:
  "length (m_funcs m) = length (m_funcs m') \<Longrightarrow> length (m_classes m) = length (m_classes m') \<Longrightarrow> binding_fits m = binding_fits m'"
  by (simp add: binding_fits_def fun_eq_iff)

lemma export_fits_same:
  "length (m_funcs m) = length (m_funcs m') \<Longrightarrow> length (m_classes m) = length (m_classes m') \<Longrightarrow>
   length (m_interfaces m) = length (m_interfaces m') \<Longrightarrow> length (m_types m) = length (m_types m') \<Longrightarrow>
   export_fits h m = export_fits h m'"
  by (simp add: export_fits_def export_ok_def export_limit_def opt_constant_fits_def constant_fits_def fun_eq_iff split: option.split)

lemma tables_small:
  assumes "tables_fit h m"
  shows "int (length (m_interfaces m)) < 4294967296" "int (length (m_classes m)) < 4294967296"
    "int (length (m_funcs m)) < 4294967296" "int (length (m_slots m)) < 4294967296"
  using assms vec_fits_small unfolding tables_fit_def table_fits_def by blast+

lemma names_len:
  "Suc 0 \<le> length (encode_interface_names i)" "Suc 0 \<le> length (encode_class_names c)"
  "Suc 0 \<le> length (encode_func_names f)" "Suc 0 \<le> length (encode_slot_names s)"
  by (simp_all add: encode_interface_names_def encode_class_names_def encode_func_names_def encode_slot_names_def)

lemma reads_exports:
  assumes fit: "tables_fit h m" and names: "names_fit h m"
  shows "reads (export_tables h (strip_names m)) (encode_exports m) (m\<lparr>m_debug := []\<rparr>)"
proof -
  let ?m = "m\<lparr>m_exports := [], m_bindings := [], m_debug := []\<rparr>"
  have m: "(strip_names m)\<lparr>m_interfaces := m_interfaces m, m_classes := m_classes m, m_funcs := m_funcs m, m_slots := m_slots m\<rparr> = ?m"
    by (simp add: strip_names_def)
  have parts: "m_interfaces (strip_names m) = map strip_interface (m_interfaces m)"
    "m_classes (strip_names m) = map strip_class (m_classes m)" "m_funcs (strip_names m) = map strip_func (m_funcs m)"
    "m_slots (strip_names m) = map strip_slot (m_slots m)"
    by (simp_all add: strip_names_def)
  have interfaces: "reads (read_names (decode_interface_names h) (m_interfaces (strip_names m)))
      (write_table encode_interface_names (m_interfaces m)) (m_interfaces m)"
    unfolding parts by (rule reads_names [where P = "interface_names_fit h"])
      (use tables_small [OF fit] names in \<open>simp_all add: names_fit_def reads_interface_names names_len\<close>)
  have classes: "reads (read_names (decode_class_names h) (m_classes (strip_names m)))
      (write_table encode_class_names (m_classes m)) (m_classes m)"
    unfolding parts by (rule reads_names [where P = "class_names_fit h"])
      (use tables_small [OF fit] names in \<open>simp_all add: names_fit_def reads_class_names names_len\<close>)
  have funcs: "reads (read_names (decode_func_names h) (m_funcs (strip_names m)))
      (write_table encode_func_names (m_funcs m)) (m_funcs m)"
    unfolding parts by (rule reads_names [where P = "func_names_fit h"])
      (use tables_small [OF fit] names in \<open>simp_all add: names_fit_def reads_func_names names_len\<close>)
  have slots: "reads (read_names decode_slot_names (m_slots (strip_names m)))
      (write_table encode_slot_names (m_slots m)) (m_slots m)"
    unfolding parts by (rule reads_names [where P = "slot_names_fit"])
      (use tables_small [OF fit] names in \<open>simp_all add: names_fit_def reads_slot_names names_len\<close>)
  have bindings: "reads (read_table h EBinding 12 (decode_binding ?m)) (write_table encode_binding (m_bindings m)) (m_bindings m)"
    by (rule reads_bindings) (use names binding_fits_same [of ?m m] in \<open>simp add: names_fit_def\<close>)
  have vec: "vec_fits h EExport (length (m_exports m))" and all: "list_all (export_fits h ?m) (m_exports m)"
    and cost: "int (0 + sum_list (map (export_cost h) (m_exports m))) \<le> MAX_DECODE_VECTOR_BYTES"
    using names export_fits_same [of ?m m h] by (simp_all add: names_fit_def table_fits_def)
  have items: "reads (read_items (decode_export h ?m) (length (m_exports m)) 0) (concat (map encode_export (m_exports m)))
      (m_exports m, 0 + sum_list (map (export_cost h) (m_exports m)))"
    by (rule reads_items [OF reads_export all cost])
  have len: "length (m_exports m) \<le> length (concat (map encode_export (m_exports m)))"
    using concat_map_length [of 1 encode_export "m_exports m"] by (simp add: encode_export_def)
  show ?thesis
    unfolding export_tables_def encode_exports_def
    by (rule reads_bind [OF interfaces], rule reads_bind [OF classes], rule reads_bind [OF funcs], rule reads_bind [OF slots],
        unfold Let_def m, rule reads_bind [OF bindings], unfold write_table_def, rule reads_len [OF vec_fits_small [OF vec] len],
        rule reads_vec [OF vec], rule reads_last [OF items], rule reads_prod, rule reads_ret) simp
qed

end
