(* ===== verification/Container.thy ===== *)
theory Container
  imports Module_Roundtrip
begin

text \<open>
  The container: a module that fits is read back exactly, every cut and every
  extension of a container is refused, and the semantic region determines exactly the
  part of a module that has no names in it.
\<close>

section \<open>The debug section\<close>

definition source_fits :: "DebugSource \<Rightarrow> bool" where
  "source_fits s \<longleftrightarrow> str_fits (dso_path s) \<and> str_fits (dso_text s) \<and> blob_fits (dso_syntax s)"

definition debug_fits :: "DebugInfo \<Rightarrow> bool" where
  "debug_fits info \<longleftrightarrow>
     int (length (di_sources info)) < 4294967296 \<and> list_all source_fits (di_sources info) \<and>
     int (length (di_definitions info)) < 4294967296 \<and> list_all (\<lambda>d. length (dd_origin d) = 32) (di_definitions info) \<and>
     int (length (di_functions info)) < 4294967296 \<and>
     int (length (di_code_origins info)) < 4294967296 \<and> list_all (\<lambda>c. length (dc_origin c) = 32) (di_code_origins info)"

lemma dreads_take: "length bs = n \<Longrightarrow> reads (dcur_take n) bs bs"
  by (rule readsI) (auto simp: dcur_take_def cursor_at_def Let_def)

lemma dreads_u8: "reads dcur_u8 [b] b"
  unfolding dcur_u8_def by (rule reads_last [OF dreads_take]) (simp_all add: reads_ret)

lemma dreads_u16: "reads dcur_u16 (le_bytes 2 v) v"
  unfolding dcur_u16_def by (rule reads_last [OF dreads_take]) (simp_all add: reads_ret from_le_bytes_u16)

lemma dreads_u32: "reads dcur_u32 (write_u32 v) v"
  unfolding dcur_u32_def by (rule reads_last [OF dreads_take]) (simp_all add: reads_ret from_le_bytes_u32 write_u32_def)

lemma dreads_bytes: "blob_fits bs \<Longrightarrow> reads dcur_bytes (write_bytes bs) bs"
  unfolding dcur_bytes_def write_bytes_def
  by (rule reads_bind [OF dreads_u32], rule dreads_take) (simp add: unat_of_length blob_fits_def)

lemma dreads_string: "str_fits s \<Longrightarrow> reads dcur_string (write_bytes s) s"
  unfolding dcur_string_def by (rule reads_last [OF dreads_bytes]) (simp_all add: str_fits_def reads_ret)

lemma dreads_table:
  assumes "int (length xs) < 4294967296" and "list_all P xs" and "\<And>x. P x \<Longrightarrow> reads r (f x) x"
    and "\<And>x. P x \<Longrightarrow> k \<le> length (f x)" and "0 < k"
  shows "reads (dread_table k r) (write_table f xs) xs"
proof (rule readsI)
  fix "done" rest
  have "k * length xs \<le> length (concat (map f xs))"
    using assms(2)
  proof (induction xs)
    case (Cons x xs)
    then show ?case using assms(4) [of x] by simp
  qed simp
  then have "length xs \<le> length (concat (map f xs) @ rest) div k"
    using assms(5) by (simp add: less_eq_div_iff_mult_less_eq trans_le_add1 mult.commute)
  then have "dcur_count k (cursor_at done (write_u32 (of_nat (length xs)) @ concat (map f xs) @ rest)) =
      Inr (length xs, cursor_at (done @ write_u32 (of_nat (length xs))) (concat (map f xs) @ rest))"
    using assms(1) unfolding dcur_count_def p_bind_def readsD [OF dreads_u32] by (simp add: unat_of_length cursor_at_def)
  moreover have "reads (read_seq (length xs) r) (concat (map f xs)) xs"
    using reads_seq [of P xs r f id] assms(2,3) by simp
  ultimately show "dread_table k r (cursor_at done (write_table f xs @ rest)) = Inr (xs, cursor_at (done @ write_table f xs) rest)"
    by (simp add: dread_table_def write_table_def p_bind_def reads_def)
qed

lemma dreads_source: "source_fits s \<Longrightarrow> reads decode_debug_source (encode_debug_source s) s"
  unfolding decode_debug_source_def encode_debug_source_def source_fits_def
  by (rule reads_step dreads_string dreads_bytes reads_ret | simp)+

lemma definition_kind_read:
  "(if definition_kind_tag k = 0 then p_ret DefFunction else if definition_kind_tag k = 1 then p_ret DefClass
    else p_err DebugBadTag) = p_ret k"
  by (cases k) simp_all

lemma dreads_definition: "length (dd_origin d) = 32 \<Longrightarrow> reads decode_debug_definition (encode_debug_definition d) d"
  unfolding decode_debug_definition_def encode_debug_definition_def
  by (rule reads_tag [OF definition_kind_read] reads_step dreads_u8 dreads_u32 dreads_take reads_ret | simp)+

lemma dreads_function: "reads decode_debug_function (encode_debug_function f) f"
  unfolding decode_debug_function_def encode_debug_function_def
  by (rule reads_step dreads_u32 reads_ret | simp)+

lemma dreads_code_origin: "length (dc_origin c) = 32 \<Longrightarrow> reads decode_code_origin (encode_code_origin c) c"
  unfolding decode_code_origin_def encode_code_origin_def
  by (rule reads_step dreads_u32 dreads_take reads_ret | simp)+

lemma dreads_debug:
  assumes "debug_fits info"
  shows "reads debug_tables (DEBUG_MAGIC @ le_bytes 2 DEBUG_VERSION @ write_table encode_debug_source (di_sources info) @
     write_table encode_debug_definition (di_definitions info) @ write_table encode_debug_function (di_functions info) @
     write_table encode_code_origin (di_code_origins info)) info"
proof -
  have magic: "reads (dcur_take 4) DEBUG_MAGIC DEBUG_MAGIC" by (rule dreads_take) (simp add: DEBUG_MAGIC_def)
  have sources: "reads (dread_table 12 decode_debug_source) (write_table encode_debug_source (di_sources info)) (di_sources info)"
    by (rule dreads_table [where P = source_fits])
       (use assms in \<open>simp_all add: debug_fits_def dreads_source, simp add: encode_debug_source_def\<close>)
  have definitions: "reads (dread_table 53 decode_debug_definition) (write_table encode_debug_definition (di_definitions info))
      (di_definitions info)"
    by (rule dreads_table [where P = "\<lambda>d. length (dd_origin d) = 32"])
       (use assms in \<open>simp_all add: debug_fits_def dreads_definition, simp add: encode_debug_definition_def\<close>)
  have funs: "reads (dread_table 16 decode_debug_function) (write_table encode_debug_function (di_functions info)) (di_functions info)"
    by (rule dreads_table [where P = "\<lambda>_. True"])
       (use assms in \<open>simp_all add: debug_fits_def dreads_function list_all_iff, simp add: encode_debug_function_def\<close>)
  have origins: "reads (dread_table 44 decode_code_origin) (write_table encode_code_origin (di_code_origins info)) (di_code_origins info)"
    by (rule dreads_table [where P = "\<lambda>c. length (dc_origin c) = 32"])
       (use assms in \<open>simp_all add: debug_fits_def dreads_code_origin, simp add: encode_code_origin_def\<close>)
  show ?thesis
    unfolding debug_tables_def
    by (rule reads_bind [OF magic], rule reads_if, simp, rule reads_bind [OF dreads_u16], rule reads_if, simp,
        rule reads_bind [OF sources], rule reads_bind [OF definitions], rule reads_bind [OF funs],
        rule reads_last [OF origins], rule reads_ret) simp
qed

lemma debug_decode_encode: "debug_fits info \<Longrightarrow> debug_decode (debug_encode info) = Inr info"
proof -
  assume fits: "debug_fits info"
  show ?thesis
  proof (cases "di_sources info = [] \<and> di_definitions info = [] \<and> di_functions info = [] \<and> di_code_origins info = []")
    case True
    then have "info = debug_default" by (simp add: debug_default_def)
    then show ?thesis by (simp add: debug_decode_def debug_encode_def debug_default_def)
  next
    case False
    let ?e = "DEBUG_MAGIC @ le_bytes 2 DEBUG_VERSION @ write_table encode_debug_source (di_sources info) @
      write_table encode_debug_definition (di_definitions info) @ write_table encode_debug_function (di_functions info) @
      write_table encode_code_origin (di_code_origins info)"
    have e: "debug_encode info = ?e" using False unfolding debug_encode_def by (rule if_not_P)
    have "DEBUG_MAGIC \<noteq> []" by (simp add: DEBUG_MAGIC_def)
    then show ?thesis using reads_whole [OF dreads_debug [OF fits]] unfolding debug_decode_def e by simp
  qed
qed

section \<open>Header and sections\<close>

primrec section_table :: "nat \<Rightarrow> u8 list list \<Rightarrow> (nat \<times> nat) list" where
  "section_table at [] = []"
| "section_table at (s # ss) = (at, length s) # section_table (at + length s) ss"

lemma reads_sections:
  "int input < 4294967296 \<Longrightarrow> at + length (concat ss) \<le> input \<Longrightarrow>
     reads (read_sections input at (length ss)) (write_sections (of_nat at) ss) (section_table at ss, at + length (concat ss))"
proof (induction ss arbitrary: at)
  case Nil
  then show ?case by (simp add: reads_ret)
next
  case (Cons s ss)
  have at: "unat (of_nat at :: u32) = at" "unat (of_nat (length s) :: u32) = length s"
    using Cons.prems by (simp_all add: unat_of_length)
  have rest: "reads (read_sections input (at + length s) (length ss)) (write_sections (of_nat at + of_nat (length s)) ss)
      (section_table (at + length s) ss, at + length s + length (concat ss))"
    using Cons.IH [of "at + length s"] Cons.prems by simp
  show ?case
    unfolding write_sections.simps list.size(4) add_0_right add_Suc_right read_sections.simps Let_def
    by (rule reads_bind [OF reads_u32], rule reads_bind [OF reads_u32], rule reads_if, simp add: at, rule reads_if,
        use Cons.prems in \<open>simp add: at\<close>, unfold at, rule reads_last [OF rest], rule reads_prod, rule reads_ret) simp
qed

definition container_header :: "digest \<Rightarrow> u8 list list \<Rightarrow> u8 list" where
  "container_header bundle_digest sections =
     MAGIC @ le_bytes 2 VERSION @ bundle_digest @ write_sections (of_nat HEADER_LEN) sections"

lemma encode_with_bundle_sections:
  "encode_with_bundle d m =
     (let ss = [encode_semantic m, encode_exports m, m_debug m] in container_header d ss @ concat ss)"
  by (simp add: encode_with_bundle_def container_header_def Let_def)

lemma length_container_header: "length d = 32 \<Longrightarrow> length (container_header d [a, b, c]) = HEADER_LEN"
  by (simp add: container_header_def MAGIC_def HEADER_LEN_def)

lemma reads_header:
  assumes "length d = 32" and "length ss = 3" and "input = HEADER_LEN + length (concat ss)" and "int input < 4294967296"
  shows "reads (read_header d input) (container_header d ss) (section_table HEADER_LEN ss)"
proof -
  have magic: "reads (cur_take 4) MAGIC MAGIC" by (rule reads_take) (simp add: MAGIC_def)
  have digest: "reads (cur_take 32) d d" by (rule reads_take) (rule assms(1))
  have sections: "reads (read_sections input HEADER_LEN 3) (write_sections (of_nat HEADER_LEN) ss) (section_table HEADER_LEN ss, input)"
    using reads_sections [of input HEADER_LEN ss] assms by simp
  show ?thesis
    unfolding read_header_def container_header_def
    by (rule reads_bind [OF magic], rule reads_if, simp, rule reads_bind [OF reads_u16], rule reads_if, simp,
        rule reads_bind [OF digest], rule reads_if, simp, rule reads_last [OF sections], rule reads_prod, rule reads_if, simp,
        rule reads_ret) simp
qed

lemma decode_sections:
  assumes "length d = 32" and "int (HEADER_LEN + length a + length b + length c) < 4294967296"
  shows "decode_with_bundle h hash d (container_header d [a, b, c] @ a @ b @ c) =
    e_bind (decode_semantic h a) (\<lambda>m. e_bind (decode_exports h b m) (\<lambda>m'. decode_debug_section hash c m'))"
proof -
  let ?h = "container_header d [a, b, c]"
  have len: "length ?h = HEADER_LEN" by (rule length_container_header [OF assms(1)])
  have r: "reads (read_header d (length (?h @ a @ b @ c))) ?h (section_table HEADER_LEN [a, b, c])"
    by (rule reads_header [OF assms(1)]) (use assms(2) len in simp_all)
  have "read_header d (length (?h @ a @ b @ c)) \<lparr>cur_bytes = ?h @ a @ b @ c, cur_pos = 0\<rparr> =
      Inr (section_table HEADER_LEN [a, b, c], cursor_at ?h (a @ b @ c))"
    using readsD [OF r, of "[]" "a @ b @ c"] by (simp add: cursor_at_def)
  moreover have "slice (?h @ a @ b @ c) (HEADER_LEN, length a) = a"
    "slice (?h @ a @ b @ c) (HEADER_LEN + length a, length b) = b"
    "slice (?h @ a @ b @ c) (HEADER_LEN + length a + length b, length c) = c"
    by (simp_all add: slice_def flip: len)
  ultimately show ?thesis by (simp add: decode_with_bundle_def)
qed

section \<open>The round trip\<close>

definition module_fits :: "Host \<Rightarrow> Module \<Rightarrow> bool" where
  "module_fits h m \<longleftrightarrow>
     tables_fit h m \<and> aligned m \<and> claims_ok m \<and> names_fit h m \<and>
     int (HEADER_LEN + length (encode_semantic m) + length (encode_exports m) + length (m_debug m)) < 4294967296"

lemma debug_validate_debug: "debug_validate hash info (m\<lparr>m_debug := x\<rparr>) = debug_validate hash info m"
proof -
  have "valid_target (m\<lparr>m_debug := x\<rparr>) = valid_target m"
    by (auto simp: valid_target_def fun_eq_iff split: DefinitionKind.splits)
  then have "validate_definition hash info (m\<lparr>m_debug := x\<rparr>) = validate_definition hash info m"
    by (simp add: validate_definition_def fun_eq_iff)
  then have "validate_definitions hash info (m\<lparr>m_debug := x\<rparr>) views os ks ds = validate_definitions hash info m views os ks ds" for views os ks ds
    by (induction ds arbitrary: os ks) simp_all
  moreover have "validate_function info (m\<lparr>m_debug := x\<rparr>) = validate_function info m"
    by (simp add: validate_function_def fun_eq_iff)
  moreover have "validate_code_origin (m\<lparr>m_debug := x\<rparr>) = validate_code_origin m"
    by (simp add: validate_code_origin_def fun_eq_iff)
  ultimately show ?thesis by (simp add: debug_validate_def)
qed

lemma decode_encoded_module:
  assumes "module_fits h m" and "length bundle_digest = 32"
    and "m_debug m = debug_encode info" and "debug_fits info" and "debug_validate hash info m = Inr ()"
  shows "decode_with_bundle h hash bundle_digest (encode_with_bundle bundle_digest m) = Inr m"
proof -
  have fit: "tables_fit h m" "aligned m" "claims_ok m" "names_fit h m"
    and small: "int (HEADER_LEN + length (encode_semantic m) + length (encode_exports m) + length (m_debug m)) < 4294967296"
    using assms(1) by (auto simp: module_fits_def)
  have "decode_exports h (encode_exports m) (strip_names m) = Inr (m\<lparr>m_debug := []\<rparr>)"
    using reads_whole [OF reads_exports [OF fit(1,4)]] by (simp add: decode_exports_def)
  moreover have "decode_debug_section hash (m_debug m) (m\<lparr>m_debug := []\<rparr>) = Inr m"
    using assms(3,5) debug_decode_encode [OF assms(4)] by (simp add: decode_debug_section_def debug_validate_debug)
  ultimately show ?thesis
    using decode_sections [OF assms(2) small, of h hash] decode_semantic_encoded [OF fit(1,2,3)]
    by (simp add: encode_with_bundle_sections e_bind_def)
qed

text \<open>
  C1: a module that fits, with a debug section that describes it, survives the
  container: decoding what \<open>encode_with_bundle\<close> wrote, for the same ABI bundle, gives
  back exactly that module. The content hash and the memory limits are parameters.
\<close>

theorem container_roundtrip:
  assumes "module_fits h m" and "length bundle_digest = 32"
    and "m_debug m = debug_encode info" and "debug_fits info" and "debug_validate hash info m = Inr ()"
  shows "decode_with_bundle h hash bundle_digest (encode_with_bundle bundle_digest m) = Inr m"
  using assms by (rule decode_encoded_module)

section \<open>What the semantic region determines\<close>

lemma encode_strip:
  "encode_interface_def (strip_interface i) = encode_interface_def i" "encode_slot (strip_slot s) = encode_slot s"
  "encode_class (strip_class c) = encode_class c" "encode_func (strip_func f) = encode_func f"
proof -
  have "encode_interface_method (strip_method m) = encode_interface_method m" for m
    by (simp add: encode_interface_method_def strip_method_def)
  then show "encode_interface_def (strip_interface i) = encode_interface_def i"
    by (simp add: encode_interface_def_def strip_interface_def write_table_def comp_def)
qed (simp_all add: encode_slot_def strip_slot_def encode_class_def strip_class_def encode_func_def strip_func_def)

lemma write_table_map: "write_table f (map g xs) = write_table (\<lambda>x. f (g x)) xs"
  by (simp add: write_table_def comp_def)

lemma encode_semantic_strip: "encode_semantic (strip_names m) = encode_semantic m"
  by (simp add: encode_semantic_def strip_names_def write_table_map encode_strip)

text \<open>
  C12: two modules whose tables fit the container and are aligned have the same semantic bytes exactly when they
  agree after \<open>strip_names\<close>. It erases what the other two sections hold: the names and keys of
  interfaces and classes, the names of functions and parameters, the binding name and the late flag of
  a slot, the field defaults, own start and initializer flag of a class, the bindings, the exports and the debug
  data. A change to any of these keeps the semantic bytes, and a change to anything else changes them.
\<close>

theorem semantic_section_iff:
  assumes "tables_fit h m" and "aligned m" and "tables_fit h m'" and "aligned m'"
  shows "semantic_section m = semantic_section m' \<longleftrightarrow> strip_names m = strip_names m'"
proof
  assume "semantic_section m = semantic_section m'"
  then show "strip_names m = strip_names m'"
    using reads_semantic [OF assms(1,2)] reads_semantic [OF assms(3,4)] by (auto simp: semantic_section_def dest: reads_unique)
next
  assume "strip_names m = strip_names m'"
  then show "semantic_section m = semantic_section m'"
    using encode_semantic_strip [of m] encode_semantic_strip [of m'] by (simp add: semantic_section_def)
qed

section \<open>Cut and extended containers\<close>

lemma p_bind_ok: "p_bind p f c = Inr (b, c') \<longleftrightarrow> (\<exists>a c1. p c = Inr (a, c1) \<and> f a c1 = Inr (b, c'))"
  by (auto simp: p_bind_def split: sum.splits)

lemma p_if_ok: "p_if ok e c = Inr (u, c') \<longleftrightarrow> ok \<and> c' = c"
  by (auto simp: p_if_def p_ret_def p_err_def)

lemma honestD:
  assumes "honest r" and "r c = Inr (a, c')" and "cur_pos c \<le> length (cur_bytes c)"
  shows "r (extend_input c ys) = Inr (a, extend_input c' ys)" and "cur_pos c' \<le> length (cur_bytes c')"
  using assms unfolding honest_def by fastforce+

lemma read_u32_extend:
  assumes "cur_pos c \<le> length (cur_bytes c)" and "cur_u32 c = Inr (v, c')"
  shows "cur_u32 (extend_input c ys) = Inr (v, extend_input c' ys)" and "cur_pos c' \<le> length (cur_bytes c')"
  using honestD [OF honest_reads(2) assms(2,1)] by simp_all

lemma read_sections_extend:
  "read_sections input at n c = Inr (r, c') \<Longrightarrow> cur_pos c \<le> length (cur_bytes c) \<Longrightarrow> input \<le> input' \<Longrightarrow>
     read_sections input' at n (extend_input c ys) = Inr (r, extend_input c' ys)"
proof (induction n arbitrary: at c r)
  case 0
  then show ?case by (simp add: p_ret_def)
next
  case (Suc n)
  from Suc.prems(1) obtain off c1 len c2 where
    u1: "cur_u32 c = Inr (off, c1)" and u2: "cur_u32 c1 = Inr (len, c2)"
    and off: "unat off = at" and le: "at + unat len \<le> input"
    and rest: "p_bind (read_sections input (at + unat len) n) (\<lambda>(sections, end). p_ret ((unat off, unat len) # sections, end)) c2 = Inr (r, c')"
    by (auto simp: p_bind_ok p_if_ok Let_def)
  then obtain ss e where inner: "read_sections input (at + unat len) n c2 = Inr ((ss, e), c')"
    and r: "r = ((unat off, unat len) # ss, e)"
    by (auto simp: p_bind_ok p_ret_def)
  note v1 = read_u32_extend [OF Suc.prems(2) u1]
  note v2 = read_u32_extend [OF v1(2) u2]
  have "read_sections input' (at + unat len) n (extend_input c2 ys) = Inr ((ss, e), extend_input c' ys)"
    by (rule Suc.IH [OF inner v2(2) Suc.prems(3)])
  then show ?case
    using off le Suc.prems(3) r by (simp add: p_bind_def v1(1) v2(1) p_if_def p_ret_def Let_def)
qed

text \<open>The header without its section table.\<close>

definition read_preamble :: "digest \<Rightarrow> unit reader" where
  "read_preamble d = p_bind (cur_take 4) (\<lambda>magic. p_bind (p_if (magic = MAGIC) BadMagic) (\<lambda>_. p_bind cur_u16 (\<lambda>version.
     p_bind (p_if (version = VERSION) (BadVersion version)) (\<lambda>_. p_bind (cur_take 32) (\<lambda>found.
     p_if (found = d) (BadBundle d found))))))"

lemma read_header_split:
  "read_header d n = p_bind (read_preamble d) (\<lambda>_. p_bind (read_sections n HEADER_LEN 3) (\<lambda>(sections, end).
     p_bind (p_if (end = n) BadSectionTable) (\<lambda>_. p_ret sections)))"
  by (auto simp: read_header_def read_preamble_def p_bind_def p_if_def p_ret_def p_err_def fun_eq_iff split: sum.splits)

lemma honest_preamble: "honest (read_preamble d)"
  unfolding read_preamble_def p_if_def cur_u16_def by (intro honest_intro)

lemma read_header_extend:
  assumes "read_header d (length bytes) \<lparr>cur_bytes = bytes, cur_pos = 0\<rparr> = Inr (sections, c)" and "ys \<noteq> []"
  shows "read_header d (length (bytes @ ys)) \<lparr>cur_bytes = bytes @ ys, cur_pos = 0\<rparr> = Inl BadSectionTable"
proof -
  obtain c1 c2 where pre: "read_preamble d \<lparr>cur_bytes = bytes, cur_pos = 0\<rparr> = Inr ((), c1)"
    and secs: "read_sections (length bytes) HEADER_LEN 3 c1 = Inr ((sections, length bytes), c2)"
    using assms(1) unfolding read_header_split by (auto simp: p_bind_ok p_if_ok p_ret_def)
  have ext: "read_preamble d \<lparr>cur_bytes = bytes @ ys, cur_pos = 0\<rparr> = Inr ((), extend_input c1 ys)"
    and pos: "cur_pos c1 \<le> length (cur_bytes c1)"
    using honestD [OF honest_preamble pre] by (simp_all add: extend_input_def)
  have "read_sections (length (bytes @ ys)) HEADER_LEN 3 (extend_input c1 ys) = Inr ((sections, length bytes), extend_input c2 ys)"
    by (rule read_sections_extend [OF secs pos]) simp
  then show ?thesis
    using ext assms(2) unfolding read_header_split by (simp add: p_bind_def p_if_def p_err_def)
qed

text \<open>
  C25: a container the decoder accepts cannot be extended: with any bytes behind it the
  section table no longer describes the input. So no accepted container is a proper
  prefix of another one, and a container that was cut anywhere is refused.
\<close>

theorem container_exact:
  assumes "decode_with_bundle h hash bundle_digest bytes = Inr m" and "ys \<noteq> []"
  shows "decode_with_bundle h hash bundle_digest (bytes @ ys) = Inl BadSectionTable"
proof -
  obtain sections c where "read_header bundle_digest (length bytes) \<lparr>cur_bytes = bytes, cur_pos = 0\<rparr> = Inr (sections, c)"
    using assms(1) by (auto simp: decode_with_bundle_def split: sum.splits)
  from read_header_extend [OF this assms(2)] show ?thesis
    by (simp add: decode_with_bundle_def)
qed

section \<open>An example module\<close>

definition demo_host :: Host where
  "demo_host = \<lparr>size_of = (\<lambda>_. 24), can_reserve = (\<lambda>_. True)\<rparr>"

definition demo_hash :: "u8 list \<Rightarrow> digest" where
  "demo_hash bs = replicate 32 (of_nat (length bs))"

definition demo_syntax :: "u8 list" where
  "demo_syntax = (case build_syntax_leaf demo_host SynToken KIND_INT (ascii ''40'') of SynOk s \<Rightarrow> s | _ \<Rightarrow> [])"

definition demo_info :: DebugInfo where
  "demo_info = \<lparr>di_sources = [\<lparr>dso_path = ascii ''a.lm'', dso_text = ascii ''40'', dso_syntax = demo_syntax\<rparr>],
     di_definitions = [\<lparr>dd_kind = DefFunction, dd_target = 0, dd_source = 0, dd_lo = 0, dd_hi = 2, dd_syntax = 0,
        dd_origin = (case definition_origin demo_hash (ascii ''a.lm'') (ascii ''40'') DefFunction 0 2 of Inr d \<Rightarrow> d | Inl _ \<Rightarrow> [])\<rparr>],
     di_functions = [\<lparr>df_function = 0, df_source = 0, df_lo = 0, df_hi = 2\<rparr>], di_code_origins = []\<rparr>"

definition demo_module :: "u8 list \<Rightarrow> Module" where
  "demo_module debug = \<lparr>m_strings = [ascii ''hi''], m_bytes = [[1, 2]], m_types = [TyInt, TyFn [0] [True] 0 [RowOp 3]],
     m_selectors = [ascii ''go''], m_apps = [\<lparr>app_types = [0], app_rows = [[RowVar 0]]\<rparr>],
     m_interfaces = [\<lparr>if_name = ascii ''I'', if_key = ascii ''m.I'', if_type_params = 0, if_effect_params = 0,
        if_generic_is_effect = [], if_parents = [], if_type_bounds = [], if_associated = [],
        if_methods = [\<lparr>im_selector = 0, im_mut_self = True, im_type_params = 0, im_type_bounds = [], im_effect_params = 0,
          im_premises = [], im_params = [0], im_param_muts = [False], im_param_names = [ascii ''x''], im_ret = 0, im_row = [],
          im_default = NO_FUNC\<rparr>]\<rparr>],
     m_conformances = [], m_class_bounds = [[]], m_func_bounds = [[]],
     m_imports = [\<lparr>imp_module = ascii ''lib'', imp_name = ascii ''C'', imp_kind = ImportClass, imp_def = 0, imp_hash = replicate 32 9\<rparr>],
     m_slots = [\<lparr>sl_binding = ascii ''f'', sl_late = True, sl_key = replicate 32 1, sl_contract_hash = replicate 32 2,
        sl_contract = SlotValue 0, sl_initial = Some (TargetFunction 0)\<rparr>],
     m_core_roles = 0 # replicate 268 NO_ROLE, m_reflections = [],
     m_classes = [\<lparr>cls_name = ascii ''C'', cls_key = ascii ''m.C'', cls_is_final = True, cls_is_frozen = False,
        cls_parent = NO_PARENT, cls_parent_args = [], cls_type_params = 0, cls_kind = KindNormal,
        cls_fields = [(ascii ''x'', 0)], cls_methods = [(0, 0)], cls_field_defaults = [True], cls_own_start = 0, cls_has_init = False\<rparr>],
     m_funcs = [\<lparr>fn_name = ascii ''f'', fn_type_params = 0, fn_effect_params = 0, fn_params = [0], fn_param_muts = [False],
        fn_ret = 0, fn_row = [], fn_captures = [], fn_local_types = [0], fn_blocks = [[IConst (ConstInt 40), IControl Return]],
        fn_param_names = [ascii ''x'']\<rparr>],
     m_entry = 0,
     m_exports = [\<lparr>ex_kind = ExportFunction, ex_name = ascii ''f'', ex_source = True, ex_def = 0, ex_ctor = NO_CTOR, ex_constant = None\<rparr>,
        \<lparr>ex_kind = ExportConstant, ex_name = ascii ''k'', ex_source = True, ex_def = NO_CTOR, ex_ctor = NO_CTOR,
          ex_constant = Some \<lparr>ct_ty = 0, ct_value = CvTuple [CvInt 3, CvString (ascii ''s'')]\<rparr>\<rparr>],
     m_bindings = [\<lparr>fb_key = ascii ''m.f'', fb_func = 0, fb_class = NO_CLASS\<rparr>],
     m_debug = debug\<rparr>"

lemma demo_size:
  "length (encode_semantic (demo_module d)) < 3000" "length (encode_exports (demo_module d)) < 1000" "length (debug_encode demo_info) < 1000"
  by code_simp+

lemma demo_tables: "tables_fit demo_host (demo_module d)" "aligned (demo_module d)"
  by code_simp+

lemma demo_names: "names_fit demo_host (demo_module d)"
  unfolding names_fit_def table_fits_def by (intro conjI; code_simp)

lemma demo_claims: "claims_ok (demo_module d)"
proof -
  have "claim_roles n taken (replicate k NO_ROLE)" for n taken k by (induction k) simp_all
  then show ?thesis by (simp add: claims_ok_def demo_module_def import_is_func_def get_opt_def NO_ROLE_def)
qed

lemma demo_module_debug: "m_debug (demo_module d) = d"
  by (simp add: demo_module_def)

lemma demo_fits: "module_fits demo_host (demo_module (debug_encode demo_info))"
  unfolding module_fits_def
  by (intro conjI demo_tables demo_names demo_claims) (use demo_size(1,2) [of "debug_encode demo_info"] demo_size(3) in \<open>simp add: HEADER_LEN_def demo_module_debug\<close>)

lemma demo_debug: "debug_fits demo_info"  "debug_validate demo_hash demo_info (demo_module d) = Inr ()"
  by code_simp+

text \<open>The theorem on a module with an entry in most tables and a debug section.\<close>

theorem container_roundtrip_witness:
  "decode_with_bundle demo_host demo_hash (replicate 32 5) (encode_with_bundle (replicate 32 5) (demo_module (debug_encode demo_info)))
     = Inr (demo_module (debug_encode demo_info))"
  by (rule container_roundtrip [OF demo_fits _ demo_module_debug demo_debug]) simp

theorem container_exact_witness:
  "decode_with_bundle demo_host demo_hash (replicate 32 5) (encode_with_bundle (replicate 32 5) (demo_module []) @ [0]) = Inl BadSectionTable"
proof (rule container_exact)
  have "module_fits demo_host (demo_module [])"
    unfolding module_fits_def by (intro conjI demo_tables demo_names demo_claims) (use demo_size(1,2) [of "[]"] in \<open>simp add: HEADER_LEN_def demo_module_debug\<close>)
  then show "decode_with_bundle demo_host demo_hash (replicate 32 5) (encode_with_bundle (replicate 32 5) (demo_module [])) = Inr (demo_module [])"
    by (rule decode_encoded_module [where info = debug_default])
       (simp_all add: demo_module_debug debug_encode_def debug_default_def debug_fits_def debug_validate_def debug_views_def e_bind_def)
qed simp

theorem semantic_section_iff_witness:
  "semantic_section (demo_module []) = semantic_section (demo_module [1]) \<and>
   semantic_section (demo_module []) \<noteq> semantic_section ((demo_module [])\<lparr>m_entry := 1\<rparr>)"
proof -
  have "strip_names (demo_module []) = strip_names (demo_module [1])" by (simp add: strip_names_def demo_module_def)
  moreover have "strip_names (demo_module []) \<noteq> strip_names ((demo_module [])\<lparr>m_entry := 1\<rparr>)"
    by (simp add: strip_names_def demo_module_def)
  moreover have "tables_fit demo_host ((demo_module [])\<lparr>m_entry := 1\<rparr>)" "aligned ((demo_module [])\<lparr>m_entry := 1\<rparr>)"
    using demo_tables [of "[]"] by (simp_all add: tables_fit_def aligned_def)
  ultimately show ?thesis
    using semantic_section_iff [OF demo_tables demo_tables, of "[]" "[1]"]
      semantic_section_iff [OF demo_tables [of "[]"], of "(demo_module [])\<lparr>m_entry := 1\<rparr>"] by simp
qed

end
