(* ===== verification/Module_Wf.thy ===== *)
theory Module_Wf
  imports Container
begin

text \<open>
  What a module that the decoder accepts satisfies, whatever the bytes were: aligned
  tables, indices inside the tables, no definition claimed twice, valid text. Later
  passes rely on it instead of checking it again. The constants it holds are bounded.
\<close>

section \<open>What a reader gives\<close>

definition yields :: "('e, 'a) cursor_reader \<Rightarrow> ('a \<Rightarrow> bool) \<Rightarrow> bool" where
  "yields r P \<longleftrightarrow> (\<forall>c a c'. r c = Inr (a, c') \<longrightarrow> P a)"

lemma yieldsI: "(\<And>c a c'. r c = Inr (a, c') \<Longrightarrow> P a) \<Longrightarrow> yields r P"
  by (auto simp: yields_def)

lemma yieldsD: "r c = Inr (a, c') \<Longrightarrow> yields r P \<Longrightarrow> P a"
  by (auto simp: yields_def)

lemma yields_seq: "yields r P \<Longrightarrow> yields (read_seq n r) (\<lambda>xs. length xs = n \<and> list_all P xs)"
proof (induction n)
  case (Suc n)
  then show ?case by (auto simp: yields_def p_bind_ok p_ret_def; blast)
qed (simp add: yields_def p_ret_def)

lemma yields_table: "yields r P \<Longrightarrow> yields (read_table h e k r) (list_all P)"
  unfolding read_table_def by (rule yieldsI) (auto simp: p_bind_ok dest: yieldsD [OF _ yields_seq])

lemma yields_counted: "yields r P \<Longrightarrow> yields (read_counted h e ok err r) (\<lambda>xs. ok (length xs) \<and> list_all P xs)"
  unfolding read_counted_def by (rule yieldsI) (auto simp: p_bind_ok p_if_ok dest: yieldsD [OF _ yields_seq])

lemma yields_each:
  assumes "\<And>y. Q y \<Longrightarrow> yields (f y) P"
  shows "list_all Q ys \<Longrightarrow> yields (read_each f ys) (\<lambda>xs. length xs = length ys \<and> list_all P xs)"
proof (induction ys)
  case (Cons y ys)
  then show ?case using assms [of y] by (auto simp: yields_def p_bind_ok p_ret_def; blast)
qed (simp add: yields_def p_ret_def)

lemma yields_names:
  assumes "\<And>y. Q y \<Longrightarrow> yields (f y) P"
  shows "list_all Q ys \<Longrightarrow> yields (read_names f ys) (\<lambda>xs. length xs = length ys \<and> list_all P xs)"
  unfolding read_names_def by (rule yieldsI) (auto simp: p_bind_ok p_if_ok dest: yieldsD [OF _ yields_each [OF assms]])

lemma yields_items:
  assumes "\<And>al. yields (r al) (\<lambda>(x, al'). P x)"
  shows "yields (read_items r n al) (\<lambda>(xs, al'). length xs = n \<and> list_all P xs)"
proof (induction n arbitrary: al)
  case (Suc n)
  show ?case
  proof (rule yieldsI, clarsimp simp: p_bind_ok p_ret_def)
    fix c x a1 c1 xs a2 c2
    assume "r al c = Inr ((x, a1), c1)" and "read_items r n a1 c1 = Inr ((xs, a2), c2)"
    then show "length xs = n \<and> P x \<and> list_all P xs"
      using yieldsD [OF _ assms] yieldsD [OF _ Suc.IH] by fastforce
  qed
qed (simp add: yields_def p_ret_def)

lemma yields_take: "yields (cur_take n) (\<lambda>bs. length bs = n)"
  by (auto simp: yields_def cur_take_def Let_def split: if_splits)

lemma yields_string: "yields cur_string utf8_valid"
  unfolding cur_string_def
  by (rule yieldsI) (auto simp: p_bind_ok p_ret_def p_err_def split: if_splits)

section \<open>Well-formed entries\<close>

fun type_wf :: "BcType \<Rightarrow> bool" where
  "type_wf (TyFn params muts ret row) = (length muts = length params)"
| "type_wf (TyCallback params muts ret row) = (length muts = length params)"
| "type_wf _ = True"

definition callable_wf :: "BcCallableContract \<Rightarrow> bool" where
  "callable_wf c \<longleftrightarrow> length (cc_param_muts c) = length (cc_params c)"

fun contract_wf :: "SlotContract \<Rightarrow> bool" where
  "contract_wf (SlotFunction c) = callable_wf c"
| "contract_wf (SlotMethod c) = callable_wf c"
| "contract_wf (SlotClass type_params abi ty c) = (length abi = 32 \<and> callable_wf c)"
| "contract_wf _ = True"

definition slot_wf :: "SlotSpec \<Rightarrow> bool" where
  "slot_wf s \<longleftrightarrow>
     length (sl_key s) = 32 \<and> length (sl_contract_hash s) = 32 \<and> contract_wf (sl_contract s) \<and> utf8_valid (sl_binding s)"

definition method_wf :: "BcInterfaceMethod \<Rightarrow> bool" where
  "method_wf m \<longleftrightarrow>
     length (im_param_muts m) = length (im_params m) \<and> length (im_param_names m) = length (im_params m) \<and>
     list_all utf8_valid (im_param_names m)"

definition interface_wf :: "BcInterface \<Rightarrow> bool" where
  "interface_wf i \<longleftrightarrow>
     utf8_valid (if_name i) \<and> utf8_valid (if_key i) \<and> list_all (\<lambda>a. utf8_valid (as_name a)) (if_associated i) \<and>
     list_all method_wf (if_methods i)"

definition class_wf :: "BcClass \<Rightarrow> bool" where
  "class_wf c \<longleftrightarrow>
     utf8_valid (cls_name c) \<and> utf8_valid (cls_key c) \<and> list_all (\<lambda>f. utf8_valid (fst f)) (cls_fields c) \<and>
     length (cls_field_defaults c) = length (cls_fields c)"

definition func_wf :: "Func \<Rightarrow> bool" where
  "func_wf f \<longleftrightarrow>
     utf8_valid (fn_name f) \<and> length (fn_param_muts f) = length (fn_params f) \<and> list_all utf8_valid (fn_param_names f) \<and>
     (fn_param_names f = [] \<or> length (fn_param_names f) = length (fn_params f))"

definition import_wf :: "Module \<Rightarrow> Import \<Rightarrow> bool" where
  "import_wf m i \<longleftrightarrow>
     utf8_valid (imp_module i) \<and> utf8_valid (imp_name i) \<and> length (imp_hash i) = 32 \<and>
     (if imp_kind i = ImportConstant then imp_def i = NO_IMPORT_DEF
      else if import_is_func (imp_kind i) then unat (imp_def i) < length (m_funcs m)
      else unat (imp_def i) < length (m_classes m))"

definition binding_wf :: "Module \<Rightarrow> FuncBinding \<Rightarrow> bool" where
  "binding_wf m b \<longleftrightarrow>
     utf8_valid (fb_key b) \<and> unat (fb_func b) < length (m_funcs m) \<and>
     (fb_class b = NO_CLASS \<or> unat (fb_class b) < length (m_classes m))"

definition export_wf :: "Module \<Rightarrow> Export \<Rightarrow> bool" where
  "export_wf m e \<longleftrightarrow>
     utf8_valid (ex_name e) \<and> export_ok m e \<and>
     (case ex_constant e of None \<Rightarrow> True | Some c \<Rightarrow> unat (ct_ty c) < length (m_types m))"

definition class_defs :: "Import list \<Rightarrow> u32 list" where
  "class_defs is = map imp_def (filter (\<lambda>i. imp_kind i = ImportClass) is)"

definition func_defs :: "Import list \<Rightarrow> u32 list" where
  "func_defs is = map imp_def (filter (\<lambda>i. import_is_func (imp_kind i)) is)"

definition filled_roles :: "u32 list \<Rightarrow> u32 list" where
  "filled_roles roles = filter (\<lambda>r. r \<noteq> NO_ROLE) roles"

definition module_wf :: "Module \<Rightarrow> bool" where
  "module_wf m \<longleftrightarrow>
     list_all utf8_valid (m_strings m) \<and> list_all utf8_valid (m_selectors m) \<and> list_all type_wf (m_types m) \<and>
     list_all interface_wf (m_interfaces m) \<and> list_all class_wf (m_classes m) \<and> list_all func_wf (m_funcs m) \<and>
     list_all slot_wf (m_slots m) \<and>
     length (m_class_bounds m) = length (m_classes m) \<and> length (m_func_bounds m) = length (m_funcs m) \<and>
     length (m_core_roles m) = CORE_ROLE_COUNT \<and> distinct (filled_roles (m_core_roles m)) \<and>
     list_all (\<lambda>r. unat r < length (m_classes m)) (filled_roles (m_core_roles m)) \<and>
     list_all (import_wf m) (m_imports m) \<and> distinct (class_defs (m_imports m)) \<and> distinct (func_defs (m_imports m)) \<and>
     list_all (binding_wf m) (m_bindings m) \<and> list_all (export_wf m) (m_exports m)"

section \<open>Claims\<close>

definition unclaimed :: "bool list \<Rightarrow> u32 list \<Rightarrow> bool" where
  "unclaimed claimed ds \<longleftrightarrow> distinct ds \<and> list_all (\<lambda>d. get_opt claimed (unat d) = Some False) ds"

lemma unclaimed_Cons:
  "unclaimed claimed (d # ds) \<longleftrightarrow> get_opt claimed (unat d) = Some False \<and> unclaimed (claimed[unat d := True]) ds"
proof -
  have "get_opt (claimed[unat d := True]) (unat x) = Some False \<longleftrightarrow> x \<noteq> d \<and> get_opt claimed (unat x) = Some False" for x
    by (cases "unat d = unat x") (auto simp: get_opt_def word_unat_eq_iff)
  then show ?thesis by (auto simp: unclaimed_def list_all_iff)
qed

text \<open>The marking loop accepts exactly the import tables whose slots name distinct definitions in range.\<close>

lemma claim_imports_iff:
  "claim_imports cc cf is \<longleftrightarrow>
     (\<forall>i \<in> set is. imp_kind i = ImportConstant \<longrightarrow> imp_def i = NO_IMPORT_DEF) \<and>
     unclaimed cc (class_defs is) \<and> unclaimed cf (func_defs is)"
proof (induction "is" arbitrary: cc cf)
  case (Cons i "is")
  consider "imp_kind i = ImportConstant" | "import_is_func (imp_kind i)" "imp_kind i \<noteq> ImportConstant" "imp_kind i \<noteq> ImportClass"
    | "imp_kind i = ImportClass" "\<not> import_is_func (imp_kind i)"
    by (cases "imp_kind i") (auto simp: import_is_func_def)
  then show ?case
    by cases (auto simp: Cons.IH class_defs_def func_defs_def unclaimed_Cons import_is_func_def Let_def)
qed (simp add: class_defs_def func_defs_def unclaimed_def)

lemma claim_roles_iff:
  "claim_roles n taken rs \<longleftrightarrow>
     distinct (filled_roles rs) \<and> set (filled_roles rs) \<inter> set taken = {} \<and> (\<forall>r \<in> set (filled_roles rs). unat r < n)"
  by (induction rs arbitrary: taken) (auto simp: filled_roles_def)

section \<open>The decoder gives well-formed modules\<close>

lemma yields_signature: "yields (decode_signature h k) (\<lambda>(params, muts, ret, row). length muts = length params)"
  unfolding decode_signature_def
  by (rule yieldsI) (auto simp: p_bind_ok p_ret_def dest: yieldsD [OF _ yields_counted [where P = "\<lambda>_. True"]] intro: yieldsI)

lemma signature_wf: "decode_signature h k c = Inr ((params, muts, ret, row), c') \<Longrightarrow> length muts = length params"
  using yieldsD [OF _ yields_signature] by fastforce

lemma yields_type: "yields (decode_type h) type_wf"
  unfolding decode_type_def
  by (rule yieldsI) (auto simp: p_bind_ok p_ret_def p_err_def dest: signature_wf split: if_splits)

lemma callable_decoded: "decode_callable_contract h c = Inr (x, c') \<Longrightarrow> callable_wf x"
  unfolding decode_callable_contract_def by (auto simp: p_bind_ok p_ret_def callable_wf_def dest: signature_wf)

lemma contract_decoded: "decode_slot_contract h c = Inr (x, c') \<Longrightarrow> contract_wf x"
  unfolding decode_slot_contract_def
  by (auto simp: p_bind_ok p_ret_def p_err_def dest: callable_decoded yieldsD [OF _ yields_take] split: if_splits)

text \<open>What the semantic region alone gives; the names come later.\<close>

definition interface_pre :: "BcInterface \<Rightarrow> bool" where
  "interface_pre i \<longleftrightarrow>
     list_all (\<lambda>a. utf8_valid (as_name a)) (if_associated i) \<and>
     list_all (\<lambda>m. length (im_param_muts m) = length (im_params m)) (if_methods i)"

definition class_pre :: "BcClass \<Rightarrow> bool" where
  "class_pre c \<longleftrightarrow> list_all (\<lambda>f. utf8_valid (fst f)) (cls_fields c)"

definition func_pre :: "Func \<Rightarrow> bool" where
  "func_pre f \<longleftrightarrow> length (fn_param_muts f) = length (fn_params f)"

definition import_pre :: "Import \<Rightarrow> bool" where
  "import_pre i \<longleftrightarrow> utf8_valid (imp_module i) \<and> utf8_valid (imp_name i) \<and> length (imp_hash i) = 32"

definition semantic_wf :: "Module \<Rightarrow> bool" where
  "semantic_wf m \<longleftrightarrow>
     list_all utf8_valid (m_strings m) \<and> list_all utf8_valid (m_selectors m) \<and> list_all type_wf (m_types m) \<and>
     list_all interface_pre (m_interfaces m) \<and> list_all class_pre (m_classes m) \<and> list_all func_pre (m_funcs m) \<and>
     list_all slot_wf (m_slots m) \<and> list_all import_pre (m_imports m) \<and>
     length (m_class_bounds m) = length (m_classes m) \<and> length (m_func_bounds m) = length (m_funcs m) \<and>
     length (m_core_roles m) = CORE_ROLE_COUNT"

lemma yields_associated: "yields (decode_associated h) (\<lambda>a. utf8_valid (as_name a))"
  unfolding decode_associated_def by (rule yieldsI) (auto simp: p_bind_ok p_ret_def dest: yieldsD [OF _ yields_string])

lemma yields_method: "yields (decode_interface_method h) (\<lambda>m. length (im_param_muts m) = length (im_params m))"
  unfolding decode_interface_method_def by (rule yieldsI) (auto simp: p_bind_ok p_ret_def dest: signature_wf)

lemma yields_interface: "yields (decode_interface_def h) interface_pre"
  unfolding decode_interface_def_def
  by (rule yieldsI)
     (auto simp: p_bind_ok p_ret_def interface_pre_def
       dest: yieldsD [OF _ yields_table [OF yields_associated]] yieldsD [OF _ yields_table [OF yields_method]])

lemma yields_import: "yields decode_import import_pre"
  unfolding decode_import_def
  by (rule yieldsI) (auto simp: p_bind_ok p_ret_def import_pre_def dest: yieldsD [OF _ yields_string] yieldsD [OF _ yields_take])

lemma yields_slot: "yields (decode_slot h) slot_wf"
  unfolding decode_slot_def
  by (rule yieldsI) (auto simp: p_bind_ok p_ret_def slot_wf_def dest: yieldsD [OF _ yields_take] contract_decoded)

lemma yields_field: "yields decode_field (\<lambda>f. utf8_valid (fst f))"
  unfolding decode_field_def by (rule yieldsI) (auto simp: p_bind_ok p_ret_def dest: yieldsD [OF _ yields_string])

lemma yields_class: "yields (decode_class h) class_pre"
  unfolding decode_class_def
  by (rule yieldsI) (auto simp: p_bind_ok p_ret_def class_pre_def dest: yieldsD [OF _ yields_table [OF yields_field]])

lemma yields_func: "yields (decode_func h) func_pre"
  unfolding decode_func_def by (rule yieldsI) (auto simp: p_bind_ok p_ret_def func_pre_def dest: signature_wf)

lemma yields_roles: "read_seq n cur_u32 c = Inr (xs, c') \<Longrightarrow> length xs = n"
  using yieldsD [OF _ yields_seq [of cur_u32 "\<lambda>_. True"]] by (auto simp: yields_def)

lemma yields_semantic: "yields (semantic_tables h) semantic_wf"
  unfolding semantic_tables_def
  by (rule yieldsI)
     (auto simp: p_bind_ok p_if_ok p_ret_def semantic_wf_def
       dest: yieldsD [OF _ yields_table [OF yields_string]] yieldsD [OF _ yields_table [OF yields_type]]
         yieldsD [OF _ yields_table [OF yields_interface]] yieldsD [OF _ yields_table [OF yields_class]]
         yieldsD [OF _ yields_table [OF yields_func]] yieldsD [OF _ yields_table [OF yields_slot]]
         yieldsD [OF _ yields_table [OF yields_import]] yields_roles)

lemma yields_method_names:
  "length (im_param_muts m) = length (im_params m) \<Longrightarrow>
   yields (p_bind (read_counted h EString (\<lambda>count. count = length (im_params m)) ExportCountMismatch cur_string) (\<lambda>names.
        p_ret (m\<lparr>im_param_names := names\<rparr>))) method_wf"
  by (rule yieldsI) (auto simp: p_bind_ok p_ret_def method_wf_def dest: yieldsD [OF _ yields_counted [OF yields_string]])

lemma yields_interface_names: "interface_pre i \<Longrightarrow> yields (decode_interface_names h i) interface_wf"
  unfolding decode_interface_names_def interface_pre_def
  by (rule yieldsI) (auto simp: p_bind_ok p_ret_def interface_wf_def
       dest: yieldsD [OF _ yields_string] yieldsD [OF _ yields_each [OF yields_method_names]])

lemma yields_class_names: "class_pre c \<Longrightarrow> yields (decode_class_names h c) class_wf"
  unfolding decode_class_names_def class_pre_def
  by (rule yieldsI) (auto simp: p_bind_ok p_ret_def class_wf_def
       dest: yieldsD [OF _ yields_string] yieldsD [OF _ yields_counted [where P = "\<lambda>_. True"]] intro: yieldsI)

lemma yields_func_names: "func_pre f \<Longrightarrow> yields (decode_func_names h f) func_wf"
  unfolding decode_func_names_def func_pre_def
  by (rule yieldsI) (auto simp: p_bind_ok p_ret_def func_wf_def
       dest: yieldsD [OF _ yields_string] yieldsD [OF _ yields_counted [OF yields_string]])

lemma yields_slot_names: "slot_wf s \<Longrightarrow> yields (decode_slot_names s) slot_wf"
  unfolding decode_slot_names_def slot_wf_def
  by (rule yieldsI) (auto simp: p_bind_ok p_ret_def dest: yieldsD [OF _ yields_string])

lemma yields_binding: "yields (decode_binding m) (binding_wf m)"
  unfolding decode_binding_def
  by (rule yieldsI) (auto simp: p_bind_ok p_if_ok p_ret_def binding_wf_def dest: yieldsD [OF _ yields_string])

lemma yields_constant:
  "yields (decode_constant h m al) (\<lambda>(c, al'). case c of None \<Rightarrow> True | Some c \<Rightarrow> unat (ct_ty c) < length (m_types m))"
  unfolding decode_constant_def
  by (rule yieldsI) (auto simp: p_bind_ok p_if_ok p_ret_def p_err_def split: if_splits)

lemma yields_export: "yields (decode_export h m al) (\<lambda>(e, al'). export_wf m e)"
  unfolding decode_export_def
  by (rule yieldsI) (auto simp: p_bind_ok p_if_ok p_ret_def Let_def export_wf_def
       dest: yieldsD [OF _ yields_string] yieldsD [OF _ yields_constant])

lemma wf_same_tables:
  assumes "length (m_funcs m) = length (m_funcs m')" "length (m_classes m) = length (m_classes m')"
    "length (m_interfaces m) = length (m_interfaces m')" "length (m_types m) = length (m_types m')"
  shows "binding_wf m = binding_wf m'" and "export_wf m = export_wf m'" and "import_wf m = import_wf m'"
  using assms
  by (simp_all add: binding_wf_def export_wf_def export_ok_def export_limit_def import_wf_def fun_eq_iff split: option.split)

lemma claimed_imports_wf:
  assumes "claim_imports (replicate (length (m_classes m)) False) (replicate (length (m_funcs m)) False) is" and "list_all import_pre is"
  shows "list_all (import_wf m) is"
  unfolding list_all_iff
proof
  fix i
  assume i: "i \<in> set is"
  have c: "imp_kind i = ImportConstant \<Longrightarrow> imp_def i = NO_IMPORT_DEF"
    "imp_kind i = ImportClass \<Longrightarrow> unat (imp_def i) < length (m_classes m)"
    "import_is_func (imp_kind i) \<Longrightarrow> unat (imp_def i) < length (m_funcs m)"
    using assms(1) i unfolding claim_imports_iff unclaimed_def class_defs_def func_defs_def
    by (auto simp: list_all_iff get_opt_Some_iff)
  then show "import_wf m i"
    using assms(2) i by (cases "imp_kind i") (auto simp: import_wf_def import_pre_def import_is_func_def list_all_iff)
qed

lemma module_wf_exports:
  assumes m: "semantic_wf m" and claims: "claims_ok m" and t: "export_tables h m c = Inr (m', c')"
  shows "module_wf m'"
proof -
  obtain ifs cs fs ss bs es c1 c2 c3 c4 c5 c6 n al where
    r: "read_names (decode_interface_names h) (m_interfaces m) c = Inr (ifs, c1)"
      "read_names (decode_class_names h) (m_classes m) c1 = Inr (cs, c2)"
      "read_names (decode_func_names h) (m_funcs m) c2 = Inr (fs, c3)"
      "read_names decode_slot_names (m_slots m) c3 = Inr (ss, c4)"
      "read_table h EBinding 12 (decode_binding (m\<lparr>m_interfaces := ifs, m_classes := cs, m_funcs := fs, m_slots := ss\<rparr>)) c4 = Inr (bs, c5)"
      "read_items (decode_export h (m\<lparr>m_interfaces := ifs, m_classes := cs, m_funcs := fs, m_slots := ss\<rparr>)) n 0 c6 = Inr ((es, al), c')"
    and m': "m' = m\<lparr>m_interfaces := ifs, m_classes := cs, m_funcs := fs, m_slots := ss, m_bindings := bs, m_exports := es\<rparr>"
    using t unfolding export_tables_def by (auto simp: p_bind_ok p_ret_def Let_def)
  have pre: "list_all interface_pre (m_interfaces m)" "list_all class_pre (m_classes m)" "list_all func_pre (m_funcs m)"
    "list_all slot_wf (m_slots m)" "list_all import_pre (m_imports m)"
    using m by (auto simp: semantic_wf_def)
  note names = yieldsD [OF r(1) yields_names [OF yields_interface_names pre(1)]] yieldsD [OF r(2) yields_names [OF yields_class_names pre(2)]]
    yieldsD [OF r(3) yields_names [OF yields_func_names pre(3)]] yieldsD [OF r(4) yields_names [OF yields_slot_names pre(4)]]
  have same: "binding_wf (m\<lparr>m_interfaces := ifs, m_classes := cs, m_funcs := fs, m_slots := ss\<rparr>) = binding_wf m'"
    "export_wf (m\<lparr>m_interfaces := ifs, m_classes := cs, m_funcs := fs, m_slots := ss\<rparr>) = export_wf m'"
    unfolding m' by (rule wf_same_tables; simp)+
  have "list_all (binding_wf m') bs" using yieldsD [OF r(5) yields_table [OF yields_binding]] same(1) by simp
  moreover have "list_all (export_wf m') es" using yieldsD [OF r(6) yields_items [OF yields_export]] same(2) by simp
  moreover have "list_all (import_wf m') (m_imports m) \<and> distinct (class_defs (m_imports m)) \<and> distinct (func_defs (m_imports m))"
    using claims pre(5) names claimed_imports_wf [of m' "m_imports m"] by (auto simp: claims_ok_def claim_imports_iff unclaimed_def m')
  moreover have "distinct (filled_roles (m_core_roles m)) \<and> list_all (\<lambda>r. unat r < length cs) (filled_roles (m_core_roles m))"
    using claims names by (auto simp: claims_ok_def claim_roles_iff list_all_iff)
  ultimately show ?thesis using m names by (simp add: module_wf_def semantic_wf_def m')
qed

text \<open>
  C3: whatever the bytes are, a module that \<open>decode_with_bundle\<close> accepts is well formed.
  Its text is valid UTF-8; parameter markers, parameter names and field defaults align
  with what they mark; the bound tables align with the class and function tables;
  imports, core roles, bindings and exports stay inside the tables, and no definition
  is claimed by two imports or by two core roles.
\<close>

theorem decoded_module_wf:
  assumes "decode_with_bundle h hash bundle_digest bytes = Inr m"
  shows "module_wf m"
proof -
  obtain sections c m1 m2 where
    sem: "decode_semantic h (slice bytes (sections ! 0)) = Inr m1"
    and ex: "decode_exports h (slice bytes (sections ! 1)) m1 = Inr m2"
    and dbg: "decode_debug_section hash (slice bytes (sections ! 2)) m2 = Inr m"
    using assms by (auto simp: decode_with_bundle_def e_bind_def split: sum.splits)
  have "semantic_wf m1" "claims_ok m1"
    using sem yieldsD [OF _ yields_semantic]
    by (auto simp: decode_semantic_def claims_ok_def split: sum.splits if_splits)
  then have "module_wf m2"
    using ex by (auto simp: decode_exports_def intro: module_wf_exports split: sum.splits if_splits)
  moreover obtain d where "m = m2\<lparr>m_debug := d\<rparr>"
    using dbg by (auto simp: decode_debug_section_def split: sum.splits if_splits)
  ultimately show ?thesis
    using wf_same_tables [of m m2] by (simp add: module_wf_def)
qed

theorem decoded_module_wf_witness: "module_wf (demo_module (debug_encode demo_info))"
  by (rule decoded_module_wf [OF decode_encoded_module [OF demo_fits _ demo_module_debug demo_debug, of "replicate 32 5"]]) simp

section \<open>Bounds\<close>

fun const_depth :: "ConstValue \<Rightarrow> nat" where
  "const_depth (CvTuple items) = Suc (foldr max (map const_depth items) 0)"
| "const_depth _ = 1"

definition export_depth :: "Export \<Rightarrow> nat" where
  "export_depth e = (case ex_constant e of None \<Rightarrow> 0 | Some c \<Rightarrow> const_depth (ct_value c))"

lemma foldr_max_le: "foldr max xs (0 :: nat) \<le> n \<longleftrightarrow> (\<forall>x \<in> set xs. x \<le> n)"
  by (induction xs) auto

lemma items_charged:
  assumes "\<And>al x al' c c'. int al \<le> limit \<Longrightarrow> r al c = Inr ((x, al'), c') \<Longrightarrow> al' = al + cost x \<and> int al' \<le> limit \<and> P x"
  shows "int al \<le> limit \<Longrightarrow> read_items r n al c = Inr ((xs, al'), c') \<Longrightarrow>
    al' = al + sum_list (map cost xs) \<and> int al' \<le> limit \<and> list_all P xs \<and> length xs = n"
proof (induction n arbitrary: al c xs)
  case (Suc n)
  from Suc.prems(2) obtain x a1 c1 ys where x: "r al c = Inr ((x, a1), c1)"
    and ys: "read_items r n a1 c1 = Inr ((ys, al'), c')" and xs: "xs = x # ys"
    by (auto simp: p_bind_ok p_ret_def)
  show ?case using assms [OF Suc.prems(1) x] Suc.IH [OF _ ys] xs by auto
qed (simp add: p_ret_def)

lemma const_charged:
  "int al \<le> MAX_DECODE_VECTOR_BYTES \<Longrightarrow> decode_const_value h room al c = Inr ((v, al'), c') \<Longrightarrow>
     al' = al + const_cost h v \<and> int al' \<le> MAX_DECODE_VECTOR_BYTES \<and> const_depth v \<le> room"
proof (induction room arbitrary: al c v al' c')
  case (Suc room)
  show ?case
  proof (cases v)
    case (CvTuple items)
    from Suc.prems(2) obtain n a1 c1 where
      charge: "int (al + n * max (size_of h EConst) 1) \<le> MAX_DECODE_VECTOR_BYTES" "a1 = al + n * max (size_of h EConst) 1"
      and items: "read_items (decode_const_value h room) n a1 c1 = Inr ((items, al'), c')"
      unfolding decode_const_value.simps CvTuple
      by (auto simp: p_bind_ok p_ret_def p_err_def charge_items_def Let_def not_less split: if_splits simp del: of_nat_max)
    have "al' = a1 + sum_list (map (const_cost h) items) \<and> int al' \<le> MAX_DECODE_VECTOR_BYTES \<and>
        list_all (\<lambda>v. const_depth v \<le> room) items \<and> length items = n"
      by (rule items_charged [OF _ _ items], erule (1) Suc.IH) (use charge in simp)
    then show ?thesis using charge(2) CvTuple by (auto simp: foldr_max_le list_all_iff)
  qed (use Suc.prems in \<open>auto simp: p_bind_ok p_ret_def p_err_def split: if_splits\<close>)
qed (simp add: p_err_def)

lemma export_charged:
  "int al \<le> MAX_DECODE_VECTOR_BYTES \<Longrightarrow> decode_export h m al c = Inr ((e, al'), c') \<Longrightarrow>
     al' = al + export_cost h e \<and> int al' \<le> MAX_DECODE_VECTOR_BYTES \<and> export_depth e \<le> MAX_TYPE_DEPTH"
  unfolding decode_export_def decode_constant_def
  by (auto simp: p_bind_ok p_if_ok p_ret_def p_err_def Let_def export_cost_def export_depth_def dest: const_charged split: if_splits)

text \<open>What a constant holds: one for each value in it, and the bytes of its strings and byte strings.\<close>

fun const_weight :: "ConstValue \<Rightarrow> nat" where
  "const_weight (CvTuple items) = Suc (sum_list (map const_weight items))"
| "const_weight (CvString s) = Suc (length s)"
| "const_weight (CvBytes b) = Suc (length b)"
| "const_weight _ = 1"

definition export_weight :: "Export \<Rightarrow> nat" where
  "export_weight e = (case ex_constant e of None \<Rightarrow> 0 | Some c \<Rightarrow> const_weight (ct_value c))"

text \<open>A reader that takes at least \<open>f x\<close> bytes from the input for the value \<open>x\<close>.\<close>

definition consumes :: "'a reader \<Rightarrow> ('a \<Rightarrow> nat) \<Rightarrow> bool" where
  "consumes r f \<longleftrightarrow> (\<forall>c x c'. r c = Inr (x, c') \<longrightarrow> cur_pos c + f x \<le> cur_pos c')"

lemma consumesD: "consumes r f \<Longrightarrow> r c = Inr (x, c') \<Longrightarrow> cur_pos c + f x \<le> cur_pos c'"
  by (auto simp: consumes_def)

lemma consumes_take: "consumes (cur_take n) length" "consumes (cur_take n) (\<lambda>_. n)"
  by (auto simp: consumes_def cur_take_def Let_def split: if_splits)

lemma consumes_bind:
  assumes "consumes r f" and "\<And>x. consumes (g x) (\<lambda>y. h y - f x)"
  shows "consumes (p_bind r g) h"
  using assms by (fastforce simp: consumes_def p_bind_ok)

lemma consumes_ret: "f x = 0 \<Longrightarrow> consumes (p_ret x) f"
  by (simp add: consumes_def p_ret_def)

lemma consumes_err: "consumes (p_err e) f"
  by (simp add: consumes_def p_err_def)

lemma consumes_less: "consumes r f \<Longrightarrow> (\<And>x. g x \<le> f x) \<Longrightarrow> consumes r g"
  unfolding consumes_def by (meson add_left_mono order_trans)

lemma consumes_u8: "consumes cur_u8 (\<lambda>_. 1)"
  unfolding cur_u8_def by (rule consumes_bind [OF consumes_take(2)]) (simp add: consumes_ret)

lemma consumes_u32: "consumes cur_u32 (\<lambda>_. 0)"
  unfolding cur_u32_def by (rule consumes_bind [OF consumes_take(2)]) (simp add: consumes_ret)

lemma consumes_u64: "consumes cur_u64 (\<lambda>_. 0)"
  unfolding cur_u64_def by (rule consumes_bind [OF consumes_take(2)]) (simp add: consumes_ret)

lemma consumes_flag: "consumes cur_flag (\<lambda>_. 0)"
  unfolding cur_flag_def by (rule consumes_bind [OF consumes_u8]) (simp add: consumes_ret consumes_err)

lemma consumes_string: "consumes cur_string length"
  unfolding cur_string_def
  by (rule consumes_bind [OF consumes_u32], rule consumes_bind [OF consumes_take(1)])
     (auto simp: consumes_def p_ret_def p_err_def)

lemma consumes_len: "consumes cur_len (\<lambda>_. 0)"
  unfolding cur_len_def by (rule consumes_bind [OF consumes_u32]) (auto simp: consumes_def)

lemma items_consume:
  assumes "\<And>al. consumes (r al) (\<lambda>(x, _). f x)"
  shows "consumes (read_items r n al) (\<lambda>(xs, _). sum_list (map f xs))"
proof (induction n arbitrary: al)
  case (Suc n)
  have "consumes (p_bind (read_items r n al1) (\<lambda>(xs, al2). p_ret (x # xs, al2))) (\<lambda>(xs, _). sum_list (map f xs) - f x)" for x al1
    by (rule consumes_bind [OF Suc.IH]) (auto simp: consumes_def p_ret_def)
  then show ?case
    by (auto intro!: consumes_bind [OF assms] simp: case_prod_unfold)
qed (simp add: consumes_ret)

lemma const_consumes: "consumes (decode_const_value h room al) (\<lambda>(v, _). const_weight v)"
proof (induction room arbitrary: al)
  case (Suc room)
  note steps = consumesD [OF consumes_u8] consumesD [OF consumes_flag] consumesD [OF consumes_u64] consumesD [OF consumes_u32]
    consumesD [OF consumes_string] consumesD [OF consumes_len] consumesD [OF consumes_take(1)]
    consumesD [OF items_consume [OF Suc.IH]]
  show ?case
    unfolding consumes_def decode_const_value.simps
    by (fastforce simp: p_bind_ok p_ret_def p_err_def p_opt_def p_need_def charge_items_def decode_vec_def Let_def
      dest!: steps split: if_splits option.splits)
qed (simp add: consumes_err)

lemma export_consumes: "consumes (decode_export h m al) (\<lambda>(e, _). export_weight e)"
  unfolding consumes_def decode_export_def decode_constant_def
  by (fastforce simp: p_bind_ok p_if_ok p_ret_def p_err_def p_opt_def Let_def export_weight_def
    dest!: consumesD [OF consumes_u8] consumesD [OF consumes_flag] consumesD [OF consumes_u32]
      consumesD [OF consumes_string] consumesD [OF const_consumes] split: if_splits option.splits)

text \<open>
  C18: the constants of an accepted module are bounded, counted over all exports together and not per constant.
  The item vectors of their tuples take at most \<open>MAX_DECODE_VECTOR_BYTES\<close>; the number of their values and
  the bytes of their strings and byte strings together are at most the length of the input; and none is
  nested deeper than \<open>MAX_TYPE_DEPTH\<close>.
\<close>

theorem decoded_constants_bounded:
  assumes "decode_with_bundle h hash bundle_digest bytes = Inr m"
  shows "int (sum_list (map (export_cost h) (m_exports m))) \<le> MAX_DECODE_VECTOR_BYTES \<and>
    sum_list (map export_weight (m_exports m)) \<le> length bytes \<and>
    list_all (\<lambda>e. export_depth e \<le> MAX_TYPE_DEPTH) (m_exports m)"
proof -
  obtain sections m1 m2 where ex: "decode_exports h (slice bytes (sections ! 1)) m1 = Inr m2"
    and dbg: "decode_debug_section hash (slice bytes (sections ! 2)) m2 = Inr m"
    using assms by (auto simp: decode_with_bundle_def e_bind_def split: sum.splits)
  have m: "m_exports m = m_exports m2"
    using dbg by (auto simp: decode_debug_section_def split: sum.splits if_splits)
  obtain c c' where "export_tables h m1 c = Inr (m2, c')" and c': "cur_pos c' = length (slice bytes (sections ! 1))"
    using ex by (auto simp: decode_exports_def split: sum.splits if_splits)
  then obtain m3 n c1 al where items: "read_items (decode_export h m3) n 0 c1 = Inr ((m_exports m2, al), c')"
    unfolding export_tables_def by (auto simp: p_bind_ok p_ret_def Let_def)
  have "al = 0 + sum_list (map (export_cost h) (m_exports m2)) \<and> int al \<le> MAX_DECODE_VECTOR_BYTES \<and>
      list_all (\<lambda>e. export_depth e \<le> MAX_TYPE_DEPTH) (m_exports m2) \<and> length (m_exports m2) = n"
    by (rule items_charged [OF _ _ items], erule (1) export_charged) (simp add: MAX_DECODE_VECTOR_BYTES_def)
  moreover have "sum_list (map export_weight (m_exports m2)) \<le> length bytes"
    using consumesD [OF items_consume [OF export_consumes] items] c' by (simp add: slice_def) linarith
  ultimately show ?thesis using m by auto
qed

theorem decoded_constants_bounded_witness:
  "int (sum_list (map (export_cost demo_host) (m_exports (demo_module (debug_encode demo_info))))) \<le> MAX_DECODE_VECTOR_BYTES \<and>
    sum_list (map export_weight (m_exports (demo_module (debug_encode demo_info)))) \<le>
      length (encode_with_bundle (replicate 32 5) (demo_module (debug_encode demo_info))) \<and>
    list_all (\<lambda>e. export_depth e \<le> MAX_TYPE_DEPTH) (m_exports (demo_module (debug_encode demo_info)))"
  by (rule decoded_constants_bounded [OF decode_encoded_module [OF demo_fits _ demo_module_debug demo_debug, of "replicate 32 5"]]) simp

end
