(* ===== verification/Debug_Correct.thy ===== *)
theory Debug_Correct
  imports Container
begin

text \<open>
  The debug section: what validation accepts, that its origin cache changes nothing,
  and that relocation at linking keeps valid metadata valid.
\<close>

section \<open>What validation accepts\<close>

definition source_view :: "DebugSource \<Rightarrow> SyntaxView option" where
  "source_view s = (case syntax_view_new (dso_syntax s) (length (dso_text s)) of SynOk v \<Rightarrow> Some v | _ \<Rightarrow> None)"

lemma debug_views_iff: "debug_views info = Inr views \<longleftrightarrow> map source_view (di_sources info) = map Some views"
proof -
  have "(case syntax_view_new (dso_syntax s) (length (dso_text s)) of SynOk v \<Rightarrow> Inr v | _ \<Rightarrow> Inl DebugBadSyntax) = Inr v \<longleftrightarrow>
    source_view s = Some v" for s v
    by (auto simp: source_view_def split: syn.splits)
  then show ?thesis
    unfolding debug_views_def e_all_Inr by (simp add: list_all2_conv_all_nth list_eq_iff_nth_eq) (metis nth_map)
qed

definition definition_valid :: "(u8 list \<Rightarrow> digest) \<Rightarrow> DebugSource list \<Rightarrow> Module \<Rightarrow> DebugDefinition \<Rightarrow> bool" where
  "definition_valid hash sources m d \<longleftrightarrow>
     (case get_opt sources (unat (dd_source d)) of
        None \<Rightarrow> False
      | Some source \<Rightarrow>
          (case source_view source of
             None \<Rightarrow> False
           | Some view \<Rightarrow>
               (case view_record view (dd_syntax d) of
                  SynOk rec \<Rightarrow>
                    dd_lo d \<le> dd_hi d \<and> unat (dd_hi d) \<le> length (dso_text source) \<and> sr_lo rec = dd_lo d \<and> sr_hi rec = dd_hi d \<and>
                    definition_origin hash (dso_path source) (dso_text source) (dd_kind d) (dd_lo d) (dd_hi d) = Inr (dd_origin d) \<and>
                    valid_target m (dd_kind d) (dd_target d)
                | _ \<Rightarrow> False)))"

definition definition_key_of :: "DebugDefinition \<Rightarrow> definition_key" where
  "definition_key_of d = (dd_origin d, dd_kind d, dd_target d)"

text \<open>Every cached origin is the origin of its key.\<close>

definition cache_ok :: "(u8 list \<Rightarrow> digest) \<Rightarrow> DebugSource list \<Rightarrow> (origin_key \<times> digest) list \<Rightarrow> bool" where
  "cache_ok hash sources origins \<longleftrightarrow>
     (\<forall>src kind lo hi origin. ((src, kind, lo, hi), origin) \<in> set origins \<longrightarrow>
        (\<exists>s. get_opt sources (unat src) = Some s \<and> definition_origin hash (dso_path s) (dso_text s) kind lo hi = Inr origin))"

lemma cache_ok_Cons:
  "cache_ok hash sources (((src, kind, lo, hi), origin) # origins) \<longleftrightarrow>
     (\<exists>s. get_opt sources (unat src) = Some s \<and> definition_origin hash (dso_path s) (dso_text s) kind lo hi = Inr origin) \<and>
     cache_ok hash sources origins"
  by (auto simp: cache_ok_def)

lemma cached_origin_result:
  assumes "cache_ok hash sources origins" and "get_opt sources (unat (dd_source d)) = Some source"
  shows "cached_origin hash origins source d =
      e_bind (definition_origin hash (dso_path source) (dso_text source) (dd_kind d) (dd_lo d) (dd_hi d)) (\<lambda>origin.
        Inr (origin, if map_of origins (dd_source d, dd_kind d, dd_lo d, dd_hi d) = None
                     then ((dd_source d, dd_kind d, dd_lo d, dd_hi d), origin) # origins else origins))"
proof (cases "map_of origins (dd_source d, dd_kind d, dd_lo d, dd_hi d)")
  case None
  then show ?thesis by (simp add: cached_origin_def Let_def)
next
  case (Some origin)
  from map_of_SomeD [OF this] assms
  have "definition_origin hash (dso_path source) (dso_text source) (dd_kind d) (dd_lo d) (dd_hi d) = Inr origin"
    by (fastforce simp: cache_ok_def)
  then show ?thesis using Some by (simp add: cached_origin_def Let_def e_bind_def)
qed

lemma validate_definition_ok:
  assumes cache: "cache_ok hash (di_sources info) origins" and views: "debug_views info = Inr views"
  shows "(\<exists>origins'. validate_definition hash info m views origins d = Inr origins') \<longleftrightarrow> definition_valid hash (di_sources info) m d"
    and "validate_definition hash info m views origins d = Inr origins' \<Longrightarrow> cache_ok hash (di_sources info) origins'"
proof -
  have view: "get_opt views i = Some v \<longleftrightarrow> (\<exists>s. get_opt (di_sources info) i = Some s \<and> source_view s = Some v)" for i v
    using views unfolding debug_views_iff
    by (auto simp: get_opt_def list_eq_iff_nth_eq)
  have rec_ok: "(case r of SynOk r \<Rightarrow> Inr r | _ \<Rightarrow> Inl DebugBadIndex) = Inr rec \<longleftrightarrow> r = SynOk rec" for r :: "SyntaxRecord syn" and rec
    by (auto split: syn.splits)
  show "(\<exists>origins'. validate_definition hash info m views origins d = Inr origins') \<longleftrightarrow> definition_valid hash (di_sources info) m d"
    unfolding validate_definition_def definition_valid_def e_simps rec_ok view
    by (auto simp: e_simps not_less cached_origin_result [OF cache] split: option.splits syn.splits)
  assume "validate_definition hash info m views origins d = Inr origins'"
  then show "cache_ok hash (di_sources info) origins'"
    using cache unfolding validate_definition_def
    by (auto simp: e_simps cached_origin_result [OF cache] cache_ok_Cons split: if_splits)
qed

lemma validate_definitions_iff:
  assumes "debug_views info = Inr views" and "cache_ok hash (di_sources info) origins"
  shows "validate_definitions hash info m views origins keys ds = Inr keys' \<longleftrightarrow>
    (\<forall>d \<in> set ds. definition_valid hash (di_sources info) m d) \<and> keys' = rev (map definition_key_of ds) @ keys"
  using assms(2)
proof (induction ds arbitrary: origins keys)
  case (Cons d ds)
  note v = validate_definition_ok [OF Cons.prems assms(1), of m d]
  show ?case
    using v Cons.IH by (auto simp: e_simps definition_key_of_def; blast)
qed auto

section \<open>The origin cache\<close>

text \<open>Validation without the cache: every origin is hashed again.\<close>

definition plain_definition ::
  "(u8 list \<Rightarrow> digest) \<Rightarrow> DebugInfo \<Rightarrow> Module \<Rightarrow> SyntaxView list \<Rightarrow> DebugDefinition \<Rightarrow> DebugError + unit" where
  "plain_definition hash info m views d =
     e_bind (e_opt DebugBadIndex (get_opt (di_sources info) (unat (dd_source d)))) (\<lambda>source.
     e_bind (e_if (\<not> (dd_lo d > dd_hi d \<or> unat (dd_hi d) > length (dso_text source))) DebugBadRange) (\<lambda>_.
     e_bind (e_opt DebugBadIndex (get_opt views (unat (dd_source d)))) (\<lambda>view.
     e_bind (case view_record view (dd_syntax d) of SynOk r \<Rightarrow> Inr r | _ \<Rightarrow> Inl DebugBadIndex) (\<lambda>rec.
     e_bind (e_if (\<not> (sr_lo rec \<noteq> dd_lo d \<or> sr_hi rec \<noteq> dd_hi d)) DebugBadRange) (\<lambda>_.
     e_bind (definition_origin hash (dso_path source) (dso_text source) (dd_kind d) (dd_lo d) (dd_hi d)) (\<lambda>expected.
     e_bind (e_if (dd_origin d = expected) DebugBadIndex) (\<lambda>_.
     e_if (valid_target m (dd_kind d) (dd_target d)) DebugBadIndex)))))))"

definition plain_validate :: "(u8 list \<Rightarrow> digest) \<Rightarrow> DebugInfo \<Rightarrow> Module \<Rightarrow> DebugError + unit" where
  "plain_validate hash info m =
     e_bind (debug_views info) (\<lambda>views.
     e_bind (e_all (plain_definition hash info m views) (di_definitions info)) (\<lambda>_.
     e_bind (e_all (validate_function info m) (di_functions info)) (\<lambda>_.
     e_bind (e_all (validate_code_origin m (map definition_key_of (di_definitions info))) (di_code_origins info)) (\<lambda>_. Inr ()))))"

lemma plain_definition_error:
  assumes "cache_ok hash (di_sources info) origins"
  shows "validate_definition hash info m views origins d = Inl e \<longleftrightarrow> plain_definition hash info m views d = Inl e"
proof (cases "get_opt (di_sources info) (unat (dd_source d))")
  case None
  then show ?thesis by (simp add: validate_definition_def plain_definition_def e_opt_def e_bind_def)
next
  case (Some source)
  show ?thesis
    unfolding validate_definition_def plain_definition_def
    by (auto simp: Some e_opt_def e_bind_def e_if_def cached_origin_result [OF assms Some] split: option.splits sum.splits if_splits)
qed

lemma validate_definitions_plain:
  assumes "debug_views info = Inr views" and "cache_ok hash (di_sources info) origins"
  shows "validate_definitions hash info m views origins keys ds =
    e_bind (e_all (plain_definition hash info m views) ds) (\<lambda>_. Inr (rev (map definition_key_of ds) @ keys))"
  using assms(2)
proof (induction ds arbitrary: origins keys)
  case (Cons d ds)
  show ?case
  proof (cases "validate_definition hash info m views origins d")
    case (Inl e)
    then have "plain_definition hash info m views d = Inl e" using plain_definition_error [OF Cons.prems] by blast
    then show ?thesis using Inl by (simp add: e_bind_def)
  next
    case (Inr origins')
    then have "\<forall>e. plain_definition hash info m views d \<noteq> Inl e"
      using plain_definition_error [OF Cons.prems, of m views d] by simp
    then obtain u where "plain_definition hash info m views d = Inr u" by (cases "plain_definition hash info m views d") auto
    moreover have "cache_ok hash (di_sources info) origins'"
      using Inr validate_definition_ok(2) [OF Cons.prems assms(1)] by blast
    ultimately show ?thesis
      using Inr Cons.IH by (auto simp: e_bind_def definition_key_of_def split: sum.splits)
  qed
qed (simp add: e_bind_def)

lemma validate_code_origin_keys: "set keys = set keys' \<Longrightarrow> validate_code_origin m keys = validate_code_origin m keys'"
  by (simp add: validate_code_origin_def fun_eq_iff)

text \<open>
  C22: the origin cache of \<open>validate\<close> changes nothing: for every debug section and every
  module, with any content hash, the result, error included, is that of hashing every
  origin again.
\<close>

theorem origin_cache_equivalent: "debug_validate hash info m = plain_validate hash info m"
proof (cases "debug_views info")
  case (Inl e)
  then show ?thesis by (simp add: debug_validate_def plain_validate_def e_bind_def)
next
  case (Inr views)
  have "cache_ok hash (di_sources info) []" by (simp add: cache_ok_def)
  note v = validate_definitions_plain [OF Inr this, of m "[]"]
  show ?thesis
    unfolding debug_validate_def plain_validate_def Inr e_bind_value v
    by (simp add: e_bind_assoc e_bind_value validate_code_origin_keys [of "rev (map definition_key_of (di_definitions info))" "map definition_key_of (di_definitions info)"])
qed

section \<open>Relocation\<close>

definition function_valid :: "DebugSource list \<Rightarrow> Module \<Rightarrow> DebugFunction \<Rightarrow> bool" where
  "function_valid sources m f \<longleftrightarrow>
     (case get_opt sources (unat (df_source f)) of
        None \<Rightarrow> False
      | Some s \<Rightarrow> unat (df_function f) < length (m_funcs m) \<and> df_lo f \<le> df_hi f \<and> unat (df_hi f) \<le> length (dso_text s))"

text \<open>The instruction at a place of a module.\<close>

definition instr_at :: "Module \<Rightarrow> u32 \<Rightarrow> u32 \<Rightarrow> u32 \<Rightarrow> Instr option" where
  "instr_at m f b i =
     (case get_opt (m_funcs m) (unat f) of None \<Rightarrow> None
      | Some func \<Rightarrow> (case get_opt (fn_blocks func) (unat b) of None \<Rightarrow> None | Some block \<Rightarrow> get_opt block (unat i)))"

definition origin_valid :: "Module \<Rightarrow> definition_key set \<Rightarrow> DebugCodeOrigin \<Rightarrow> bool" where
  "origin_valid m keys og \<longleftrightarrow>
     (case instr_at m (dc_function og) (dc_block og) (dc_instruction og) of
        None \<Rightarrow> False
      | Some i \<Rightarrow> (case code_origin_key (dc_origin og) i of None \<Rightarrow> False | Some key \<Rightarrow> key \<in> keys))"

lemma validate_function_iff: "(\<exists>u. validate_function info m f = Inr u) \<longleftrightarrow> function_valid (di_sources info) m f"
  by (auto simp: validate_function_def function_valid_def e_simps not_le split: option.splits)

lemma validate_code_origin_iff: "(\<exists>u. validate_code_origin m keys og = Inr u) \<longleftrightarrow> origin_valid m (set keys) og"
  by (auto simp: validate_code_origin_def origin_valid_def instr_at_def e_simps split: option.splits)

lemma debug_validate_iff:
  "debug_validate hash info m = Inr () \<longleftrightarrow>
     (\<forall>s \<in> set (di_sources info). source_view s \<noteq> None) \<and>
     (\<forall>d \<in> set (di_definitions info). definition_valid hash (di_sources info) m d) \<and>
     (\<forall>f \<in> set (di_functions info). function_valid (di_sources info) m f) \<and>
     (\<forall>og \<in> set (di_code_origins info). origin_valid m (definition_key_of ` set (di_definitions info)) og)"
proof -
  have views: "(\<exists>views. debug_views info = Inr views) \<longleftrightarrow> (\<forall>s \<in> set (di_sources info). source_view s \<noteq> None)"
  proof
    assume "\<forall>s \<in> set (di_sources info). source_view s \<noteq> None"
    then have "map source_view (di_sources info) = map Some (map (the \<circ> source_view) (di_sources info))" by auto
    then show "\<exists>views. debug_views info = Inr views" unfolding debug_views_iff by blast
  next
    assume "\<exists>views. debug_views info = Inr views"
    then obtain views where "map source_view (di_sources info) = map Some views" unfolding debug_views_iff by blast
    then have "set (map source_view (di_sources info)) = set (map Some views)" by simp
    then show "\<forall>s \<in> set (di_sources info). source_view s \<noteq> None" by auto
  qed
  have "cache_ok hash (di_sources info) []" by (simp add: cache_ok_def)
  note defs = validate_definitions_iff [OF _ this, of _ m "[]" "di_definitions info"]
  have "debug_validate hash info m = Inr () \<longleftrightarrow>
     (\<exists>views. debug_views info = Inr views \<and> (\<forall>d \<in> set (di_definitions info). definition_valid hash (di_sources info) m d)) \<and>
     (\<exists>us. e_all (validate_function info m) (di_functions info) = Inr us) \<and>
     (\<exists>us. e_all (validate_code_origin m (rev (map definition_key_of (di_definitions info)))) (di_code_origins info) = Inr us)"
    unfolding debug_validate_def e_simps using defs by auto
  then show ?thesis
    unfolding e_all_unit validate_function_iff validate_code_origin_iff using views by auto
qed

text \<open>
  What the linker gives: the relocation tables send every definition of the module
  into the linked tables, and a code reification instruction stands at the same place
  of the relocated function and names the relocated definition.
\<close>

definition relocated :: "u32 list \<Rightarrow> u32 list \<Rightarrow> DefinitionKind \<Rightarrow> u32 \<Rightarrow> u32" where
  "relocated functions classes kind t = (case kind of DefFunction \<Rightarrow> functions ! unat t | DefClass \<Rightarrow> classes ! unat t)"

definition linked_into :: "u32 list \<Rightarrow> u32 list \<Rightarrow> Module \<Rightarrow> Module \<Rightarrow> bool" where
  "linked_into functions classes part whole \<longleftrightarrow>
     length functions = length (m_funcs part) \<and> (\<forall>t \<in> set functions. unat t < length (m_funcs whole)) \<and>
     length classes = length (m_classes part) \<and> (\<forall>t \<in> set classes. unat t < length (m_classes whole)) \<and>
     (\<forall>f b i instr origin kind t. instr_at part f b i = Some instr \<longrightarrow> code_origin_key origin instr = Some (origin, kind, t) \<longrightarrow>
        (\<exists>instr'. instr_at whole (functions ! unat f) b i = Some instr' \<and>
           code_origin_key origin instr' = Some (origin, kind, relocated functions classes kind t)))"

lemma get_opt_append: "get_opt (xs @ ys) i = (if i < length xs then get_opt xs i else get_opt ys (i - length xs))"
  by (auto simp: get_opt_def nth_append)

lemma get_opt_appendL: "get_opt xs i = Some x \<Longrightarrow> get_opt (xs @ ys) i = Some x"
  by (auto simp: get_opt_append get_opt_Some_iff)

lemma definition_valid_append: "definition_valid hash xs m d \<Longrightarrow> definition_valid hash (xs @ ys) m d"
  by (auto simp: definition_valid_def get_opt_appendL split: option.splits)

lemma function_valid_append: "function_valid xs m f \<Longrightarrow> function_valid (xs @ ys) m f"
  by (auto simp: function_valid_def get_opt_appendL split: option.splits)

lemma source_shift:
  assumes "int (length xs + length ys) \<le> 4294967295" and "get_opt ys (unat i) = Some y"
  shows "checked_add (of_nat (length xs)) i = Some (of_nat (length xs) + i)"
    and "get_opt (xs @ ys) (unat (of_nat (length xs) + i :: u32)) = Some y"
proof -
  have n: "unat (of_nat (length xs) :: u32) = length xs" using assms(1) by (simp add: unat_of_length)
  have i: "unat i < length ys" using assms(2) by (simp add: get_opt_Some_iff)
  have small: "length xs + unat i < 2 ^ 32" using assms(1) i by simp
  have sum: "unat (of_nat (length xs) + i :: u32) = length xs + unat i"
    using small n by (simp add: unat_word_ariths)
  have "uint (of_nat (length xs) :: u32) + uint i = int (length xs + unat i)"
    using n by (metis of_nat_add uint_nat)
  moreover have "int (length xs + unat i) \<le> 4294967295" using assms(1) i by linarith
  ultimately show "checked_add (of_nat (length xs)) i = Some (of_nat (length xs) + i)"
    unfolding checked_add_def by presburger
  show "get_opt (xs @ ys) (unat (of_nat (length xs) + i :: u32)) = Some y"
    unfolding sum using assms(2) by (simp add: get_opt_append)
qed

lemma relocate_definition_valid:
  assumes "int (length xs + length ys) \<le> 4294967295" and "definition_valid hash ys part d" and "linked_into functions classes part whole"
  shows "\<exists>d'. relocate_definition (of_nat (length xs)) functions classes d = Inr d' \<and> definition_valid hash (xs @ ys) whole d' \<and>
    definition_key_of d' = (dd_origin d, dd_kind d, relocated functions classes (dd_kind d) (dd_target d))"
proof -
  obtain s view rec where s: "get_opt ys (unat (dd_source d)) = Some s" and v: "source_view s = Some view"
    and r: "view_record view (dd_syntax d) = SynOk rec" and t: "valid_target part (dd_kind d) (dd_target d)"
    using assms(2) by (auto simp: definition_valid_def split: option.splits syn.splits)
  note shift = source_shift [OF assms(1) s]
  have target: "(case dd_kind d of DefFunction \<Rightarrow> get_opt functions (unat (dd_target d)) | DefClass \<Rightarrow> get_opt classes (unat (dd_target d))) =
      Some (relocated functions classes (dd_kind d) (dd_target d))"
    and ok: "valid_target whole (dd_kind d) (relocated functions classes (dd_kind d) (dd_target d))"
    using t assms(3) by (auto simp: valid_target_def linked_into_def relocated_def get_opt_def split: DefinitionKind.splits)
  let ?d = "d\<lparr>dd_target := relocated functions classes (dd_kind d) (dd_target d), dd_source := of_nat (length xs) + dd_source d\<rparr>"
  have "relocate_definition (of_nat (length xs)) functions classes d = Inr ?d"
    by (simp add: relocate_definition_def target shift e_opt_def e_bind_value)
  moreover have "definition_valid hash (xs @ ys) whole ?d"
    using assms(2) s v r ok by (simp add: definition_valid_def shift(2))
  ultimately show ?thesis by (auto simp: definition_key_of_def)
qed

lemma relocate_function_valid:
  assumes "int (length xs + length ys) \<le> 4294967295" and "function_valid ys part f" and "linked_into functions classes part whole"
  shows "\<exists>f'. relocate_function (of_nat (length xs)) functions f = Inr f' \<and> function_valid (xs @ ys) whole f'"
proof -
  obtain s where s: "get_opt ys (unat (df_source f)) = Some s" using assms(2) by (auto simp: function_valid_def split: option.splits)
  note shift = source_shift [OF assms(1) s]
  have t: "unat (df_function f) < length functions" and l: "\<forall>t \<in> set functions. unat t < length (m_funcs whole)"
    using assms(2,3) s by (auto simp: function_valid_def linked_into_def)
  then have g: "get_opt functions (unat (df_function f)) = Some (functions ! unat (df_function f))"
    and b: "unat (functions ! unat (df_function f)) < length (m_funcs whole)"
    by (auto simp: get_opt_def)
  let ?f = "f\<lparr>df_function := functions ! unat (df_function f), df_source := of_nat (length xs) + df_source f\<rparr>"
  have "relocate_function (of_nat (length xs)) functions f = Inr ?f" and "function_valid (xs @ ys) whole ?f"
    using assms(2) s g b by (simp_all add: relocate_function_def function_valid_def shift e_opt_def e_bind_value)
  then show ?thesis by blast
qed

lemma relocate_code_origin_valid:
  assumes "origin_valid part keys og" and "linked_into functions classes part whole"
    and "\<And>origin kind t. (origin, kind, t) \<in> keys \<Longrightarrow> (origin, kind, relocated functions classes kind t) \<in> keys'"
  shows "\<exists>og'. relocate_code_origin functions og = Inr og' \<and> origin_valid whole keys' og'"
proof -
  obtain i key where i: "instr_at part (dc_function og) (dc_block og) (dc_instruction og) = Some i"
    and key: "code_origin_key (dc_origin og) i = Some key" "key \<in> keys"
    using assms(1) by (auto simp: origin_valid_def split: option.splits)
  obtain kind t where k: "key = (dc_origin og, kind, t)"
    using key(1) by (cases "(dc_origin og, i)" rule: code_origin_key.cases) auto
  have "unat (dc_function og) < length functions"
    using i assms(2) by (auto simp: instr_at_def linked_into_def get_opt_def split: option.splits if_splits)
  then have "relocate_code_origin functions og = Inr (og\<lparr>dc_function := functions ! unat (dc_function og)\<rparr>)"
    by (simp add: relocate_code_origin_def e_opt_def e_bind_value get_opt_def)
  moreover obtain i' where "instr_at whole (functions ! unat (dc_function og)) (dc_block og) (dc_instruction og) = Some i'"
    "code_origin_key (dc_origin og) i' = Some (dc_origin og, kind, relocated functions classes kind t)"
    using assms(2) i key(1) unfolding k linked_into_def by blast
  ultimately show ?thesis using assms(3) key(2) k by (auto simp: origin_valid_def)
qed

lemma e_all_map:
  assumes "\<forall>x \<in> set xs. \<exists>y. f x = Inr y \<and> P x y"
  shows "\<exists>ys. e_all f xs = Inr ys \<and> list_all2 P xs ys"
  using assms
proof (induction xs)
  case (Cons x xs)
  then show ?case by (auto simp: e_bind_value)
qed simp

text \<open>
  C8: linking keeps debug metadata valid. If the metadata collected so far describes the
  linked module, the metadata of a module describes that module, and the relocation
  tables embed the module into the linked one, then \<open>append_relocated\<close> succeeds, as long
  as the source files stay countable by 32 bits, and the result describes the linked
  module.
\<close>

theorem append_relocated_valid:
  assumes "debug_validate hash self whole = Inr ()" and "debug_validate hash other part = Inr ()"
    and "linked_into functions classes part whole"
    and "int (length (di_sources self) + length (di_sources other)) \<le> 4294967295"
  shows "\<exists>info. append_relocated self other functions classes = Inr info \<and> debug_validate hash info whole = Inr ()"
proof -
  let ?xs = "di_sources self" and ?ys = "di_sources other"
  note self = assms(1) [unfolded debug_validate_iff] and other = assms(2) [unfolded debug_validate_iff]
  let ?key = "\<lambda>d. (dd_origin d, dd_kind d, relocated functions classes (dd_kind d) (dd_target d))"
  have base: "e_opt DebugBadLength (try_u32 (length ?xs)) = Inr (of_nat (length ?xs))"
    using assms(4) by (simp add: e_opt_def try_u32_def)
  have "\<forall>d \<in> set (di_definitions other). \<exists>d'. relocate_definition (of_nat (length ?xs)) functions classes d = Inr d' \<and>
      (definition_valid hash (?xs @ ?ys) whole d' \<and> definition_key_of d' = ?key d)"
    using other relocate_definition_valid [OF assms(4) _ assms(3)] by simp
  from e_all_map [OF this] obtain ds where ds: "e_all (relocate_definition (of_nat (length ?xs)) functions classes) (di_definitions other) = Inr ds"
    "list_all2 (\<lambda>d d'. definition_valid hash (?xs @ ?ys) whole d' \<and> definition_key_of d' = ?key d) (di_definitions other) ds" by blast
  have "\<forall>f \<in> set (di_functions other). \<exists>f'. relocate_function (of_nat (length ?xs)) functions f = Inr f' \<and> function_valid (?xs @ ?ys) whole f'"
    using other relocate_function_valid [OF assms(4) _ assms(3)] by simp
  from e_all_map [OF this] obtain fs where fs: "e_all (relocate_function (of_nat (length ?xs)) functions) (di_functions other) = Inr fs"
    "list_all2 (\<lambda>f f'. function_valid (?xs @ ?ys) whole f') (di_functions other) fs" by blast
  let ?keys = "definition_key_of ` set (di_definitions self @ ds)"
  have keys: "(origin, kind, relocated functions classes kind t) \<in> ?keys" if k: "(origin, kind, t) \<in> definition_key_of ` set (di_definitions other)" for origin kind t
  proof -
    obtain i where i: "i < length (di_definitions other)" "definition_key_of (di_definitions other ! i) = (origin, kind, t)"
      using k by (metis image_iff in_set_conv_nth)
    then have "i < length ds" "definition_key_of (ds ! i) = (origin, kind, relocated functions classes kind t)"
      using ds(2) by (auto simp: list_all2_conv_all_nth definition_key_of_def)
    then show ?thesis by (metis Un_iff image_eqI nth_mem set_append)
  qed
  have "\<forall>og \<in> set (di_code_origins other). \<exists>og'. relocate_code_origin functions og = Inr og' \<and> origin_valid whole ?keys og'"
    using other by (intro ballI relocate_code_origin_valid [OF _ assms(3), where keys = "definition_key_of ` set (di_definitions other)"] keys) auto
  from e_all_map [OF this] obtain os where os: "e_all (relocate_code_origin functions) (di_code_origins other) = Inr os"
    "list_all2 (\<lambda>og og'. origin_valid whole ?keys og') (di_code_origins other) os" by blast
  let ?info = "\<lparr>di_sources = ?xs @ ?ys, di_definitions = di_definitions self @ ds, di_functions = di_functions self @ fs,
    di_code_origins = di_code_origins self @ os\<rparr>"
  have "append_relocated self other functions classes = Inr ?info"
    by (simp add: append_relocated_def base ds(1) fs(1) os(1) e_bind_value)
  moreover have "origin_valid whole ?keys og" if "origin_valid whole (definition_key_of ` set (di_definitions self)) og" for og
    using that by (auto simp: origin_valid_def split: option.splits)
  then have "debug_validate hash ?info whole = Inr ()"
    using self other ds(2) fs(2) os(2) unfolding debug_validate_iff
    by (auto simp: list_all2_conv_all_nth in_set_conv_nth intro: definition_valid_append function_valid_append)
  ultimately show ?thesis by blast
qed

lemma demo_linked: "linked_into [0] [0] (demo_module []) (demo_module [])"
proof -
  have "code_origin_key origin instr = None" if "instr_at (demo_module []) f b i = Some instr" for f b i instr origin
  proof -
    have "instr = IConst (ConstInt 40) \<or> instr = IControl Return"
      using that by (auto simp: instr_at_def get_opt_def demo_module_def less_Suc_eq nth_Cons' split: option.splits if_splits)
    then show ?thesis by auto
  qed
  then show ?thesis by (auto simp: linked_into_def demo_module_def)
qed

theorem append_relocated_valid_witness:
  "\<exists>info. append_relocated demo_info demo_info [0] [0] = Inr info \<and> debug_validate demo_hash info (demo_module []) = Inr ()"
  by (rule append_relocated_valid [OF demo_debug(2) demo_debug(2) demo_linked]) (simp add: demo_info_def)

end
