(* ===== verification/Syntax_Detach.thy ===== *)
theory Syntax_Detach
  imports Syntax_Correct
begin

text \<open>Subtree extraction and tree building of \<^verbatim>\<open>crates/lm-abi/src/syntax.rs\<close>. The walk of
  \<^const>\<open>detach_syntax\<close> lists the items of a subtree, each once and before its children; the
  records it writes show the same tree, with every range moved to the start of the extracted
  text. No input makes the extraction or the builders panic.\<close>

section \<open>The walk over a subtree\<close>

lemma push_children_Ok:
  "push_children v rec n stack = SynOk stack' \<Longrightarrow>
     \<exists>cs. length cs = n \<and> stack' = cs @ stack \<and> (\<forall>k < n. view_child v rec (of_nat k) = SynOk (cs ! k))"
proof (induction n arbitrary: stack)
  case (Suc n)
  from Suc.prems obtain c where c: "view_child v rec (of_nat n) = SynOk c" and rest: "push_children v rec n (c # stack) = SynOk stack'"
    by (auto simp: s_simps)
  from Suc.IH [OF rest] obtain cs where cs: "length cs = n" "stack' = cs @ c # stack" "\<forall>k < n. view_child v rec (of_nat k) = SynOk (cs ! k)"
    by blast
  then show ?case using c by (intro exI [of _ "cs @ [c]"]) (auto simp: nth_append less_Suc_eq)
qed simp

text \<open>A visited item: its record lies inside the root's range, and its children come later.\<close>

definition node_ok :: "SyntaxView \<Rightarrow> SyntaxRecord \<Rightarrow> u32 \<Rightarrow> u32 list \<Rightarrow> bool" where
  "node_ok v root x later \<longleftrightarrow>
     (\<exists>rec. view_record v x = SynOk rec \<and> sr_lo root \<le> sr_lo rec \<and> sr_hi rec \<le> sr_hi root \<and>
        (\<forall>k < unat (sr_child_len rec). \<exists>c. view_child v rec (of_nat k) = SynOk c \<and> c \<in> set later))"

lemma detach_visit_Ok:
  assumes "detach_visit v root x stack = SynOk stack'" and "set stack' \<subseteq> set later"
  shows "node_ok v root x later" and "set stack \<subseteq> set stack'"
proof -
  obtain rec where r: "view_record v x = SynOk rec" "\<not> sr_lo rec < sr_lo root" "\<not> sr_hi root < sr_hi rec"
    "push_children v rec (unat (sr_child_len rec)) stack = SynOk stack'"
    using assms(1) by (auto simp: detach_visit_def s_simps)
  from push_children_Ok [OF r(4)] obtain cs where cs: "length cs = unat (sr_child_len rec)" "stack' = cs @ stack"
    "\<forall>k < unat (sr_child_len rec). view_child v rec (of_nat k) = SynOk (cs ! k)" by blast
  then have "\<forall>k < unat (sr_child_len rec). \<exists>c. view_child v rec (of_nat k) = SynOk c \<and> c \<in> set later"
    using assms(2) by (auto simp: subset_iff)
  then show "node_ok v root x later" using r unfolding node_ok_def by (auto simp: not_less)
  show "set stack \<subseteq> set stack'" using cs(2) by auto
qed

lemma detach_walk_Ok:
  assumes "detach_walk v root seen order stack = SynOk order'" and "distinct order"
    and "\<forall>x \<in> set order. get_opt seen (unat x) = Some True"
  shows "\<exists>suf. order' = order @ suf \<and> distinct order' \<and> (\<forall>x \<in> set suf. unat x < length seen) \<and> set stack \<subseteq> set suf \<and>
    (stack \<noteq> [] \<longrightarrow> suf \<noteq> [] \<and> hd suf = hd stack) \<and> (\<forall>p < length suf. node_ok v root (suf ! p) (drop (Suc p) suf))"
  using assms
proof (induction v root seen order stack arbitrary: order' rule: detach_walk.induct)
  case (2 v root seen order x stack)
  from "2.prems"(1) obtain stack' where seen: "get_opt seen (unat x) = Some False"
    and visit: "detach_visit v root x stack = SynOk stack'"
    and walk: "detach_walk v root (seen[unat x := True]) (order @ [x]) stack' = SynOk order'"
    by (auto split: option.splits bool.splits syn.splits)
  have x: "unat x < length seen" "x \<notin> set order" using seen "2.prems"(3) by (auto simp: get_opt_Some_iff)
  have "\<forall>y \<in> set (order @ [x]). get_opt (seen[unat x := True]) (unat y) = Some True"
    using "2.prems"(3) x by (auto simp: get_opt_Some_iff nth_list_update)
  moreover have "distinct (order @ [x])" using "2.prems"(2) x by simp
  ultimately obtain suf where suf: "order' = (order @ [x]) @ suf" "distinct order'" "\<forall>y \<in> set suf. unat y < length seen"
    "set stack' \<subseteq> set suf" "\<forall>p < length suf. node_ok v root (suf ! p) (drop (Suc p) suf)"
    using "2.IH" [OF seen _ visit walk] by auto
  have "node_ok v root ((x # suf) ! p) (drop (Suc p) (x # suf))" if "p < length (x # suf)" for p
    using that suf(5) detach_visit_Ok(1) [OF visit suf(4)] by (cases p) auto
  then show ?case
    using suf x detach_visit_Ok(2) [OF visit suf(4)] by (intro exI [of _ "x # suf"]) auto
qed auto

section \<open>The records of a subtree\<close>

definition rec_of :: "SyntaxView \<Rightarrow> u32 \<Rightarrow> SyntaxRecord" where
  "rec_of v x = (case view_record v x of SynOk r \<Rightarrow> r | _ \<Rightarrow> undefined)"

definition kids :: "SyntaxView \<Rightarrow> u32 \<Rightarrow> u32 list" where
  "kids v x = map (\<lambda>k. case view_child v (rec_of v x) (of_nat k) of SynOk c \<Rightarrow> c | _ \<Rightarrow> 0) [0..<unat (sr_child_len (rec_of v x))]"

lemma length_kids [simp]: "length (kids v x) = unat (sr_child_len (rec_of v x))"
  by (simp add: kids_def)

lemma node_okD:
  assumes "node_ok v root x later"
  shows "view_record v x = SynOk (rec_of v x)" "sr_lo root \<le> sr_lo (rec_of v x)" "sr_hi (rec_of v x) \<le> sr_hi root"
    "set (kids v x) \<subseteq> set later"
    "k < unat (sr_child_len (rec_of v x)) \<Longrightarrow> view_child v (rec_of v x) (of_nat k) = SynOk (kids v x ! k)"
proof -
  obtain rec where r: "view_record v x = SynOk rec" "sr_lo root \<le> sr_lo rec" "sr_hi rec \<le> sr_hi root"
    "\<forall>k < unat (sr_child_len rec). \<exists>c. view_child v rec (of_nat k) = SynOk c \<and> c \<in> set later"
    using assms by (auto simp: node_ok_def)
  have rec: "rec_of v x = rec" using r(1) by (simp add: rec_of_def)
  show "view_record v x = SynOk (rec_of v x)" "sr_lo root \<le> sr_lo (rec_of v x)" "sr_hi (rec_of v x) \<le> sr_hi root"
    using r rec by simp_all
  show "set (kids v x) \<subseteq> set later" using r(4) by (fastforce simp: kids_def rec)
  assume "k < unat (sr_child_len (rec_of v x))"
  then show "view_child v (rec_of v x) (of_nat k) = SynOk (kids v x ! k)" using r(4) by (fastforce simp: kids_def rec)
qed

lemma kid_later: "node_ok v root x later \<Longrightarrow> k < unat (sr_child_len (rec_of v x)) \<Longrightarrow> kids v x ! k \<in> set later"
  using node_okD(4) [of v root x later] nth_mem [of k "kids v x"] by auto

lemma detach_mapping_Some:
  "\<forall>x \<in> set order. unat x < length mapping \<Longrightarrow> distinct order \<Longrightarrow>
     \<exists>m. detach_mapping mapping new order = Some m \<and> length m = length mapping \<and>
       (\<forall>p < length order. m ! unat (order ! p) = of_nat (new + p)) \<and> (\<forall>i. i \<notin> unat ` set order \<longrightarrow> m ! i = mapping ! i)"
proof (induction order arbitrary: mapping new)
  case (Cons x order)
  have "\<forall>y \<in> set order. unat y < length (mapping[unat x := of_nat new])" using Cons.prems by simp
  from Cons.IH [OF this, of "Suc new"] Cons.prems obtain m where
    m: "detach_mapping (mapping[unat x := of_nat new]) (Suc new) order = Some m" "length m = length mapping"
      "\<forall>p < length order. m ! unat (order ! p) = of_nat (Suc new + p)"
      "\<forall>i. i \<notin> unat ` set order \<longrightarrow> m ! i = (mapping[unat x := of_nat new]) ! i"
    by auto
  have "unat x \<notin> unat ` set order" using Cons.prems(2) by auto (metis word_unat_eq_iff)
  then have x: "m ! unat x = of_nat new" using m(4) Cons.prems(1) by simp
  have "m ! unat ((x # order) ! p) = of_nat (new + p)" if "p < length (x # order)" for p
    using that m(3) x by (cases p) auto
  then show ?case using m Cons.prems(1) by auto
qed simp

definition detach_rec :: "SyntaxRecord \<Rightarrow> nat \<Rightarrow> SyntaxRecord \<Rightarrow> SyntaxRecord" where
  "detach_rec root start r = \<lparr>sr_class = sr_class r, sr_kind = sr_kind r, sr_lo = sr_lo r - sr_lo root,
     sr_hi = sr_hi r - sr_lo root, sr_child_start = of_nat start, sr_child_len = sr_child_len r\<rparr>"

primrec detach_layout :: "SyntaxView \<Rightarrow> SyntaxRecord \<Rightarrow> nat \<Rightarrow> u32 list \<Rightarrow> SyntaxRecord list" where
  "detach_layout v root start [] = []"
| "detach_layout v root start (x # xs) = detach_rec root start (rec_of v x) # detach_layout v root (start + length (kids v x)) xs"

lemma map_children_Ok:
  assumes "\<forall>k \<in> set ks. \<exists>c. view_child v rec (of_nat k) = SynOk c \<and> unat c < length mapping \<and> mapping ! unat c \<noteq> - 1"
  shows "map_children v mapping rec ks children =
    SynOk (children @ map (\<lambda>k. mapping ! unat (case view_child v rec (of_nat k) of SynOk c \<Rightarrow> c | _ \<Rightarrow> 0)) ks)"
  using assms
proof (induction ks arbitrary: children)
  case (Cons k ks)
  then obtain c where c: "view_child v rec (of_nat k) = SynOk c" "unat c < length mapping" "mapping ! unat c \<noteq> - 1" by auto
  have "map_children v mapping rec (k # ks) children = map_children v mapping rec ks (children @ [mapping ! unat c])"
    using c by (simp add: s_bind_value get_opt_def s_opt_def)
  moreover have "\<forall>k \<in> set ks. \<exists>c. view_child v rec (of_nat k) = SynOk c \<and> unat c < length mapping \<and> mapping ! unat c \<noteq> - 1"
    using Cons.prems by (meson list.set_intros(2))
  note Cons.IH [OF this, of "children @ [mapping ! unat c]"]
  ultimately show ?case using c(1) by simp
qed simp

lemma view_record_ok:
  "view_record v i = SynOk r \<Longrightarrow> i < sv_items v \<and> record_ok (unat (sv_source_len v)) (unat (sv_children v)) r"
  unfolding view_record_def Let_def
  by (auto simp: s_simps record_ok_def checked_add_Some unat_checked_add word_le_nat_alt not_less word_less_nat_alt)

lemma node_lo_le_hi:
  assumes "node_ok v root x later"
  shows "sr_lo root \<le> sr_hi (rec_of v x)"
proof -
  have "sr_lo (rec_of v x) \<le> sr_hi (rec_of v x)"
    using view_record_ok [OF node_okD(1) [OF assms]] by (auto simp: record_ok_def)
  then show ?thesis using node_okD(2) [OF assms] by (rule order_trans [rotated])
qed

lemma detach_records_Ok:
  assumes "\<forall>x \<in> set order. \<exists>later. node_ok v root x later \<and> (\<forall>c \<in> set later. unat c < length mapping \<and> mapping ! unat c \<noteq> - 1)"
  shows "detach_records v root mapping order records children =
    SynOk (records @ detach_layout v root (length children) order,
           children @ concat (map (\<lambda>x. map (\<lambda>c. mapping ! unat c) (kids v x)) order))"
  using assms
proof (induction order arbitrary: records children)
  case (Cons x order)
  then obtain later where ok: "node_ok v root x later" and later: "\<forall>c \<in> set later. unat c < length mapping \<and> mapping ! unat c \<noteq> - 1" by auto
  note n = node_okD [OF ok]
  let ?cs = "map (\<lambda>c. mapping ! unat c) (kids v x)"
  have "map_children v mapping (rec_of v x) [0..<unat (sr_child_len (rec_of v x))] children = SynOk (children @ ?cs)"
  proof (subst map_children_Ok)
    show "\<forall>k \<in> set [0..<unat (sr_child_len (rec_of v x))]. \<exists>c. view_child v (rec_of v x) (of_nat k) = SynOk c \<and>
        unat c < length mapping \<and> mapping ! unat c \<noteq> - 1"
    proof
      fix k assume "k \<in> set [0..<unat (sr_child_len (rec_of v x))]"
      then have k: "k < unat (sr_child_len (rec_of v x))" by simp
      with ok have "kids v x ! k \<in> set later" by (rule kid_later)
      then show "\<exists>c. view_child v (rec_of v x) (of_nat k) = SynOk c \<and> unat c < length mapping \<and> mapping ! unat c \<noteq> - 1"
        using n(5) [OF k] later by blast
    qed
  qed (simp add: kids_def comp_def)
  then have "detach_records v root mapping (x # order) records children =
      detach_records v root mapping order (records @ [detach_rec root (length children) (rec_of v x)]) (children @ ?cs)"
    using n(2) node_lo_le_hi [OF ok] by (simp add: n(1) s_bind_value s_sub_def detach_rec_def)
  also have "\<dots> = SynOk ((records @ [detach_rec root (length children) (rec_of v x)]) @
        detach_layout v root (length (children @ ?cs)) order,
      (children @ ?cs) @ concat (map (\<lambda>x. map (\<lambda>c. mapping ! unat c) (kids v x)) order))"
    by (rule Cons.IH) (use Cons.prems in auto)
  finally show ?case by simp
qed simp

lemma detach_child_total_Ok:
  "\<forall>x \<in> set order. \<exists>later. node_ok v root x later \<Longrightarrow> \<exists>n. detach_child_total v order acc = SynOk n"
proof (induction order arbitrary: acc)
  case (Cons x order)
  then obtain later where "node_ok v root x later" by auto
  from node_okD(1) [OF this] show ?case using Cons by (simp add: s_bind_value)
qed simp

section \<open>The tree a view shows\<close>

datatype syntax_tree = SynTree SyntaxClass u16 u32 u32 "syntax_tree list"

primrec move_tree :: "(u32 \<Rightarrow> u32) \<Rightarrow> syntax_tree \<Rightarrow> syntax_tree" where
  "move_tree f (SynTree cls kind lo hi ts) = SynTree cls kind (f lo) (f hi) (map (move_tree f) ts)"

primrec tree_lo :: "syntax_tree \<Rightarrow> u32" where
  "tree_lo (SynTree cls kind lo hi ts) = lo"

primrec tree_hi :: "syntax_tree \<Rightarrow> u32" where
  "tree_hi (SynTree cls kind lo hi ts) = hi"

inductive shows_tree :: "SyntaxView \<Rightarrow> u32 \<Rightarrow> syntax_tree \<Rightarrow> bool" for v :: SyntaxView where
  shows_node: "view_record v i = SynOk r \<Longrightarrow> length ts = unat (sr_child_len r) \<Longrightarrow>
     \<forall>k < length ts. \<exists>c. view_child v r (of_nat k) = SynOk c \<and> shows_tree v c (ts ! k) \<Longrightarrow>
     shows_tree v i (SynTree (sr_class r) (sr_kind r) (sr_lo r) (sr_hi r) ts)"

inductive_cases shows_treeE: "shows_tree v i t"

lemma shows_tree_range: "shows_tree v i t \<Longrightarrow> view_record v i = SynOk r \<Longrightarrow> tree_lo t = sr_lo r \<and> tree_hi t = sr_hi r"
  by (auto elim: shows_treeE)

lemma concat_nth:
  "p < length xss \<Longrightarrow> k < length (xss ! p) \<Longrightarrow> concat xss ! (length (concat (take p xss)) + k) = xss ! p ! k"
proof (induction xss arbitrary: p)
  case (Cons xs xss)
  then show ?case by (cases p) (auto simp: nth_append add.assoc)
qed simp

lemma concat_nth_le: "p < length xss \<Longrightarrow> length (concat (take p xss)) + length (xss ! p) \<le> length (concat xss)"
proof (induction xss arbitrary: p)
  case (Cons xs xss)
  then show ?case by (cases p) auto
qed simp

lemma length_detach_layout [simp]: "length (detach_layout v root s order) = length order"
  by (induction order arbitrary: s) auto

lemma detach_layout_nth:
  "p < length order \<Longrightarrow> detach_layout v root s order ! p =
     detach_rec root (s + length (concat (take p (map (kids v) order)))) (rec_of v (order ! p))"
proof (induction order arbitrary: p s)
  case (Cons x order)
  then show ?case by (cases p) (auto simp: add.assoc)
qed simp

lemma detach_rec_ok:
  assumes "node_ok v root x later" and "view_record v i = SynOk root" and "s + unat (sr_child_len (rec_of v x)) \<le> n"
    and "int n \<le> 4294967295"
  shows "record_ok (unat (sr_hi root) - unat (sr_lo root)) n (detach_rec root s (rec_of v x))"
proof -
  note n = node_okD [OF assms(1)]
  have ok: "record_ok (unat (sv_source_len v)) (unat (sv_children v)) (rec_of v x)" "record_ok (unat (sv_source_len v)) (unat (sv_children v)) root"
    using view_record_ok [OF n(1)] view_record_ok [OF assms(2)] by blast+
  have le: "sr_lo root \<le> sr_lo (rec_of v x)" "sr_lo (rec_of v x) \<le> sr_hi (rec_of v x)" "sr_lo root \<le> sr_hi (rec_of v x)"
    using n(2) ok(1) node_lo_le_hi [OF assms(1)] by (auto simp: record_ok_def)
  have sub: "unat (sr_lo (rec_of v x) - sr_lo root) = unat (sr_lo (rec_of v x)) - unat (sr_lo root)"
    "unat (sr_hi (rec_of v x) - sr_lo root) = unat (sr_hi (rec_of v x)) - unat (sr_lo root)"
    using le by (simp_all add: unat_sub)
  have "int s \<le> 4294967295" using assms(3,4) by linarith
  then have "unat (of_nat s :: u32) = s" by (rule unat_small)
  then show ?thesis
    using ok(1) le n(3) assms(3) sub by (auto simp: record_ok_def detach_rec_def word_le_nat_alt)
qed

section \<open>Extraction shows the same tree\<close>

lemma length_order_le:
  assumes "distinct order" and "\<forall>x \<in> set order. unat (x :: u32) < n"
  shows "length order \<le> n"
proof -
  have "inj_on unat (set order)" by (auto intro: inj_onI simp: word_unat_eq_iff)
  then have "length order = card (unat ` set order)" using assms(1) by (simp add: card_image distinct_card)
  also have "\<dots> \<le> card {..<n}" using assms(2) by (intro card_mono) auto
  finally show ?thesis by simp
qed

definition walked :: "SyntaxView \<Rightarrow> SyntaxRecord \<Rightarrow> u32 \<Rightarrow> u32 list \<Rightarrow> u32 list \<Rightarrow> bool" where
  "walked v root index order mapping \<longleftrightarrow>
     view_record v index = SynOk root \<and> order \<noteq> [] \<and> hd order = index \<and> distinct order \<and>
     length order \<le> unat (sv_items v) \<and> (\<forall>p < length order. node_ok v root (order ! p) (drop (Suc p) order)) \<and>
     length mapping = unat (sv_items v) \<and> (\<forall>x \<in> set order. unat x < length mapping) \<and>
     (\<forall>p < length order. mapping ! unat (order ! p) = of_nat p)"

lemma detach_walked:
  assumes root: "view_record v index = SynOk root"
    and walk: "detach_walk v root (replicate (unat (sv_items v)) False) [] [index] = SynOk order"
  shows "\<exists>mapping. detach_mapping (replicate (unat (sv_items v)) (- 1)) 0 order = Some mapping \<and> walked v root index order mapping"
proof -
  from detach_walk_Ok [OF walk] have o: "distinct order" "\<forall>x \<in> set order. unat x < unat (sv_items v)" "order \<noteq> []" "hd order = index"
    "\<forall>p < length order. node_ok v root (order ! p) (drop (Suc p) order)" by auto
  have "\<forall>x \<in> set order. unat x < length (replicate (unat (sv_items v)) (- 1 :: u32))" using o(2) by simp
  from detach_mapping_Some [OF this o(1), of 0] obtain m where
    m: "detach_mapping (replicate (unat (sv_items v)) (- 1)) 0 order = Some m" "length m = unat (sv_items v)"
      "\<forall>p < length order. m ! unat (order ! p) = of_nat p" by auto
  have "walked v root index order m"
    unfolding walked_def using root o m(2,3) length_order_le [OF o(1,2)] by simp
  then show ?thesis using m(1) by blast
qed

lemma of_nat_not_minus_one:
  assumes "p < unat (x :: u32)"
  shows "(of_nat p :: u32) \<noteq> - 1" "unat (of_nat p :: u32) = p"
proof -
  show p: "unat (of_nat p :: u32) = p" using assms u32_bound [of x] by (intro unat_small) linarith
  have "unat x \<le> unat (- 1 :: u32)" using word_order.extremum [of x] by (simp add: word_le_nat_alt)
  then show "(of_nat p :: u32) \<noteq> - 1" using p assms by force
qed

lemma walked_later:
  assumes "walked v root index order mapping" and "p < length order" and "c \<in> set (drop (Suc p) order)"
  shows "\<exists>q. p < q \<and> q < length order \<and> c = order ! q \<and> unat c < length mapping \<and> mapping ! unat c = of_nat q \<and>
    mapping ! unat c \<noteq> - 1"
proof -
  obtain q where q: "q < length order - Suc p" "c = order ! (Suc p + q)" using assms(3) by (auto simp: in_set_conv_nth)
  moreover have "length order \<le> unat (sv_items v)" using assms(1) by (simp add: walked_def)
  ultimately have "Suc p + q < unat (sv_items v)" by linarith
  from of_nat_not_minus_one [OF this] show ?thesis
    using q assms(1) by (intro exI [of _ "Suc p + q"]) (auto simp: walked_def)
qed

definition moved_children :: "SyntaxView \<Rightarrow> u32 list \<Rightarrow> u32 list \<Rightarrow> u32 list list" where
  "moved_children v mapping order = map (\<lambda>x. map (\<lambda>c. mapping ! unat c) (kids v x)) order"

lemma walked_records:
  assumes "walked v root index order mapping"
  shows "detach_records v root mapping order [] [] = SynOk (detach_layout v root 0 order, concat (moved_children v mapping order))"
    and "\<exists>n. detach_child_total v order 0 = SynOk n"
proof -
  have "\<exists>later. node_ok v root x later \<and> (\<forall>c \<in> set later. unat c < length mapping \<and> mapping ! unat c \<noteq> - 1)"
    if x: "x \<in> set order" for x
  proof -
    obtain p where p: "p < length order" "x = order ! p" using x by (auto simp: in_set_conv_nth)
    have "node_ok v root x (drop (Suc p) order)" using p assms by (simp add: walked_def)
    moreover have "\<forall>c \<in> set (drop (Suc p) order). unat c < length mapping \<and> mapping ! unat c \<noteq> - 1"
      using walked_later [OF assms p(1)] by blast
    ultimately show ?thesis by blast
  qed
  note nodes = this
  show "detach_records v root mapping order [] [] = SynOk (detach_layout v root 0 order, concat (moved_children v mapping order))"
    using detach_records_Ok [of order v root mapping "[]" "[]"] nodes by (simp add: moved_children_def)
  show "\<exists>n. detach_child_total v order 0 = SynOk n" using nodes by (intro detach_child_total_Ok) blast
qed

lemma detach_syntax_Ok:
  assumes "detach_syntax h bytes source_len index = SynOk d"
  shows "\<exists>v root order mapping. syntax_view_new bytes source_len = SynOk v \<and> walked v root index order mapping \<and>
    encode_syntax h (detach_layout v root 0 order) (concat (moved_children v mapping order)) 0 = SynOk (ds_records d) \<and>
    ds_source_start d = sr_lo root \<and> ds_source_end d = sr_hi root \<and> ds_root d = 0"
proof -
  obtain v root order mapping records children out where
    v: "syntax_view_new bytes source_len = SynOk v" and root: "view_record v index = SynOk root"
    and walk: "detach_walk v root (replicate (unat (sv_items v)) False) [] [index] = SynOk order"
    and m: "detach_mapping (replicate (unat (sv_items v)) (- 1)) 0 order = Some mapping"
    and recs: "detach_records v root mapping order [] [] = SynOk (records, children)"
    and out: "encode_syntax h records children 0 = SynOk out"
    and d: "d = \<lparr>ds_source_start = sr_lo root, ds_source_end = sr_hi root, ds_records = out, ds_root = 0\<rparr>"
    using assms unfolding detach_syntax_def Let_def by (auto simp: s_simps split: option.splits)
  have w: "walked v root index order mapping" using detach_walked [OF root walk] m by auto
  then show ?thesis using v out d recs walked_records(1) [OF w] by auto
qed

lemma walked_view:
  assumes w: "walked v root index order mapping"
    and enc: "encode_syntax h (detach_layout v root 0 order) (concat (moved_children v mapping order)) 0 = SynOk bytes"
  shows "\<exists>v'. syntax_view_new bytes (unat (sr_hi root) - unat (sr_lo root)) = SynOk v' \<and> unat (sv_items v') = length order \<and> sv_root v' = 0 \<and>
    (\<forall>p < length order. \<exists>r. view_record v' (of_nat p) = SynOk r \<and>
       r = detach_rec root (length (concat (take p (map (kids v) order)))) (rec_of v (order ! p)) \<and>
       (\<forall>k < unat (sr_child_len r). view_child v' r (of_nat k) = SynOk (mapping ! unat (kids v (order ! p) ! k))))"
proof -
  let ?cs = "moved_children v mapping order"
  let ?rs = "detach_layout v root 0 order"
  let ?len = "unat (sr_hi root) - unat (sr_lo root)"
  have e: "int (length ?rs) \<le> 4294967295" "int (length (concat ?cs)) \<le> 4294967295" "bytes = syntax_bytes ?rs (concat ?cs) 0"
    using enc unfolding encode_syntax_Ok by simp_all
  have len: "length (concat (take p ?cs)) = length (concat (take p (map (kids v) order)))" for p
    by (simp add: moved_children_def length_concat take_map comp_def)
  have row: "length (?cs ! p) = unat (sr_child_len (rec_of v (order ! p)))" if "p < length order" for p
    using that by (simp add: moved_children_def)
  have root: "view_record v index = SynOk root" using w by (simp add: walked_def)
  have room: "length (concat (take p (map (kids v) order))) + unat (sr_child_len (rec_of v (order ! p))) \<le> length (concat ?cs)"
    if "p < length order" for p
    using concat_nth_le [of p ?cs] that row [OF that] len [of p] by (simp add: moved_children_def)
  have ok: "record_ok ?len (length (concat ?cs)) (?rs ! p)" if "p < length order" for p
  proof -
    have "node_ok v root (order ! p) (drop (Suc p) order)" using w that by (simp add: walked_def)
    from detach_rec_ok [OF this root room [OF that] e(2)] show ?thesis using that by (simp add: detach_layout_nth)
  qed
  have src: "int ?len \<le> 4294967295" using u32_bound [of "sr_hi root"] by linarith
  let ?v = "view_of_bytes ?rs (concat ?cs) 0 ?len"
  have pos: "unat (of_nat p :: u32) = p" if "p < length order" for p
    using that e(1) by (intro unat_small) simp
  have new: "syntax_view_new bytes ?len = SynOk ?v"
    unfolding e(3) by (rule view_new_encoded [OF e(1,2) src]) (use w ok [of 0] in \<open>auto simp: walked_def\<close>)
  have rec: "view_record ?v (of_nat p) = SynOk (?rs ! p)" if "p < length order" for p
    using view_record_encoded [OF e(1,2) src, of "of_nat p"] ok [OF that] that by (simp add: pos)
  have child: "view_child ?v (?rs ! p) (of_nat k) = SynOk (mapping ! unat (kids v (order ! p) ! k))"
    if p: "p < length order" and k: "k < unat (sr_child_len (rec_of v (order ! p)))" for p k
  proof -
    let ?s = "length (concat (take p (map (kids v) order)))"
    have r: "?rs ! p = detach_rec root ?s (rec_of v (order ! p))" using p by (simp add: detach_layout_nth)
    have s: "unat (sr_child_start (?rs ! p)) = ?s" "sr_child_len (?rs ! p) = sr_child_len (rec_of v (order ! p))"
      using room [OF p] e(2) unat_small [of ?s] by (simp_all add: r detach_rec_def)
    have ku: "unat (of_nat k :: u32) = k" by (rule of_nat_not_minus_one(2) [OF k])
    have "concat ?cs ! (?s + k) = ?cs ! p ! k"
      using concat_nth [of p ?cs k] p k row [OF p] len [of p] by (simp add: moved_children_def)
    then have at: "concat ?cs ! (?s + k) = mapping ! unat (kids v (order ! p) ! k)" using p k by (simp add: moved_children_def)
    have "node_ok v root (order ! p) (drop (Suc p) order)" using w p by (simp add: walked_def)
    then have "kids v (order ! p) ! k \<in> set (drop (Suc p) order)" using k by (rule kid_later)
    from walked_later [OF w p this] have "unat (mapping ! unat (kids v (order ! p) ! k)) < length order" using pos by auto
    then show ?thesis
      using view_child_encoded [OF e(1,2), of "?rs ! p" "of_nat k" 0 ?len] room [OF p] k
      by (simp add: s ku at word_less_nat_alt)
  qed
  have "unat (sv_items ?v) = length order" "sv_root ?v = 0" using unat_small [OF e(1)] by (simp_all add: view_of_bytes_def)
  moreover have "\<exists>r. view_record ?v (of_nat p) = SynOk r \<and>
       r = detach_rec root (length (concat (take p (map (kids v) order)))) (rec_of v (order ! p)) \<and>
       (\<forall>k < unat (sr_child_len r). view_child ?v r (of_nat k) = SynOk (mapping ! unat (kids v (order ! p) ! k)))"
    if "p < length order" for p
    using rec [OF that] child [OF that] that by (simp add: detach_layout_nth) (simp add: detach_rec_def)
  ultimately show ?thesis using new by blast
qed

lemma walked_tree:
  assumes w: "walked v root index order mapping"
    and v': "\<forall>p < length order. \<exists>r. view_record v' (of_nat p) = SynOk r \<and>
       r = detach_rec root (length (concat (take p (map (kids v) order)))) (rec_of v (order ! p)) \<and>
       (\<forall>k < unat (sr_child_len r). view_child v' r (of_nat k) = SynOk (mapping ! unat (kids v (order ! p) ! k)))"
  shows "p < length order \<Longrightarrow> \<exists>t. shows_tree v (order ! p) t \<and> shows_tree v' (of_nat p) (move_tree (\<lambda>x. x - sr_lo root) t)"
proof (induction "length order - p" arbitrary: p rule: less_induct)
  case (less p)
  let ?r = "rec_of v (order ! p)"
  let ?n = "unat (sr_child_len ?r)"
  obtain r where r: "view_record v' (of_nat p) = SynOk r"
    "r = detach_rec root (length (concat (take p (map (kids v) order)))) ?r"
    "\<forall>k < ?n. view_child v' r (of_nat k) = SynOk (mapping ! unat (kids v (order ! p) ! k))"
    using v' less.prems by (auto simp: detach_rec_def)
  have ok: "node_ok v root (order ! p) (drop (Suc p) order)" using w less.prems by (simp add: walked_def)
  note n = node_okD [OF ok]
  have "\<exists>t. shows_tree v (kids v (order ! p) ! k) t \<and>
      shows_tree v' (mapping ! unat (kids v (order ! p) ! k)) (move_tree (\<lambda>x. x - sr_lo root) t)" if k: "k < ?n" for k
  proof -
    have "kids v (order ! p) ! k \<in> set (drop (Suc p) order)" using ok k by (rule kid_later)
    from walked_later [OF w less.prems this] obtain q where
      q: "p < q" "q < length order" "kids v (order ! p) ! k = order ! q" "mapping ! unat (kids v (order ! p) ! k) = of_nat q" by blast
    have "length order - q < length order - p" using q by linarith
    from less.hyps [OF this q(2)] show ?thesis using q by simp
  qed
  then obtain f where f: "\<forall>k < ?n. shows_tree v (kids v (order ! p) ! k) (f k) \<and>
      shows_tree v' (mapping ! unat (kids v (order ! p) ! k)) (move_tree (\<lambda>x. x - sr_lo root) (f k))" by metis
  let ?ts = "map f [0..<?n]"
  have "shows_tree v (order ! p) (SynTree (sr_class ?r) (sr_kind ?r) (sr_lo ?r) (sr_hi ?r) ?ts)"
    using f n(5) by (intro shows_node n(1)) auto
  moreover have "shows_tree v' (of_nat p) (SynTree (sr_class r) (sr_kind r) (sr_lo r) (sr_hi r) (map (move_tree (\<lambda>x. x - sr_lo root)) ?ts))"
    using f r(3) by (intro shows_node r(1)) (auto simp: r(2) detach_rec_def)
  ultimately show ?case by (intro exI conjI) (assumption, simp add: r(2) detach_rec_def)
qed

lemma detach_tree:
  assumes "detach_syntax h bytes source_len index = SynOk d"
  shows "\<exists>v v' t. syntax_view_new bytes source_len = SynOk v \<and> shows_tree v index t \<and>
    tree_lo t = ds_source_start d \<and> tree_hi t = ds_source_end d \<and>
    syntax_view_new (ds_records d) (unat (ds_source_end d) - unat (ds_source_start d)) = SynOk v' \<and> sv_root v' = ds_root d \<and>
    shows_tree v' (ds_root d) (move_tree (\<lambda>x. x - ds_source_start d) t)"
proof -
  from detach_syntax_Ok [OF assms] obtain v root order mapping where
    v: "syntax_view_new bytes source_len = SynOk v" and w: "walked v root index order mapping"
    and e: "encode_syntax h (detach_layout v root 0 order) (concat (moved_children v mapping order)) 0 = SynOk (ds_records d)"
    and d: "ds_source_start d = sr_lo root" "ds_source_end d = sr_hi root" "ds_root d = 0" by blast
  from walked_view [OF w e] obtain v' where
    v': "syntax_view_new (ds_records d) (unat (sr_hi root) - unat (sr_lo root)) = SynOk v'" "sv_root v' = 0"
    and rows: "\<forall>p < length order. \<exists>r. view_record v' (of_nat p) = SynOk r \<and>
       r = detach_rec root (length (concat (take p (map (kids v) order)))) (rec_of v (order ! p)) \<and>
       (\<forall>k < unat (sr_child_len r). view_child v' r (of_nat k) = SynOk (mapping ! unat (kids v (order ! p) ! k)))" by blast
  have o: "0 < length order" "order ! 0 = index" using w by (auto simp: walked_def hd_conv_nth)
  from walked_tree [OF w rows o(1)] obtain t where
    "shows_tree v index t" "shows_tree v' 0 (move_tree (\<lambda>x. x - sr_lo root) t)" using o(2) by auto
  moreover have "view_record v index = SynOk root" using w by (simp add: walked_def)
  ultimately show ?thesis using v v' d shows_tree_range by fastforce
qed

text \<open>C9: a subtree that \<^verbatim>\<open>detach_syntax\<close> extracts opens as a syntax view of the extracted text, and the
  tree at its root is the tree at the requested item, every range moved to the start of that text. The
  text range it reports is the requested item's own range.\<close>
theorem detach_same_tree:
  assumes "detach_syntax h bytes source_len index = SynOk d"
  shows "\<exists>v v' t. syntax_view_new bytes source_len = SynOk v \<and> shows_tree v index t \<and>
    tree_lo t = ds_source_start d \<and> tree_hi t = ds_source_end d \<and>
    syntax_view_new (ds_records d) (unat (ds_source_end d) - unat (ds_source_start d)) = SynOk v' \<and> sv_root v' = ds_root d \<and>
    shows_tree v' (ds_root d) (move_tree (\<lambda>x. x - ds_source_start d) t)"
  using assms by (rule detach_tree)

theorem detach_same_tree_witness:
  "\<exists>d v v' t. detach_syntax syn_host sample_bytes 5 1 = SynOk d \<and> syntax_view_new sample_bytes 5 = SynOk v \<and> shows_tree v 1 t \<and>
    syntax_view_new (ds_records d) (unat (ds_source_end d) - unat (ds_source_start d)) = SynOk v' \<and>
    shows_tree v' (ds_root d) (move_tree (\<lambda>x. x - ds_source_start d) t)"
proof -
  have "case detach_syntax syn_host sample_bytes 5 1 of SynOk d \<Rightarrow> True | _ \<Rightarrow> False" by code_simp
  then obtain d where d: "detach_syntax syn_host sample_bytes 5 1 = SynOk d" by (auto split: syn.splits)
  from detach_same_tree [OF d] show ?thesis using d by blast
qed

section \<open>No panic\<close>

lemma push_children_calm [calm]: "view_ok v \<Longrightarrow> no_panic (push_children v rec n stack)"
  by (induction n arbitrary: stack) (auto intro!: no_panic_simps no_panic_bind view_child_calm view_record_calm)

lemma detach_visit_calm: "view_ok v \<Longrightarrow> no_panic (detach_visit v root x stack)"
  unfolding detach_visit_def by (intro calm) auto

lemma detach_walk_calm: "view_ok v \<Longrightarrow> no_panic (detach_walk v root seen order stack)"
proof (induction v root seen order stack rule: detach_walk.induct)
  case (2 v root seen order x stack)
  have "no_panic (detach_visit v root x stack)" using 2(2) by (rule detach_visit_calm)
  then show ?case using 2 by (auto simp: no_panic_def split: option.splits bool.splits syn.splits)
qed (simp add: no_panic_def)

lemma encode_syntax_calm [calm]: "no_panic (encode_syntax h records children root)"
  unfolding encode_syntax_def Let_def by (intro calm)

lemma detach_syntax_calm [calm]: "no_panic (detach_syntax h bytes source_len index)"
proof -
  have tail: "no_panic (case detach_mapping (replicate (unat (sv_items v)) (- 1)) 0 order of
        None \<Rightarrow> SynPanic
      | Some mapping \<Rightarrow>
          s_bind (s_reserve h (length order * size_of h ESyntaxRecord)) (\<lambda>_.
          s_bind (detach_child_total v order 0) (\<lambda>child_total.
          s_bind (s_reserve h (child_total * 4)) (\<lambda>_.
          s_bind (detach_records v root mapping order [] []) (\<lambda>(records, children).
          s_bind (encode_syntax h records children 0) (\<lambda>out.
          SynOk \<lparr>ds_source_start = sr_lo root, ds_source_end = sr_hi root, ds_records = out, ds_root = 0\<rparr>))))))"
    if "view_record v index = SynOk root" "detach_walk v root (replicate (unat (sv_items v)) False) [] [index] = SynOk order" for v root order
  proof -
    from detach_walked [OF that] obtain mapping where
      m: "detach_mapping (replicate (unat (sv_items v)) (- 1)) 0 order = Some mapping" "walked v root index order mapping" by blast
    obtain n where n: "detach_child_total v order 0 = SynOk n" using walked_records(2) [OF m(2)] by blast
    show ?thesis unfolding m(1) option.case n walked_records(1) [OF m(2)] by (simp add: s_bind_value) (intro calm)
  qed
  show ?thesis
    unfolding detach_syntax_def Let_def
    by (intro no_panic_bind no_panic_simps view_new_calm view_record_calm detach_walk_calm tail) (auto intro: view_new_ok calm)
qed

end
