(* ===== verification/Syntax_Build.thy ===== *)
theory Syntax_Build
  imports Syntax_Detach
begin

text \<open>The builders of \<^verbatim>\<open>crates/lm-abi/src/syntax.rs\<close>. A node built from parts opens as a syntax view of the
  concatenated part texts; its children are the trees of the parts, in order, each moved to where
  its text landed.\<close>

section \<open>Trees in a pair of tables\<close>

inductive table_tree :: "SyntaxRecord list \<Rightarrow> u32 list \<Rightarrow> u32 \<Rightarrow> syntax_tree \<Rightarrow> bool" for rs cs where
  table_node: "unat i < length rs \<Longrightarrow> r = rs ! unat i \<Longrightarrow> length ts = unat (sr_child_len r) \<Longrightarrow>
     unat (sr_child_start r) + unat (sr_child_len r) \<le> length cs \<Longrightarrow>
     \<forall>k < length ts. table_tree rs cs (cs ! (unat (sr_child_start r) + k)) (ts ! k) \<Longrightarrow>
     table_tree rs cs i (SynTree (sr_class r) (sr_kind r) (sr_lo r) (sr_hi r) ts)"

inductive_cases table_treeE: "table_tree rs cs i t"

lemma table_tree_index: "table_tree rs cs i t \<Longrightarrow> unat i < length rs"
  by (auto elim: table_treeE)

lemma table_tree_append: "table_tree rs cs i t \<Longrightarrow> table_tree (rs @ rs') (cs @ cs') i t"
proof (induction rule: table_tree.induct)
  case (table_node i r ts)
  then show ?case by (intro table_tree.table_node) (auto simp: nth_append)
qed

lemma table_tree_shows:
  assumes "int (length rs) \<le> 4294967295" and "int (length cs) \<le> 4294967295" and "int n \<le> 4294967295"
    and "list_all (record_ok n (length cs)) rs"
  shows "table_tree rs cs i t \<Longrightarrow> shows_tree (view_of_bytes rs cs root n) i t"
proof (induction rule: table_tree.induct)
  case (table_node i r ts)
  let ?v = "view_of_bytes rs cs root n"
  have rec: "view_record ?v i = SynOk r"
    using view_record_encoded [OF assms(1-3) table_node(1)] assms(4) table_node(1,2) by (simp add: list_all_length)
  have "\<exists>c. view_child ?v r (of_nat k) = SynOk c \<and> shows_tree ?v c (ts ! k)" if k: "k < length ts" for k
  proof -
    have ku: "unat (of_nat k :: u32) = k" using k table_node(3) by (intro of_nat_not_minus_one(2)) simp
    have sub: "table_tree rs cs (cs ! (unat (sr_child_start r) + k)) (ts ! k)"
      "shows_tree ?v (cs ! (unat (sr_child_start r) + k)) (ts ! k)" using table_node(5) k by auto
    have "view_child ?v r (of_nat k) = SynOk (cs ! (unat (sr_child_start r) + k))"
      using view_child_encoded [OF assms(1,2) table_node(4), of "of_nat k" root n] k table_node(3) table_tree_index [OF sub(1)]
      by (simp add: ku word_less_nat_alt)
    then show ?thesis using sub(2) by blast
  qed
  then show ?case using rec table_node(3) by (intro shows_node) auto
qed

section \<open>Copying a view's records\<close>

definition copied_row :: "SyntaxView \<Rightarrow> u32 \<Rightarrow> u32 \<Rightarrow> nat \<Rightarrow> nat \<Rightarrow> SyntaxRecord \<Rightarrow> u32 list \<Rightarrow> bool" where
  "copied_row v base off index start row moved \<longleftrightarrow>
     (\<exists>rec. view_record v (of_nat index) = SynOk rec \<and> unat (sr_child_start row) = start \<and>
        row = rec\<lparr>sr_lo := off + sr_lo rec, sr_hi := off + sr_hi rec, sr_child_start := sr_child_start row\<rparr> \<and>
        checked_add off (sr_hi rec) = Some (off + sr_hi rec) \<and> length moved = unat (sr_child_len rec) \<and>
        (\<forall>k < length moved. \<exists>c. view_child v rec (of_nat k) = SynOk c \<and> checked_add base c = Some (base + c) \<and> moved ! k = base + c))"

lemma checked_add_value: "checked_add a b = Some c \<Longrightarrow> c = a + b"
  by (simp add: checked_add_def split: if_splits)

lemma copy_children_Ok:
  "copy_children v base rec ks cs = SynOk cs' \<Longrightarrow>
     \<exists>moved. cs' = cs @ moved \<and> length moved = length ks \<and>
       (\<forall>j < length ks. \<exists>c. view_child v rec (of_nat (ks ! j)) = SynOk c \<and> checked_add base c = Some (base + c) \<and> moved ! j = base + c)"
proof (induction ks arbitrary: cs)
  case (Cons k ks)
  from Cons.prems obtain c m where c: "view_child v rec (of_nat k) = SynOk c" "checked_add base c = Some m"
    and rest: "copy_children v base rec ks (cs @ [m]) = SynOk cs'" by (auto simp: s_simps)
  from Cons.IH [OF rest] obtain moved where m: "cs' = cs @ [m] @ moved" "length moved = length ks"
    "\<forall>j < length ks. \<exists>c. view_child v rec (of_nat (ks ! j)) = SynOk c \<and> checked_add base c = Some (base + c) \<and> moved ! j = base + c" by auto
  have mc: "m = base + c" by (rule checked_add_value [OF c(2)])
  have "\<exists>c. view_child v rec (of_nat ((k # ks) ! j)) = SynOk c \<and> checked_add base c = Some (base + c) \<and> (m # moved) ! j = base + c"
    if "j < length (k # ks)" for j
    using that c m(3) mc by (cases j) auto
  then show ?case using m(1,2) by (intro exI [of _ "m # moved"]) auto
qed simp

lemma copy_records_Ok:
  "copy_records h v base off ixs rs cs = SynOk (rs', cs') \<Longrightarrow>
     \<exists>rows moved. rs' = rs @ rows \<and> cs' = cs @ concat moved \<and> length rows = length ixs \<and> length moved = length ixs \<and>
       (\<forall>p < length ixs. copied_row v base off (ixs ! p) (length cs + length (concat (take p moved))) (rows ! p) (moved ! p))"
proof (induction ixs arbitrary: rs cs)
  case (Cons i ixs)
  from Cons.prems obtain rec s cs1 lo hi where
    rec: "view_record v (of_nat i) = SynOk rec" and s: "try_u32 (length cs) = Some s"
    and kids: "copy_children v base rec [0..<unat (sr_child_len rec)] cs = SynOk cs1"
    and lo: "checked_add off (sr_lo rec) = Some lo" and hi: "checked_add off (sr_hi rec) = Some hi"
    and rest: "copy_records h v base off ixs (rs @ [\<lparr>sr_class = sr_class rec, sr_kind = sr_kind rec, sr_lo = lo, sr_hi = hi,
          sr_child_start = s, sr_child_len = sr_child_len rec\<rparr>]) cs1 = SynOk (rs', cs')"
    by (auto simp: s_simps)
  let ?row = "\<lparr>sr_class = sr_class rec, sr_kind = sr_kind rec, sr_lo = lo, sr_hi = hi, sr_child_start = s, sr_child_len = sr_child_len rec\<rparr>"
  from copy_children_Ok [OF kids] obtain mv where mv: "cs1 = cs @ mv" "length mv = unat (sr_child_len rec)"
    "\<forall>j < unat (sr_child_len rec). \<exists>c. view_child v rec (of_nat j) = SynOk c \<and> checked_add base c = Some (base + c) \<and> mv ! j = base + c" by auto
  from Cons.IH [OF rest] obtain rows moved where r: "rs' = (rs @ [?row]) @ rows" "cs' = cs1 @ concat moved" "length rows = length ixs"
    "length moved = length ixs"
    "\<forall>p < length ixs. copied_row v base off (ixs ! p) (length cs1 + length (concat (take p moved))) (rows ! p) (moved ! p)" by blast
  have "unat s = length cs" using s by (auto simp: try_u32_def unat_small split: if_splits)
  then have row: "copied_row v base off i (length cs) ?row mv"
    unfolding copied_row_def using rec mv(2,3) checked_add_value [OF lo] checked_add_value [OF hi] hi by (intro exI [of _ rec]) auto
  have "copied_row v base off ((i # ixs) ! p) (length cs + length (concat (take p (mv # moved)))) ((?row # rows) ! p) ((mv # moved) ! p)"
    if "p < length (i # ixs)" for p
    using that row r(5) mv(1) by (cases p) (auto simp: add.assoc)
  then show ?case using r(1-4) mv(1) by (intro exI [of _ "?row # rows"] exI [of _ "mv # moved"]) auto
qed simp

lemma checked_add_range: "checked_add a b = Some c \<Longrightarrow> c = a + b \<and> unat c = unat a + unat b"
  by (simp add: checked_add_Some unat_checked_add)

lemma copied_tree:
  assumes base: "unat base = length rs"
    and rows: "length rows = unat (sv_items v)" "length moved = unat (sv_items v)"
      "\<forall>p < unat (sv_items v). copied_row v base off p (length cs + length (concat (take p moved))) (rows ! p) (moved ! p)"
  shows "shows_tree v i t \<Longrightarrow> checked_add base i = Some (base + i) \<Longrightarrow>
    table_tree (rs @ rows) (cs @ concat moved) (base + i) (move_tree (\<lambda>x. off + x) t)"
proof (induction rule: shows_tree.induct)
  case (shows_node i r ts)
  have i: "unat i < unat (sv_items v)" using view_record_ok [OF shows_node(1)] by (simp add: word_less_nat_alt)
  have ui: "unat (base + i) = length rs + unat i" using checked_add_range [OF shows_node(4)] base by simp
  let ?row = "rows ! unat i"
  let ?mv = "moved ! unat i"
  let ?s = "length (concat (take (unat i) moved))"
  have c: "unat (sr_child_start ?row) = length cs + ?s"
    "?row = r\<lparr>sr_lo := off + sr_lo r, sr_hi := off + sr_hi r, sr_child_start := sr_child_start ?row\<rparr>"
    "length ?mv = unat (sr_child_len r)"
    "\<forall>k < length ?mv. \<exists>c. view_child v r (of_nat k) = SynOk c \<and> checked_add base c = Some (base + c) \<and> ?mv ! k = base + c"
    using rows(3) i shows_node(1) unfolding copied_row_def by auto
  have f: "sr_class ?row = sr_class r" "sr_kind ?row = sr_kind r" "sr_lo ?row = off + sr_lo r" "sr_hi ?row = off + sr_hi r"
    "sr_child_len ?row = sr_child_len r" by (subst c(2), simp)+
  have im: "unat i < length moved" using i rows(2) by simp
  have room: "?s + length ?mv \<le> length (concat moved)" by (rule concat_nth_le [OF im])
  have "table_tree (rs @ rows) (cs @ concat moved) ((cs @ concat moved) ! (unat (sr_child_start ?row) + k)) (map (move_tree (\<lambda>x. off + x)) ts ! k)"
    if k: "k < length ts" for k
  proof -
    have km: "k < length ?mv" using k shows_node(2) c(3) by simp
    obtain d where d: "view_child v r (of_nat k) = SynOk d" "checked_add base d = Some (base + d)" "?mv ! k = base + d"
      using c(4) km by blast
    have "(cs @ concat moved) ! (unat (sr_child_start ?row) + k) = base + d"
      using concat_nth [OF im km] d(3) by (simp add: c(1) nth_append add.assoc)
    moreover have "table_tree (rs @ rows) (cs @ concat moved) (base + d) (move_tree (\<lambda>x. off + x) (ts ! k))"
      using shows_node(3) k d(1,2) by auto
    ultimately show ?thesis using k by simp
  qed
  then have "table_tree (rs @ rows) (cs @ concat moved) (base + i)
      (SynTree (sr_class ?row) (sr_kind ?row) (sr_lo ?row) (sr_hi ?row) (map (move_tree (\<lambda>x. off + x)) ts))"
    using i rows(1) shows_node(2) room c(3)
    by (intro table_node) (auto simp: ui f c(1))
  then show ?case by (simp add: f)
qed

lemma copied_row_ok:
  assumes "copied_row v base off i start row moved" and "start + length moved \<le> n" and "unat off + unat (sv_source_len v) \<le> m"
  shows "record_ok m n row"
proof -
  obtain rec where r: "view_record v (of_nat i) = SynOk rec" "unat (sr_child_start row) = start"
    "row = rec\<lparr>sr_lo := off + sr_lo rec, sr_hi := off + sr_hi rec, sr_child_start := sr_child_start row\<rparr>"
    "checked_add off (sr_hi rec) = Some (off + sr_hi rec)" "length moved = unat (sr_child_len rec)"
    using assms(1) unfolding copied_row_def by blast
  have f: "sr_class row = sr_class rec" "sr_kind row = sr_kind rec" "sr_lo row = off + sr_lo rec" "sr_hi row = off + sr_hi rec"
    "sr_child_len row = sr_child_len rec" by (subst r(3), simp)+
  have ok: "record_ok (unat (sv_source_len v)) (unat (sv_children v)) rec" using view_record_ok [OF r(1)] by simp
  have hi: "unat (off + sr_hi rec) = unat off + unat (sr_hi rec)" using checked_add_range [OF r(4)] by simp
  have le: "unat (sr_lo rec) \<le> unat (sr_hi rec)" using ok by (simp add: record_ok_def word_le_nat_alt)
  have "unat off + unat (sr_lo rec) < 2 ^ 32" using r(4) le by (simp add: checked_add_Some)
  then have "checked_add off (sr_lo rec) = Some (off + sr_lo rec)" by (simp add: checked_add_Some)
  then have lo: "unat (off + sr_lo rec) = unat off + unat (sr_lo rec)" using checked_add_range by blast
  show ?thesis using ok assms(2,3) le by (auto simp: record_ok_def f hi lo r(2,5) word_le_nat_alt)
qed

section \<open>Adding a part\<close>

definition part_shows :: "SyntaxPart \<Rightarrow> u8 list \<Rightarrow> syntax_tree \<Rightarrow> bool" where
  "part_shows part piece t \<longleftrightarrow>
     (\<exists>v. syntax_view_new (sp_records part) (length (sp_source part)) = SynOk v \<and> shows_tree v (sp_index part) t) \<and>
     str_get (sp_source part) (unat (tree_lo t)) (unat (tree_hi t)) = Some piece"

lemma move_tree_comp: "move_tree f (move_tree g t) = move_tree (f \<circ> g) t"
  by (induction t) (auto simp: comp_def)

lemma str_get_length: "str_get s lo hi = Some piece \<Longrightarrow> length piece = hi - lo"
  by (auto simp: str_get_def is_char_boundary_def split: if_splits)

lemma view_new_source_len: "syntax_view_new bytes n = SynOk v \<Longrightarrow> unat (sv_source_len v) = n"
  unfolding syntax_view_new_def Let_def by (auto simp: s_simps try_u32_def unat_small split: if_splits)

lemma build_part_Ok:
  assumes "build_part h part st = SynOk st'"
  shows "\<exists>piece t rows moved root. bd_source st' = bd_source st @ piece \<and> bd_records st' = bd_records st @ rows \<and>
    bd_children st' = bd_children st @ moved \<and> bd_roots st' = bd_roots st @ [root] \<and> part_shows part piece t \<and>
    table_tree (bd_records st') (bd_children st') root (move_tree (\<lambda>x. of_nat (length (bd_source st)) + (x - tree_lo t)) t) \<and>
    list_all (record_ok (length (bd_source st')) (length (bd_children st'))) rows"
proof -
  obtain d piece ofs v base root rs cs where
    d: "detach_syntax h (sp_records part) (length (sp_source part)) (sp_index part) = SynOk d"
    and piece: "str_get (sp_source part) (unat (ds_source_start d)) (unat (ds_source_end d)) = Some piece"
    and ofs: "try_u32 (length (bd_source st)) = Some ofs" and v: "syntax_view_new (ds_records d) (length piece) = SynOk v"
    and base: "try_u32 (length (bd_records st)) = Some base" and root: "checked_add base (sv_root v) = Some root"
    and copy: "copy_records h v base ofs [0..<unat (sv_items v)] (bd_records st) (bd_children st) = SynOk (rs, cs)"
    and st': "st' = \<lparr>bd_source = bd_source st @ piece, bd_records = rs, bd_children = cs, bd_roots = bd_roots st @ [root]\<rparr>"
    using assms unfolding build_part_def by (auto simp: s_simps)
  from detach_tree [OF d] obtain w t where
    w: "syntax_view_new (sp_records part) (length (sp_source part)) = SynOk w" "shows_tree w (sp_index part) t"
    and range: "tree_lo t = ds_source_start d" "tree_hi t = ds_source_end d"
    and t: "sv_root v = ds_root d" "shows_tree v (ds_root d) (move_tree (\<lambda>x. x - ds_source_start d) t)"
    using v str_get_length [OF piece] by auto
  have psh: "part_shows part piece t" using w piece range unfolding part_shows_def by auto
  have ub: "unat base = length (bd_records st)" "unat ofs = length (bd_source st)" "ofs = of_nat (length (bd_source st))"
    using base ofs by (auto simp: try_u32_def unat_small split: if_splits)
  from copy_records_Ok [OF copy] obtain rows moved where
    r: "rs = bd_records st @ rows" "cs = bd_children st @ concat moved" "length rows = unat (sv_items v)" "length moved = unat (sv_items v)"
      "\<forall>p < unat (sv_items v). copied_row v base ofs p (length (bd_children st) + length (concat (take p moved))) (rows ! p) (moved ! p)"
    by auto
  have "checked_add base (ds_root d) = Some (base + ds_root d)" "root = base + ds_root d"
    using root t(1) checked_add_value [OF root] by auto
  then have tree: "table_tree rs cs root (move_tree (\<lambda>x. of_nat (length (bd_source st)) + (x - tree_lo t)) t)"
    using copied_tree [OF ub(1) r(3-5) t(2)] by (simp add: r(1,2) move_tree_comp comp_def range ub(3))
  have "record_ok (length (bd_source st @ piece)) (length cs) (rows ! p)" if p: "p < length rows" for p
  proof (rule copied_row_ok)
    show "copied_row v base ofs p (length (bd_children st) + length (concat (take p moved))) (rows ! p) (moved ! p)" using r(3,5) p by simp
    show "length (bd_children st) + length (concat (take p moved)) + length (moved ! p) \<le> length cs"
      using concat_nth_le [of p moved] p r(2-4) by simp
  qed (simp add: ub(2) view_new_source_len [OF v])
  then have ok: "list_all (record_ok (length (bd_source st')) (length (bd_children st'))) rows" by (simp add: list_all_length st')
  show ?thesis
    using r(1,2) psh tree ok
    by (intro exI [of _ piece] exI [of _ t] exI [of _ rows] exI [of _ "concat moved"] exI [of _ root]) (simp add: st')
qed

definition placed_tree :: "u8 list list \<Rightarrow> syntax_tree list \<Rightarrow> nat \<Rightarrow> syntax_tree" where
  "placed_tree pieces ts j = move_tree (\<lambda>x. of_nat (length (concat (take j pieces))) + (x - tree_lo (ts ! j))) (ts ! j)"

definition build_inv :: "SyntaxPart list \<Rightarrow> u8 list list \<Rightarrow> syntax_tree list \<Rightarrow> BuildState \<Rightarrow> bool" where
  "build_inv parts pieces ts st \<longleftrightarrow>
     bd_source st = concat pieces \<and> length pieces = length parts \<and> length ts = length parts \<and> length (bd_roots st) = length parts \<and>
     list_all (record_ok (length (concat pieces)) (length (bd_children st))) (bd_records st) \<and>
     (\<forall>j < length parts. part_shows (parts ! j) (pieces ! j) (ts ! j) \<and>
        table_tree (bd_records st) (bd_children st) (bd_roots st ! j) (placed_tree pieces ts j))"

lemma record_ok_mono: "record_ok m n r \<Longrightarrow> m \<le> m' \<Longrightarrow> n \<le> n' \<Longrightarrow> record_ok m' n' r"
  by (auto simp: record_ok_def)

lemma placed_tree_append: "j < length ts \<Longrightarrow> length pieces = length ts \<Longrightarrow> placed_tree (pieces @ [piece]) (ts @ [t]) j = placed_tree pieces ts j"
  by (simp add: placed_tree_def nth_append)

lemma build_part_inv:
  assumes "build_inv old_parts pieces ts st" and "build_part h part st = SynOk st'"
  shows "\<exists>piece t. build_inv (old_parts @ [part]) (pieces @ [piece]) (ts @ [t]) st'"
proof -
  from build_part_Ok [OF assms(2)] obtain piece t rows moved root where
    s: "bd_source st' = bd_source st @ piece" "bd_records st' = bd_records st @ rows" "bd_children st' = bd_children st @ moved"
      "bd_roots st' = bd_roots st @ [root]" "part_shows part piece t"
      "table_tree (bd_records st') (bd_children st') root (move_tree (\<lambda>x. of_nat (length (bd_source st)) + (x - tree_lo t)) t)"
      "list_all (record_ok (length (bd_source st')) (length (bd_children st'))) rows" by blast
  have i: "bd_source st = concat pieces" "length pieces = length old_parts" "length ts = length old_parts" "length (bd_roots st) = length old_parts"
    "list_all (record_ok (length (concat pieces)) (length (bd_children st))) (bd_records st)"
    and old: "\<forall>j < length old_parts. part_shows (old_parts ! j) (pieces ! j) (ts ! j) \<and>
        table_tree (bd_records st) (bd_children st) (bd_roots st ! j) (placed_tree pieces ts j)"
    using assms(1) unfolding build_inv_def by auto
  have "part_shows ((old_parts @ [part]) ! j) ((pieces @ [piece]) ! j) ((ts @ [t]) ! j) \<and>
      table_tree (bd_records st') (bd_children st') (bd_roots st' ! j) (placed_tree (pieces @ [piece]) (ts @ [t]) j)"
    if j: "j < length (old_parts @ [part])" for j
  proof (cases "j = length old_parts")
    case True
    then show ?thesis using s(5,6) i by (simp add: s(4) nth_append placed_tree_def)
  next
    case False
    then have j: "j < length old_parts" using j by simp
    from old j have "table_tree (bd_records st') (bd_children st') (bd_roots st ! j) (placed_tree pieces ts j)"
      unfolding s(2,3) by (auto intro: table_tree_append)
    then show ?thesis using j i old by (simp add: s(4) nth_append placed_tree_append)
  qed
  moreover have "list_all (record_ok (length (concat (pieces @ [piece]))) (length (bd_children st'))) (bd_records st')"
    using i(5) s(7) unfolding s(2) by (auto simp: s(1,3) i(1) list_all_iff intro: record_ok_mono)
  ultimately have "build_inv (old_parts @ [part]) (pieces @ [piece]) (ts @ [t]) st'"
    using i by (simp add: build_inv_def s(1,4))
  then show ?thesis by blast
qed

lemma build_parts_inv:
  "build_parts h parts st = SynOk st' \<Longrightarrow> build_inv old_parts pieces ts st \<Longrightarrow> \<exists>pieces ts. build_inv (old_parts @ parts) pieces ts st'"
proof (induction parts arbitrary: old_parts pieces ts st)
  case (Cons part parts)
  from Cons.prems(1) obtain st1 where st1: "build_part h part st = SynOk st1" "build_parts h parts st1 = SynOk st'"
    by (auto simp: s_simps)
  from build_part_inv [OF Cons.prems(2) st1(1)] obtain piece t where "build_inv (old_parts @ [part]) (pieces @ [piece]) (ts @ [t]) st1" by blast
  from Cons.IH [OF st1(2) this] show ?case by simp
qed auto

section \<open>The built node\<close>

text \<open>C10: a node built from parts opens as a syntax view of the concatenated part texts. The tree at its root
  has the requested kind, covers the whole text, and has as children exactly the trees of the parts, in
  order, each moved to the place where its text was appended.\<close>
theorem built_node_tree:
  assumes "build_syntax_node h kind parts = SynOk b"
  shows "\<exists>cls pieces ts v. syntax_kind_class kind = Some cls \<and> length pieces = length parts \<and> length ts = length parts \<and>
    (\<forall>j < length parts. part_shows (parts ! j) (pieces ! j) (ts ! j)) \<and> bs_source b = concat pieces \<and>
    syntax_view_new (bs_records b) (length (bs_source b)) = SynOk v \<and>
    shows_tree v (sv_root v)
      (SynTree cls kind 0 (of_nat (length (bs_source b))) (map (placed_tree pieces ts) [0..<length parts]))"
proof -
  obtain cls st cstart clen root hi out where
    cls: "syntax_kind_class kind = Some cls" "cls \<in> {SynNode, SynInvalid}"
    and parts: "build_parts h parts \<lparr>bd_source = [], bd_records = [], bd_children = [], bd_roots = []\<rparr> = SynOk st"
    and u: "try_u32 (length (bd_children st)) = Some cstart" "try_u32 (length (bd_roots st)) = Some clen"
      "try_u32 (length (bd_records st)) = Some root" "try_u32 (length (bd_source st)) = Some hi"
    and out: "encode_syntax h (bd_records st @ [\<lparr>sr_class = cls, sr_kind = kind, sr_lo = 0, sr_hi = hi,
           sr_child_start = cstart, sr_child_len = clen\<rparr>]) (bd_children st @ bd_roots st) root = SynOk out"
    and b: "b = \<lparr>bs_source = bd_source st, bs_records = out\<rparr>"
    using assms unfolding build_syntax_node_def by (auto simp: s_simps)
  have "build_inv [] [] [] \<lparr>bd_source = [], bd_records = [], bd_children = [], bd_roots = []\<rparr>" by (simp add: build_inv_def)
  from build_parts_inv [OF parts this] obtain pieces ts where inv: "build_inv parts pieces ts st" by auto
  have i: "bd_source st = concat pieces" "length pieces = length parts" "length ts = length parts" "length (bd_roots st) = length parts"
    "list_all (record_ok (length (concat pieces)) (length (bd_children st))) (bd_records st)"
    and psh: "\<forall>j < length parts. part_shows (parts ! j) (pieces ! j) (ts ! j)"
    and trees: "\<forall>j < length parts. table_tree (bd_records st) (bd_children st) (bd_roots st ! j) (placed_tree pieces ts j)"
    using inv unfolding build_inv_def by auto
  let ?r = "\<lparr>sr_class = cls, sr_kind = kind, sr_lo = 0, sr_hi = hi, sr_child_start = cstart, sr_child_len = clen\<rparr>"
  let ?rs = "bd_records st @ [?r]"
  let ?cs = "bd_children st @ bd_roots st"
  let ?n = "length (bd_source st)"
  have un: "unat cstart = length (bd_children st)" "unat clen = length parts" "unat root = length (bd_records st)" "unat hi = ?n"
    "hi = of_nat ?n" "int ?n \<le> 4294967295"
    using u i(4) by (auto simp: try_u32_def unat_small split: if_splits)
  have e: "int (length ?rs) \<le> 4294967295" "int (length ?cs) \<le> 4294967295" "out = syntax_bytes ?rs ?cs root" "unat root < length ?rs"
    using out unfolding encode_syntax_Ok by simp_all
  have "record_ok ?n (length ?cs) ?r" using cls un i(4) by (auto simp: record_ok_def)
  moreover have "list_all (record_ok ?n (length ?cs)) (bd_records st)"
    using i(1,5) by (auto simp: list_all_iff intro: record_ok_mono)
  ultimately have ok: "list_all (record_ok ?n (length ?cs)) ?rs" by simp
  let ?v = "view_of_bytes ?rs ?cs root ?n"
  have view: "syntax_view_new out ?n = SynOk ?v"
    unfolding e(3) using ok e(4) by (intro view_new_encoded e(1,2,4) un(6)) (simp add: list_all_length)
  have sub: "table_tree ?rs ?cs (?cs ! (unat cstart + k)) (placed_tree pieces ts k)" if "k < length parts" for k
    using that trees i(4) by (auto simp: un(1) nth_append intro: table_tree_append)
  have "table_tree ?rs ?cs root (SynTree (sr_class ?r) (sr_kind ?r) (sr_lo ?r) (sr_hi ?r) (map (placed_tree pieces ts) [0..<length parts]))"
    by (rule table_node) (use e(4) un i(4) sub in \<open>auto simp: nth_append\<close>)
  from table_tree_shows [OF e(1,2) un(6) ok this, of root]
  have "shows_tree ?v (sv_root ?v) (SynTree cls kind 0 hi (map (placed_tree pieces ts) [0..<length parts]))"
    by (simp add: view_of_bytes_def)
  then show ?thesis using cls(1) i(1-3) psh view unfolding b un(5) by auto
qed

definition sample_part :: SyntaxPart where
  "sample_part = \<lparr>sp_source = [52, 48, 32, 43, 10], sp_records = sample_bytes, sp_index = 1\<rparr>"

theorem built_node_tree_witness:
  "\<exists>b cls pieces ts v. build_syntax_node syn_host KIND_STATEMENT [sample_part, sample_part] = SynOk b \<and>
    (\<forall>j < 2. part_shows sample_part (pieces ! j) (ts ! j)) \<and> bs_source b = concat pieces \<and>
    syntax_view_new (bs_records b) (length (bs_source b)) = SynOk v \<and>
    shows_tree v (sv_root v) (SynTree cls KIND_STATEMENT 0 (of_nat (length (bs_source b))) (map (placed_tree pieces ts) [0..<2]))"
proof -
  have "case build_syntax_node syn_host KIND_STATEMENT [sample_part, sample_part] of SynOk b \<Rightarrow> True | _ \<Rightarrow> False" by code_simp
  then obtain b where b: "build_syntax_node syn_host KIND_STATEMENT [sample_part, sample_part] = SynOk b" by (auto split: syn.splits)
  have two: "\<forall>j < 2. [sample_part, sample_part] ! j = sample_part" by (auto simp: less_2_cases_iff)
  have len: "length [sample_part, sample_part] = 2" by simp
  from built_node_tree [OF b] obtain cls pieces ts v where
    "\<forall>j < 2. part_shows ([sample_part, sample_part] ! j) (pieces ! j) (ts ! j)" "bs_source b = concat pieces"
    "syntax_view_new (bs_records b) (length (bs_source b)) = SynOk v"
    "shows_tree v (sv_root v) (SynTree cls KIND_STATEMENT 0 (of_nat (length (bs_source b))) (map (placed_tree pieces ts) [0..<2]))"
    unfolding len by blast
  then show ?thesis using b two by metis
qed

section \<open>No panic in the builders\<close>

lemma copy_children_calm [calm]: "no_panic (copy_children v base rec ks cs)"
  by (induction ks arbitrary: cs) (auto intro!: no_panic_simps no_panic_bind view_child_calm)

lemma copy_records_calm [calm]: "view_ok v \<Longrightarrow> no_panic (copy_records h v base ofs ixs rs cs)"
  by (induction ixs arbitrary: rs cs)
     (auto intro!: no_panic_simps no_panic_bind view_record_calm copy_children_calm)

lemma build_part_calm [calm]: "no_panic (build_part h part st)"
  unfolding build_part_def
  by (intro no_panic_bind no_panic_simps detach_syntax_calm view_new_calm copy_records_calm)
     (auto intro: view_new_ok calm split: prod.split)

lemma build_parts_calm [calm]: "no_panic (build_parts h parts st)"
  by (induction parts arbitrary: st) (auto intro!: no_panic_simps no_panic_bind build_part_calm)

text \<open>C27: opening, extracting from and building syntax records never panics, on any bytes: malformed records,
  cyclic child lists, foreign indices and lengths past the record format all come back as an error, every slice
  index is in range, and no subtraction of source offsets underflows.\<close>
theorem syntax_never_panics:
  "syntax_view_new bytes n \<noteq> SynPanic \<and> detach_syntax h bytes n index \<noteq> SynPanic \<and>
   build_syntax_leaf h cls kind leaf \<noteq> SynPanic \<and> build_syntax_node h kind parts \<noteq> SynPanic"
proof -
  have "no_panic (build_syntax_leaf h cls kind leaf)" unfolding build_syntax_leaf_def by (intro calm)
  moreover have "no_panic (build_syntax_node h kind parts)"
    unfolding build_syntax_node_def by (intro no_panic_bind no_panic_simps build_parts_calm encode_syntax_calm)
  ultimately show ?thesis using view_new_calm detach_syntax_calm unfolding no_panic_def by blast
qed

end
