(* ===== verification/Abi_Types.thy ===== *)
theory Abi_Types
  imports Fault
begin

text \<open>
  The tables of the operation manifest, \<^verbatim>\<open>crates/lm-abi/src/lib.rs\<close>: the groups and effect
  sets, the manifest types with their canonical text, the intrinsics and the operations.
  A string is the list of its UTF-8 bytes as characters; every string of these tables is
  ASCII text.
\<close>

section \<open>Groups\<close>

definition ABI_VERSION :: u32 where
  "ABI_VERSION = 47"

definition GROUPS :: "string list" where
  "GROUPS =
    [''Io'', ''Fs'', ''Clock'', ''Rand'', ''Net'', ''Proc'', ''Vm'', ''Compiler'', ''Reflect'', ''Wait'', ''Dns'',
     ''Tcp'', ''Tcp.Stream'', ''Tcp.Listener'', ''Tcp.Client'', ''Tcp.Server'', ''Http.CleartextClient'', ''Tls'',
     ''Tls.Stream'', ''Tls.Client'', ''Http.Client'', ''Choose'', ''Env'', ''Args'', ''Entropy'', ''Tty'', ''Signal'',
     ''Pipe'', ''Exec'', ''Tls.Server'', ''Udp'', ''Udp.Socket'']"

definition TCP_STREAM_MEMBERS :: "string list" where
  "TCP_STREAM_MEMBERS =
    [''Tcp.Read'', ''Tcp.Write'', ''Tcp.Shutdown'', ''Tcp.LocalAddress'', ''Tcp.PeerAddress'', ''Tcp.Close'']"

definition TCP_LISTENER_MEMBERS :: "string list" where
  "TCP_LISTENER_MEMBERS =
    [''Tcp.Listen'', ''Tcp.Accept'', ''Tcp.LocalAddress'', ''Tcp.Close'']"

definition TCP_CLIENT_MEMBERS :: "string list" where
  "TCP_CLIENT_MEMBERS =
    [''Tcp.Connect'', ''Tcp.Stream'']"

definition TCP_SERVER_MEMBERS :: "string list" where
  "TCP_SERVER_MEMBERS =
    [''Tcp.Listener'', ''Tcp.Stream'']"

definition HTTP_CLEARTEXT_MEMBERS :: "string list" where
  "HTTP_CLEARTEXT_MEMBERS =
    [''Dns.Resolve'', ''Tcp.Client'']"

definition TLS_STREAM_MEMBERS :: "string list" where
  "TLS_STREAM_MEMBERS =
    [''Tls.Read'', ''Tls.Write'', ''Tls.Shutdown'', ''Tls.LocalAddress'', ''Tls.PeerAddress'', ''Tls.Close'']"

definition TLS_CLIENT_MEMBERS :: "string list" where
  "TLS_CLIENT_MEMBERS =
    [''Tls.Handshake'', ''Tls.Stream'']"

definition TLS_SERVER_MEMBERS :: "string list" where
  "TLS_SERVER_MEMBERS =
    [''Tls.ServerHandshake'', ''Tls.Stream'']"

definition UDP_SOCKET_MEMBERS :: "string list" where
  "UDP_SOCKET_MEMBERS =
    [''Udp.SendTo'', ''Udp.RecvFrom'', ''Udp.LocalAddress'', ''Udp.Close'']"

definition UDP_MEMBERS :: "string list" where
  "UDP_MEMBERS =
    [''Udp.Bind'', ''Udp.Socket'']"

definition HTTP_CLIENT_MEMBERS :: "string list" where
  "HTTP_CLIENT_MEMBERS =
    [''Dns.Resolve'', ''Tcp.Client'', ''Tls.Client'']"

definition GROUP_MEMBERS :: "string list list" where
  "GROUP_MEMBERS =
    [[], [], [], [], [], [], [], [], [], [], [], [], TCP_STREAM_MEMBERS, TCP_LISTENER_MEMBERS, TCP_CLIENT_MEMBERS,
     TCP_SERVER_MEMBERS, HTTP_CLEARTEXT_MEMBERS, [], TLS_STREAM_MEMBERS, TLS_CLIENT_MEMBERS, HTTP_CLIENT_MEMBERS, [],
     [], [], [], [], [], [], [], TLS_SERVER_MEMBERS, UDP_MEMBERS, UDP_SOCKET_MEMBERS]"

section \<open>Manifest types\<close>

datatype (plugins only: code size) AbiPrimitive =
    Prim_Unit | Prim_Never | Prim_Bool | Prim_Int | Prim_Float | Prim_String | Prim_Bytes | Prim_VmSnapshot
  | Prim_Fault

primrec primitive_text :: "AbiPrimitive \<Rightarrow> string" where
  "primitive_text Prim_Unit = ''()''"
| "primitive_text Prim_Never = ''Never''"
| "primitive_text Prim_Bool = ''Bool''"
| "primitive_text Prim_Int = ''Int''"
| "primitive_text Prim_Float = ''Float''"
| "primitive_text Prim_String = ''String''"
| "primitive_text Prim_Bytes = ''Bytes''"
| "primitive_text Prim_VmSnapshot = ''VmSnapshot''"
| "primitive_text Prim_Fault = ''Fault''"

datatype (plugins only: code size) AbiCore =
    Core_Text | Core_Substring | Core_Char | Core_StringBuilder | Core_ByteBuffer | Core_Path | Core_OpenOptions
  | Core_SeekFrom | Core_FileKind | Core_FileInfo | Core_DirEntry | Core_RenameMode | Core_IoError
  | Core_FsError | Core_EnvError | Core_EntropyError | Core_SnapshotError | Core_IpAddress | Core_SocketAddress
  | Core_NetError | Core_TcpRead | Core_Shutdown | Core_TlsError | Core_Artifact | Core_CompileEnv
  | Core_CompileOptions | Core_CompileErrors | Core_DynValue | Core_SyntaxTree | Core_SyntaxElement
  | Core_SyntaxNode | Core_SyntaxToken | Core_SyntaxTrivia | Core_SyntaxBuilder | Core_SyntaxParse
  | Core_StdStream | Core_TtySize | Core_TtyError | Core_SignalKind | Core_SignalError | Core_PipeError
  | Core_ChildInput | Core_ChildOutput | Core_ChildEnv | Core_ExecSpec | Core_ChildStatus | Core_ExecError
  | Core_UdpDatagram | Core_Regex | Core_RegexMatch

primrec core_text :: "AbiCore \<Rightarrow> string" where
  "core_text Core_Text = ''Text''"
| "core_text Core_Substring = ''Substring''"
| "core_text Core_Char = ''Char''"
| "core_text Core_StringBuilder = ''StringBuilder''"
| "core_text Core_ByteBuffer = ''ByteBuffer''"
| "core_text Core_Path = ''Path''"
| "core_text Core_OpenOptions = ''OpenOptions''"
| "core_text Core_SeekFrom = ''SeekFrom''"
| "core_text Core_FileKind = ''FileKind''"
| "core_text Core_FileInfo = ''FileInfo''"
| "core_text Core_DirEntry = ''DirEntry''"
| "core_text Core_RenameMode = ''RenameMode''"
| "core_text Core_IoError = ''IoError''"
| "core_text Core_FsError = ''FsError''"
| "core_text Core_EnvError = ''EnvError''"
| "core_text Core_EntropyError = ''EntropyError''"
| "core_text Core_SnapshotError = ''SnapshotError''"
| "core_text Core_IpAddress = ''IpAddress''"
| "core_text Core_SocketAddress = ''SocketAddress''"
| "core_text Core_NetError = ''NetError''"
| "core_text Core_TcpRead = ''TcpRead''"
| "core_text Core_Shutdown = ''Shutdown''"
| "core_text Core_TlsError = ''TlsError''"
| "core_text Core_Artifact = ''Artifact''"
| "core_text Core_CompileEnv = ''CompileEnv''"
| "core_text Core_CompileOptions = ''CompileOptions''"
| "core_text Core_CompileErrors = ''CompileErrors''"
| "core_text Core_DynValue = ''DynValue''"
| "core_text Core_SyntaxTree = ''SyntaxTree''"
| "core_text Core_SyntaxElement = ''SyntaxElement''"
| "core_text Core_SyntaxNode = ''SyntaxNode''"
| "core_text Core_SyntaxToken = ''SyntaxToken''"
| "core_text Core_SyntaxTrivia = ''SyntaxTrivia''"
| "core_text Core_SyntaxBuilder = ''SyntaxBuilder''"
| "core_text Core_SyntaxParse = ''SyntaxParse''"
| "core_text Core_StdStream = ''StdStream''"
| "core_text Core_TtySize = ''TtySize''"
| "core_text Core_TtyError = ''TtyError''"
| "core_text Core_SignalKind = ''SignalKind''"
| "core_text Core_SignalError = ''SignalError''"
| "core_text Core_PipeError = ''PipeError''"
| "core_text Core_ChildInput = ''ChildInput''"
| "core_text Core_ChildOutput = ''ChildOutput''"
| "core_text Core_ChildEnv = ''ChildEnv''"
| "core_text Core_ExecSpec = ''ExecSpec''"
| "core_text Core_ChildStatus = ''ChildStatus''"
| "core_text Core_ExecError = ''ExecError''"
| "core_text Core_UdpDatagram = ''UdpDatagram''"
| "core_text Core_Regex = ''Regex''"
| "core_text Core_RegexMatch = ''RegexMatch''"

datatype (plugins only: code size) AbiNative =
    Native_FileHandle | Native_TcpResource | Native_TcpStream | Native_TcpListener | Native_TlsStream
  | Native_RawMode | Native_SignalStream | Native_PipeEnd | Native_PipeReader | Native_PipeWriter
  | Native_Child | Native_UdpSocket

primrec native_text :: "AbiNative \<Rightarrow> string" where
  "native_text Native_FileHandle = ''FileHandle''"
| "native_text Native_TcpResource = ''TcpResource''"
| "native_text Native_TcpStream = ''TcpStream''"
| "native_text Native_TcpListener = ''TcpListener''"
| "native_text Native_TlsStream = ''TlsStream''"
| "native_text Native_RawMode = ''RawMode''"
| "native_text Native_SignalStream = ''SignalStream''"
| "native_text Native_PipeEnd = ''PipeEnd''"
| "native_text Native_PipeReader = ''PipeReader''"
| "native_text Native_PipeWriter = ''PipeWriter''"
| "native_text Native_Child = ''Child''"
| "native_text Native_UdpSocket = ''UdpSocket''"

datatype (plugins only: code size) AbiConstructor =
    Ctor_Option | Ctor_Result

primrec constructor_text :: "AbiConstructor \<Rightarrow> string" where
  "constructor_text Ctor_Option = ''Option''"
| "constructor_text Ctor_Result = ''Result''"

primrec constructor_arity :: "AbiConstructor \<Rightarrow> nat" where
  "constructor_arity Ctor_Option = 1"
| "constructor_arity Ctor_Result = 2"

text \<open>A resource identity is its 32 bytes.\<close>

datatype (plugins only: code size) AbiType =
    ATPrimitive AbiPrimitive
  | ATCore AbiCore
  | ATNative AbiNative
  | ATVar u32
  | ATList AbiType
  | ATMap AbiType AbiType
  | ATTuple "AbiType list"
  | ATApply AbiConstructor "AbiType list"
  | ATResource "u8 list"

definition AT_UNIT :: AbiType where "AT_UNIT = ATPrimitive Prim_Unit"
definition AT_NEVER :: AbiType where "AT_NEVER = ATPrimitive Prim_Never"
definition AT_BOOL :: AbiType where "AT_BOOL = ATPrimitive Prim_Bool"
definition AT_INT :: AbiType where "AT_INT = ATPrimitive Prim_Int"
definition AT_FLOAT :: AbiType where "AT_FLOAT = ATPrimitive Prim_Float"
definition AT_STR :: AbiType where "AT_STR = ATPrimitive Prim_String"
definition AT_BYTES :: AbiType where "AT_BYTES = ATPrimitive Prim_Bytes"
definition AT_VM_SNAPSHOT :: AbiType where "AT_VM_SNAPSHOT = ATPrimitive Prim_VmSnapshot"
definition AT_FAULT :: AbiType where "AT_FAULT = ATPrimitive Prim_Fault"
definition AT_TEXT :: AbiType where "AT_TEXT = ATCore Core_Text"
definition AT_SUBSTRING :: AbiType where "AT_SUBSTRING = ATCore Core_Substring"
definition AT_CHAR :: AbiType where "AT_CHAR = ATCore Core_Char"
definition AT_STRING_BUILDER :: AbiType where "AT_STRING_BUILDER = ATCore Core_StringBuilder"
definition AT_BYTE_BUFFER :: AbiType where "AT_BYTE_BUFFER = ATCore Core_ByteBuffer"
definition AT_PATH :: AbiType where "AT_PATH = ATCore Core_Path"
definition AT_OPEN_OPTIONS :: AbiType where "AT_OPEN_OPTIONS = ATCore Core_OpenOptions"
definition AT_SEEK_FROM :: AbiType where "AT_SEEK_FROM = ATCore Core_SeekFrom"
definition AT_FILE_KIND :: AbiType where "AT_FILE_KIND = ATCore Core_FileKind"
definition AT_FILE_INFO :: AbiType where "AT_FILE_INFO = ATCore Core_FileInfo"
definition AT_DIR_ENTRY :: AbiType where "AT_DIR_ENTRY = ATCore Core_DirEntry"
definition AT_RENAME_MODE :: AbiType where "AT_RENAME_MODE = ATCore Core_RenameMode"
definition AT_IO_ERROR :: AbiType where "AT_IO_ERROR = ATCore Core_IoError"
definition AT_FS_ERROR :: AbiType where "AT_FS_ERROR = ATCore Core_FsError"
definition AT_ENV_ERROR :: AbiType where "AT_ENV_ERROR = ATCore Core_EnvError"
definition AT_ENTROPY_ERROR :: AbiType where "AT_ENTROPY_ERROR = ATCore Core_EntropyError"
definition AT_SNAPSHOT_ERROR :: AbiType where "AT_SNAPSHOT_ERROR = ATCore Core_SnapshotError"
definition AT_IP_ADDRESS :: AbiType where "AT_IP_ADDRESS = ATCore Core_IpAddress"
definition AT_SOCKET_ADDRESS :: AbiType where "AT_SOCKET_ADDRESS = ATCore Core_SocketAddress"
definition AT_NET_ERROR :: AbiType where "AT_NET_ERROR = ATCore Core_NetError"
definition AT_TCP_READ :: AbiType where "AT_TCP_READ = ATCore Core_TcpRead"
definition AT_SHUTDOWN :: AbiType where "AT_SHUTDOWN = ATCore Core_Shutdown"
definition AT_TLS_ERROR :: AbiType where "AT_TLS_ERROR = ATCore Core_TlsError"
definition AT_ARTIFACT :: AbiType where "AT_ARTIFACT = ATCore Core_Artifact"
definition AT_COMPILE_ENV :: AbiType where "AT_COMPILE_ENV = ATCore Core_CompileEnv"
definition AT_COMPILE_OPTIONS :: AbiType where "AT_COMPILE_OPTIONS = ATCore Core_CompileOptions"
definition AT_COMPILE_ERRORS :: AbiType where "AT_COMPILE_ERRORS = ATCore Core_CompileErrors"
definition AT_DYN_VALUE :: AbiType where "AT_DYN_VALUE = ATCore Core_DynValue"
definition AT_SYNTAX_TREE :: AbiType where "AT_SYNTAX_TREE = ATCore Core_SyntaxTree"
definition AT_SYNTAX_ELEMENT :: AbiType where "AT_SYNTAX_ELEMENT = ATCore Core_SyntaxElement"
definition AT_SYNTAX_NODE :: AbiType where "AT_SYNTAX_NODE = ATCore Core_SyntaxNode"
definition AT_SYNTAX_TOKEN :: AbiType where "AT_SYNTAX_TOKEN = ATCore Core_SyntaxToken"
definition AT_SYNTAX_TRIVIA :: AbiType where "AT_SYNTAX_TRIVIA = ATCore Core_SyntaxTrivia"
definition AT_SYNTAX_BUILDER :: AbiType where "AT_SYNTAX_BUILDER = ATCore Core_SyntaxBuilder"
definition AT_SYNTAX_PARSE :: AbiType where "AT_SYNTAX_PARSE = ATCore Core_SyntaxParse"
definition AT_STD_STREAM :: AbiType where "AT_STD_STREAM = ATCore Core_StdStream"
definition AT_TTY_SIZE :: AbiType where "AT_TTY_SIZE = ATCore Core_TtySize"
definition AT_TTY_ERROR :: AbiType where "AT_TTY_ERROR = ATCore Core_TtyError"
definition AT_SIGNAL_KIND :: AbiType where "AT_SIGNAL_KIND = ATCore Core_SignalKind"
definition AT_SIGNAL_ERROR :: AbiType where "AT_SIGNAL_ERROR = ATCore Core_SignalError"
definition AT_PIPE_ERROR :: AbiType where "AT_PIPE_ERROR = ATCore Core_PipeError"
definition AT_CHILD_INPUT :: AbiType where "AT_CHILD_INPUT = ATCore Core_ChildInput"
definition AT_CHILD_OUTPUT :: AbiType where "AT_CHILD_OUTPUT = ATCore Core_ChildOutput"
definition AT_CHILD_ENV :: AbiType where "AT_CHILD_ENV = ATCore Core_ChildEnv"
definition AT_EXEC_SPEC :: AbiType where "AT_EXEC_SPEC = ATCore Core_ExecSpec"
definition AT_CHILD_STATUS :: AbiType where "AT_CHILD_STATUS = ATCore Core_ChildStatus"
definition AT_EXEC_ERROR :: AbiType where "AT_EXEC_ERROR = ATCore Core_ExecError"
definition AT_UDP_DATAGRAM :: AbiType where "AT_UDP_DATAGRAM = ATCore Core_UdpDatagram"
definition AT_REGEX :: AbiType where "AT_REGEX = ATCore Core_Regex"
definition AT_REGEX_MATCH :: AbiType where "AT_REGEX_MATCH = ATCore Core_RegexMatch"
definition AT_FILE_HANDLE :: AbiType where "AT_FILE_HANDLE = ATNative Native_FileHandle"
definition AT_TCP_RESOURCE :: AbiType where "AT_TCP_RESOURCE = ATNative Native_TcpResource"
definition AT_TCP_STREAM :: AbiType where "AT_TCP_STREAM = ATNative Native_TcpStream"
definition AT_TCP_LISTENER :: AbiType where "AT_TCP_LISTENER = ATNative Native_TcpListener"
definition AT_TLS_STREAM :: AbiType where "AT_TLS_STREAM = ATNative Native_TlsStream"
definition AT_RAW_MODE :: AbiType where "AT_RAW_MODE = ATNative Native_RawMode"
definition AT_SIGNAL_STREAM :: AbiType where "AT_SIGNAL_STREAM = ATNative Native_SignalStream"
definition AT_PIPE_END :: AbiType where "AT_PIPE_END = ATNative Native_PipeEnd"
definition AT_PIPE_READER :: AbiType where "AT_PIPE_READER = ATNative Native_PipeReader"
definition AT_PIPE_WRITER :: AbiType where "AT_PIPE_WRITER = ATNative Native_PipeWriter"
definition AT_CHILD :: AbiType where "AT_CHILD = ATNative Native_Child"
definition AT_UDP_SOCKET :: AbiType where "AT_UDP_SOCKET = ATNative Native_UdpSocket"
definition AT_LIST_STR :: AbiType where "AT_LIST_STR = ATList AT_STR"
definition AT_LIST_SUBSTRING :: AbiType where "AT_LIST_SUBSTRING = ATList AT_SUBSTRING"
definition AT_OPTION_REGEX_MATCH :: AbiType where "AT_OPTION_REGEX_MATCH = ATApply Ctor_Option [AT_REGEX_MATCH]"
definition AT_OPTION_SUBSTRING :: AbiType where "AT_OPTION_SUBSTRING = ATApply Ctor_Option [AT_SUBSTRING]"
definition AT_LIST_SYNTAX_ELEMENT :: AbiType where "AT_LIST_SYNTAX_ELEMENT = ATList AT_SYNTAX_ELEMENT"
definition AT_RESULT_OPTION_STR_IO_ERROR :: AbiType where "AT_RESULT_OPTION_STR_IO_ERROR = ATApply Ctor_Result [(ATApply Ctor_Option [AT_STR]), AT_IO_ERROR]"
definition AT_RESULT_BYTES_IO_ERROR :: AbiType where "AT_RESULT_BYTES_IO_ERROR = ATApply Ctor_Result [AT_BYTES, AT_IO_ERROR]"
definition AT_RESULT_INT_IO_ERROR :: AbiType where "AT_RESULT_INT_IO_ERROR = ATApply Ctor_Result [AT_INT, AT_IO_ERROR]"
definition AT_RESULT_OPTION_STR_ENV_ERROR :: AbiType where "AT_RESULT_OPTION_STR_ENV_ERROR = ATApply Ctor_Result [(ATApply Ctor_Option [AT_STR]), AT_ENV_ERROR]"
definition AT_RESULT_PATH_FS_ERROR :: AbiType where "AT_RESULT_PATH_FS_ERROR = ATApply Ctor_Result [AT_PATH, AT_FS_ERROR]"
definition AT_RESULT_BYTES_ENTROPY_ERROR :: AbiType where "AT_RESULT_BYTES_ENTROPY_ERROR = ATApply Ctor_Result [AT_BYTES, AT_ENTROPY_ERROR]"
definition AT_RESULT_VM_SNAPSHOT_ERROR :: AbiType where "AT_RESULT_VM_SNAPSHOT_ERROR = ATApply Ctor_Result [AT_VM_SNAPSHOT, AT_SNAPSHOT_ERROR]"
definition AT_RESULT_FILE_HANDLE_FS_ERROR :: AbiType where "AT_RESULT_FILE_HANDLE_FS_ERROR = ATApply Ctor_Result [AT_FILE_HANDLE, AT_FS_ERROR]"
definition AT_RESULT_BYTES_FS_ERROR :: AbiType where "AT_RESULT_BYTES_FS_ERROR = ATApply Ctor_Result [AT_BYTES, AT_FS_ERROR]"
definition AT_RESULT_INT_FS_ERROR :: AbiType where "AT_RESULT_INT_FS_ERROR = ATApply Ctor_Result [AT_INT, AT_FS_ERROR]"
definition AT_RESULT_UNIT_FS_ERROR :: AbiType where "AT_RESULT_UNIT_FS_ERROR = ATApply Ctor_Result [AT_UNIT, AT_FS_ERROR]"
definition AT_RESULT_FILE_INFO_FS_ERROR :: AbiType where "AT_RESULT_FILE_INFO_FS_ERROR = ATApply Ctor_Result [AT_FILE_INFO, AT_FS_ERROR]"
definition AT_RESULT_DIR_ENTRY_FS_ERROR :: AbiType where "AT_RESULT_DIR_ENTRY_FS_ERROR = ATApply Ctor_Result [AT_DIR_ENTRY, AT_FS_ERROR]"
definition AT_LIST_RESULT_DIR_ENTRY_FS_ERROR :: AbiType where "AT_LIST_RESULT_DIR_ENTRY_FS_ERROR = ATList AT_RESULT_DIR_ENTRY_FS_ERROR"
definition AT_RESULT_DIR_ENTRIES_FS_ERROR :: AbiType where "AT_RESULT_DIR_ENTRIES_FS_ERROR = ATApply Ctor_Result [AT_LIST_RESULT_DIR_ENTRY_FS_ERROR, AT_FS_ERROR]"
definition AT_LIST_SOCKET_ADDRESS :: AbiType where "AT_LIST_SOCKET_ADDRESS = ATList AT_SOCKET_ADDRESS"
definition AT_LIST_BYTES :: AbiType where "AT_LIST_BYTES = ATList AT_BYTES"
definition AT_RESULT_LIST_SOCKET_ADDRESS_NET_ERROR :: AbiType where "AT_RESULT_LIST_SOCKET_ADDRESS_NET_ERROR = ATApply Ctor_Result [AT_LIST_SOCKET_ADDRESS, AT_NET_ERROR]"
definition AT_RESULT_TCP_STREAM_NET_ERROR :: AbiType where "AT_RESULT_TCP_STREAM_NET_ERROR = ATApply Ctor_Result [AT_TCP_STREAM, AT_NET_ERROR]"
definition AT_RESULT_TCP_LISTENER_NET_ERROR :: AbiType where "AT_RESULT_TCP_LISTENER_NET_ERROR = ATApply Ctor_Result [AT_TCP_LISTENER, AT_NET_ERROR]"
definition AT_TUPLE_TCP_STREAM_SOCKET_ADDRESS :: AbiType where "AT_TUPLE_TCP_STREAM_SOCKET_ADDRESS = ATTuple [AT_TCP_STREAM, AT_SOCKET_ADDRESS]"
definition AT_RESULT_ACCEPT_NET_ERROR :: AbiType where "AT_RESULT_ACCEPT_NET_ERROR = ATApply Ctor_Result [AT_TUPLE_TCP_STREAM_SOCKET_ADDRESS, AT_NET_ERROR]"
definition AT_RESULT_TCP_READ_NET_ERROR :: AbiType where "AT_RESULT_TCP_READ_NET_ERROR = ATApply Ctor_Result [AT_TCP_READ, AT_NET_ERROR]"
definition AT_RESULT_INT_NET_ERROR :: AbiType where "AT_RESULT_INT_NET_ERROR = ATApply Ctor_Result [AT_INT, AT_NET_ERROR]"
definition AT_RESULT_UNIT_NET_ERROR :: AbiType where "AT_RESULT_UNIT_NET_ERROR = ATApply Ctor_Result [AT_UNIT, AT_NET_ERROR]"
definition AT_RESULT_SOCKET_ADDRESS_NET_ERROR :: AbiType where "AT_RESULT_SOCKET_ADDRESS_NET_ERROR = ATApply Ctor_Result [AT_SOCKET_ADDRESS, AT_NET_ERROR]"
definition AT_RESULT_TLS_STREAM_TLS_ERROR :: AbiType where "AT_RESULT_TLS_STREAM_TLS_ERROR = ATApply Ctor_Result [AT_TLS_STREAM, AT_TLS_ERROR]"
definition AT_RESULT_TCP_READ_TLS_ERROR :: AbiType where "AT_RESULT_TCP_READ_TLS_ERROR = ATApply Ctor_Result [AT_TCP_READ, AT_TLS_ERROR]"
definition AT_RESULT_INT_TLS_ERROR :: AbiType where "AT_RESULT_INT_TLS_ERROR = ATApply Ctor_Result [AT_INT, AT_TLS_ERROR]"
definition AT_RESULT_UNIT_TLS_ERROR :: AbiType where "AT_RESULT_UNIT_TLS_ERROR = ATApply Ctor_Result [AT_UNIT, AT_TLS_ERROR]"
definition AT_RESULT_SOCKET_ADDRESS_TLS_ERROR :: AbiType where "AT_RESULT_SOCKET_ADDRESS_TLS_ERROR = ATApply Ctor_Result [AT_SOCKET_ADDRESS, AT_TLS_ERROR]"
definition AT_RESULT_ARTIFACT_COMPILE_ERRORS :: AbiType where "AT_RESULT_ARTIFACT_COMPILE_ERRORS = ATApply Ctor_Result [AT_ARTIFACT, AT_COMPILE_ERRORS]"
definition AT_RESULT_TTY_SIZE_TTY_ERROR :: AbiType where "AT_RESULT_TTY_SIZE_TTY_ERROR = ATApply Ctor_Result [AT_TTY_SIZE, AT_TTY_ERROR]"
definition AT_RESULT_RAW_MODE_TTY_ERROR :: AbiType where "AT_RESULT_RAW_MODE_TTY_ERROR = ATApply Ctor_Result [AT_RAW_MODE, AT_TTY_ERROR]"
definition AT_RESULT_UNIT_TTY_ERROR :: AbiType where "AT_RESULT_UNIT_TTY_ERROR = ATApply Ctor_Result [AT_UNIT, AT_TTY_ERROR]"
definition AT_LIST_SIGNAL_KIND :: AbiType where "AT_LIST_SIGNAL_KIND = ATList AT_SIGNAL_KIND"
definition AT_RESULT_SIGNAL_STREAM_SIGNAL_ERROR :: AbiType where "AT_RESULT_SIGNAL_STREAM_SIGNAL_ERROR = ATApply Ctor_Result [AT_SIGNAL_STREAM, AT_SIGNAL_ERROR]"
definition AT_RESULT_SIGNAL_KIND_SIGNAL_ERROR :: AbiType where "AT_RESULT_SIGNAL_KIND_SIGNAL_ERROR = ATApply Ctor_Result [AT_SIGNAL_KIND, AT_SIGNAL_ERROR]"
definition AT_RESULT_UNIT_SIGNAL_ERROR :: AbiType where "AT_RESULT_UNIT_SIGNAL_ERROR = ATApply Ctor_Result [AT_UNIT, AT_SIGNAL_ERROR]"
definition AT_TUPLE_PIPE_READER_WRITER :: AbiType where "AT_TUPLE_PIPE_READER_WRITER = ATTuple [AT_PIPE_READER, AT_PIPE_WRITER]"
definition AT_RESULT_PIPE_PAIR_PIPE_ERROR :: AbiType where "AT_RESULT_PIPE_PAIR_PIPE_ERROR = ATApply Ctor_Result [AT_TUPLE_PIPE_READER_WRITER, AT_PIPE_ERROR]"
definition AT_RESULT_BYTES_PIPE_ERROR :: AbiType where "AT_RESULT_BYTES_PIPE_ERROR = ATApply Ctor_Result [AT_BYTES, AT_PIPE_ERROR]"
definition AT_RESULT_INT_PIPE_ERROR :: AbiType where "AT_RESULT_INT_PIPE_ERROR = ATApply Ctor_Result [AT_INT, AT_PIPE_ERROR]"
definition AT_RESULT_UNIT_PIPE_ERROR :: AbiType where "AT_RESULT_UNIT_PIPE_ERROR = ATApply Ctor_Result [AT_UNIT, AT_PIPE_ERROR]"
definition AT_RESULT_CHILD_EXEC_ERROR :: AbiType where "AT_RESULT_CHILD_EXEC_ERROR = ATApply Ctor_Result [AT_CHILD, AT_EXEC_ERROR]"
definition AT_RESULT_CHILD_STATUS_EXEC_ERROR :: AbiType where "AT_RESULT_CHILD_STATUS_EXEC_ERROR = ATApply Ctor_Result [AT_CHILD_STATUS, AT_EXEC_ERROR]"
definition AT_RESULT_UNIT_EXEC_ERROR :: AbiType where "AT_RESULT_UNIT_EXEC_ERROR = ATApply Ctor_Result [AT_UNIT, AT_EXEC_ERROR]"
definition AT_RESULT_UDP_SOCKET_NET_ERROR :: AbiType where "AT_RESULT_UDP_SOCKET_NET_ERROR = ATApply Ctor_Result [AT_UDP_SOCKET, AT_NET_ERROR]"
definition AT_RESULT_UDP_DATAGRAM_NET_ERROR :: AbiType where "AT_RESULT_UDP_DATAGRAM_NET_ERROR = ATApply Ctor_Result [AT_UDP_DATAGRAM, AT_NET_ERROR]"

lemmas abi_type_defs =
  AT_UNIT_def AT_NEVER_def AT_BOOL_def AT_INT_def AT_FLOAT_def AT_STR_def AT_BYTES_def AT_VM_SNAPSHOT_def
  AT_FAULT_def AT_TEXT_def AT_SUBSTRING_def AT_CHAR_def AT_STRING_BUILDER_def AT_BYTE_BUFFER_def AT_PATH_def
  AT_OPEN_OPTIONS_def AT_SEEK_FROM_def AT_FILE_KIND_def AT_FILE_INFO_def AT_DIR_ENTRY_def AT_RENAME_MODE_def
  AT_IO_ERROR_def AT_FS_ERROR_def AT_ENV_ERROR_def AT_ENTROPY_ERROR_def AT_SNAPSHOT_ERROR_def AT_IP_ADDRESS_def
  AT_SOCKET_ADDRESS_def AT_NET_ERROR_def AT_TCP_READ_def AT_SHUTDOWN_def AT_TLS_ERROR_def AT_ARTIFACT_def
  AT_COMPILE_ENV_def AT_COMPILE_OPTIONS_def AT_COMPILE_ERRORS_def AT_DYN_VALUE_def AT_SYNTAX_TREE_def
  AT_SYNTAX_ELEMENT_def AT_SYNTAX_NODE_def AT_SYNTAX_TOKEN_def AT_SYNTAX_TRIVIA_def AT_SYNTAX_BUILDER_def
  AT_SYNTAX_PARSE_def AT_STD_STREAM_def AT_TTY_SIZE_def AT_TTY_ERROR_def AT_SIGNAL_KIND_def AT_SIGNAL_ERROR_def
  AT_PIPE_ERROR_def AT_CHILD_INPUT_def AT_CHILD_OUTPUT_def AT_CHILD_ENV_def AT_EXEC_SPEC_def
  AT_CHILD_STATUS_def AT_EXEC_ERROR_def AT_UDP_DATAGRAM_def AT_REGEX_def AT_REGEX_MATCH_def AT_FILE_HANDLE_def
  AT_TCP_RESOURCE_def AT_TCP_STREAM_def AT_TCP_LISTENER_def AT_TLS_STREAM_def AT_RAW_MODE_def
  AT_SIGNAL_STREAM_def AT_PIPE_END_def AT_PIPE_READER_def AT_PIPE_WRITER_def AT_CHILD_def AT_UDP_SOCKET_def
  AT_LIST_STR_def AT_LIST_SUBSTRING_def AT_OPTION_REGEX_MATCH_def AT_OPTION_SUBSTRING_def
  AT_LIST_SYNTAX_ELEMENT_def AT_RESULT_OPTION_STR_IO_ERROR_def AT_RESULT_BYTES_IO_ERROR_def
  AT_RESULT_INT_IO_ERROR_def AT_RESULT_OPTION_STR_ENV_ERROR_def AT_RESULT_PATH_FS_ERROR_def
  AT_RESULT_BYTES_ENTROPY_ERROR_def AT_RESULT_VM_SNAPSHOT_ERROR_def AT_RESULT_FILE_HANDLE_FS_ERROR_def
  AT_RESULT_BYTES_FS_ERROR_def AT_RESULT_INT_FS_ERROR_def AT_RESULT_UNIT_FS_ERROR_def
  AT_RESULT_FILE_INFO_FS_ERROR_def AT_RESULT_DIR_ENTRY_FS_ERROR_def AT_LIST_RESULT_DIR_ENTRY_FS_ERROR_def
  AT_RESULT_DIR_ENTRIES_FS_ERROR_def AT_LIST_SOCKET_ADDRESS_def AT_LIST_BYTES_def
  AT_RESULT_LIST_SOCKET_ADDRESS_NET_ERROR_def AT_RESULT_TCP_STREAM_NET_ERROR_def
  AT_RESULT_TCP_LISTENER_NET_ERROR_def AT_TUPLE_TCP_STREAM_SOCKET_ADDRESS_def AT_RESULT_ACCEPT_NET_ERROR_def
  AT_RESULT_TCP_READ_NET_ERROR_def AT_RESULT_INT_NET_ERROR_def AT_RESULT_UNIT_NET_ERROR_def
  AT_RESULT_SOCKET_ADDRESS_NET_ERROR_def AT_RESULT_TLS_STREAM_TLS_ERROR_def AT_RESULT_TCP_READ_TLS_ERROR_def
  AT_RESULT_INT_TLS_ERROR_def AT_RESULT_UNIT_TLS_ERROR_def AT_RESULT_SOCKET_ADDRESS_TLS_ERROR_def
  AT_RESULT_ARTIFACT_COMPILE_ERRORS_def AT_RESULT_TTY_SIZE_TTY_ERROR_def AT_RESULT_RAW_MODE_TTY_ERROR_def
  AT_RESULT_UNIT_TTY_ERROR_def AT_LIST_SIGNAL_KIND_def AT_RESULT_SIGNAL_STREAM_SIGNAL_ERROR_def
  AT_RESULT_SIGNAL_KIND_SIGNAL_ERROR_def AT_RESULT_UNIT_SIGNAL_ERROR_def AT_TUPLE_PIPE_READER_WRITER_def
  AT_RESULT_PIPE_PAIR_PIPE_ERROR_def AT_RESULT_BYTES_PIPE_ERROR_def AT_RESULT_INT_PIPE_ERROR_def
  AT_RESULT_UNIT_PIPE_ERROR_def AT_RESULT_CHILD_EXEC_ERROR_def AT_RESULT_CHILD_STATUS_EXEC_ERROR_def
  AT_RESULT_UNIT_EXEC_ERROR_def AT_RESULT_UDP_SOCKET_NET_ERROR_def AT_RESULT_UDP_DATAGRAM_NET_ERROR_def

section \<open>Intrinsics\<close>

definition INTRINSIC_ABI_VERSION :: u32 where
  "INTRINSIC_ABI_VERSION = 32"

record IntrinsicDef =
  idf_name :: string
  idf_params :: "AbiType list"
  idf_reply :: AbiType
  idf_semantic_revision :: u32

definition INTRINSICS_1 :: "IntrinsicDef list" where
  "INTRINSICS_1 =
    [\<lparr>idf_name = ''int.abs'', idf_params = [AT_INT], idf_reply = AT_INT, idf_semantic_revision = 1\<rparr>,
     \<lparr>idf_name = ''int.neg'', idf_params = [AT_INT], idf_reply = AT_INT, idf_semantic_revision = 1\<rparr>,
     \<lparr>idf_name = ''int.add'', idf_params = [AT_INT, AT_INT], idf_reply = AT_INT, idf_semantic_revision = 1\<rparr>,
     \<lparr>idf_name = ''int.sub'', idf_params = [AT_INT, AT_INT], idf_reply = AT_INT, idf_semantic_revision = 1\<rparr>,
     \<lparr>idf_name = ''int.mul'', idf_params = [AT_INT, AT_INT], idf_reply = AT_INT, idf_semantic_revision = 1\<rparr>,
     \<lparr>idf_name = ''int.div'', idf_params = [AT_INT, AT_INT], idf_reply = AT_INT, idf_semantic_revision = 1\<rparr>,
     \<lparr>idf_name = ''int.rem'', idf_params = [AT_INT, AT_INT], idf_reply = AT_INT, idf_semantic_revision = 1\<rparr>,
     \<lparr>idf_name = ''int.eq'', idf_params = [AT_INT, AT_INT], idf_reply = AT_BOOL, idf_semantic_revision = 1\<rparr>,
     \<lparr>idf_name = ''int.ne'', idf_params = [AT_INT, AT_INT], idf_reply = AT_BOOL, idf_semantic_revision = 1\<rparr>,
     \<lparr>idf_name = ''int.lt'', idf_params = [AT_INT, AT_INT], idf_reply = AT_BOOL, idf_semantic_revision = 1\<rparr>,
     \<lparr>idf_name = ''int.le'', idf_params = [AT_INT, AT_INT], idf_reply = AT_BOOL, idf_semantic_revision = 1\<rparr>,
     \<lparr>idf_name = ''int.gt'', idf_params = [AT_INT, AT_INT], idf_reply = AT_BOOL, idf_semantic_revision = 1\<rparr>,
     \<lparr>idf_name = ''int.ge'', idf_params = [AT_INT, AT_INT], idf_reply = AT_BOOL, idf_semantic_revision = 1\<rparr>,
     \<lparr>idf_name = ''bool.not'', idf_params = [AT_BOOL], idf_reply = AT_BOOL, idf_semantic_revision = 1\<rparr>,
     \<lparr>idf_name = ''bool.eq'', idf_params = [AT_BOOL, AT_BOOL], idf_reply = AT_BOOL, idf_semantic_revision = 1\<rparr>,
     \<lparr>idf_name = ''bool.ne'', idf_params = [AT_BOOL, AT_BOOL], idf_reply = AT_BOOL, idf_semantic_revision = 1\<rparr>,
     \<lparr>idf_name = ''text.byte_len'', idf_params = [AT_TEXT], idf_reply = AT_INT, idf_semantic_revision = 1\<rparr>,
     \<lparr>idf_name = ''text.len'', idf_params = [AT_TEXT], idf_reply = AT_INT, idf_semantic_revision = 1\<rparr>,
     \<lparr>idf_name = ''text.concat'', idf_params = [AT_TEXT, AT_TEXT], idf_reply = AT_STR, idf_semantic_revision = 1\<rparr>,
     \<lparr>idf_name = ''text.starts_with'', idf_params = [AT_TEXT, AT_TEXT], idf_reply = AT_BOOL, idf_semantic_revision = 1\<rparr>,
     \<lparr>idf_name = ''text.ends_with'', idf_params = [AT_TEXT, AT_TEXT], idf_reply = AT_BOOL, idf_semantic_revision = 1\<rparr>,
     \<lparr>idf_name = ''text.contains'', idf_params = [AT_TEXT, AT_TEXT], idf_reply = AT_BOOL, idf_semantic_revision = 1\<rparr>,
     \<lparr>idf_name = ''text.find_index'', idf_params = [AT_TEXT, AT_TEXT], idf_reply = AT_INT, idf_semantic_revision = 1\<rparr>,
     \<lparr>idf_name = ''text.eq'', idf_params = [AT_TEXT, AT_TEXT], idf_reply = AT_BOOL, idf_semantic_revision = 1\<rparr>]"

definition INTRINSICS_2 :: "IntrinsicDef list" where
  "INTRINSICS_2 =
    [\<lparr>idf_name = ''text.ne'', idf_params = [AT_TEXT, AT_TEXT], idf_reply = AT_BOOL, idf_semantic_revision = 1\<rparr>,
     \<lparr>idf_name = ''bytes.len'', idf_params = [AT_BYTES], idf_reply = AT_INT, idf_semantic_revision = 1\<rparr>,
     \<lparr>idf_name = ''bytes.at'', idf_params = [AT_BYTES, AT_INT], idf_reply = AT_INT, idf_semantic_revision = 1\<rparr>,
     \<lparr>idf_name = ''bytes.get'', idf_params = [AT_BYTES, AT_INT], idf_reply = AT_INT, idf_semantic_revision = 1\<rparr>,
     \<lparr>idf_name = ''bytes.slice'', idf_params = [AT_BYTES, AT_INT, AT_INT], idf_reply = AT_BYTES, idf_semantic_revision = 1\<rparr>,
     \<lparr>idf_name = ''bytes.concat'', idf_params = [AT_BYTES, AT_BYTES], idf_reply = AT_BYTES, idf_semantic_revision = 1\<rparr>,
     \<lparr>idf_name = ''bytes.starts_with'', idf_params = [AT_BYTES, AT_BYTES], idf_reply = AT_BOOL, idf_semantic_revision = 1\<rparr>,
     \<lparr>idf_name = ''bytes.find_index'', idf_params = [AT_BYTES, AT_BYTES], idf_reply = AT_INT, idf_semantic_revision = 1\<rparr>,
     \<lparr>idf_name = ''bytes.hex'', idf_params = [AT_BYTES], idf_reply = AT_STR, idf_semantic_revision = 1\<rparr>,
     \<lparr>idf_name = ''bytes.is_utf8'', idf_params = [AT_BYTES], idf_reply = AT_BOOL, idf_semantic_revision = 1\<rparr>,
     \<lparr>idf_name = ''bytes.text'', idf_params = [AT_BYTES], idf_reply = AT_STR, idf_semantic_revision = 1\<rparr>,
     \<lparr>idf_name = ''bytes.eq'', idf_params = [AT_BYTES, AT_BYTES], idf_reply = AT_BOOL, idf_semantic_revision = 1\<rparr>,
     \<lparr>idf_name = ''bytes.ne'', idf_params = [AT_BYTES, AT_BYTES], idf_reply = AT_BOOL, idf_semantic_revision = 1\<rparr>,
     \<lparr>idf_name = ''string_builder.append'', idf_params = [AT_STRING_BUILDER, AT_TEXT], idf_reply = AT_STRING_BUILDER, idf_semantic_revision = 1\<rparr>,
     \<lparr>idf_name = ''string_builder.len'', idf_params = [AT_STRING_BUILDER], idf_reply = AT_INT, idf_semantic_revision = 1\<rparr>,
     \<lparr>idf_name = ''string_builder.clear'', idf_params = [AT_STRING_BUILDER], idf_reply = AT_STRING_BUILDER, idf_semantic_revision = 1\<rparr>,
     \<lparr>idf_name = ''string_builder.build'', idf_params = [AT_STRING_BUILDER], idf_reply = AT_STR, idf_semantic_revision = 1\<rparr>,
     \<lparr>idf_name = ''byte_buffer.append'', idf_params = [AT_BYTE_BUFFER, AT_INT], idf_reply = AT_BYTE_BUFFER, idf_semantic_revision = 1\<rparr>,
     \<lparr>idf_name = ''byte_buffer.extend'', idf_params = [AT_BYTE_BUFFER, AT_BYTES], idf_reply = AT_BYTE_BUFFER, idf_semantic_revision = 1\<rparr>,
     \<lparr>idf_name = ''byte_buffer.reserve'', idf_params = [AT_BYTE_BUFFER, AT_INT], idf_reply = AT_BYTE_BUFFER, idf_semantic_revision = 1\<rparr>,
     \<lparr>idf_name = ''byte_buffer.clear'', idf_params = [AT_BYTE_BUFFER], idf_reply = AT_BYTE_BUFFER, idf_semantic_revision = 1\<rparr>,
     \<lparr>idf_name = ''byte_buffer.len'', idf_params = [AT_BYTE_BUFFER], idf_reply = AT_INT, idf_semantic_revision = 1\<rparr>,
     \<lparr>idf_name = ''byte_buffer.build'', idf_params = [AT_BYTE_BUFFER], idf_reply = AT_BYTES, idf_semantic_revision = 1\<rparr>,
     \<lparr>idf_name = ''text.at'', idf_params = [AT_TEXT, AT_INT], idf_reply = AT_CHAR, idf_semantic_revision = 1\<rparr>]"

definition INTRINSICS_3 :: "IntrinsicDef list" where
  "INTRINSICS_3 =
    [\<lparr>idf_name = ''text.slice'', idf_params = [AT_TEXT, AT_INT, AT_INT], idf_reply = AT_SUBSTRING, idf_semantic_revision = 1\<rparr>,
     \<lparr>idf_name = ''text.is_boundary'', idf_params = [AT_TEXT, AT_INT], idf_reply = AT_BOOL, idf_semantic_revision = 1\<rparr>,
     \<lparr>idf_name = ''text.slice_bytes'', idf_params = [AT_TEXT, AT_INT, AT_INT], idf_reply = AT_SUBSTRING, idf_semantic_revision = 1\<rparr>,
     \<lparr>idf_name = ''text.bytes'', idf_params = [AT_TEXT], idf_reply = AT_BYTES, idf_semantic_revision = 1\<rparr>,
     \<lparr>idf_name = ''text.lt'', idf_params = [AT_TEXT, AT_TEXT], idf_reply = AT_BOOL, idf_semantic_revision = 1\<rparr>,
     \<lparr>idf_name = ''text.le'', idf_params = [AT_TEXT, AT_TEXT], idf_reply = AT_BOOL, idf_semantic_revision = 1\<rparr>,
     \<lparr>idf_name = ''text.gt'', idf_params = [AT_TEXT, AT_TEXT], idf_reply = AT_BOOL, idf_semantic_revision = 1\<rparr>,
     \<lparr>idf_name = ''text.ge'', idf_params = [AT_TEXT, AT_TEXT], idf_reply = AT_BOOL, idf_semantic_revision = 1\<rparr>,
     \<lparr>idf_name = ''text.to_string'', idf_params = [AT_TEXT], idf_reply = AT_STR, idf_semantic_revision = 2\<rparr>,
     \<lparr>idf_name = ''char.codepoint'', idf_params = [AT_CHAR], idf_reply = AT_INT, idf_semantic_revision = 1\<rparr>,
     \<lparr>idf_name = ''char.utf8_len'', idf_params = [AT_CHAR], idf_reply = AT_INT, idf_semantic_revision = 1\<rparr>,
     \<lparr>idf_name = ''char.eq'', idf_params = [AT_CHAR, AT_CHAR], idf_reply = AT_BOOL, idf_semantic_revision = 1\<rparr>,
     \<lparr>idf_name = ''char.ne'', idf_params = [AT_CHAR, AT_CHAR], idf_reply = AT_BOOL, idf_semantic_revision = 1\<rparr>,
     \<lparr>idf_name = ''char.lt'', idf_params = [AT_CHAR, AT_CHAR], idf_reply = AT_BOOL, idf_semantic_revision = 1\<rparr>,
     \<lparr>idf_name = ''char.le'', idf_params = [AT_CHAR, AT_CHAR], idf_reply = AT_BOOL, idf_semantic_revision = 1\<rparr>,
     \<lparr>idf_name = ''char.gt'', idf_params = [AT_CHAR, AT_CHAR], idf_reply = AT_BOOL, idf_semantic_revision = 1\<rparr>,
     \<lparr>idf_name = ''char.ge'', idf_params = [AT_CHAR, AT_CHAR], idf_reply = AT_BOOL, idf_semantic_revision = 1\<rparr>,
     \<lparr>idf_name = ''bytes.compact'', idf_params = [AT_BYTES], idf_reply = AT_BYTES, idf_semantic_revision = 1\<rparr>,
     \<lparr>idf_name = ''bytes.text_view'', idf_params = [AT_BYTES], idf_reply = AT_SUBSTRING, idf_semantic_revision = 1\<rparr>,
     \<lparr>idf_name = ''bytes.lt'', idf_params = [AT_BYTES, AT_BYTES], idf_reply = AT_BOOL, idf_semantic_revision = 1\<rparr>,
     \<lparr>idf_name = ''bytes.le'', idf_params = [AT_BYTES, AT_BYTES], idf_reply = AT_BOOL, idf_semantic_revision = 1\<rparr>,
     \<lparr>idf_name = ''bytes.gt'', idf_params = [AT_BYTES, AT_BYTES], idf_reply = AT_BOOL, idf_semantic_revision = 1\<rparr>,
     \<lparr>idf_name = ''bytes.ge'', idf_params = [AT_BYTES, AT_BYTES], idf_reply = AT_BOOL, idf_semantic_revision = 1\<rparr>,
     \<lparr>idf_name = ''string_builder.push_char'', idf_params = [AT_STRING_BUILDER, AT_CHAR], idf_reply = AT_STRING_BUILDER, idf_semantic_revision = 1\<rparr>]"

definition INTRINSICS_4 :: "IntrinsicDef list" where
  "INTRINSICS_4 =
    [\<lparr>idf_name = ''string_builder.byte_len'', idf_params = [AT_STRING_BUILDER], idf_reply = AT_INT, idf_semantic_revision = 1\<rparr>,
     \<lparr>idf_name = ''string_builder.finish'', idf_params = [AT_STRING_BUILDER], idf_reply = AT_STR, idf_semantic_revision = 1\<rparr>,
     \<lparr>idf_name = ''byte_buffer.finish'', idf_params = [AT_BYTE_BUFFER], idf_reply = AT_BYTES, idf_semantic_revision = 1\<rparr>,
     \<lparr>idf_name = ''text.find_byte_index'', idf_params = [AT_TEXT, AT_TEXT], idf_reply = AT_INT, idf_semantic_revision = 1\<rparr>,
     \<lparr>idf_name = ''text.at_byte'', idf_params = [AT_TEXT, AT_INT], idf_reply = AT_CHAR, idf_semantic_revision = 1\<rparr>,
     \<lparr>idf_name = ''text.trim'', idf_params = [AT_TEXT], idf_reply = AT_SUBSTRING, idf_semantic_revision = 1\<rparr>,
     \<lparr>idf_name = ''text.trim_start'', idf_params = [AT_TEXT], idf_reply = AT_SUBSTRING, idf_semantic_revision = 1\<rparr>,
     \<lparr>idf_name = ''text.trim_end'', idf_params = [AT_TEXT], idf_reply = AT_SUBSTRING, idf_semantic_revision = 1\<rparr>,
     \<lparr>idf_name = ''text.to_lower_ascii'', idf_params = [AT_TEXT], idf_reply = AT_STR, idf_semantic_revision = 1\<rparr>,
     \<lparr>idf_name = ''text.to_upper_ascii'', idf_params = [AT_TEXT], idf_reply = AT_STR, idf_semantic_revision = 1\<rparr>,
     \<lparr>idf_name = ''text.replace'', idf_params = [AT_TEXT, AT_TEXT, AT_TEXT], idf_reply = AT_STR, idf_semantic_revision = 1\<rparr>,
     \<lparr>idf_name = ''text.parse_int_status'', idf_params = [AT_TEXT, AT_INT], idf_reply = AT_INT, idf_semantic_revision = 1\<rparr>,
     \<lparr>idf_name = ''text.parse_int_value'', idf_params = [AT_TEXT, AT_INT], idf_reply = AT_INT, idf_semantic_revision = 1\<rparr>,
     \<lparr>idf_name = ''bytes.ends_with'', idf_params = [AT_BYTES, AT_BYTES], idf_reply = AT_BOOL, idf_semantic_revision = 1\<rparr>,
     \<lparr>idf_name = ''bytes.contains'', idf_params = [AT_BYTES, AT_BYTES], idf_reply = AT_BOOL, idf_semantic_revision = 1\<rparr>,
     \<lparr>idf_name = ''text.split'', idf_params = [AT_TEXT, AT_TEXT], idf_reply = AT_LIST_SUBSTRING, idf_semantic_revision = 1\<rparr>,
     \<lparr>idf_name = ''text.lines'', idf_params = [AT_TEXT], idf_reply = AT_LIST_SUBSTRING, idf_semantic_revision = 1\<rparr>,
     \<lparr>idf_name = ''byte_buffer.at'', idf_params = [AT_BYTE_BUFFER, AT_INT], idf_reply = AT_INT, idf_semantic_revision = 1\<rparr>,
     \<lparr>idf_name = ''byte_buffer.find_from'', idf_params = [AT_BYTE_BUFFER, AT_BYTES, AT_INT], idf_reply = AT_INT, idf_semantic_revision = 1\<rparr>,
     \<lparr>idf_name = ''list.len'', idf_params = [(ATList (ATVar 0))], idf_reply = AT_INT, idf_semantic_revision = 1\<rparr>,
     \<lparr>idf_name = ''list.at'', idf_params = [(ATList (ATVar 0)), AT_INT], idf_reply = (ATVar 0), idf_semantic_revision = 1\<rparr>,
     \<lparr>idf_name = ''list.get'', idf_params = [(ATList (ATVar 0)), AT_INT], idf_reply = (ATApply Ctor_Option [(ATVar 0)]), idf_semantic_revision = 1\<rparr>,
     \<lparr>idf_name = ''list.push'', idf_params = [(ATList (ATVar 0)), (ATVar 0)], idf_reply = AT_UNIT, idf_semantic_revision = 1\<rparr>,
     \<lparr>idf_name = ''map.len'', idf_params = [(ATMap (ATVar 0) (ATVar 1))], idf_reply = AT_INT, idf_semantic_revision = 1\<rparr>]"

definition INTRINSICS_5 :: "IntrinsicDef list" where
  "INTRINSICS_5 =
    [\<lparr>idf_name = ''map.has'', idf_params = [(ATMap (ATVar 0) (ATVar 1)), (ATVar 0)], idf_reply = AT_BOOL, idf_semantic_revision = 1\<rparr>,
     \<lparr>idf_name = ''map.at'', idf_params = [(ATMap (ATVar 0) (ATVar 1)), (ATVar 0)], idf_reply = (ATVar 1), idf_semantic_revision = 1\<rparr>,
     \<lparr>idf_name = ''map.get'', idf_params = [(ATMap (ATVar 0) (ATVar 1)), (ATVar 0)], idf_reply = (ATApply Ctor_Option [(ATVar 1)]), idf_semantic_revision = 1\<rparr>,
     \<lparr>idf_name = ''map.put'', idf_params = [(ATMap (ATVar 0) (ATVar 1)), (ATVar 0), (ATVar 1)], idf_reply = (ATApply Ctor_Option [(ATVar 1)]), idf_semantic_revision = 2\<rparr>,
     \<lparr>idf_name = ''list.epoch'', idf_params = [(ATList (ATVar 0))], idf_reply = AT_INT, idf_semantic_revision = 1\<rparr>,
     \<lparr>idf_name = ''list.iter_len'', idf_params = [(ATList (ATVar 0)), AT_INT], idf_reply = AT_INT, idf_semantic_revision = 1\<rparr>,
     \<lparr>idf_name = ''map.epoch'', idf_params = [(ATMap (ATVar 0) (ATVar 1))], idf_reply = AT_INT, idf_semantic_revision = 1\<rparr>,
     \<lparr>idf_name = ''map.iter_len'', idf_params = [(ATMap (ATVar 0) (ATVar 1)), AT_INT], idf_reply = AT_INT, idf_semantic_revision = 1\<rparr>,
     \<lparr>idf_name = ''map.key_at'', idf_params = [(ATMap (ATVar 0) (ATVar 1)), AT_INT], idf_reply = (ATVar 0), idf_semantic_revision = 1\<rparr>,
     \<lparr>idf_name = ''map.value_at'', idf_params = [(ATMap (ATVar 0) (ATVar 1)), AT_INT], idf_reply = (ATVar 1), idf_semantic_revision = 1\<rparr>,
     \<lparr>idf_name = ''list.capacity'', idf_params = [(ATList (ATVar 0))], idf_reply = AT_INT, idf_semantic_revision = 1\<rparr>,
     \<lparr>idf_name = ''list.set'', idf_params = [(ATList (ATVar 0)), AT_INT, (ATVar 0)], idf_reply = AT_UNIT, idf_semantic_revision = 1\<rparr>,
     \<lparr>idf_name = ''list.pop'', idf_params = [(ATList (ATVar 0))], idf_reply = (ATApply Ctor_Option [(ATVar 0)]), idf_semantic_revision = 1\<rparr>,
     \<lparr>idf_name = ''list.insert'', idf_params = [(ATList (ATVar 0)), AT_INT, (ATVar 0)], idf_reply = AT_UNIT, idf_semantic_revision = 1\<rparr>,
     \<lparr>idf_name = ''list.remove'', idf_params = [(ATList (ATVar 0)), AT_INT], idf_reply = (ATVar 0), idf_semantic_revision = 1\<rparr>,
     \<lparr>idf_name = ''list.swap_remove'', idf_params = [(ATList (ATVar 0)), AT_INT], idf_reply = (ATVar 0), idf_semantic_revision = 1\<rparr>,
     \<lparr>idf_name = ''list.reserve'', idf_params = [(ATList (ATVar 0)), AT_INT], idf_reply = AT_UNIT, idf_semantic_revision = 1\<rparr>,
     \<lparr>idf_name = ''list.truncate'', idf_params = [(ATList (ATVar 0)), AT_INT], idf_reply = AT_UNIT, idf_semantic_revision = 1\<rparr>,
     \<lparr>idf_name = ''list.contains'', idf_params = [(ATList (ATVar 0)), (ATVar 0)], idf_reply = AT_BOOL, idf_semantic_revision = 1\<rparr>]"

definition INTRINSICS_6 :: "IntrinsicDef list" where
  "INTRINSICS_6 =
    [\<lparr>idf_name = ''map.remove'', idf_params = [(ATMap (ATVar 0) (ATVar 1)), (ATVar 0)], idf_reply = (ATApply Ctor_Option [(ATVar 1)]), idf_semantic_revision = 1\<rparr>,
     \<lparr>idf_name = ''map.clear'', idf_params = [(ATMap (ATVar 0) (ATVar 1))], idf_reply = AT_UNIT, idf_semantic_revision = 1\<rparr>,
     \<lparr>idf_name = ''map.reserve'', idf_params = [(ATMap (ATVar 0) (ATVar 1)), AT_INT], idf_reply = AT_UNIT, idf_semantic_revision = 1\<rparr>,
     \<lparr>idf_name = ''list.reorder'', idf_params = [(ATList (ATVar 0))], idf_reply = AT_UNIT, idf_semantic_revision = 1\<rparr>,
     \<lparr>idf_name = ''syntax.tree_root'', idf_params = [AT_SYNTAX_TREE], idf_reply = AT_SYNTAX_NODE, idf_semantic_revision = 1\<rparr>,
     \<lparr>idf_name = ''syntax.kind'', idf_params = [AT_SYNTAX_ELEMENT], idf_reply = AT_INT, idf_semantic_revision = 1\<rparr>,
     \<lparr>idf_name = ''syntax.category'', idf_params = [AT_SYNTAX_ELEMENT], idf_reply = AT_INT, idf_semantic_revision = 1\<rparr>,
     \<lparr>idf_name = ''syntax.range_start'', idf_params = [AT_SYNTAX_ELEMENT], idf_reply = AT_INT, idf_semantic_revision = 1\<rparr>,
     \<lparr>idf_name = ''syntax.range_end'', idf_params = [AT_SYNTAX_ELEMENT], idf_reply = AT_INT, idf_semantic_revision = 1\<rparr>,
     \<lparr>idf_name = ''syntax.text'', idf_params = [AT_SYNTAX_ELEMENT], idf_reply = AT_SUBSTRING, idf_semantic_revision = 1\<rparr>,
     \<lparr>idf_name = ''syntax.children'', idf_params = [AT_SYNTAX_ELEMENT], idf_reply = AT_LIST_SYNTAX_ELEMENT, idf_semantic_revision = 1\<rparr>,
     \<lparr>idf_name = ''syntax.detach'', idf_params = [AT_SYNTAX_ELEMENT], idf_reply = AT_SYNTAX_ELEMENT, idf_semantic_revision = 1\<rparr>,
     \<lparr>idf_name = ''dyn.render'', idf_params = [AT_DYN_VALUE], idf_reply = AT_STR, idf_semantic_revision = 1\<rparr>,
     \<lparr>idf_name = ''syntax.build_token'', idf_params = [AT_SYNTAX_BUILDER, AT_INT, AT_STR], idf_reply = AT_SYNTAX_TOKEN, idf_semantic_revision = 1\<rparr>,
     \<lparr>idf_name = ''syntax.build_trivia'', idf_params = [AT_SYNTAX_BUILDER, AT_INT, AT_STR], idf_reply = AT_SYNTAX_TRIVIA, idf_semantic_revision = 1\<rparr>,
     \<lparr>idf_name = ''syntax.build_node'', idf_params = [AT_SYNTAX_BUILDER, AT_INT, AT_LIST_SYNTAX_ELEMENT], idf_reply = AT_SYNTAX_NODE, idf_semantic_revision = 1\<rparr>,
     \<lparr>idf_name = ''syntax.to_tree'', idf_params = [AT_SYNTAX_NODE], idf_reply = AT_SYNTAX_TREE, idf_semantic_revision = 1\<rparr>,
     \<lparr>idf_name = ''control.panic'', idf_params = [AT_STR], idf_reply = AT_NEVER, idf_semantic_revision = 1\<rparr>,
     \<lparr>idf_name = ''control.assert_fail'', idf_params = [AT_STR], idf_reply = AT_NEVER, idf_semantic_revision = 1\<rparr>,
     \<lparr>idf_name = ''string_builder.append_int'', idf_params = [AT_STRING_BUILDER, AT_INT], idf_reply = AT_STRING_BUILDER, idf_semantic_revision = 1\<rparr>,
     \<lparr>idf_name = ''string_builder.append_bool'', idf_params = [AT_STRING_BUILDER, AT_BOOL], idf_reply = AT_STRING_BUILDER, idf_semantic_revision = 1\<rparr>,
     \<lparr>idf_name = ''text.hash'', idf_params = [AT_TEXT], idf_reply = AT_INT, idf_semantic_revision = 1\<rparr>,
     \<lparr>idf_name = ''bytes.hash'', idf_params = [AT_BYTES], idf_reply = AT_INT, idf_semantic_revision = 1\<rparr>]"

definition INTRINSICS_7 :: "IntrinsicDef list" where
  "INTRINSICS_7 =
    [\<lparr>idf_name = ''hash.combine'', idf_params = [AT_INT, AT_INT], idf_reply = AT_INT, idf_semantic_revision = 1\<rparr>,
     \<lparr>idf_name = ''hash.unordered_combine'', idf_params = [AT_INT, AT_INT], idf_reply = AT_INT, idf_semantic_revision = 1\<rparr>,
     \<lparr>idf_name = ''map.next_index'', idf_params = [(ATMap (ATVar 0) (ATVar 1)), AT_INT, AT_INT], idf_reply = AT_INT, idf_semantic_revision = 1\<rparr>,
     \<lparr>idf_name = ''int.bit_and'', idf_params = [AT_INT, AT_INT], idf_reply = AT_INT, idf_semantic_revision = 1\<rparr>,
     \<lparr>idf_name = ''int.bit_or'', idf_params = [AT_INT, AT_INT], idf_reply = AT_INT, idf_semantic_revision = 1\<rparr>,
     \<lparr>idf_name = ''int.bit_xor'', idf_params = [AT_INT, AT_INT], idf_reply = AT_INT, idf_semantic_revision = 1\<rparr>,
     \<lparr>idf_name = ''int.bit_not'', idf_params = [AT_INT], idf_reply = AT_INT, idf_semantic_revision = 1\<rparr>,
     \<lparr>idf_name = ''int.shl'', idf_params = [AT_INT, AT_INT], idf_reply = AT_INT, idf_semantic_revision = 1\<rparr>,
     \<lparr>idf_name = ''int.shr'', idf_params = [AT_INT, AT_INT], idf_reply = AT_INT, idf_semantic_revision = 1\<rparr>,
     \<lparr>idf_name = ''int.ushr'', idf_params = [AT_INT, AT_INT], idf_reply = AT_INT, idf_semantic_revision = 1\<rparr>,
     \<lparr>idf_name = ''int.wrapping_add'', idf_params = [AT_INT, AT_INT], idf_reply = AT_INT, idf_semantic_revision = 1\<rparr>,
     \<lparr>idf_name = ''int.wrapping_sub'', idf_params = [AT_INT, AT_INT], idf_reply = AT_INT, idf_semantic_revision = 1\<rparr>,
     \<lparr>idf_name = ''int.wrapping_mul'', idf_params = [AT_INT, AT_INT], idf_reply = AT_INT, idf_semantic_revision = 1\<rparr>,
     \<lparr>idf_name = ''int.rotate_left'', idf_params = [AT_INT, AT_INT], idf_reply = AT_INT, idf_semantic_revision = 2\<rparr>,
     \<lparr>idf_name = ''int.rotate_right'', idf_params = [AT_INT, AT_INT], idf_reply = AT_INT, idf_semantic_revision = 2\<rparr>,
     \<lparr>idf_name = ''int.to_float'', idf_params = [AT_INT], idf_reply = AT_FLOAT, idf_semantic_revision = 1\<rparr>,
     \<lparr>idf_name = ''float.neg'', idf_params = [AT_FLOAT], idf_reply = AT_FLOAT, idf_semantic_revision = 1\<rparr>,
     \<lparr>idf_name = ''float.add'', idf_params = [AT_FLOAT, AT_FLOAT], idf_reply = AT_FLOAT, idf_semantic_revision = 1\<rparr>,
     \<lparr>idf_name = ''float.sub'', idf_params = [AT_FLOAT, AT_FLOAT], idf_reply = AT_FLOAT, idf_semantic_revision = 1\<rparr>,
     \<lparr>idf_name = ''float.mul'', idf_params = [AT_FLOAT, AT_FLOAT], idf_reply = AT_FLOAT, idf_semantic_revision = 1\<rparr>,
     \<lparr>idf_name = ''float.div'', idf_params = [AT_FLOAT, AT_FLOAT], idf_reply = AT_FLOAT, idf_semantic_revision = 1\<rparr>,
     \<lparr>idf_name = ''float.eq'', idf_params = [AT_FLOAT, AT_FLOAT], idf_reply = AT_BOOL, idf_semantic_revision = 1\<rparr>,
     \<lparr>idf_name = ''float.ne'', idf_params = [AT_FLOAT, AT_FLOAT], idf_reply = AT_BOOL, idf_semantic_revision = 1\<rparr>,
     \<lparr>idf_name = ''float.lt'', idf_params = [AT_FLOAT, AT_FLOAT], idf_reply = AT_BOOL, idf_semantic_revision = 1\<rparr>]"

definition INTRINSICS_8 :: "IntrinsicDef list" where
  "INTRINSICS_8 =
    [\<lparr>idf_name = ''float.le'', idf_params = [AT_FLOAT, AT_FLOAT], idf_reply = AT_BOOL, idf_semantic_revision = 1\<rparr>,
     \<lparr>idf_name = ''float.gt'', idf_params = [AT_FLOAT, AT_FLOAT], idf_reply = AT_BOOL, idf_semantic_revision = 1\<rparr>,
     \<lparr>idf_name = ''float.ge'', idf_params = [AT_FLOAT, AT_FLOAT], idf_reply = AT_BOOL, idf_semantic_revision = 1\<rparr>,
     \<lparr>idf_name = ''float.is_nan'', idf_params = [AT_FLOAT], idf_reply = AT_BOOL, idf_semantic_revision = 1\<rparr>,
     \<lparr>idf_name = ''float.hash'', idf_params = [AT_FLOAT], idf_reply = AT_INT, idf_semantic_revision = 1\<rparr>,
     \<lparr>idf_name = ''float.bits'', idf_params = [AT_FLOAT], idf_reply = AT_INT, idf_semantic_revision = 1\<rparr>,
     \<lparr>idf_name = ''float.from_bits'', idf_params = [AT_INT], idf_reply = AT_FLOAT, idf_semantic_revision = 1\<rparr>,
     \<lparr>idf_name = ''float.to_int_status'', idf_params = [AT_FLOAT], idf_reply = AT_INT, idf_semantic_revision = 1\<rparr>,
     \<lparr>idf_name = ''float.to_int_value'', idf_params = [AT_FLOAT], idf_reply = AT_INT, idf_semantic_revision = 1\<rparr>,
     \<lparr>idf_name = ''string_builder.append_float'', idf_params = [AT_STRING_BUILDER, AT_FLOAT], idf_reply = AT_STRING_BUILDER, idf_semantic_revision = 1\<rparr>,
     \<lparr>idf_name = ''bytes.bit_and'', idf_params = [AT_BYTES, AT_BYTES], idf_reply = AT_BYTES, idf_semantic_revision = 1\<rparr>,
     \<lparr>idf_name = ''bytes.bit_or'', idf_params = [AT_BYTES, AT_BYTES], idf_reply = AT_BYTES, idf_semantic_revision = 1\<rparr>,
     \<lparr>idf_name = ''bytes.bit_xor'', idf_params = [AT_BYTES, AT_BYTES], idf_reply = AT_BYTES, idf_semantic_revision = 1\<rparr>,
     \<lparr>idf_name = ''bytes.bit_not'', idf_params = [AT_BYTES], idf_reply = AT_BYTES, idf_semantic_revision = 1\<rparr>,
     \<lparr>idf_name = ''text.pad_start'', idf_params = [AT_TEXT, AT_INT], idf_reply = AT_STR, idf_semantic_revision = 1\<rparr>,
     \<lparr>idf_name = ''text.pad_end'', idf_params = [AT_TEXT, AT_INT], idf_reply = AT_STR, idf_semantic_revision = 1\<rparr>,
     \<lparr>idf_name = ''text.parse_float_status'', idf_params = [AT_TEXT], idf_reply = AT_INT, idf_semantic_revision = 1\<rparr>,
     \<lparr>idf_name = ''text.parse_float_value'', idf_params = [AT_TEXT], idf_reply = AT_FLOAT, idf_semantic_revision = 1\<rparr>,
     \<lparr>idf_name = ''float.fixed'', idf_params = [AT_FLOAT, AT_INT], idf_reply = AT_STR, idf_semantic_revision = 1\<rparr>,
     \<lparr>idf_name = ''control.raise_fault'', idf_params = [AT_FAULT], idf_reply = AT_NEVER, idf_semantic_revision = 1\<rparr>,
     \<lparr>idf_name = ''bytes.text_range'', idf_params = [AT_BYTES, AT_INT, AT_INT], idf_reply = AT_STR, idf_semantic_revision = 1\<rparr>,
     \<lparr>idf_name = ''map.intern_text_range'', idf_params = [(ATMap AT_STR AT_STR), AT_BYTES, AT_INT, AT_INT], idf_reply = AT_STR, idf_semantic_revision = 1\<rparr>,
     \<lparr>idf_name = ''int.count_ones'', idf_params = [AT_INT], idf_reply = AT_INT, idf_semantic_revision = 1\<rparr>]"

definition INTRINSICS_9 :: "IntrinsicDef list" where
  "INTRINSICS_9 =
    [\<lparr>idf_name = ''int.leading_zeros'', idf_params = [AT_INT], idf_reply = AT_INT, idf_semantic_revision = 1\<rparr>,
     \<lparr>idf_name = ''int.trailing_zeros'', idf_params = [AT_INT], idf_reply = AT_INT, idf_semantic_revision = 1\<rparr>,
     \<lparr>idf_name = ''int.signum'', idf_params = [AT_INT], idf_reply = AT_INT, idf_semantic_revision = 1\<rparr>,
     \<lparr>idf_name = ''float.abs'', idf_params = [AT_FLOAT], idf_reply = AT_FLOAT, idf_semantic_revision = 1\<rparr>,
     \<lparr>idf_name = ''float.min'', idf_params = [AT_FLOAT, AT_FLOAT], idf_reply = AT_FLOAT, idf_semantic_revision = 1\<rparr>,
     \<lparr>idf_name = ''float.max'', idf_params = [AT_FLOAT, AT_FLOAT], idf_reply = AT_FLOAT, idf_semantic_revision = 1\<rparr>,
     \<lparr>idf_name = ''float.sqrt'', idf_params = [AT_FLOAT], idf_reply = AT_FLOAT, idf_semantic_revision = 1\<rparr>,
     \<lparr>idf_name = ''float.floor'', idf_params = [AT_FLOAT], idf_reply = AT_FLOAT, idf_semantic_revision = 1\<rparr>,
     \<lparr>idf_name = ''float.ceil'', idf_params = [AT_FLOAT], idf_reply = AT_FLOAT, idf_semantic_revision = 1\<rparr>,
     \<lparr>idf_name = ''float.round'', idf_params = [AT_FLOAT], idf_reply = AT_FLOAT, idf_semantic_revision = 1\<rparr>,
     \<lparr>idf_name = ''float.trunc'', idf_params = [AT_FLOAT], idf_reply = AT_FLOAT, idf_semantic_revision = 1\<rparr>,
     \<lparr>idf_name = ''float.is_finite'', idf_params = [AT_FLOAT], idf_reply = AT_BOOL, idf_semantic_revision = 1\<rparr>,
     \<lparr>idf_name = ''float.is_infinite'', idf_params = [AT_FLOAT], idf_reply = AT_BOOL, idf_semantic_revision = 1\<rparr>,
     \<lparr>idf_name = ''float.rem'', idf_params = [AT_FLOAT, AT_FLOAT], idf_reply = AT_FLOAT, idf_semantic_revision = 1\<rparr>,
     \<lparr>idf_name = ''float.copy_sign'', idf_params = [AT_FLOAT, AT_FLOAT], idf_reply = AT_FLOAT, idf_semantic_revision = 1\<rparr>,
     \<lparr>idf_name = ''float.mul_add'', idf_params = [AT_FLOAT, AT_FLOAT, AT_FLOAT], idf_reply = AT_FLOAT, idf_semantic_revision = 1\<rparr>,
     \<lparr>idf_name = ''float.pow'', idf_params = [AT_FLOAT, AT_FLOAT], idf_reply = AT_FLOAT, idf_semantic_revision = 1\<rparr>,
     \<lparr>idf_name = ''float.exp'', idf_params = [AT_FLOAT], idf_reply = AT_FLOAT, idf_semantic_revision = 1\<rparr>,
     \<lparr>idf_name = ''float.exp2'', idf_params = [AT_FLOAT], idf_reply = AT_FLOAT, idf_semantic_revision = 1\<rparr>,
     \<lparr>idf_name = ''float.exp_m1'', idf_params = [AT_FLOAT], idf_reply = AT_FLOAT, idf_semantic_revision = 1\<rparr>,
     \<lparr>idf_name = ''float.ln'', idf_params = [AT_FLOAT], idf_reply = AT_FLOAT, idf_semantic_revision = 1\<rparr>,
     \<lparr>idf_name = ''float.log2'', idf_params = [AT_FLOAT], idf_reply = AT_FLOAT, idf_semantic_revision = 1\<rparr>,
     \<lparr>idf_name = ''float.log10'', idf_params = [AT_FLOAT], idf_reply = AT_FLOAT, idf_semantic_revision = 1\<rparr>,
     \<lparr>idf_name = ''float.ln_1p'', idf_params = [AT_FLOAT], idf_reply = AT_FLOAT, idf_semantic_revision = 1\<rparr>]"

definition INTRINSICS_10 :: "IntrinsicDef list" where
  "INTRINSICS_10 =
    [\<lparr>idf_name = ''float.cbrt'', idf_params = [AT_FLOAT], idf_reply = AT_FLOAT, idf_semantic_revision = 1\<rparr>,
     \<lparr>idf_name = ''float.hypot'', idf_params = [AT_FLOAT, AT_FLOAT], idf_reply = AT_FLOAT, idf_semantic_revision = 1\<rparr>,
     \<lparr>idf_name = ''float.sin'', idf_params = [AT_FLOAT], idf_reply = AT_FLOAT, idf_semantic_revision = 1\<rparr>,
     \<lparr>idf_name = ''float.cos'', idf_params = [AT_FLOAT], idf_reply = AT_FLOAT, idf_semantic_revision = 1\<rparr>,
     \<lparr>idf_name = ''float.tan'', idf_params = [AT_FLOAT], idf_reply = AT_FLOAT, idf_semantic_revision = 1\<rparr>,
     \<lparr>idf_name = ''float.asin'', idf_params = [AT_FLOAT], idf_reply = AT_FLOAT, idf_semantic_revision = 1\<rparr>,
     \<lparr>idf_name = ''float.acos'', idf_params = [AT_FLOAT], idf_reply = AT_FLOAT, idf_semantic_revision = 1\<rparr>,
     \<lparr>idf_name = ''float.atan'', idf_params = [AT_FLOAT], idf_reply = AT_FLOAT, idf_semantic_revision = 1\<rparr>,
     \<lparr>idf_name = ''float.atan2'', idf_params = [AT_FLOAT, AT_FLOAT], idf_reply = AT_FLOAT, idf_semantic_revision = 1\<rparr>,
     \<lparr>idf_name = ''float.sinh'', idf_params = [AT_FLOAT], idf_reply = AT_FLOAT, idf_semantic_revision = 1\<rparr>,
     \<lparr>idf_name = ''float.cosh'', idf_params = [AT_FLOAT], idf_reply = AT_FLOAT, idf_semantic_revision = 1\<rparr>,
     \<lparr>idf_name = ''float.tanh'', idf_params = [AT_FLOAT], idf_reply = AT_FLOAT, idf_semantic_revision = 1\<rparr>,
     \<lparr>idf_name = ''float.asinh'', idf_params = [AT_FLOAT], idf_reply = AT_FLOAT, idf_semantic_revision = 1\<rparr>,
     \<lparr>idf_name = ''float.acosh'', idf_params = [AT_FLOAT], idf_reply = AT_FLOAT, idf_semantic_revision = 1\<rparr>,
     \<lparr>idf_name = ''float.atanh'', idf_params = [AT_FLOAT], idf_reply = AT_FLOAT, idf_semantic_revision = 1\<rparr>,
     \<lparr>idf_name = ''regex.compile_status'', idf_params = [AT_TEXT], idf_reply = AT_INT, idf_semantic_revision = 1\<rparr>,
     \<lparr>idf_name = ''regex.compile_value'', idf_params = [AT_TEXT], idf_reply = AT_REGEX, idf_semantic_revision = 1\<rparr>,
     \<lparr>idf_name = ''regex.source'', idf_params = [AT_REGEX], idf_reply = AT_STR, idf_semantic_revision = 1\<rparr>,
     \<lparr>idf_name = ''regex.is_match'', idf_params = [AT_REGEX, AT_TEXT], idf_reply = AT_BOOL, idf_semantic_revision = 1\<rparr>,
     \<lparr>idf_name = ''regex.captures'', idf_params = [AT_REGEX, AT_TEXT], idf_reply = AT_OPTION_REGEX_MATCH, idf_semantic_revision = 1\<rparr>,
     \<lparr>idf_name = ''regex.count'', idf_params = [AT_REGEX, AT_TEXT], idf_reply = AT_INT, idf_semantic_revision = 1\<rparr>,
     \<lparr>idf_name = ''regex.split'', idf_params = [AT_REGEX, AT_TEXT], idf_reply = AT_LIST_SUBSTRING, idf_semantic_revision = 1\<rparr>,
     \<lparr>idf_name = ''regex.replace_all'', idf_params = [AT_REGEX, AT_TEXT, AT_TEXT], idf_reply = AT_STR, idf_semantic_revision = 1\<rparr>,
     \<lparr>idf_name = ''regex_match.start_byte'', idf_params = [AT_REGEX_MATCH], idf_reply = AT_INT, idf_semantic_revision = 1\<rparr>]"

definition INTRINSICS_11 :: "IntrinsicDef list" where
  "INTRINSICS_11 =
    [\<lparr>idf_name = ''regex_match.end_byte'', idf_params = [AT_REGEX_MATCH], idf_reply = AT_INT, idf_semantic_revision = 1\<rparr>,
     \<lparr>idf_name = ''regex_match.text'', idf_params = [AT_REGEX_MATCH], idf_reply = AT_STR, idf_semantic_revision = 1\<rparr>,
     \<lparr>idf_name = ''regex_match.group_count'', idf_params = [AT_REGEX_MATCH], idf_reply = AT_INT, idf_semantic_revision = 1\<rparr>,
     \<lparr>idf_name = ''regex_match.group'', idf_params = [AT_REGEX_MATCH, AT_INT], idf_reply = AT_OPTION_SUBSTRING, idf_semantic_revision = 1\<rparr>,
     \<lparr>idf_name = ''regex_match.named'', idf_params = [AT_REGEX_MATCH, AT_TEXT], idf_reply = AT_OPTION_SUBSTRING, idf_semantic_revision = 1\<rparr>,
     \<lparr>idf_name = ''list.swap'', idf_params = [(ATList (ATVar 0)), AT_INT, AT_INT], idf_reply = AT_UNIT, idf_semantic_revision = 1\<rparr>,
     \<lparr>idf_name = ''byte_buffer.set'', idf_params = [AT_BYTE_BUFFER, AT_INT, AT_INT], idf_reply = AT_BYTE_BUFFER, idf_semantic_revision = 1\<rparr>,
     \<lparr>idf_name = ''byte_buffer.capacity'', idf_params = [AT_BYTE_BUFFER], idf_reply = AT_INT, idf_semantic_revision = 1\<rparr>,
     \<lparr>idf_name = ''byte_buffer.truncate'', idf_params = [AT_BYTE_BUFFER, AT_INT], idf_reply = AT_BYTE_BUFFER, idf_semantic_revision = 1\<rparr>,
     \<lparr>idf_name = ''bytes.read_u32_be'', idf_params = [AT_BYTES, AT_INT], idf_reply = AT_INT, idf_semantic_revision = 1\<rparr>,
     \<lparr>idf_name = ''bytes.read_u32_le'', idf_params = [AT_BYTES, AT_INT], idf_reply = AT_INT, idf_semantic_revision = 1\<rparr>,
     \<lparr>idf_name = ''int.rotate_left_32'', idf_params = [AT_INT, AT_INT], idf_reply = AT_INT, idf_semantic_revision = 2\<rparr>,
     \<lparr>idf_name = ''int.rotate_right_32'', idf_params = [AT_INT, AT_INT], idf_reply = AT_INT, idf_semantic_revision = 2\<rparr>]"

definition INTRINSICS :: "IntrinsicDef list" where
  "INTRINSICS = INTRINSICS_1 @ INTRINSICS_2 @ INTRINSICS_3 @ INTRINSICS_4 @ INTRINSICS_5 @ INTRINSICS_6 @ INTRINSICS_7 @ INTRINSICS_8 @ INTRINSICS_9 @ INTRINSICS_10 @ INTRINSICS_11"

lemmas INTRINSICS_parts =
  INTRINSICS_1_def INTRINSICS_2_def INTRINSICS_3_def INTRINSICS_4_def INTRINSICS_5_def INTRINSICS_6_def INTRINSICS_7_def INTRINSICS_8_def INTRINSICS_9_def INTRINSICS_10_def INTRINSICS_11_def

section \<open>Operations\<close>

datatype OpKind = Fixed | VmControl

primrec op_kind_tag :: "OpKind \<Rightarrow> string" where
  "op_kind_tag Fixed = ''fixed''"
| "op_kind_tag VmControl = ''vm-control''"

record OpDef =
  od_group :: string
  od_member :: string
  od_kind :: OpKind
  od_params :: "AbiType list"
  od_reply :: AbiType
  od_schema :: string
  od_snapshot :: SnapshotClass

definition OPS_1 :: "OpDef list" where
  "OPS_1 =
    [\<lparr>od_group = ''Io'', od_member = ''ReadBytes'', od_kind = Fixed, od_params = [AT_INT], od_reply = AT_RESULT_BYTES_IO_ERROR,
      od_schema = '''', od_snapshot = HostAttachment\<rparr>,
     \<lparr>od_group = ''Io'', od_member = ''Write'', od_kind = Fixed, od_params = [AT_BYTES], od_reply = AT_RESULT_INT_IO_ERROR,
      od_schema = '''', od_snapshot = HostAttachment\<rparr>,
     \<lparr>od_group = ''Io'', od_member = ''WriteError'', od_kind = Fixed, od_params = [AT_BYTES], od_reply = AT_RESULT_INT_IO_ERROR,
      od_schema = '''', od_snapshot = HostAttachment\<rparr>,
     \<lparr>od_group = ''Clock'', od_member = ''Now'', od_kind = Fixed, od_params = [], od_reply = AT_INT,
      od_schema = '''', od_snapshot = MachineState\<rparr>,
     \<lparr>od_group = ''Clock'', od_member = ''Monotonic'', od_kind = Fixed, od_params = [], od_reply = AT_INT,
      od_schema = '''', od_snapshot = MachineState\<rparr>,
     \<lparr>od_group = ''Clock'', od_member = ''Sleep'', od_kind = Fixed, od_params = [AT_INT], od_reply = AT_UNIT,
      od_schema = '''', od_snapshot = HostAttachment\<rparr>,
     \<lparr>od_group = ''Rand'', od_member = ''Int'', od_kind = Fixed, od_params = [AT_INT, AT_INT], od_reply = AT_INT,
      od_schema = '''', od_snapshot = MachineState\<rparr>,
     \<lparr>od_group = ''Vm'', od_member = ''New'', od_kind = VmControl, od_params = [], od_reply = AT_UNIT,
      od_schema = ''() -> Vm'', od_snapshot = MachineState\<rparr>,
     \<lparr>od_group = ''Vm'', od_member = ''Activate'', od_kind = VmControl, od_params = [], od_reply = AT_UNIT,
      od_schema = ''[A,T,e](Vm, Fn[A,T,e], control A) -> Result[Run[T], CodeError]'', od_snapshot = MachineState\<rparr>,
     \<lparr>od_group = ''Vm'', od_member = ''Run'', od_kind = VmControl, od_params = [], od_reply = AT_UNIT,
      od_schema = ''[T](Run[T]) -> Result[T, Fault]'', od_snapshot = MachineState\<rparr>,
     \<lparr>od_group = ''Vm'', od_member = ''Step'', od_kind = VmControl, od_params = [], od_reply = AT_UNIT,
      od_schema = ''[T](Run[T]) -> StepEvent[T]'', od_snapshot = MachineState\<rparr>,
     \<lparr>od_group = ''Vm'', od_member = ''Drive'', od_kind = VmControl, od_params = [], od_reply = AT_UNIT,
      od_schema = ''[T](Run[T]) -> DriveEvent[T]'', od_snapshot = MachineState\<rparr>,
     \<lparr>od_group = ''Vm'', od_member = ''Answer'', od_kind = VmControl, od_params = [], od_reply = AT_UNIT,
      od_schema = ''[T,A,R](Run[T], PendingCall[A,R], R) -> ()'', od_snapshot = MachineState\<rparr>,
     \<lparr>od_group = ''Vm'', od_member = ''Reject'', od_kind = VmControl, od_params = [], od_reply = AT_UNIT,
      od_schema = ''[T](Run[T], Request, Fault) -> ()'', od_snapshot = MachineState\<rparr>,
     \<lparr>od_group = ''Vm'', od_member = ''Dispatch'', od_kind = VmControl, od_params = [], od_reply = AT_UNIT,
      od_schema = ''[T](Run[T], Request) -> ()'', od_snapshot = MachineState\<rparr>,
     \<lparr>od_group = ''Vm'', od_member = ''Table'', od_kind = VmControl, od_params = [], od_reply = AT_UNIT,
      od_schema = ''[T](Run[T]) -> PolicyTable'', od_snapshot = MachineState\<rparr>]"

definition OPS_2 :: "OpDef list" where
  "OPS_2 =
    [\<lparr>od_group = ''Proc'', od_member = ''Run'', od_kind = VmControl, od_params = [], od_reply = AT_UNIT,
      od_schema = ''[M,R](Run[R], Type[M]) -> Handle[M,R]'', od_snapshot = MachineState\<rparr>,
     \<lparr>od_group = ''Proc'', od_member = ''Spawn'', od_kind = VmControl, od_params = [], od_reply = AT_UNIT,
      od_schema = ''[M,R,A](Class[Proc[M]], control A) -> Handle[M,R]'', od_snapshot = MachineState\<rparr>,
     \<lparr>od_group = ''Proc'', od_member = ''Send'', od_kind = VmControl, od_params = [], od_reply = AT_UNIT,
      od_schema = ''[M,R](Handle[M,R], M) -> SendResult'', od_snapshot = MachineState\<rparr>,
     \<lparr>od_group = ''Proc'', od_member = ''Close'', od_kind = VmControl, od_params = [], od_reply = AT_UNIT,
      od_schema = ''[M,R](Handle[M,R]) -> SendResult'', od_snapshot = MachineState\<rparr>,
     \<lparr>od_group = ''Proc'', od_member = ''Recv'', od_kind = VmControl, od_params = [], od_reply = AT_UNIT,
      od_schema = ''[M](proc self) -> Recv[M]'', od_snapshot = MachineState\<rparr>,
     \<lparr>od_group = ''Proc'', od_member = ''Done'', od_kind = VmControl, od_params = [], od_reply = AT_UNIT,
      od_schema = ''[M,R](Handle[M,R]) -> Result[R, Fault]'', od_snapshot = MachineState\<rparr>,
     \<lparr>od_group = ''Proc'', od_member = ''Pause'', od_kind = VmControl, od_params = [], od_reply = AT_UNIT,
      od_schema = ''[M,R](Handle[M,R]) -> Result[Run[R], ProcError]'', od_snapshot = MachineState\<rparr>,
     \<lparr>od_group = ''Proc'', od_member = ''Resume'', od_kind = VmControl, od_params = [], od_reply = AT_UNIT,
      od_schema = ''[M,R](Handle[M,R]) -> Result[(), ProcError]'', od_snapshot = MachineState\<rparr>,
     \<lparr>od_group = ''Vm'', od_member = ''SnapshotHeld'', od_kind = VmControl, od_params = [], od_reply = AT_UNIT,
      od_schema = ''[T](Run[T]) -> Result[RunSnapshot[T], SnapshotError]'', od_snapshot = MachineState\<rparr>,
     \<lparr>od_group = ''Vm'', od_member = ''SnapshotSelf'', od_kind = VmControl, od_params = [], od_reply = AT_RESULT_VM_SNAPSHOT_ERROR,
      od_schema = ''() -> Result[VmSnapshot, SnapshotError]'', od_snapshot = MachineState\<rparr>,
     \<lparr>od_group = ''Vm'', od_member = ''LoadSnapshot'', od_kind = VmControl, od_params = [], od_reply = AT_UNIT,
      od_schema = ''(Bytes) -> Result[VmSnapshot, SnapshotError]'', od_snapshot = MachineState\<rparr>,
     \<lparr>od_group = ''Vm'', od_member = ''Restore'', od_kind = VmControl, od_params = [], od_reply = AT_UNIT,
      od_schema = ''[T](Vm, RunSnapshot[T]) -> Result[Run[T], RestoreError]'', od_snapshot = MachineState\<rparr>,
     \<lparr>od_group = ''Fs'', od_member = ''Open'', od_kind = Fixed, od_params = [AT_PATH, AT_OPEN_OPTIONS], od_reply = AT_RESULT_FILE_HANDLE_FS_ERROR,
      od_schema = '''', od_snapshot = HostAttachment\<rparr>,
     \<lparr>od_group = ''Fs'', od_member = ''Read'', od_kind = Fixed, od_params = [AT_FILE_HANDLE, AT_INT], od_reply = AT_RESULT_BYTES_FS_ERROR,
      od_schema = '''', od_snapshot = HostAttachment\<rparr>,
     \<lparr>od_group = ''Fs'', od_member = ''Write'', od_kind = Fixed, od_params = [AT_FILE_HANDLE, AT_BYTES], od_reply = AT_RESULT_INT_FS_ERROR,
      od_schema = '''', od_snapshot = HostAttachment\<rparr>,
     \<lparr>od_group = ''Fs'', od_member = ''Seek'', od_kind = Fixed, od_params = [AT_FILE_HANDLE, AT_SEEK_FROM], od_reply = AT_RESULT_INT_FS_ERROR,
      od_schema = '''', od_snapshot = HostAttachment\<rparr>]"

definition OPS_3 :: "OpDef list" where
  "OPS_3 =
    [\<lparr>od_group = ''Fs'', od_member = ''Flush'', od_kind = Fixed, od_params = [AT_FILE_HANDLE], od_reply = AT_RESULT_UNIT_FS_ERROR,
      od_schema = '''', od_snapshot = HostAttachment\<rparr>,
     \<lparr>od_group = ''Fs'', od_member = ''Close'', od_kind = Fixed, od_params = [AT_FILE_HANDLE], od_reply = AT_RESULT_UNIT_FS_ERROR,
      od_schema = '''', od_snapshot = HostAttachment\<rparr>,
     \<lparr>od_group = ''Vm'', od_member = ''Handles'', od_kind = VmControl, od_params = [], od_reply = AT_UNIT,
      od_schema = ''[T](Run[T]) -> List[ResourceHandle]'', od_snapshot = MachineState\<rparr>,
     \<lparr>od_group = ''Vm'', od_member = ''Resource'', od_kind = VmControl, od_params = [], od_reply = AT_UNIT,
      od_schema = ''[T,R: FileHandle | TcpResource | TlsStream](Run[T], R) -> ResourceHandle'', od_snapshot = MachineState\<rparr>,
     \<lparr>od_group = ''Vm'', od_member = ''ServeFile'', od_kind = VmControl, od_params = [], od_reply = AT_UNIT,
      od_schema = ''[T](Run[T], PendingCall[(String, OpenOptions), Result[FileHandle, FsError]]) -> ResourceHandle'', od_snapshot = MachineState\<rparr>,
     \<lparr>od_group = ''Vm'', od_member = ''ResourceIsOpen'', od_kind = VmControl, od_params = [], od_reply = AT_UNIT,
      od_schema = ''(ResourceHandle) -> Bool'', od_snapshot = MachineState\<rparr>,
     \<lparr>od_group = ''Vm'', od_member = ''ResourceClose'', od_kind = VmControl, od_params = [], od_reply = AT_UNIT,
      od_schema = ''(ResourceHandle) -> Bool'', od_snapshot = MachineState\<rparr>,
     \<lparr>od_group = ''Vm'', od_member = ''ResourceKind'', od_kind = VmControl, od_params = [], od_reply = AT_UNIT,
      od_schema = ''(ResourceHandle) -> String'', od_snapshot = MachineState\<rparr>,
     \<lparr>od_group = ''Proc'', od_member = ''SnapshotWait'', od_kind = VmControl, od_params = [], od_reply = AT_UNIT,
      od_schema = ''[M,R](Handle[M,R], Int) -> Result[RunSnapshot[R], SnapshotError]'', od_snapshot = MachineState\<rparr>,
     \<lparr>od_group = ''Vm'', od_member = ''ResourceSame'', od_kind = VmControl, od_params = [], od_reply = AT_UNIT,
      od_schema = ''(ResourceHandle, ResourceHandle) -> Bool'', od_snapshot = MachineState\<rparr>,
     \<lparr>od_group = ''Vm'', od_member = ''DriveWait'', od_kind = VmControl, od_params = [], od_reply = AT_UNIT,
      od_schema = ''[T](Run[T]) -> Wait[DriveEvent[T]]'', od_snapshot = MachineState\<rparr>,
     \<lparr>od_group = ''Proc'', od_member = ''RecvWait'', od_kind = VmControl, od_params = [], od_reply = AT_UNIT,
      od_schema = ''[M](proc self) -> Wait[Recv[M]]'', od_snapshot = MachineState\<rparr>,
     \<lparr>od_group = ''Wait'', od_member = ''Wait'', od_kind = VmControl, od_params = [], od_reply = AT_UNIT,
      od_schema = ''[T](Wait[T]) -> T'', od_snapshot = MachineState\<rparr>,
     \<lparr>od_group = ''Wait'', od_member = ''Choose'', od_kind = VmControl, od_params = [], od_reply = AT_UNIT,
      od_schema = ''[A,B](Wait[A], Wait[B]) -> Wait[Choice[A,B]]'', od_snapshot = MachineState\<rparr>,
     \<lparr>od_group = ''Wait'', od_member = ''Cancel'', od_kind = VmControl, od_params = [], od_reply = AT_UNIT,
      od_schema = ''[T](Wait[T]) -> Bool'', od_snapshot = MachineState\<rparr>,
     \<lparr>od_group = ''Vm'', od_member = ''DriveFor'', od_kind = VmControl, od_params = [], od_reply = AT_UNIT,
      od_schema = ''[T](Run[T], Int) -> Option[DriveEvent[T]]'', od_snapshot = MachineState\<rparr>]"

definition OPS_4 :: "OpDef list" where
  "OPS_4 =
    [\<lparr>od_group = ''Vm'', od_member = ''SnapshotWaitHeld'', od_kind = VmControl, od_params = [], od_reply = AT_UNIT,
      od_schema = ''[T](Run[T], Int) -> Result[RunSnapshot[T], SnapshotError]'', od_snapshot = MachineState\<rparr>,
     \<lparr>od_group = ''Dns'', od_member = ''Resolve'', od_kind = Fixed, od_params = [AT_STR, AT_INT], od_reply = AT_RESULT_LIST_SOCKET_ADDRESS_NET_ERROR,
      od_schema = '''', od_snapshot = HostAttachment\<rparr>,
     \<lparr>od_group = ''Tcp'', od_member = ''Connect'', od_kind = Fixed, od_params = [AT_SOCKET_ADDRESS], od_reply = AT_RESULT_TCP_STREAM_NET_ERROR,
      od_schema = '''', od_snapshot = HostAttachment\<rparr>,
     \<lparr>od_group = ''Tcp'', od_member = ''Listen'', od_kind = Fixed, od_params = [AT_SOCKET_ADDRESS, AT_INT], od_reply = AT_RESULT_TCP_LISTENER_NET_ERROR,
      od_schema = '''', od_snapshot = HostAttachment\<rparr>,
     \<lparr>od_group = ''Tcp'', od_member = ''Accept'', od_kind = Fixed, od_params = [AT_TCP_LISTENER], od_reply = AT_RESULT_ACCEPT_NET_ERROR,
      od_schema = '''', od_snapshot = HostAttachment\<rparr>,
     \<lparr>od_group = ''Tcp'', od_member = ''Read'', od_kind = Fixed, od_params = [AT_TCP_STREAM, AT_INT], od_reply = AT_RESULT_TCP_READ_NET_ERROR,
      od_schema = '''', od_snapshot = HostAttachment\<rparr>,
     \<lparr>od_group = ''Tcp'', od_member = ''Write'', od_kind = Fixed, od_params = [AT_TCP_STREAM, AT_BYTES], od_reply = AT_RESULT_INT_NET_ERROR,
      od_schema = '''', od_snapshot = HostAttachment\<rparr>,
     \<lparr>od_group = ''Tcp'', od_member = ''Shutdown'', od_kind = Fixed, od_params = [AT_TCP_STREAM, AT_SHUTDOWN], od_reply = AT_RESULT_UNIT_NET_ERROR,
      od_schema = '''', od_snapshot = HostAttachment\<rparr>,
     \<lparr>od_group = ''Tcp'', od_member = ''LocalAddress'', od_kind = Fixed, od_params = [AT_TCP_RESOURCE], od_reply = AT_RESULT_SOCKET_ADDRESS_NET_ERROR,
      od_schema = '''', od_snapshot = HostAttachment\<rparr>,
     \<lparr>od_group = ''Tcp'', od_member = ''PeerAddress'', od_kind = Fixed, od_params = [AT_TCP_STREAM], od_reply = AT_RESULT_SOCKET_ADDRESS_NET_ERROR,
      od_schema = '''', od_snapshot = HostAttachment\<rparr>,
     \<lparr>od_group = ''Tcp'', od_member = ''Close'', od_kind = Fixed, od_params = [AT_TCP_RESOURCE], od_reply = AT_RESULT_UNIT_NET_ERROR,
      od_schema = '''', od_snapshot = HostAttachment\<rparr>,
     \<lparr>od_group = ''Vm'', od_member = ''ServeTcpStream'', od_kind = VmControl, od_params = [], od_reply = AT_UNIT,
      od_schema = ''[T](Run[T], PendingCall, SocketAddress) -> ResourceHandle'', od_snapshot = MachineState\<rparr>,
     \<lparr>od_group = ''Vm'', od_member = ''ServeTcpListener'', od_kind = VmControl, od_params = [], od_reply = AT_UNIT,
      od_schema = ''[T](Run[T], PendingCall[SocketAddress, Result[TcpListener, NetError]]) -> ResourceHandle'', od_snapshot = MachineState\<rparr>,
     \<lparr>od_group = ''Tls'', od_member = ''Handshake'', od_kind = Fixed, od_params = [AT_TCP_STREAM, AT_STR, AT_INT, AT_LIST_BYTES, AT_LIST_BYTES, AT_INT, AT_INT], od_reply = AT_RESULT_TLS_STREAM_TLS_ERROR,
      od_schema = '''', od_snapshot = HostAttachment\<rparr>,
     \<lparr>od_group = ''Tls'', od_member = ''Read'', od_kind = Fixed, od_params = [AT_TLS_STREAM, AT_INT], od_reply = AT_RESULT_TCP_READ_TLS_ERROR,
      od_schema = '''', od_snapshot = HostAttachment\<rparr>]"

definition OPS_5 :: "OpDef list" where
  "OPS_5 =
    [\<lparr>od_group = ''Tls'', od_member = ''Write'', od_kind = Fixed, od_params = [AT_TLS_STREAM, AT_BYTES], od_reply = AT_RESULT_INT_TLS_ERROR,
      od_schema = '''', od_snapshot = HostAttachment\<rparr>,
     \<lparr>od_group = ''Tls'', od_member = ''Shutdown'', od_kind = Fixed, od_params = [AT_TLS_STREAM], od_reply = AT_RESULT_UNIT_TLS_ERROR,
      od_schema = '''', od_snapshot = HostAttachment\<rparr>,
     \<lparr>od_group = ''Tls'', od_member = ''LocalAddress'', od_kind = Fixed, od_params = [AT_TLS_STREAM], od_reply = AT_RESULT_SOCKET_ADDRESS_TLS_ERROR,
      od_schema = '''', od_snapshot = HostAttachment\<rparr>,
     \<lparr>od_group = ''Tls'', od_member = ''PeerAddress'', od_kind = Fixed, od_params = [AT_TLS_STREAM], od_reply = AT_RESULT_SOCKET_ADDRESS_TLS_ERROR,
      od_schema = '''', od_snapshot = HostAttachment\<rparr>,
     \<lparr>od_group = ''Tls'', od_member = ''Close'', od_kind = Fixed, od_params = [AT_TLS_STREAM], od_reply = AT_RESULT_UNIT_TLS_ERROR,
      od_schema = '''', od_snapshot = HostAttachment\<rparr>,
     \<lparr>od_group = ''Vm'', od_member = ''ServeTlsStream'', od_kind = VmControl, od_params = [], od_reply = AT_UNIT,
      od_schema = ''[T](Run[T], PendingCall) -> ResourceHandle'', od_snapshot = MachineState\<rparr>,
     \<lparr>od_group = ''Choose'', od_member = ''Pick'', od_kind = Fixed, od_params = [AT_INT], od_reply = AT_INT,
      od_schema = '''', od_snapshot = MachineState\<rparr>,
     \<lparr>od_group = ''Vm'', od_member = ''Artifact'', od_kind = VmControl, od_params = [], od_reply = AT_UNIT,
      od_schema = ''(Bytes) -> Artifact'', od_snapshot = MachineState\<rparr>,
     \<lparr>od_group = ''Compiler'', od_member = ''Verify'', od_kind = VmControl, od_params = [], od_reply = AT_UNIT,
      od_schema = ''(Artifact) -> Result[VerifiedModule, CodeError]'', od_snapshot = MachineState\<rparr>,
     \<lparr>od_group = ''Vm'', od_member = ''Install'', od_kind = VmControl, od_params = [], od_reply = AT_UNIT,
      od_schema = ''(Vm, VerifiedModule) -> Result[Instance, CodeError]'', od_snapshot = MachineState\<rparr>,
     \<lparr>od_group = ''Vm'', od_member = ''InstanceEntry'', od_kind = VmControl, od_params = [], od_reply = AT_UNIT,
      od_schema = ''[F](Instance) -> Result[FunctionDef[F], CodeError]'', od_snapshot = MachineState\<rparr>,
     \<lparr>od_group = ''Vm'', od_member = ''InstanceFunction'', od_kind = VmControl, od_params = [], od_reply = AT_UNIT,
      od_schema = ''[F](Instance, String) -> Result[FunctionDef[F], CodeError]'', od_snapshot = MachineState\<rparr>,
     \<lparr>od_group = ''Vm'', od_member = ''InstanceSlotFor'', od_kind = VmControl, od_params = [], od_reply = AT_UNIT,
      od_schema = ''(Instance, SlotSpec) -> Result[Slot, CodeError]'', od_snapshot = MachineState\<rparr>,
     \<lparr>od_group = ''Vm'', od_member = ''InstanceSlotSpec'', od_kind = VmControl, od_params = [], od_reply = AT_UNIT,
      od_schema = ''(Instance, String) -> Result[SlotSpec, CodeError]'', od_snapshot = MachineState\<rparr>]"

definition OPS_6 :: "OpDef list" where
  "OPS_6 =
    [\<lparr>od_group = ''Vm'', od_member = ''ActivateDef'', od_kind = VmControl, od_params = [], od_reply = AT_UNIT,
      od_schema = ''[F](Vm, FunctionDef[F] | FunctionBinding[F], control Args[F]) -> Result[Run[Return[F]], CodeError]'', od_snapshot = MachineState\<rparr>,
     \<lparr>od_group = ''Vm'', od_member = ''ReplaceFunction'', od_kind = VmControl, od_params = [], od_reply = AT_UNIT,
      od_schema = ''[F](Vm, Slot | FunctionBinding[F], FunctionDef[F] | FunctionBinding[F] | F) -> Result[(), CodeError]'', od_snapshot = MachineState\<rparr>,
     \<lparr>od_group = ''Vm'', od_member = ''InstallWith'', od_kind = VmControl, od_params = [], od_reply = AT_UNIT,
      od_schema = ''(Vm, VerifiedModule, LinkEnv) -> Result[Instance, CodeError]'', od_snapshot = MachineState\<rparr>,
     \<lparr>od_group = ''Compiler'', od_member = ''Compile'', od_kind = Fixed, od_params = [AT_STR, AT_STR, AT_STR, AT_COMPILE_ENV, AT_COMPILE_OPTIONS], od_reply = AT_RESULT_ARTIFACT_COMPILE_ERRORS,
      od_schema = '''', od_snapshot = HostAttachment\<rparr>,
     \<lparr>od_group = ''Compiler'', od_member = ''CompileSyntax'', od_kind = Fixed, od_params = [AT_STR, AT_STR, AT_SYNTAX_NODE, AT_COMPILE_ENV, AT_COMPILE_OPTIONS], od_reply = AT_RESULT_ARTIFACT_COMPILE_ERRORS,
      od_schema = '''', od_snapshot = HostAttachment\<rparr>,
     \<lparr>od_group = ''Reflect'', od_member = ''ParseSyntax'', od_kind = Fixed, od_params = [AT_STR], od_reply = AT_SYNTAX_PARSE,
      od_schema = '''', od_snapshot = HostAttachment\<rparr>,
     \<lparr>od_group = ''Vm'', od_member = ''InstanceClass'', od_kind = VmControl, od_params = [], od_reply = AT_UNIT,
      od_schema = ''(Instance, String) -> Result[ClassDef, CodeError]'', od_snapshot = MachineState\<rparr>,
     \<lparr>od_group = ''Vm'', od_member = ''ReplaceClass'', od_kind = VmControl, od_params = [], od_reply = AT_UNIT,
      od_schema = ''(Vm, Slot | ClassBinding, ClassDef | ClassBinding) -> Result[(), CodeError]'', od_snapshot = MachineState\<rparr>,
     \<lparr>od_group = ''Vm'', od_member = ''ReplaceValue'', od_kind = VmControl, od_params = [], od_reply = AT_UNIT,
      od_schema = ''[T](Vm, Slot, T) -> Result[(), CodeError]'', od_snapshot = MachineState\<rparr>,
     \<lparr>od_group = ''Vm'', od_member = ''ReplaceProcess'', od_kind = VmControl, od_params = [], od_reply = AT_UNIT,
      od_schema = ''[M,R](Vm, Slot, Handle[M,R]) -> Result[(), CodeError]'', od_snapshot = MachineState\<rparr>,
     \<lparr>od_group = ''Vm'', od_member = ''SnapshotVm'', od_kind = VmControl, od_params = [], od_reply = AT_UNIT,
      od_schema = ''(Vm) -> Result[VmSnapshot, SnapshotError]'', od_snapshot = MachineState\<rparr>,
     \<lparr>od_group = ''Vm'', od_member = ''RestoreVm'', od_kind = VmControl, od_params = [], od_reply = AT_UNIT,
      od_schema = ''(VmSnapshot) -> Result[Vm, RestoreError]'', od_snapshot = MachineState\<rparr>,
     \<lparr>od_group = ''Vm'', od_member = ''ActivateOrFault'', od_kind = VmControl, od_params = [], od_reply = AT_UNIT,
      od_schema = ''[A,T,e](Vm, Fn[A,T,e], control A) -> Run[T]'', od_snapshot = MachineState\<rparr>,
     \<lparr>od_group = ''Vm'', od_member = ''ModuleEntryCode'', od_kind = VmControl, od_params = [], od_reply = AT_UNIT,
      od_schema = ''[F](VerifiedModule) -> Result[FunctionCode[F], CodeError]'', od_snapshot = MachineState\<rparr>,
     \<lparr>od_group = ''Vm'', od_member = ''ModuleFunctionCode'', od_kind = VmControl, od_params = [], od_reply = AT_UNIT,
      od_schema = ''[F](VerifiedModule, String) -> Result[FunctionCode[F], CodeError]'', od_snapshot = MachineState\<rparr>]"

definition OPS_7 :: "OpDef list" where
  "OPS_7 =
    [\<lparr>od_group = ''Vm'', od_member = ''ModuleClassCode'', od_kind = VmControl, od_params = [], od_reply = AT_UNIT,
      od_schema = ''(VerifiedModule, String) -> Result[ClassCode, CodeError]'', od_snapshot = MachineState\<rparr>,
     \<lparr>od_group = ''Vm'', od_member = ''InstanceEntryBinding'', od_kind = VmControl, od_params = [], od_reply = AT_UNIT,
      od_schema = ''[F](Instance) -> Result[FunctionBinding[F], CodeError]'', od_snapshot = MachineState\<rparr>,
     \<lparr>od_group = ''Vm'', od_member = ''InstanceFunctionBinding'', od_kind = VmControl, od_params = [], od_reply = AT_UNIT,
      od_schema = ''[F](Instance, String) -> Result[FunctionBinding[F], CodeError]'', od_snapshot = MachineState\<rparr>,
     \<lparr>od_group = ''Vm'', od_member = ''InstanceClassBinding'', od_kind = VmControl, od_params = [], od_reply = AT_UNIT,
      od_schema = ''(Instance, String) -> Result[ClassBinding, CodeError]'', od_snapshot = MachineState\<rparr>,
     \<lparr>od_group = ''Vm'', od_member = ''BindingSlot'', od_kind = VmControl, od_params = [], od_reply = AT_UNIT,
      od_schema = ''[F](FunctionBinding[F] | ClassBinding) -> Result[Slot, CodeError]'', od_snapshot = MachineState\<rparr>,
     \<lparr>od_group = ''Vm'', od_member = ''BindingSpec'', od_kind = VmControl, od_params = [], od_reply = AT_UNIT,
      od_schema = ''[F](FunctionBinding[F] | ClassBinding) -> Result[SlotSpec, CodeError]'', od_snapshot = MachineState\<rparr>,
     \<lparr>od_group = ''Vm'', od_member = ''BindingInstance'', od_kind = VmControl, od_params = [], od_reply = AT_UNIT,
      od_schema = ''[F](FunctionBinding[F] | ClassBinding) -> Result[Instance, CodeError]'', od_snapshot = MachineState\<rparr>,
     \<lparr>od_group = ''Vm'', od_member = ''BindingFunctionTarget'', od_kind = VmControl, od_params = [], od_reply = AT_UNIT,
      od_schema = ''[F](FunctionBinding[F]) -> Result[FunctionDef[F], CodeError]'', od_snapshot = MachineState\<rparr>,
     \<lparr>od_group = ''Vm'', od_member = ''BindingClassTarget'', od_kind = VmControl, od_params = [], od_reply = AT_UNIT,
      od_schema = ''(ClassBinding) -> Result[ClassDef, CodeError]'', od_snapshot = MachineState\<rparr>,
     \<lparr>od_group = ''Vm'', od_member = ''ChangeFunction'', od_kind = VmControl, od_params = [], od_reply = AT_UNIT,
      od_schema = ''[F](Vm, Slot | FunctionBinding[F], FunctionDef[F] | FunctionBinding[F] | F) -> Result[SlotChange, CodeError]'', od_snapshot = MachineState\<rparr>,
     \<lparr>od_group = ''Vm'', od_member = ''ChangeClass'', od_kind = VmControl, od_params = [], od_reply = AT_UNIT,
      od_schema = ''(Vm, Slot | ClassBinding, ClassDef | ClassBinding) -> Result[SlotChange, CodeError]'', od_snapshot = MachineState\<rparr>,
     \<lparr>od_group = ''Vm'', od_member = ''ChangeValue'', od_kind = VmControl, od_params = [], od_reply = AT_UNIT,
      od_schema = ''[T](Vm, Slot, T) -> Result[SlotChange, CodeError]'', od_snapshot = MachineState\<rparr>,
     \<lparr>od_group = ''Vm'', od_member = ''ChangeProcess'', od_kind = VmControl, od_params = [], od_reply = AT_UNIT,
      od_schema = ''[M,R](Vm, Slot, Handle[M,R]) -> Result[SlotChange, CodeError]'', od_snapshot = MachineState\<rparr>,
     \<lparr>od_group = ''Vm'', od_member = ''ReplaceAll'', od_kind = VmControl, od_params = [], od_reply = AT_UNIT,
      od_schema = ''(Vm, List[SlotChange]) -> Result[(), CodeError]'', od_snapshot = MachineState\<rparr>,
     \<lparr>od_group = ''Vm'', od_member = ''RunSnapshotBytes'', od_kind = VmControl, od_params = [], od_reply = AT_UNIT,
      od_schema = ''[T](RunSnapshot[T]) -> Result[Bytes, SnapshotError]'', od_snapshot = MachineState\<rparr>,
     \<lparr>od_group = ''Vm'', od_member = ''SnapshotBytes'', od_kind = VmControl, od_params = [], od_reply = AT_UNIT,
      od_schema = ''(VmSnapshot) -> Result[Bytes, SnapshotError]'', od_snapshot = MachineState\<rparr>]"

definition OPS_8 :: "OpDef list" where
  "OPS_8 =
    [\<lparr>od_group = ''Env'', od_member = ''Get'', od_kind = Fixed, od_params = [AT_STR], od_reply = AT_RESULT_OPTION_STR_ENV_ERROR,
      od_schema = '''', od_snapshot = MachineState\<rparr>,
     \<lparr>od_group = ''Fs'', od_member = ''CurrentDir'', od_kind = Fixed, od_params = [], od_reply = AT_RESULT_PATH_FS_ERROR,
      od_schema = '''', od_snapshot = MachineState\<rparr>,
     \<lparr>od_group = ''Entropy'', od_member = ''Bytes'', od_kind = Fixed, od_params = [AT_INT], od_reply = AT_RESULT_BYTES_ENTROPY_ERROR,
      od_schema = '''', od_snapshot = MachineState\<rparr>,
     \<lparr>od_group = ''Args'', od_member = ''Get'', od_kind = Fixed, od_params = [], od_reply = AT_LIST_STR,
      od_schema = '''', od_snapshot = MachineState\<rparr>,
     \<lparr>od_group = ''Tty'', od_member = ''IsTerminal'', od_kind = Fixed, od_params = [AT_STD_STREAM], od_reply = AT_BOOL,
      od_schema = '''', od_snapshot = MachineState\<rparr>,
     \<lparr>od_group = ''Tty'', od_member = ''Size'', od_kind = Fixed, od_params = [AT_STD_STREAM], od_reply = AT_RESULT_TTY_SIZE_TTY_ERROR,
      od_schema = '''', od_snapshot = MachineState\<rparr>,
     \<lparr>od_group = ''Tty'', od_member = ''EnterRaw'', od_kind = Fixed, od_params = [], od_reply = AT_RESULT_RAW_MODE_TTY_ERROR,
      od_schema = '''', od_snapshot = MachineState\<rparr>,
     \<lparr>od_group = ''Tty'', od_member = ''ExitRaw'', od_kind = Fixed, od_params = [AT_RAW_MODE], od_reply = AT_RESULT_UNIT_TTY_ERROR,
      od_schema = '''', od_snapshot = MachineState\<rparr>,
     \<lparr>od_group = ''Signal'', od_member = ''Open'', od_kind = Fixed, od_params = [AT_LIST_SIGNAL_KIND], od_reply = AT_RESULT_SIGNAL_STREAM_SIGNAL_ERROR,
      od_schema = '''', od_snapshot = MachineState\<rparr>,
     \<lparr>od_group = ''Signal'', od_member = ''Next'', od_kind = Fixed, od_params = [AT_SIGNAL_STREAM], od_reply = AT_RESULT_SIGNAL_KIND_SIGNAL_ERROR,
      od_schema = '''', od_snapshot = HostAttachment\<rparr>,
     \<lparr>od_group = ''Signal'', od_member = ''Close'', od_kind = Fixed, od_params = [AT_SIGNAL_STREAM], od_reply = AT_RESULT_UNIT_SIGNAL_ERROR,
      od_schema = '''', od_snapshot = MachineState\<rparr>,
     \<lparr>od_group = ''Fs'', od_member = ''Stat'', od_kind = Fixed, od_params = [AT_PATH], od_reply = AT_RESULT_FILE_INFO_FS_ERROR,
      od_schema = '''', od_snapshot = HostAttachment\<rparr>,
     \<lparr>od_group = ''Fs'', od_member = ''ReadDir'', od_kind = Fixed, od_params = [AT_PATH, AT_INT], od_reply = AT_RESULT_DIR_ENTRIES_FS_ERROR,
      od_schema = '''', od_snapshot = HostAttachment\<rparr>,
     \<lparr>od_group = ''Fs'', od_member = ''CreateDir'', od_kind = Fixed, od_params = [AT_PATH], od_reply = AT_RESULT_UNIT_FS_ERROR,
      od_schema = '''', od_snapshot = HostAttachment\<rparr>,
     \<lparr>od_group = ''Fs'', od_member = ''RemoveFile'', od_kind = Fixed, od_params = [AT_PATH], od_reply = AT_RESULT_UNIT_FS_ERROR,
      od_schema = '''', od_snapshot = HostAttachment\<rparr>,
     \<lparr>od_group = ''Fs'', od_member = ''RemoveDir'', od_kind = Fixed, od_params = [AT_PATH], od_reply = AT_RESULT_UNIT_FS_ERROR,
      od_schema = '''', od_snapshot = HostAttachment\<rparr>]"

definition OPS_9 :: "OpDef list" where
  "OPS_9 =
    [\<lparr>od_group = ''Fs'', od_member = ''Rename'', od_kind = Fixed, od_params = [AT_PATH, AT_PATH, AT_RENAME_MODE], od_reply = AT_RESULT_UNIT_FS_ERROR,
      od_schema = '''', od_snapshot = HostAttachment\<rparr>,
     \<lparr>od_group = ''Fs'', od_member = ''Sync'', od_kind = Fixed, od_params = [AT_FILE_HANDLE], od_reply = AT_RESULT_UNIT_FS_ERROR,
      od_schema = '''', od_snapshot = HostAttachment\<rparr>,
     \<lparr>od_group = ''Fs'', od_member = ''SyncDir'', od_kind = Fixed, od_params = [AT_PATH], od_reply = AT_RESULT_UNIT_FS_ERROR,
      od_schema = '''', od_snapshot = HostAttachment\<rparr>,
     \<lparr>od_group = ''Pipe'', od_member = ''Open'', od_kind = Fixed, od_params = [], od_reply = AT_RESULT_PIPE_PAIR_PIPE_ERROR,
      od_schema = '''', od_snapshot = HostAttachment\<rparr>,
     \<lparr>od_group = ''Pipe'', od_member = ''Read'', od_kind = Fixed, od_params = [AT_PIPE_READER, AT_INT], od_reply = AT_RESULT_BYTES_PIPE_ERROR,
      od_schema = '''', od_snapshot = HostAttachment\<rparr>,
     \<lparr>od_group = ''Pipe'', od_member = ''Write'', od_kind = Fixed, od_params = [AT_PIPE_WRITER, AT_BYTES], od_reply = AT_RESULT_INT_PIPE_ERROR,
      od_schema = '''', od_snapshot = HostAttachment\<rparr>,
     \<lparr>od_group = ''Pipe'', od_member = ''Close'', od_kind = Fixed, od_params = [AT_PIPE_END], od_reply = AT_RESULT_UNIT_PIPE_ERROR,
      od_schema = '''', od_snapshot = HostAttachment\<rparr>,
     \<lparr>od_group = ''Exec'', od_member = ''Spawn'', od_kind = Fixed, od_params = [AT_EXEC_SPEC], od_reply = AT_RESULT_CHILD_EXEC_ERROR,
      od_schema = '''', od_snapshot = HostAttachment\<rparr>,
     \<lparr>od_group = ''Exec'', od_member = ''Wait'', od_kind = Fixed, od_params = [AT_CHILD], od_reply = AT_RESULT_CHILD_STATUS_EXEC_ERROR,
      od_schema = '''', od_snapshot = HostAttachment\<rparr>,
     \<lparr>od_group = ''Exec'', od_member = ''Terminate'', od_kind = Fixed, od_params = [AT_CHILD], od_reply = AT_RESULT_UNIT_EXEC_ERROR,
      od_schema = '''', od_snapshot = HostAttachment\<rparr>,
     \<lparr>od_group = ''Exec'', od_member = ''Kill'', od_kind = Fixed, od_params = [AT_CHILD], od_reply = AT_RESULT_UNIT_EXEC_ERROR,
      od_schema = '''', od_snapshot = HostAttachment\<rparr>,
     \<lparr>od_group = ''Exec'', od_member = ''Close'', od_kind = Fixed, od_params = [AT_CHILD], od_reply = AT_RESULT_UNIT_EXEC_ERROR,
      od_schema = '''', od_snapshot = HostAttachment\<rparr>,
     \<lparr>od_group = ''Tls'', od_member = ''ServerHandshake'', od_kind = Fixed, od_params = [AT_TCP_STREAM, AT_LIST_BYTES, AT_BYTES, AT_LIST_BYTES, AT_INT, AT_INT], od_reply = AT_RESULT_TLS_STREAM_TLS_ERROR,
      od_schema = '''', od_snapshot = HostAttachment\<rparr>,
     \<lparr>od_group = ''Udp'', od_member = ''Bind'', od_kind = Fixed, od_params = [AT_SOCKET_ADDRESS], od_reply = AT_RESULT_UDP_SOCKET_NET_ERROR,
      od_schema = '''', od_snapshot = HostAttachment\<rparr>,
     \<lparr>od_group = ''Udp'', od_member = ''SendTo'', od_kind = Fixed, od_params = [AT_UDP_SOCKET, AT_SOCKET_ADDRESS, AT_BYTES], od_reply = AT_RESULT_UNIT_NET_ERROR,
      od_schema = '''', od_snapshot = HostAttachment\<rparr>]"

definition OPS_10 :: "OpDef list" where
  "OPS_10 =
    [\<lparr>od_group = ''Udp'', od_member = ''RecvFrom'', od_kind = Fixed, od_params = [AT_UDP_SOCKET], od_reply = AT_RESULT_UDP_DATAGRAM_NET_ERROR,
      od_schema = '''', od_snapshot = HostAttachment\<rparr>,
     \<lparr>od_group = ''Udp'', od_member = ''LocalAddress'', od_kind = Fixed, od_params = [AT_UDP_SOCKET], od_reply = AT_RESULT_SOCKET_ADDRESS_NET_ERROR,
      od_schema = '''', od_snapshot = HostAttachment\<rparr>,
     \<lparr>od_group = ''Udp'', od_member = ''Close'', od_kind = Fixed, od_params = [AT_UDP_SOCKET], od_reply = AT_RESULT_UNIT_NET_ERROR,
      od_schema = '''', od_snapshot = HostAttachment\<rparr>,
     \<lparr>od_group = ''Proc'', od_member = ''RunClosure'', od_kind = VmControl, od_params = [], od_reply = AT_UNIT,
      od_schema = ''[R,e](() -> R with e) -> Handle[Never,R]'', od_snapshot = MachineState\<rparr>,
     \<lparr>od_group = ''Vm'', od_member = ''Branch'', od_kind = VmControl, od_params = [], od_reply = AT_UNIT,
      od_schema = ''[T](Run[T]) -> Result[Run[T], BranchError]'', od_snapshot = MachineState\<rparr>,
     \<lparr>od_group = ''Wait'', od_member = ''Any'', od_kind = VmControl, od_params = [], od_reply = AT_UNIT,
      od_schema = ''[T](List[Wait[T]]) -> (Int,T)'', od_snapshot = MachineState\<rparr>,
     \<lparr>od_group = ''Vm'', od_member = ''BranchAnswer'', od_kind = VmControl, od_params = [], od_reply = AT_UNIT,
      od_schema = ''[T,A,R](Run[T], PendingCall[A,R], R) -> Result[Run[T], BranchError]'', od_snapshot = MachineState\<rparr>,
     \<lparr>od_group = ''Vm'', od_member = ''RestoreDynamic'', od_kind = VmControl, od_params = [], od_reply = AT_UNIT,
      od_schema = ''(Vm, VmSnapshot) -> Result[Run[DynValue], RestoreError]'', od_snapshot = MachineState\<rparr>,
     \<lparr>od_group = ''Vm'', od_member = ''Stack'', od_kind = VmControl, od_params = [], od_reply = AT_UNIT,
      od_schema = ''[T](Run[T]) -> List[CodeLocation]'', od_snapshot = MachineState\<rparr>,
     \<lparr>od_group = ''Vm'', od_member = ''Link'', od_kind = VmControl, od_params = [], od_reply = AT_UNIT,
      od_schema = ''(VerifiedModule) -> Result[ModuleCode, CodeError]'', od_snapshot = MachineState\<rparr>]"

definition OPS :: "OpDef list" where
  "OPS = OPS_1 @ OPS_2 @ OPS_3 @ OPS_4 @ OPS_5 @ OPS_6 @ OPS_7 @ OPS_8 @ OPS_9 @ OPS_10"

lemmas OPS_parts =
  OPS_1_def OPS_2_def OPS_3_def OPS_4_def OPS_5_def OPS_6_def OPS_7_def OPS_8_def OPS_9_def OPS_10_def

end
