(* ===== verification/Group_Walk.thy ===== *)
theory Group_Walk
  imports Loom_Prelude
begin

text \<open>
  The two walks over the effect sets of an operation manifest, written once for the compiled
  manifest of \<^verbatim>\<open>crates/lm-abi/src/lib.rs\<close> and the bundles of \<^verbatim>\<open>crates/lm-abi/src/bundle.rs\<close>.
  A group is a slot, its members are names, and a name that is a group leads to another
  slot. Both walks take a depth budget: the number of groups is enough, since every level
  marks a group that was not marked before.
\<close>

section \<open>The membership walk\<close>

text \<open>
  \<open>contains\<close>: whether a group holds an operation, with the groups already visited marked.
  \<open>own\<close> tells the namespace group of the operation, \<open>exact\<close> is the name of the operation.
\<close>

fun contains_group ::
  "(nat \<Rightarrow> bool) \<Rightarrow> string \<Rightarrow> (nat \<Rightarrow> string list) \<Rightarrow> (string \<Rightarrow> nat option) \<Rightarrow>
     nat \<Rightarrow> bool list \<Rightarrow> nat \<Rightarrow> (bool \<times> bool list) option"
and contains_members ::
  "(nat \<Rightarrow> bool) \<Rightarrow> string \<Rightarrow> (nat \<Rightarrow> string list) \<Rightarrow> (string \<Rightarrow> nat option) \<Rightarrow>
     nat \<Rightarrow> bool list \<Rightarrow> string list \<Rightarrow> (bool \<times> bool list) option" where
  "contains_group own exact mems slots 0 seen g = None"
| "contains_group own exact mems slots (Suc n) seen g =
     (case get_opt seen g of
        None \<Rightarrow> None
      | Some visited \<Rightarrow>
          if visited then Some (False, seen)
          else if own g then Some (True, seen[g := True])
          else contains_members own exact mems slots n (seen[g := True]) (mems g))"
| "contains_members own exact mems slots n seen [] = Some (False, seen)"
| "contains_members own exact mems slots n seen (member # rest) =
     (if member = exact then Some (True, seen)
      else case slots member of
             None \<Rightarrow> contains_members own exact mems slots n seen rest
           | Some child \<Rightarrow>
               (case contains_group own exact mems slots n seen child of
                  None \<Rightarrow> None
                | Some (found, seen') \<Rightarrow>
                    if found then Some (True, seen')
                    else contains_members own exact mems slots n seen' rest))"

section \<open>The cycle check\<close>

text \<open>\<open>visit\<close>: 0 marks a group not reached, 1 a group on the path, 2 a finished group. The error is
  the group that closes a cycle.\<close>

fun visit_group ::
  "(nat \<Rightarrow> string list) \<Rightarrow> (string \<Rightarrow> nat option) \<Rightarrow> nat \<Rightarrow> nat list \<Rightarrow> nat \<Rightarrow> (nat + nat list) option"
and visit_members ::
  "(nat \<Rightarrow> string list) \<Rightarrow> (string \<Rightarrow> nat option) \<Rightarrow> nat \<Rightarrow> nat list \<Rightarrow> string list \<Rightarrow> (nat + nat list) option" where
  "visit_group mems slots 0 state g = None"
| "visit_group mems slots (Suc n) state g =
     (case get_opt state g of
        None \<Rightarrow> None
      | Some mark \<Rightarrow>
          if mark = 1 then Some (Inl g)
          else if mark = 2 then Some (Inr state)
          else (case visit_members mems slots n (state[g := 1]) (mems g) of
                  None \<Rightarrow> None
                | Some (Inl e) \<Rightarrow> Some (Inl e)
                | Some (Inr state') \<Rightarrow> Some (Inr (state'[g := 2]))))"
| "visit_members mems slots n state [] = Some (Inr state)"
| "visit_members mems slots n state (member # rest) =
     (case slots member of
        None \<Rightarrow> visit_members mems slots n state rest
      | Some child \<Rightarrow>
          (case visit_group mems slots n state child of
             None \<Rightarrow> None
           | Some (Inl e) \<Rightarrow> Some (Inl e)
           | Some (Inr state') \<Rightarrow> visit_members mems slots n state' rest))"

primrec visit_all :: "(nat \<Rightarrow> string list) \<Rightarrow> (string \<Rightarrow> nat option) \<Rightarrow> nat \<Rightarrow> nat list \<Rightarrow> nat list \<Rightarrow> (nat + nat list) option" where
  "visit_all mems slots n state [] = Some (Inr state)"
| "visit_all mems slots n state (g # gs) =
     (case visit_group mems slots n state g of
        None \<Rightarrow> None
      | Some (Inl e) \<Rightarrow> Some (Inl e)
      | Some (Inr state') \<Rightarrow> visit_all mems slots n state' gs)"

section \<open>What the walks compute\<close>

text \<open>The edges between groups, and the groups that hold an operation directly.\<close>

definition edge :: "(nat \<Rightarrow> string list) \<Rightarrow> (string \<Rightarrow> nat option) \<Rightarrow> nat \<Rightarrow> nat \<Rightarrow> bool" where
  "edge mems slots g c \<longleftrightarrow> (\<exists>m \<in> set (mems g). slots m = Some c)"

lemma edgeI: "m \<in> set (mems g) \<Longrightarrow> slots m = Some c \<Longrightarrow> edge mems slots g c"
  by (auto simp: edge_def)

definition holds :: "(nat \<Rightarrow> bool) \<Rightarrow> string \<Rightarrow> (nat \<Rightarrow> string list) \<Rightarrow> nat \<Rightarrow> bool" where
  "holds own exact mems g \<longleftrightarrow> own g \<or> exact \<in> set (mems g)"

definition marked :: "bool list \<Rightarrow> nat set" where
  "marked seen = {i. i < length seen \<and> seen ! i}"

lemma marked_update: "g < length seen \<Longrightarrow> marked (seen[g := True]) = insert g (marked seen)"
  by (auto simp: marked_def nth_list_update split: if_splits)

lemma contains_sound:
  "contains_group own exact mems slots n seen g = Some (True, seen') \<Longrightarrow>
     \<exists>x. (edge mems slots)\<^sup>*\<^sup>* g x \<and> holds own exact mems x"
  "contains_members own exact mems slots n seen ms = Some (True, seen') \<Longrightarrow>
     exact \<in> set ms \<or> (\<exists>m \<in> set ms. \<exists>c x. slots m = Some c \<and> (edge mems slots)\<^sup>*\<^sup>* c x \<and> holds own exact mems x)"
proof (induction own exact mems slots n seen g and own exact mems slots n seen ms arbitrary: seen' and seen'
    rule: contains_group_contains_members.induct)
  case (2 own exact mems slots n seen g)
  show ?case
  proof (cases "own g")
    case True
    then show ?thesis by (auto simp: holds_def)
  next
    case False
    then have "contains_members own exact mems slots n (seen[g := True]) (mems g) = Some (True, seen')"
      using "2.prems" by (auto split: option.splits if_splits)
    with False 2 have "exact \<in> set (mems g) \<or> (\<exists>m \<in> set (mems g). \<exists>c x. slots m = Some c \<and> (edge mems slots)\<^sup>*\<^sup>* c x \<and> holds own exact mems x)"
      by (auto split: option.splits if_splits)
    then show ?thesis
    proof
      assume "exact \<in> set (mems g)"
      then show ?thesis by (auto simp: holds_def)
    next
      assume "\<exists>m \<in> set (mems g). \<exists>c x. slots m = Some c \<and> (edge mems slots)\<^sup>*\<^sup>* c x \<and> holds own exact mems x"
      then show ?thesis by (blast intro: edgeI converse_rtranclp_into_rtranclp)
    qed
  qed
next
  case (4 own exact mems slots n seen member rest)
  then show ?case by (auto split: option.splits if_splits) blast+
qed simp_all

lemma contains_complete:
  "contains_group own exact mems slots n seen g = Some (False, seen') \<Longrightarrow>
     length seen' = length seen \<and> marked seen \<subseteq> marked seen' \<and> g \<in> marked seen' \<and>
     (\<forall>x \<in> marked seen' - marked seen. \<not> holds own exact mems x \<and> (\<forall>c. edge mems slots x c \<longrightarrow> c \<in> marked seen'))"
  "contains_members own exact mems slots n seen ms = Some (False, seen') \<Longrightarrow>
     length seen' = length seen \<and> marked seen \<subseteq> marked seen' \<and> exact \<notin> set ms \<and>
     (\<forall>m \<in> set ms. \<forall>c. slots m = Some c \<longrightarrow> c \<in> marked seen') \<and>
     (\<forall>x \<in> marked seen' - marked seen. \<not> holds own exact mems x \<and> (\<forall>c. edge mems slots x c \<longrightarrow> c \<in> marked seen'))"
proof (induction own exact mems slots n seen g and own exact mems slots n seen ms arbitrary: seen' and seen'
    rule: contains_group_contains_members.induct)
  case (2 own exact mems slots n seen g)
  show ?case
  proof (cases "get_opt seen g = Some True")
    case True
    then have "seen' = seen" "g \<in> marked seen" using "2.prems" by (simp, auto simp: get_opt_Some_iff marked_def)
    then show ?thesis by simp
  next
    case False
    then have g: "get_opt seen g = Some False" "\<not> own g" and
      rec: "contains_members own exact mems slots n (seen[g := True]) (mems g) = Some (False, seen')"
      using "2.prems" by (auto split: option.splits if_splits)
    have len: "g < length seen" using g(1) by (simp add: get_opt_Some_iff)
    from "2.IH" [OF g(1) _ g(2) rec] have ih: "length seen' = length seen" "insert g (marked seen) \<subseteq> marked seen'" "exact \<notin> set (mems g)"
      "\<forall>m \<in> set (mems g). \<forall>c. slots m = Some c \<longrightarrow> c \<in> marked seen'"
      "\<forall>x \<in> marked seen' - insert g (marked seen). \<not> holds own exact mems x \<and> (\<forall>c. edge mems slots x c \<longrightarrow> c \<in> marked seen')"
      unfolding marked_update [OF len] by simp_all
    have "\<not> holds own exact mems g" using g(2) ih(3) by (simp add: holds_def)
    moreover have "\<forall>c. edge mems slots g c \<longrightarrow> c \<in> marked seen'" using ih(4) by (auto simp: edge_def)
    ultimately show ?thesis using ih(1,2,5) by blast
  qed
next
  case (4 own exact mems slots n seen member rest)
  show ?case
  proof (cases "slots member")
    case None
    then show ?thesis using 4 by (auto split: if_splits)
  next
    case (Some c)
    then obtain seen1 where c: "member \<noteq> exact" "contains_group own exact mems slots n seen c = Some (False, seen1)"
      and rest: "contains_members own exact mems slots n seen1 rest = Some (False, seen')"
      using "4.prems" by (auto split: if_splits option.splits)
    note ih = "4.IH"(2) [OF c(1) Some c(2)] "4.IH"(3) [OF c(1) Some c(2) refl _ rest]
    from ih(1) have a: "length seen1 = length seen" "marked seen \<subseteq> marked seen1" "c \<in> marked seen1"
      "\<forall>x \<in> marked seen1 - marked seen. \<not> holds own exact mems x \<and> (\<forall>c. edge mems slots x c \<longrightarrow> c \<in> marked seen1)" by auto
    from ih(2) have b: "length seen' = length seen1" "marked seen1 \<subseteq> marked seen'" "exact \<notin> set rest"
      "\<forall>m \<in> set rest. \<forall>c. slots m = Some c \<longrightarrow> c \<in> marked seen'"
      "\<forall>x \<in> marked seen' - marked seen1. \<not> holds own exact mems x \<and> (\<forall>c. edge mems slots x c \<longrightarrow> c \<in> marked seen')" by auto
    have "\<forall>x \<in> marked seen' - marked seen. \<not> holds own exact mems x \<and> (\<forall>c. edge mems slots x c \<longrightarrow> c \<in> marked seen')"
      using a(4) b(2,5) by blast
    moreover have "\<forall>m \<in> set (member # rest). \<forall>c. slots m = Some c \<longrightarrow> c \<in> marked seen'" using a(3) b(2,4) Some by auto
    ultimately show ?thesis using a(1,2) b(1-3) c(1) by (metis order_trans set_ConsD)
  qed
qed simp_all

lemma fresh_update:
  "i < length xs \<Longrightarrow> P (xs ! i) \<Longrightarrow> \<not> P y \<Longrightarrow> Suc (length (filter P (xs[i := y]))) = length (filter P xs)"
proof (induction xs arbitrary: i)
  case (Cons x xs)
  then show ?case by (cases i) auto
qed simp

lemma contains_runs:
  "\<forall>m c. slots m = Some c \<longrightarrow> c < length seen \<Longrightarrow> g < length seen \<Longrightarrow> length (filter Not seen) < n \<Longrightarrow>
     \<exists>b seen'. contains_group own exact mems slots n seen g = Some (b, seen') \<and> length seen' = length seen \<and>
       length (filter Not seen') \<le> length (filter Not seen)"
  "\<forall>m c. slots m = Some c \<longrightarrow> c < length seen \<Longrightarrow> length (filter Not seen) < n \<Longrightarrow>
     \<exists>b seen'. contains_members own exact mems slots n seen ms = Some (b, seen') \<and> length seen' = length seen \<and>
       length (filter Not seen') \<le> length (filter Not seen)"
proof (induction own exact mems slots n seen g and own exact mems slots n seen ms
    rule: contains_group_contains_members.induct)
  case (2 own exact mems slots n seen g)
  have g: "get_opt seen g = Some (seen ! g)" using "2.prems" by (simp add: get_opt_Some_iff)
  show ?case
  proof (cases "seen ! g \<or> own g")
    case True
    then show ?thesis using fresh_update [of g seen Not True] "2.prems" by (cases "seen ! g") (auto simp: g)
  next
    case False
    have fresh: "Suc (length (filter Not (seen[g := True]))) = length (filter Not seen)"
      using False "2.prems" by (intro fresh_update) auto
    have "\<exists>b seen'. contains_members own exact mems slots n (seen[g := True]) (mems g) = Some (b, seen') \<and>
        length seen' = length (seen[g := True]) \<and> length (filter Not seen') \<le> length (filter Not (seen[g := True]))"
      by (rule "2.IH" [OF g]) (use False "2.prems" fresh in auto)
    then show ?thesis using g False fresh by auto
  qed
next
  case (4 own exact mems slots n seen member rest)
  consider "member = exact" | "member \<noteq> exact" "slots member = None" | c where "member \<noteq> exact" "slots member = Some c" by blast
  then show ?case
  proof cases
    case 3
    from "4.IH"(2) [OF 3] "4.prems" 3(2) obtain b seen1 where
      b: "contains_group own exact mems slots n seen c = Some (b, seen1)" "length seen1 = length seen"
        "length (filter Not seen1) \<le> length (filter Not seen)" by blast
    show ?thesis
    proof (cases b)
      case False
      have "\<exists>b seen'. contains_members own exact mems slots n seen1 rest = Some (b, seen') \<and>
          length seen' = length seen1 \<and> length (filter Not seen') \<le> length (filter Not seen1)"
        by (rule "4.IH"(3) [OF 3 b(1) refl]) (use False b "4.prems" in auto)
      then show ?thesis using 3 b False by auto
    qed (use 3 b in auto)
  qed (use 4 in auto)
qed auto

text \<open>The membership walk from an unmarked table decides reachability of a group that holds the operation.\<close>

lemma contains_decides:
  assumes "\<forall>m c. slots m = Some c \<longrightarrow> c < n" and "g < n"
  shows "\<exists>b seen'. contains_group own exact mems slots (Suc n) (replicate n False) g = Some (b, seen') \<and>
    (b \<longleftrightarrow> (\<exists>x. (edge mems slots)\<^sup>*\<^sup>* g x \<and> holds own exact mems x))"
proof -
  have "length (filter Not (replicate n False)) < Suc n" by (simp add: less_Suc_eq_le)
  from contains_runs(1) [OF _ _ this, of slots g own exact mems] assms obtain b seen' where
    run: "contains_group own exact mems slots (Suc n) (replicate n False) g = Some (b, seen')" by auto
  show ?thesis
  proof (cases b)
    case True
    then show ?thesis using run contains_sound(1) [of own exact mems slots "Suc n" "replicate n False" g seen'] by auto
  next
    case False
    have none: "marked (replicate n False) = {}" by (auto simp: marked_def)
    from run False have c: "g \<in> marked seen'"
      "\<forall>x \<in> marked seen'. \<not> holds own exact mems x \<and> (\<forall>c. edge mems slots x c \<longrightarrow> c \<in> marked seen')"
      using contains_complete(1) [of own exact mems slots "Suc n" "replicate n False" g seen'] unfolding none by auto
    have "x \<in> marked seen'" if "(edge mems slots)\<^sup>*\<^sup>* g x" for x
      using that by (induction rule: rtranclp_induct) (use c in auto)
    then show ?thesis using run False c(2) by auto
  qed
qed

section \<open>What the cycle check decides\<close>

definition at_mark :: "nat \<Rightarrow> nat list \<Rightarrow> nat set" where
  "at_mark k state = {i. i < length state \<and> state ! i = k}"

lemma at_mark_update: "g < length state \<Longrightarrow> at_mark k (state[g := j]) = (if j = k then insert g (at_mark k state) else at_mark k state - {g})"
  by (auto simp: at_mark_def nth_list_update split: if_splits)

definition settled :: "(nat \<Rightarrow> nat \<Rightarrow> bool) \<Rightarrow> nat set \<Rightarrow> bool" where
  "settled E B \<longleftrightarrow> (\<forall>x \<in> B. (\<forall>c. E x c \<longrightarrow> c \<in> B) \<and> \<not> E\<^sup>+\<^sup>+ x x)"

lemma settled_closed: "E\<^sup>*\<^sup>* x y \<Longrightarrow> settled E B \<Longrightarrow> x \<in> B \<Longrightarrow> y \<in> B"
  by (induction rule: rtranclp_induct) (auto simp: settled_def)

lemma settled_insert:
  assumes "settled E B" and "\<forall>c. E g c \<longrightarrow> c \<in> B" and "g \<notin> B"
  shows "settled E (insert g B)"
proof -
  have "\<not> E\<^sup>+\<^sup>+ g g"
  proof
    assume "E\<^sup>+\<^sup>+ g g"
    then obtain c where "E g c" "E\<^sup>*\<^sup>* c g" by (metis tranclpD)
    then show False using settled_closed assms by metis
  qed
  then show ?thesis using assms by (auto simp: settled_def)
qed

lemma visit_sound:
  "visit_group mems slots n state g = Some (Inr state') \<Longrightarrow> settled (edge mems slots) (at_mark 2 state) \<Longrightarrow>
     length state' = length state \<and> at_mark 1 state' = at_mark 1 state \<and> at_mark 2 state \<subseteq> at_mark 2 state' \<and>
     g \<in> at_mark 2 state' \<and> settled (edge mems slots) (at_mark 2 state')"
  "visit_members mems slots n state ms = Some (Inr state') \<Longrightarrow> settled (edge mems slots) (at_mark 2 state) \<Longrightarrow>
     length state' = length state \<and> at_mark 1 state' = at_mark 1 state \<and> at_mark 2 state \<subseteq> at_mark 2 state' \<and>
     (\<forall>m \<in> set ms. \<forall>c. slots m = Some c \<longrightarrow> c \<in> at_mark 2 state') \<and> settled (edge mems slots) (at_mark 2 state')"
proof (induction mems slots n state g and mems slots n state ms arbitrary: state' and state'
    rule: visit_group_visit_members.induct)
  case (2 mems slots n state g)
  from "2.prems"(1) obtain mark where mark: "get_opt state g = Some mark" "mark \<noteq> 1" by (auto split: option.splits if_splits)
  then have g: "g < length state" "state ! g = mark" by (simp_all add: get_opt_Some_iff)
  show ?case
  proof (cases "mark = 2")
    case True
    then have "state' = state" using "2.prems"(1) mark by simp
    then show ?thesis using "2.prems"(2) g True by (simp add: at_mark_def)
  next
    case False
    then obtain st where st: "visit_members mems slots n (state[g := 1]) (mems g) = Some (Inr st)" "state' = st[g := 2]"
      using "2.prems"(1) mark by (auto split: option.splits sum.splits)
    have m2: "at_mark 2 (state[g := 1]) = at_mark 2 state" "at_mark 1 (state[g := 1]) = insert g (at_mark 1 state)"
      using g False by (auto simp: at_mark_def nth_list_update split: if_splits)
    have settle: "settled (edge mems slots) (at_mark 2 (state[g := 1]))" using "2.prems"(2) m2 by simp
    have "length st = length (state[g := 1]) \<and> at_mark 1 st = at_mark 1 (state[g := 1]) \<and> at_mark 2 (state[g := 1]) \<subseteq> at_mark 2 st \<and>
        (\<forall>m \<in> set (mems g). \<forall>c. slots m = Some c \<longrightarrow> c \<in> at_mark 2 st) \<and> settled (edge mems slots) (at_mark 2 st)"
      using mark(1,2) False st(1) settle by (rule "2.IH")
    then have ih: "length st = length state" "at_mark 1 st = insert g (at_mark 1 state)" "at_mark 2 state \<subseteq> at_mark 2 st"
      "\<forall>m \<in> set (mems g). \<forall>c. slots m = Some c \<longrightarrow> c \<in> at_mark 2 st" "settled (edge mems slots) (at_mark 2 st)"
      unfolding m2 length_list_update by blast+
    have "g \<in> at_mark 1 st" using ih(2) by simp
    then have gst: "g < length st" "g \<notin> at_mark 2 st" by (simp_all add: at_mark_def)
    have g1: "g \<notin> at_mark 1 state" using g mark(2) by (simp add: at_mark_def)
    have fin: "at_mark 2 state' = insert g (at_mark 2 st)" "at_mark 1 state' = at_mark 1 state"
      using gst g1 ih(2) unfolding st(2) at_mark_update [OF gst(1)] by auto
    have "\<forall>c. edge mems slots g c \<longrightarrow> c \<in> at_mark 2 st" using ih(4) by (auto simp: edge_def)
    from settled_insert [OF ih(5) this gst(2)] show ?thesis using ih(1,3) fin st(2) by auto
  qed
next
  case (4 mems slots n state member rest)
  show ?case
  proof (cases "slots member")
    case None
    then show ?thesis using 4 by auto
  next
    case (Some c)
    then obtain st where st: "visit_group mems slots n state c = Some (Inr st)" "visit_members mems slots n st rest = Some (Inr state')"
      using "4.prems"(1) by (auto split: option.splits sum.splits)
    from "4.IH"(2) [OF Some st(1) "4.prems"(2)] have a: "length st = length state" "at_mark 1 st = at_mark 1 state"
      "at_mark 2 state \<subseteq> at_mark 2 st" "c \<in> at_mark 2 st" "settled (edge mems slots) (at_mark 2 st)" by simp_all
    from "4.IH"(3) [OF Some st(1) refl st(2) a(5)] have b: "length state' = length st" "at_mark 1 state' = at_mark 1 st"
      "at_mark 2 st \<subseteq> at_mark 2 state'" "\<forall>m \<in> set rest. \<forall>c. slots m = Some c \<longrightarrow> c \<in> at_mark 2 state'"
      "settled (edge mems slots) (at_mark 2 state')" by simp_all
    have "\<forall>m \<in> set (member # rest). \<forall>d. slots m = Some d \<longrightarrow> d \<in> at_mark 2 state'" using a(4) b(3,4) Some by auto
    then show ?thesis using a b by (metis order_trans)
  qed
qed simp_all

lemma visit_error:
  "visit_group mems slots n state g = Some (Inl e) \<Longrightarrow> settled (edge mems slots) (at_mark 2 state) \<Longrightarrow>
     \<forall>y \<in> at_mark 1 state. (edge mems slots)\<^sup>+\<^sup>+ y g \<Longrightarrow> (edge mems slots)\<^sup>+\<^sup>+ e e"
  "visit_members mems slots n state ms = Some (Inl e) \<Longrightarrow> settled (edge mems slots) (at_mark 2 state) \<Longrightarrow>
     set ms \<subseteq> set (mems p) \<Longrightarrow> \<forall>y \<in> at_mark 1 state. (edge mems slots)\<^sup>*\<^sup>* y p \<Longrightarrow> (edge mems slots)\<^sup>+\<^sup>+ e e"
proof (induction mems slots n state g and mems slots n state ms arbitrary: and p
    rule: visit_group_visit_members.induct)
  case (2 mems slots n state g)
  from "2.prems"(1) obtain mark where mark: "get_opt state g = Some mark" by (auto split: option.splits)
  then have g: "g < length state" "state ! g = mark" by (simp_all add: get_opt_Some_iff)
  show ?case
  proof (cases "mark = 1")
    case True
    then show ?thesis using "2.prems"(1,3) mark g by (auto simp: at_mark_def)
  next
    case False
    then have st: "mark \<noteq> 2" "visit_members mems slots n (state[g := 1]) (mems g) = Some (Inl e)"
      using "2.prems"(1) mark by (auto split: option.splits sum.splits if_splits)
    have m2: "at_mark 2 (state[g := 1]) = at_mark 2 state" "at_mark 1 (state[g := 1]) = insert g (at_mark 1 state)"
      using g False st(1) by (auto simp: at_mark_def nth_list_update split: if_splits)
    have "settled (edge mems slots) (at_mark 2 (state[g := 1]))" using "2.prems"(2) unfolding m2 .
    moreover have "\<forall>y \<in> at_mark 1 (state[g := 1]). (edge mems slots)\<^sup>*\<^sup>* y g"
      using "2.prems"(3) unfolding m2 by (blast intro: tranclp_into_rtranclp)
    ultimately show ?thesis using "2.IH" [OF mark False st(1,2), of g] by blast
  qed
next
  case (4 mems slots n state member rest)
  show ?case
  proof (cases "slots member")
    case None
    then show ?thesis using 4 by auto
  next
    case (Some c)
    have pc: "edge mems slots p c" using Some "4.prems"(3) by (auto intro: edgeI)
    have path: "\<forall>y \<in> at_mark 1 state. (edge mems slots)\<^sup>+\<^sup>+ y c" using "4.prems"(4) pc by (auto intro: rtranclp_into_tranclp1)
    show ?thesis
    proof (cases "visit_group mems slots n state c = Some (Inl e)")
      case True
      show ?thesis by (rule "4.IH"(2) [OF Some True "4.prems"(2) path])
    next
      case False
      then obtain st where st: "visit_group mems slots n state c = Some (Inr st)" "visit_members mems slots n st rest = Some (Inl e)"
        using "4.prems"(1) Some by (auto split: option.splits sum.splits)
      from visit_sound(1) [OF st(1) "4.prems"(2)] have s: "at_mark 1 st = at_mark 1 state" "settled (edge mems slots) (at_mark 2 st)" by simp_all
      show ?thesis by (rule "4.IH"(3) [OF Some st(1) refl st(2) s(2), where p = p]) (use "4.prems"(3,4) s(1) in auto)
    qed
  qed
qed simp_all

definition fresh :: "nat list \<Rightarrow> nat" where
  "fresh state = length (filter (\<lambda>m. m \<noteq> 1 \<and> m \<noteq> 2) state)"

lemma fresh_mark: "i < length state \<Longrightarrow> state ! i \<noteq> 1 \<Longrightarrow> state ! i \<noteq> 2 \<Longrightarrow> Suc (fresh (state[i := 1])) = fresh state"
  unfolding fresh_def by (rule fresh_update) auto

lemma fresh_done: "fresh (state[i := 2]) \<le> fresh state"
proof (induction state arbitrary: i)
  case (Cons x state)
  then show ?case by (cases i) (auto simp: fresh_def le_SucI)
qed simp

lemma visit_runs:
  "\<forall>m c. slots m = Some c \<longrightarrow> c < length state \<Longrightarrow> g < length state \<Longrightarrow> fresh state < n \<Longrightarrow>
     \<exists>r. visit_group mems slots n state g = Some r \<and> (\<forall>state'. r = Inr state' \<longrightarrow> length state' = length state \<and> fresh state' \<le> fresh state)"
  "\<forall>m c. slots m = Some c \<longrightarrow> c < length state \<Longrightarrow> fresh state < n \<Longrightarrow>
     \<exists>r. visit_members mems slots n state ms = Some r \<and> (\<forall>state'. r = Inr state' \<longrightarrow> length state' = length state \<and> fresh state' \<le> fresh state)"
proof (induction mems slots n state g and mems slots n state ms rule: visit_group_visit_members.induct)
  case (2 mems slots n state g)
  have g: "get_opt state g = Some (state ! g)" using "2.prems" by (simp add: get_opt_Some_iff)
  show ?case
  proof (cases "state ! g = 1 \<or> state ! g = 2")
    case True
    then show ?thesis by (auto simp: g)
  next
    case False
    have f: "Suc (fresh (state[g := 1])) = fresh state" using False "2.prems" by (intro fresh_mark) auto
    have "\<exists>r. visit_members mems slots n (state[g := 1]) (mems g) = Some r \<and>
        (\<forall>state'. r = Inr state' \<longrightarrow> length state' = length (state[g := 1]) \<and> fresh state' \<le> fresh (state[g := 1]))"
      by (rule "2.IH" [OF g]) (use False "2.prems" f in auto)
    then obtain r where r: "visit_members mems slots n (state[g := 1]) (mems g) = Some r"
      "\<And>state'. r = Inr state' \<Longrightarrow> length state' = length state \<and> fresh state' < fresh state" using f by fastforce
    show ?thesis
    proof (cases r)
      case (Inl e)
      then show ?thesis using g False r(1) by auto
    next
      case (Inr st)
      then show ?thesis using g False r(1) r(2) [OF Inr] fresh_done [of st g] by auto
    qed
  qed
next
  case (4 mems slots n state member rest)
  show ?case
  proof (cases "slots member")
    case None
    then show ?thesis using 4 by auto
  next
    case (Some c)
    from "4.IH"(2) [OF Some] "4.prems" Some obtain r where r: "visit_group mems slots n state c = Some r"
      "\<And>state'. r = Inr state' \<Longrightarrow> length state' = length state \<and> fresh state' \<le> fresh state" by blast
    show ?thesis
    proof (cases r)
      case (Inl e)
      then show ?thesis using Some r(1) by auto
    next
      case (Inr st)
      note st = r(2) [OF Inr]
      have "\<exists>r. visit_members mems slots n st rest = Some r \<and> (\<forall>state'. r = Inr state' \<longrightarrow> length state' = length st \<and> fresh state' \<le> fresh st)"
        by (rule "4.IH"(3) [OF Some r(1) Inr]) (use st "4.prems" in auto)
      then show ?thesis using Some r(1) Inr st by auto
    qed
  qed
qed auto

lemma visit_all_decides:
  "\<forall>m c. slots m = Some c \<longrightarrow> c < length state \<Longrightarrow> \<forall>g \<in> set gs. g < length state \<Longrightarrow> fresh state < n \<Longrightarrow>
   settled (edge mems slots) (at_mark 2 state) \<Longrightarrow> at_mark 1 state = {} \<Longrightarrow>
     (\<exists>state'. visit_all mems slots n state gs = Some (Inr state') \<and> (\<forall>g \<in> set gs. \<not> (edge mems slots)\<^sup>+\<^sup>+ g g)) \<or>
     (\<exists>e. visit_all mems slots n state gs = Some (Inl e) \<and> (edge mems slots)\<^sup>+\<^sup>+ e e)"
proof (induction gs arbitrary: state)
  case (Cons g gs)
  from visit_runs(1) [of slots state g n mems] Cons.prems(1-3) obtain r where
    r: "visit_group mems slots n state g = Some r" "\<And>state'. r = Inr state' \<Longrightarrow> length state' = length state \<and> fresh state' \<le> fresh state"
    by auto
  show ?case
  proof (cases r)
    case (Inl e)
    then have "(edge mems slots)\<^sup>+\<^sup>+ e e" using visit_error(1) [of mems slots n state g e] r(1) Cons.prems(4,5) by simp
    then show ?thesis using r(1) Inl by simp
  next
    case (Inr st)
    from visit_sound(1) [of mems slots n state g st] r(1) Inr Cons.prems(4)
    have s: "at_mark 1 st = at_mark 1 state" "g \<in> at_mark 2 st" "settled (edge mems slots) (at_mark 2 st)" by auto
    have g: "\<not> (edge mems slots)\<^sup>+\<^sup>+ g g" using s(2,3) by (auto simp: settled_def)
    note st = r(2) [OF Inr]
    have "(\<exists>state'. visit_all mems slots n st gs = Some (Inr state') \<and> (\<forall>g \<in> set gs. \<not> (edge mems slots)\<^sup>+\<^sup>+ g g)) \<or>
        (\<exists>e. visit_all mems slots n st gs = Some (Inl e) \<and> (edge mems slots)\<^sup>+\<^sup>+ e e)"
      by (rule Cons.IH) (use Cons.prems st s in auto)
    then show ?thesis using r(1) Inr g by auto
  qed
qed simp

text \<open>From an unmarked table, the check accepts exactly the group tables without a cycle.\<close>

lemma visit_accepts:
  assumes "\<forall>m c. slots m = Some c \<longrightarrow> c < n"
  shows "(\<exists>state'. visit_all mems slots (Suc n) (replicate n 0) [0..<n] = Some (Inr state')) \<and> (\<forall>g < n. \<not> (edge mems slots)\<^sup>+\<^sup>+ g g) \<or>
    (\<exists>e. visit_all mems slots (Suc n) (replicate n 0) [0..<n] = Some (Inl e) \<and> (edge mems slots)\<^sup>+\<^sup>+ e e)"
proof -
  have none: "at_mark 2 (replicate n 0) = {}" "at_mark 1 (replicate n 0) = {}" by (auto simp: at_mark_def)
  have "fresh (replicate n 0) < Suc n" by (simp add: fresh_def)
  from visit_all_decides [OF _ _ this, of slots "[0..<n]" mems] show ?thesis
    unfolding none using assms by (auto simp: settled_def)
qed

end
