(* ===== verification/Abi_Manifest.thy ===== *)
theory Abi_Manifest
  imports Abi_Types Group_Walk Codec
begin

text \<open>
  The functions of \<^verbatim>\<open>crates/lm-abi/src/lib.rs\<close> over the manifest tables: the canonical text of
  a type, the identities, the lookups by name, the operation closure of a group, row
  inclusion, the manifest check and the uniform sampler. The content hash is a parameter.
  Reading a table past its end is a panic, the result \<^const>\<open>None\<close>.
\<close>

section \<open>Text\<close>

definition as_bytes :: "string \<Rightarrow> u8 list" where
  "as_bytes s = map of_char s"

definition dec_digit :: "nat \<Rightarrow> char" where
  "dec_digit d = char_of (48 + d)"

fun dec_str :: "nat \<Rightarrow> string" where
  "dec_str n = (if n < 10 then [dec_digit n] else dec_str (n div 10) @ [dec_digit (n mod 10)])"

declare dec_str.simps [simp del]

definition hex_digit :: "nat \<Rightarrow> char" where
  "hex_digit d = (if d < 10 then char_of (48 + d) else char_of (87 + d))"

definition hex_byte :: "u8 \<Rightarrow> string" where
  "hex_byte b = [hex_digit (unat b div 16), hex_digit (unat b mod 16)]"

fun join :: "string \<Rightarrow> string list \<Rightarrow> string" where
  "join sep [] = []"
| "join sep [s] = s"
| "join sep (s # t # ts) = s @ sep @ join sep (t # ts)"

fun abi_text :: "AbiType \<Rightarrow> string" where
  "abi_text (ATPrimitive p) = primitive_text p"
| "abi_text (ATCore c) = core_text c"
| "abi_text (ATNative n) = native_text n"
| "abi_text (ATVar i) = ''$'' @ dec_str (unat i)"
| "abi_text (ATList e) = ''List['' @ abi_text e @ '']''"
| "abi_text (ATMap k v) = ''Map['' @ abi_text k @ '', '' @ abi_text v @ '']''"
| "abi_text (ATTuple ts) = ''('' @ join '', '' (map abi_text ts) @ '')''"
| "abi_text (ATApply c ts) = constructor_text c @ ''['' @ join '', '' (map abi_text ts) @ '']''"
| "abi_text (ATResource r) = ''HostResource['' @ concat (map hex_byte r) @ '']''"

fun abi_valid :: "AbiType \<Rightarrow> bool" where
  "abi_valid (ATPrimitive p) = True"
| "abi_valid (ATCore c) = True"
| "abi_valid (ATNative n) = True"
| "abi_valid (ATVar i) = True"
| "abi_valid (ATResource r) = True"
| "abi_valid (ATList e) = abi_valid e"
| "abi_valid (ATMap k v) = (abi_valid k \<and> abi_valid v)"
| "abi_valid (ATTuple ts) = list_all abi_valid ts"
| "abi_valid (ATApply c ts) = (length ts = constructor_arity c \<and> list_all abi_valid ts)"

section \<open>Identities\<close>

type_synonym hash_fun = "u8 list \<Rightarrow> u8 list"

definition id_field :: "u8 list \<Rightarrow> u8 list" where
  "id_field bytes = le_bytes 8 (of_nat (length bytes) :: u64) @ bytes"

definition text_field :: "string \<Rightarrow> u8 list" where
  "text_field s = id_field (as_bytes s)"

definition count_field :: "nat \<Rightarrow> u8 list" where
  "count_field n = id_field (le_bytes 8 (of_nat n :: u64))"

text \<open>A byte string literal that ends in a zero byte.\<close>

definition domain_tag :: "string \<Rightarrow> u8 list" where
  "domain_tag s = as_bytes s @ [0]"

definition intrinsic :: "u32 \<Rightarrow> IntrinsicDef option" where
  "intrinsic slot = get_opt INTRINSICS (unat slot)"

definition intrinsic_by_name :: "string \<Rightarrow> u32 option" where
  "intrinsic_by_name name = map_option of_nat (position (\<lambda>d. idf_name d = name) INTRINSICS)"

definition intrinsic_input :: "IntrinsicDef \<Rightarrow> u8 list" where
  "intrinsic_input d =
     domain_tag ''lm-intrinsic-v1'' @ le_bytes 4 INTRINSIC_ABI_VERSION @ text_field (idf_name d) @
     count_field (length (idf_params d)) @ concat (map (\<lambda>p. text_field (abi_text p)) (idf_params d)) @
     text_field (abi_text (idf_reply d)) @ id_field (le_bytes 4 (idf_semantic_revision d))"

definition intrinsic_identity :: "hash_fun \<Rightarrow> u32 \<Rightarrow> u8 list option" where
  "intrinsic_identity hash slot = map_option (\<lambda>d. hash (intrinsic_input d)) (intrinsic slot)"

definition intrinsic_manifest_digest :: "hash_fun \<Rightarrow> u8 list" where
  "intrinsic_manifest_digest hash =
     hash (domain_tag ''lm-intrinsics-manifest-v1'' @ le_bytes 4 INTRINSIC_ABI_VERSION @
           concat (map (\<lambda>d. hash (intrinsic_input d)) INTRINSICS))"

definition suspends :: "OpDef \<Rightarrow> bool" where
  "suspends d \<longleftrightarrow> od_snapshot d = HostAttachment"

definition wait_source :: "OpDef \<Rightarrow> bool" where
  "wait_source d \<longleftrightarrow> (od_group d, od_member d) \<in>
     {(''Clock'', ''Sleep''), (''Io'', ''ReadBytes''), (''Dns'', ''Resolve''), (''Tcp'', ''Connect''), (''Tcp'', ''Accept''),
      (''Tcp'', ''Read''), (''Tls'', ''Read''), (''Signal'', ''Next''), (''Pipe'', ''Read''), (''Exec'', ''Wait''), (''Udp'', ''RecvFrom'')}"

definition identity_input :: "string \<Rightarrow> OpDef \<Rightarrow> u8 list" where
  "identity_input name d =
     domain_tag ''lm-operation-v3'' @ le_bytes 4 ABI_VERSION @ text_field name @ text_field (od_group d) @
     text_field (od_member d) @ text_field (op_kind_tag (od_kind d)) @ count_field (length (od_params d)) @
     concat (map (\<lambda>p. text_field (abi_text p)) (od_params d)) @ text_field (abi_text (od_reply d)) @
     text_field (od_schema d) @ text_field (snapshot_class_tag (od_snapshot d)) @
     text_field (if wait_source d then ''wait'' else ''direct'')"

definition identity_of :: "hash_fun \<Rightarrow> string \<Rightarrow> OpDef \<Rightarrow> u8 list" where
  "identity_of hash name d = hash (identity_input name d)"

section \<open>The uniform sampler\<close>

text \<open>The source of random words is a state machine; the loop may run forever.\<close>

partial_function (option) sample_loop :: "u64 \<Rightarrow> u64 \<Rightarrow> ('s \<Rightarrow> u64 \<times> 's) \<Rightarrow> 's \<Rightarrow> (u64 \<times> 's) option" where
  "sample_loop span threshold draw s =
     (case draw s of (v, s') \<Rightarrow>
        if threshold \<le> v then Some (v mod span, s') else sample_loop span threshold draw s')"

definition sample_threshold :: "u64 \<Rightarrow> u64" where
  "sample_threshold span = (- span) mod span"

definition sample_uniform_below :: "u64 \<Rightarrow> ('s \<Rightarrow> u64 \<times> 's) \<Rightarrow> 's \<Rightarrow> (u64 \<times> 's) option" where
  "sample_uniform_below span draw s =
     (if span = 0 then None else sample_loop span (sample_threshold span) draw s)"

section \<open>Lookups\<close>

definition OP_COUNT :: nat where "OP_COUNT = length OPS"
definition GROUP_COUNT :: nat where "GROUP_COUNT = length GROUPS"

definition op :: "u32 \<Rightarrow> OpDef option" where
  "op slot = get_opt OPS (unat slot)"

definition op_def_name :: "OpDef \<Rightarrow> string" where
  "op_def_name d = od_group d @ ''.'' @ od_member d"

definition op_name :: "u32 \<Rightarrow> string option" where
  "op_name slot = map_option op_def_name (op slot)"

definition group_by_name :: "string \<Rightarrow> u32 option" where
  "group_by_name name = map_option of_nat (position (\<lambda>g. g = name) GROUPS)"

definition op_group :: "u32 \<Rightarrow> u32 option" where
  "op_group slot = Option.bind (op slot) (\<lambda>d. group_by_name (od_group d))"

definition group_members :: "u32 \<Rightarrow> string list option" where
  "group_members slot = get_opt GROUP_MEMBERS (unat slot)"

text \<open>\<open>starts_with\<close> and \<open>ends_with\<close>.\<close>

definition starts_with :: "string \<Rightarrow> string \<Rightarrow> bool" where
  "starts_with s t \<longleftrightarrow> take (length t) s = t"

definition ends_with :: "string \<Rightarrow> string \<Rightarrow> bool" where
  "ends_with s t \<longleftrightarrow> length t \<le> length s \<and> drop (length s - length t) s = t"

definition op_by_name :: "string \<Rightarrow> u32 option" where
  "op_by_name name = map_option of_nat (position (\<lambda>d.
     length name = length (od_group d) + length (od_member d) + 1 \<and> starts_with name (od_group d) \<and>
     get_opt name (length (od_group d)) = Some (CHR ''.'') \<and> ends_with name (od_member d)) OPS)"

definition fixed_member :: "string \<Rightarrow> string \<Rightarrow> u32 option" where
  "fixed_member grp member =
     map_option of_nat (position (\<lambda>d. od_group d = grp \<and> od_member d = member \<and> od_kind d = Fixed) OPS)"

definition row_name_valid :: "string \<Rightarrow> bool" where
  "row_name_valid name \<longleftrightarrow> op_by_name name \<noteq> None \<or> group_by_name name \<noteq> None"

definition op_identity :: "hash_fun \<Rightarrow> u32 \<Rightarrow> u8 list option" where
  "op_identity hash slot = map_option (\<lambda>d. identity_of hash (op_def_name d) d) (op slot)"

section \<open>The operation closure of a group\<close>

definition member_slot :: "string \<Rightarrow> nat option" where
  "member_slot name = map_option unat (group_by_name name)"

definition members_at :: "nat \<Rightarrow> string list" where
  "members_at g = (case get_opt GROUP_MEMBERS g of Some ms \<Rightarrow> ms | None \<Rightarrow> [])"

definition group_contains_op_uncached :: "nat \<Rightarrow> nat \<Rightarrow> bool option" where
  "group_contains_op_uncached grp operation =
     (case get_opt OPS operation of
        None \<Rightarrow> None
      | Some d \<Rightarrow>
          map_option fst (contains_group (\<lambda>g. get_opt GROUPS g = Some (od_group d)) (op_def_name d) members_at member_slot
            (Suc GROUP_COUNT) (replicate GROUP_COUNT False) grp))"

definition group_operation_bits :: "bool list list option" where
  "group_operation_bits =
     those (map (\<lambda>g. those (map (group_contains_op_uncached g) [0..<OP_COUNT])) [0..<GROUP_COUNT])"

definition group_contains_op :: "u32 \<Rightarrow> u32 \<Rightarrow> bool option" where
  "group_contains_op grp operation =
     Option.bind group_operation_bits (\<lambda>bits. Option.bind (get_opt bits (unat grp)) (\<lambda>row. get_opt row (unat operation)))"

definition set_bits :: "bool list \<Rightarrow> u32 list" where
  "set_bits row = map of_nat (filter (\<lambda>i. row ! i) [0..<length row])"

definition group_operations :: "u32 \<Rightarrow> u32 list option" where
  "group_operations grp = Option.bind group_operation_bits (\<lambda>bits. map_option set_bits (get_opt bits (unat grp)))"

definition groups_containing_op :: "u32 \<Rightarrow> u32 list option" where
  "groups_containing_op operation =
     (if unat operation < OP_COUNT
      then map_option (\<lambda>bits. map of_nat (filter (\<lambda>g. bits ! g ! unat operation) [0..<GROUP_COUNT])) group_operation_bits
      else None)"

text \<open>The outer option is the panic, the inner one the answer of the source.\<close>

definition row_name_operations :: "string \<Rightarrow> u32 list option option" where
  "row_name_operations name =
     (case op_by_name name of
        Some operation \<Rightarrow> Some (Some [operation])
      | None \<Rightarrow> (case group_by_name name of None \<Rightarrow> Some None | Some g \<Rightarrow> map_option Some (group_operations g)))"

text \<open>One row name is included in another when its operations are, with no empty side.\<close>

definition ops_included :: "u32 list option \<Rightarrow> u32 list option \<Rightarrow> bool" where
  "ops_included actual required =
     (case (actual, required) of
        (Some a, Some r) \<Rightarrow> a \<noteq> [] \<and> r \<noteq> [] \<and> list_all (\<lambda>x. x \<in> set r) a
      | _ \<Rightarrow> False)"

definition row_name_included :: "string \<Rightarrow> string \<Rightarrow> bool option" where
  "row_name_included name expected =
     (if name = expected then Some True
      else Option.bind (row_name_operations name) (\<lambda>actual.
           Option.bind (row_name_operations expected) (\<lambda>required. Some (ops_included actual required))))"

section \<open>The manifest check\<close>

datatype ManifestError =
    TableLengths
  | DuplicateGroup string
  | UnknownGroup nat string
  | InvalidType nat
  | DuplicateOperation string
  | OperationCollides string
  | RepeatsMember string string
  | UnknownMember string string
  | GroupCycle string
  | ManifestPanic

primrec check_groups :: "string list \<Rightarrow> string list \<Rightarrow> ManifestError + unit" where
  "check_groups seen [] = Inr ()"
| "check_groups seen (g # gs) = (if g \<in> set seen then Inl (DuplicateGroup g) else check_groups (g # seen) gs)"

primrec check_ops :: "nat \<Rightarrow> string list \<Rightarrow> OpDef list \<Rightarrow> ManifestError + unit" where
  "check_ops slot seen [] = Inr ()"
| "check_ops slot seen (d # ds) =
     e_bind (e_if (group_by_name (od_group d) \<noteq> None) (UnknownGroup slot (od_group d))) (\<lambda>_.
     e_bind (e_if (\<not> (\<not> abi_valid (od_reply d) \<or> list_ex (\<lambda>p. \<not> abi_valid p) (od_params d))) (InvalidType slot)) (\<lambda>_.
     let name = op_def_name d in
     e_bind (e_if (name \<notin> set seen) (DuplicateOperation name)) (\<lambda>_.
     e_bind (e_if (group_by_name name = None) (OperationCollides name)) (\<lambda>_.
     check_ops (Suc slot) (name # seen) ds))))"

primrec check_members :: "string \<Rightarrow> string list \<Rightarrow> string list \<Rightarrow> ManifestError + unit" where
  "check_members grp seen [] = Inr ()"
| "check_members grp seen (m # ms) =
     e_bind (e_if (m \<notin> set seen) (RepeatsMember grp m)) (\<lambda>_.
     e_bind (e_if (op_by_name m \<noteq> None \<or> group_by_name m \<noteq> None) (UnknownMember grp m)) (\<lambda>_.
     check_members grp (m # seen) ms))"

primrec check_all_members :: "(string \<times> string list) list \<Rightarrow> ManifestError + unit" where
  "check_all_members [] = Inr ()"
| "check_all_members (p # ps) = e_bind (check_members (fst p) [] (snd p)) (\<lambda>_. check_all_members ps)"

definition validate_manifest :: "ManifestError + unit" where
  "validate_manifest =
     e_bind (e_if (length GROUPS = length GROUP_MEMBERS) TableLengths) (\<lambda>_.
     e_bind (check_groups [] GROUPS) (\<lambda>_.
     e_bind (check_ops 0 [] OPS) (\<lambda>_.
     e_bind (check_all_members (zip GROUPS GROUP_MEMBERS)) (\<lambda>_.
     case visit_all members_at member_slot (Suc GROUP_COUNT) (replicate GROUP_COUNT 0) [0..<GROUP_COUNT] of
       None \<Rightarrow> Inl ManifestPanic
     | Some (Inl g) \<Rightarrow> (case get_opt GROUPS g of None \<Rightarrow> Inl ManifestPanic | Some n \<Rightarrow> Inl (GroupCycle n))
     | Some (Inr _) \<Rightarrow> Inr ()))))"

section \<open>The manifest digest\<close>

definition groups_input :: "(string \<times> string list) list \<Rightarrow> u8 list" where
  "groups_input gs = concat (map (\<lambda>(g, ms). text_field g @ count_field (length ms) @ concat (map text_field ms)) gs)"

definition manifest_digest_of :: "hash_fun \<Rightarrow> u8 list list \<Rightarrow> u8 list" where
  "manifest_digest_of hash identities =
     hash (domain_tag ''lm-operations-manifest-v1'' @ le_bytes 4 ABI_VERSION @ groups_input (zip GROUPS GROUP_MEMBERS) @
           concat identities)"

definition manifest_digest :: "hash_fun \<Rightarrow> u8 list option" where
  "manifest_digest hash =
     (case validate_manifest of
        Inl e \<Rightarrow> None
      | Inr _ \<Rightarrow> Some (manifest_digest_of hash (map (\<lambda>d. identity_of hash (op_def_name d) d) OPS)))"

end
