(* ===== verification/Abi_Sample.thy ===== *)
theory Abi_Sample
  imports Abi_Manifest
begin

text \<open>
  The rejection sampler of \<^verbatim>\<open>crates/lm-abi/src/lib.rs\<close>: it rejects exactly the words below
  \<open>2\<^sup>6\<^sup>4 mod span\<close>, so that every result is returned on the same number of word sequences, and it
  returns as soon as the source gives an accepted word.
\<close>

lemma two64: "(2 :: nat) ^ 64 = 18446744073709551616"
  by simp

lemma u64_bound: "unat (x :: u64) < 2 ^ 64"
  using unsigned_less [of x] by simp

lemma unat_threshold:
  assumes "span \<noteq> 0"
  shows "unat (sample_threshold span) = 2 ^ 64 mod unat span"
proof -
  have pos: "0 < unat span" using assms by (simp add: unat_gt_0)
  have "uint (- span) = (- uint span) mod 2 ^ 64" by (simp add: uint_word_ariths)
  also have "\<dots> = 2 ^ 64 - uint span"
  proof -
    have "uint span < 2 ^ 64" using unsigned_less [of span] by simp
    then have "uint span mod 2 ^ 64 = uint span" by (intro mod_pos_pos_trivial) simp_all
    moreover have "uint span \<noteq> 0" using assms by (simp add: uint_0_iff)
    ultimately show ?thesis by (simp add: zmod_zminus1_eq_if)
  qed
  finally have "int (unat (- span)) = 2 ^ 64 - int (unat span)" by simp
  also have "\<dots> = int (2 ^ 64 - unat span)" using u64_bound [of span] by (simp only: of_nat_diff less_imp_le of_nat_power of_nat_numeral)
  finally have "unat (- span) = 2 ^ 64 - unat span" by (simp only: of_nat_eq_iff)
  then have "unat (sample_threshold span) = (2 ^ 64 - unat span) mod unat span"
    by (simp add: sample_threshold_def unat_mod_distrib)
  also have "\<dots> = 2 ^ 64 mod unat span" using u64_bound [of span] by (intro le_mod_geq [symmetric] less_imp_le)
  finally show ?thesis .
qed

text \<open>The number of words below a bound with a given residue.\<close>

lemma residues_card:
  assumes "0 < (s :: nat)" and "r < s" and "n = q * s + t" and "t < s"
  shows "card {v. t \<le> v \<and> v < n \<and> v mod s = r} = q"
proof -
  define f where "f i = (if t \<le> r then i else Suc i) * s + r" for i
  have "inj_on f {..<q}" using assms(1) by (auto simp: inj_on_def f_def)
  moreover have "{v. t \<le> v \<and> v < n \<and> v mod s = r} = f ` {..<q}"
  proof (intro equalityI subsetI)
    fix v assume "v \<in> {v. t \<le> v \<and> v < n \<and> v mod s = r}"
    then have v: "t \<le> v" "v < n" "v = v div s * s + r" by auto
    show "v \<in> f ` {..<q}"
    proof (cases "t \<le> r")
      case True
      have "v div s < q"
      proof (rule ccontr)
        assume "\<not> v div s < q"
        then have "q * s \<le> v div s * s" by (intro mult_le_mono1) simp
        then show False using v(2,3) assms(3) True by linarith
      qed
      then show ?thesis using v(3) True by (intro image_eqI [of _ _ "v div s"]) (auto simp: f_def)
    next
      case False
      then have "v div s \<noteq> 0" using v(1,3) by (intro notI) simp
      then obtain i where i: "v div s = Suc i" using not0_implies_Suc by blast
      have "i < q"
      proof (rule ccontr)
        assume "\<not> i < q"
        then have "Suc q * s \<le> v div s * s" unfolding i by (intro mult_le_mono1) simp
        then have "q * s + s \<le> v div s * s" by simp
        then show False using v(2,3) assms(3,4) by linarith
      qed
      then show ?thesis using v(3) False i by (intro image_eqI [of _ _ i]) (auto simp: f_def)
    qed
  next
    fix v assume "v \<in> f ` {..<q}"
    then obtain i where i: "i < q" "v = f i" by auto
    have le: "Suc i * s \<le> q * s" using i(1) by (intro mult_le_mono1) simp
    show "v \<in> {v. t \<le> v \<and> v < n \<and> v mod s = r}"
      using i assms le by (auto simp: f_def)
  qed
  ultimately show ?thesis by (simp add: card_image)
qed

lemma word_card: "card {v :: u64. P (unat v)} = card {v. v < 2 ^ 64 \<and> P v}"
proof -
  have "unat ` {v :: u64. P (unat v)} = {v. v < 2 ^ 64 \<and> P v}"
  proof (intro equalityI subsetI)
    fix n assume n: "n \<in> {v. v < 2 ^ 64 \<and> P v}"
    then have "unat (of_nat n :: u64) = n" by (simp add: unat_of_nat take_bit_nat_eq_self)
    then show "n \<in> unat ` {v :: u64. P (unat v)}" using n by (intro image_eqI [of _ _ "of_nat n"]) auto
  qed (use u64_bound in auto)
  moreover have "inj_on unat {v :: u64. P (unat v)}" by (auto intro: inj_onI simp: word_unat_eq_iff)
  ultimately show ?thesis by (metis card_image)
qed

lemma sample_loop_returns:
  "threshold \<le> fst (draw (((snd \<circ> draw) ^^ k) s)) \<Longrightarrow> \<exists>v s'. sample_loop span threshold draw s = Some (v mod span, s')"
proof (induction k arbitrary: s)
  case 0
  then show ?case by (subst sample_loop.simps) (auto split: prod.splits)
next
  case (Suc k)
  obtain v s1 where d: "draw s = (v, s1)" by fastforce
  have "threshold \<le> fst (draw (((snd \<circ> draw) ^^ k) s1))" using Suc.prems by (simp only: funpow_Suc_right comp_def d snd_conv)
  from Suc.IH [OF this] show ?case by (subst sample_loop.simps) (auto simp: d)
qed

section \<open>Sequences of words\<close>

lemma accepted_card:
  assumes "span \<noteq> 0" and "r < span"
  shows "card {v. sample_threshold span \<le> v \<and> v mod span = r} = 2 ^ 64 div unat span"
proof -
  have pos: "0 < unat span" using assms(1) by (simp add: unat_gt_0)
  have t: "unat (sample_threshold span) = 2 ^ 64 mod unat span" by (rule unat_threshold [OF assms(1)])
  have "{v. sample_threshold span \<le> v \<and> v mod span = r} =
      {v. 2 ^ 64 mod unat span \<le> unat v \<and> unat v mod unat span = unat r}"
    unfolding t [symmetric] by (simp add: word_le_nat_alt word_unat_eq_iff unat_mod_distrib)
  then have "card {v. sample_threshold span \<le> v \<and> v mod span = r} =
      card {v. v < 2 ^ 64 \<and> 2 ^ 64 mod unat span \<le> v \<and> v mod unat span = unat r}"
    using word_card [of "\<lambda>v. 2 ^ 64 mod unat span \<le> v \<and> v mod unat span = unat r"] by simp
  also have "{v. v < 2 ^ 64 \<and> 2 ^ 64 mod unat span \<le> v \<and> v mod unat span = unat r} =
      {v. 2 ^ 64 mod unat span \<le> v \<and> v < 2 ^ 64 \<and> v mod unat span = unat r}" by auto
  also have "card \<dots> = 2 ^ 64 div unat span"
    using assms(2) pos by (intro residues_card) (auto simp: word_less_nat_alt)
  finally show ?thesis .
qed

text \<open>The first accepted word decides, and the position behind it is the final state.\<close>

lemma sample_loop_finds:
  "t \<le> f m \<Longrightarrow> j \<le> m \<Longrightarrow> (\<forall>i. j \<le> i \<longrightarrow> i < m \<longrightarrow> f i < t) \<Longrightarrow>
     sample_loop span t (\<lambda>i. (f i, Suc i)) j = Some (f m mod span, Suc m)"
proof (induction "m - j" arbitrary: j)
  case 0
  then show ?case by (subst sample_loop.simps) simp
next
  case (Suc n)
  then have "\<not> t \<le> f j" by auto
  moreover have "sample_loop span t (\<lambda>i. (f i, Suc i)) (Suc j) = Some (f m mod span, Suc m)"
    using Suc by (intro Suc.hyps(1)) auto
  ultimately show ?case by (subst sample_loop.simps) simp
qed

lemma sample_loop_accepts:
  assumes "sample_loop span t draw s = Some y"
  shows "\<exists>k. t \<le> fst (draw (((snd \<circ> draw) ^^ k) s))"
  using assms
proof (rule sample_loop.raw_induct
    [where P = "\<lambda>span t draw s y. \<exists>k. t \<le> fst (draw (((snd \<circ> draw) ^^ k) s))", rotated], goal_cases)
  case (1 loop span t draw s y)
  show ?case
  proof (cases "t \<le> fst (draw s)")
    case True
    then show ?thesis by (intro exI [of _ 0]) simp
  next
    case False
    then have "loop span t draw (snd (draw s)) = Some y" using 1(2) by (simp add: case_prod_beta)
    from 1(1) [OF this] obtain k where "t \<le> fst (draw (((snd \<circ> draw) ^^ k) (snd (draw s))))" by blast
    then show ?thesis by (intro exI [of _ "Suc k"]) (simp add: funpow_swap1)
  qed
qed

lemma sample_loop_first:
  assumes "sample_loop span t (\<lambda>i. (f i, Suc i)) 0 = Some (v, k)"
  shows "\<exists>m. k = Suc m \<and> t \<le> f m \<and> v = f m mod span \<and> (\<forall>i < m. f i < t)"
proof -
  have "(snd \<circ> (\<lambda>i. (f i, Suc i))) ^^ n = (+) n" for n by (induction n) auto
  then have ex: "\<exists>m. t \<le> f m" using sample_loop_accepts [OF assms] by auto
  define m where "m = (LEAST m. t \<le> f m)"
  have m: "t \<le> f m" unfolding m_def by (rule LeastI_ex [OF ex])
  have before: "\<forall>i < m. f i < t"
  proof (intro allI impI)
    fix i assume "i < m"
    then have "\<not> t \<le> f i" unfolding m_def by (rule not_less_Least)
    then show "f i < t" by simp
  qed
  from m before have "sample_loop span t (\<lambda>i. (f i, Suc i)) 0 = Some (f m mod span, Suc m)"
    by (intro sample_loop_finds) auto
  then have "k = Suc m \<and> t \<le> f m \<and> v = f m mod span \<and> (\<forall>i < m. f i < t)" using assms m before by simp
  then show ?thesis by blast
qed

text \<open>The sequences of \<open>n\<close> words on which the sampler returns \<open>r\<close> without reading on.\<close>

definition drawn :: "u64 \<Rightarrow> nat \<Rightarrow> u64 \<Rightarrow> u64 list set" where
  "drawn span n r = {ws. length ws = n \<and>
     (\<exists>k \<le> n. sample_uniform_below span (\<lambda>i. (ws ! i, Suc i)) 0 = Some (r, k))}"

definition decided :: "u64 \<Rightarrow> u64 \<Rightarrow> u64 \<Rightarrow> u64 list \<Rightarrow> bool" where
  "decided span t r ws \<longleftrightarrow> (\<exists>m < length ws. t \<le> ws ! m \<and> ws ! m mod span = r \<and> (\<forall>i < m. ws ! i < t))"

lemma decided_Nil [simp]: "\<not> decided span t r []"
  by (simp add: decided_def)

lemma decided_Cons [simp]: "decided span t r (w # ws) \<longleftrightarrow> (if t \<le> w then w mod span = r else decided span t r ws)"
proof (cases "t \<le> w")
  case True
  then show ?thesis unfolding decided_def by (auto simp: nth_Cons' not_less dest: spec [of _ 0])
next
  case False
  show ?thesis
  proof
    assume "decided span t r (w # ws)"
    then obtain m where m: "m < Suc (length ws)" "t \<le> (w # ws) ! m" "(w # ws) ! m mod span = r" "\<forall>i < m. (w # ws) ! i < t"
      by (auto simp: decided_def)
    with False obtain l where "m = Suc l" by (cases m) auto
    then have "decided span t r ws" unfolding decided_def using m by (intro exI [of _ l]) auto
    then show "if t \<le> w then w mod span = r else decided span t r ws" using False by simp
  next
    assume "if t \<le> w then w mod span = r else decided span t r ws"
    then obtain l where "l < length ws" "t \<le> ws ! l" "ws ! l mod span = r" "\<forall>i < l. ws ! i < t"
      using False by (auto simp: decided_def)
    then show "decided span t r (w # ws)"
      unfolding decided_def using False by (intro exI [of _ "Suc l"]) (auto simp: less_Suc_eq_0_disj not_le)
  qed
qed

lemma drawn_decided:
  assumes "span \<noteq> 0"
  shows "drawn span n r = {ws. length ws = n \<and> decided span (sample_threshold span) r ws}"
proof -
  let ?t = "sample_threshold span"
  have "(\<exists>k \<le> length ws. sample_loop span ?t (\<lambda>i. (ws ! i, Suc i)) 0 = Some (r, k)) \<longleftrightarrow> decided span ?t r ws" for ws
  proof
    assume "\<exists>k \<le> length ws. sample_loop span ?t (\<lambda>i. (ws ! i, Suc i)) 0 = Some (r, k)"
    then obtain k where "k \<le> length ws" "sample_loop span ?t (\<lambda>i. (ws ! i, Suc i)) 0 = Some (r, k)" by blast
    then obtain m where "Suc m \<le> length ws" "?t \<le> ws ! m" "r = ws ! m mod span" "\<forall>i < m. ws ! i < ?t"
      using sample_loop_first [of span ?t "(!) ws" r k] by blast
    then show "decided span ?t r ws" unfolding decided_def by (intro exI [of _ m]) auto
  next
    assume "decided span ?t r ws"
    then obtain m where "m < length ws" "?t \<le> ws ! m" "ws ! m mod span = r" "\<forall>i < m. ws ! i < ?t"
      by (auto simp: decided_def)
    then show "\<exists>k \<le> length ws. sample_loop span ?t (\<lambda>i. (ws ! i, Suc i)) 0 = Some (r, k)"
      using sample_loop_finds [of ?t "(!) ws" m 0 span] by (intro exI [of _ "Suc m"]) auto
  qed
  then show ?thesis using assms by (auto simp: drawn_def sample_uniform_below_def)
qed

lemma words_card: "card {ws :: u64 list. length ws = n} = (2 ^ 64) ^ n"
  using card_lists_length_eq [of "UNIV :: u64 set" n] by (simp add: card_word)

lemma decided_card:
  assumes "card {v. t \<le> v \<and> v mod span = r} = q"
  shows "card {ws. length ws = n \<and> decided span t r ws} = (\<Sum>i < n. unat t ^ i * q * (2 ^ 64) ^ (n - Suc i))"
proof (induction n)
  case 0
  have "{ws. length ws = 0 \<and> decided span t r ws} = {}" by auto
  then show ?case by simp
next
  case (Suc n)
  let ?A = "{v. t \<le> v \<and> v mod span = r}" and ?D = "{ws. length ws = n \<and> decided span t r ws}"
  let ?cons = "\<lambda>(w :: u64, ws). w # ws"
  have inj: "inj_on ?cons X" for X by (auto simp: inj_on_def)
  have fin: "finite {ws :: u64 list. length ws = n}" using finite_lists_length_eq [of "UNIV :: u64 set" n] by simp
  then have finD: "finite ?D" by (rule rev_finite_subset) auto
  have split: "{ws. length ws = Suc n \<and> decided span t r ws} = ?cons ` (?A \<times> {ws. length ws = n}) \<union> ?cons ` ({w. w < t} \<times> ?D)"
    by (auto simp: length_Suc_conv image_iff not_le)
  have "card {ws. length ws = Suc n \<and> decided span t r ws} =
      card (?cons ` (?A \<times> {ws. length ws = n})) + card (?cons ` ({w. w < t} \<times> ?D))"
    unfolding split using fin finD by (intro card_Un_disjoint) auto
  also have "\<dots> = q * (2 ^ 64) ^ n + unat t * card ?D"
  proof -
    have "card {w :: u64. w < t} = card {v. v < 2 ^ 64 \<and> v < unat t}"
      using word_card [of "\<lambda>v. v < unat t"] by (simp add: word_less_nat_alt)
    also have "{v. v < 2 ^ 64 \<and> v < unat t} = {..< unat t}" using u64_bound [of t] by auto
    finally have "card {w :: u64. w < t} = unat t" by simp
    then show ?thesis using assms words_card [of n] by (simp only: card_image [OF inj] card_cartesian_product)
  qed
  also have "\<dots> = (\<Sum>i < Suc n. unat t ^ i * q * (2 ^ 64) ^ (Suc n - Suc i))"
    unfolding Suc.IH by (simp add: sum.lessThan_Suc_shift sum_distrib_left mult.assoc del: sum.lessThan_Suc)
  finally show ?case .
qed

text \<open>C20: for a nonzero span the sampler is unbiased and live. For every number of words, each result below the
  span is returned on the same number of word sequences, the number given below, so that uniform words give uniform
  results. Fewer than \<open>span\<close> words are rejected, and a source that gives an accepted word after any number
  of draws makes the sampler return a value below the span.\<close>
theorem sample_uniform:
  assumes "span \<noteq> 0"
  shows "(\<forall>r < span. \<forall>n. card (drawn span n r) =
      (\<Sum>i < n. (2 ^ 64 mod unat span) ^ i * (2 ^ 64 div unat span) * (2 ^ 64) ^ (n - Suc i))) \<and>
    sample_threshold span < span \<and>
    (\<forall>draw (s :: 's) k. sample_threshold span \<le> fst (draw (((snd \<circ> draw) ^^ k) s)) \<longrightarrow>
       (\<exists>v s'. sample_uniform_below span draw s = Some (v, s') \<and> v < span))"
proof -
  have pos: "0 < unat span" using assms by (simp add: unat_gt_0)
  have t: "unat (sample_threshold span) = 2 ^ 64 mod unat span" by (rule unat_threshold [OF assms])
  have "sample_threshold span < span" using pos t by (simp add: word_less_nat_alt)
  moreover have "card (drawn span n r) =
      (\<Sum>i < n. (2 ^ 64 mod unat span) ^ i * (2 ^ 64 div unat span) * (2 ^ 64) ^ (n - Suc i))" if "r < span" for n r
    unfolding drawn_decided [OF assms] decided_card [OF accepted_card [OF assms that]] t ..
  moreover have "\<exists>v s'. sample_uniform_below span draw s = Some (v, s') \<and> v < span"
    if acc: "sample_threshold span \<le> fst (draw (((snd \<circ> draw) ^^ k) s))" for draw and s :: 's and k
  proof -
    have "v mod span < span" for v using pos by (simp add: word_less_nat_alt unat_mod_distrib)
    moreover obtain v s' where "sample_loop span (sample_threshold span) draw s = Some (v mod span, s')"
      using sample_loop_returns [of _ draw k s span] acc by blast
    ultimately show ?thesis using assms by (auto simp: sample_uniform_below_def)
  qed
  ultimately show ?thesis by blast
qed

text \<open>A counter as the source: the words 0, 1, 2, and so on. For span 3 the word 0 is rejected.\<close>

theorem sample_uniform_witness:
  "(3 :: u64) \<noteq> 0 \<and> (\<exists>v s'. sample_uniform_below 3 (\<lambda>s :: u64. (s, s + 1)) 0 = Some (v, s') \<and> v < 3) \<and>
   card (drawn 3 1 0) = 6148914691236517205 \<and> card (drawn 3 1 2) = 6148914691236517205"
proof -
  let ?draw = "\<lambda>s :: u64. (s, s + 1)"
  have ne: "(3 :: u64) \<noteq> 0" and lt: "(0 :: u64) < 3" "(2 :: u64) < 3" by simp_all
  note uni = sample_uniform [OF ne, where 's = u64]
  have "sample_threshold 3 \<le> fst (?draw (((snd \<circ> ?draw) ^^ 1) 0))" by (simp add: sample_threshold_def)
  then have "\<exists>v s'. sample_uniform_below 3 ?draw 0 = Some (v, s') \<and> v < 3"
    using conjunct2 [OF conjunct2 [OF uni], rule_format, of ?draw 1 0] by blast
  then show ?thesis
    using ne conjunct1 [OF uni, rule_format, OF lt(1), of 1] conjunct1 [OF uni, rule_format, OF lt(2), of 1] by simp
qed

end
