(* ===== verification/Abi_Text.thy ===== *)
theory Abi_Text
  imports Abi_Manifest Codec_Correct
begin

text \<open>
  The canonical text of manifest types and the identity encodings of
  \<^verbatim>\<open>crates/lm-abi/src/lib.rs\<close>. The text determines a type, except that the empty tuple reads as
  the unit type; the length-prefixed identity input determines a definition up to that.
\<close>

section \<open>Words of the text\<close>

definition word_char :: "char \<Rightarrow> bool" where
  "word_char c \<longleftrightarrow> c \<notin> set ''[](), $''"

definition stops :: "string \<Rightarrow> bool" where
  "stops r \<longleftrightarrow> r = [] \<or> hd r \<in> set '',)]''"

text \<open>The word a text starts with, and what follows it.\<close>

definition lead :: "string \<Rightarrow> string" where
  "lead s = takeWhile word_char s"

definition tail :: "string \<Rightarrow> string" where
  "tail s = dropWhile word_char s"

lemma lead_word: "list_all word_char w \<Longrightarrow> r = [] \<or> \<not> word_char (hd r) \<Longrightarrow> lead (w @ r) = w \<and> tail (w @ r) = r"
  unfolding lead_def tail_def list_all_iff
  by (cases r) (auto simp: takeWhile_append2 dropWhile_append2 takeWhile_eq_all_conv)

lemma stops_no_word: "stops r \<Longrightarrow> r = [] \<or> \<not> word_char (hd r)"
  by (auto simp: stops_def word_char_def)

section \<open>The names of the atoms\<close>

definition atoms :: "AbiType list" where
  "atoms = map ATPrimitive [Prim_Never, Prim_Bool, Prim_Int, Prim_Float, Prim_String, Prim_Bytes, Prim_VmSnapshot, Prim_Fault] @
     map ATCore [Core_Text, Core_Substring, Core_Char, Core_StringBuilder, Core_ByteBuffer, Core_Path, Core_OpenOptions,
       Core_SeekFrom, Core_FileKind, Core_FileInfo, Core_DirEntry, Core_RenameMode, Core_IoError, Core_FsError, Core_EnvError,
       Core_EntropyError, Core_SnapshotError, Core_IpAddress, Core_SocketAddress, Core_NetError, Core_TcpRead, Core_Shutdown,
       Core_TlsError, Core_Artifact, Core_CompileEnv, Core_CompileOptions, Core_CompileErrors, Core_DynValue, Core_SyntaxTree,
       Core_SyntaxElement, Core_SyntaxNode, Core_SyntaxToken, Core_SyntaxTrivia, Core_SyntaxBuilder, Core_SyntaxParse,
       Core_StdStream, Core_TtySize, Core_TtyError, Core_SignalKind, Core_SignalError, Core_PipeError, Core_ChildInput,
       Core_ChildOutput, Core_ChildEnv, Core_ExecSpec, Core_ChildStatus, Core_ExecError, Core_UdpDatagram, Core_Regex,
       Core_RegexMatch] @
     map ATNative [Native_FileHandle, Native_TcpResource, Native_TcpStream, Native_TcpListener, Native_TlsStream, Native_RawMode,
       Native_SignalStream, Native_PipeEnd, Native_PipeReader, Native_PipeWriter, Native_Child, Native_UdpSocket]"

definition word_names :: "string list" where
  "word_names = map abi_text atoms @ [''List'', ''Map'', ''Option'', ''Result'', ''HostResource'']"

lemma word_names_distinct: "distinct word_names"
  by (simp add: word_names_def atoms_def)

lemma word_names_words: "list_all (list_all word_char) word_names"
  by (simp add: word_names_def atoms_def word_char_def)

lemma word_names_nonempty: "list_all (\<lambda>w. w \<noteq> []) word_names"
  by (simp add: word_names_def atoms_def)

lemma core_atom: "ATCore c \<in> set atoms"
  by (cases c) (simp_all add: atoms_def)

lemma native_atom: "ATNative n \<in> set atoms"
  by (cases n) (simp_all add: atoms_def)

lemma prim_atom: "p \<noteq> Prim_Unit \<Longrightarrow> ATPrimitive p \<in> set atoms"
  by (cases p) (simp_all add: atoms_def)

text \<open>The empty tuple prints as the unit type, so it is read as that.\<close>

fun as_unit :: "AbiType \<Rightarrow> AbiType" where
  "as_unit (ATTuple ts) = (if ts = [] then ATPrimitive Prim_Unit else ATTuple (map as_unit ts))"
| "as_unit (ATList e) = ATList (as_unit e)"
| "as_unit (ATMap k v) = ATMap (as_unit k) (as_unit v)"
| "as_unit (ATApply c ts) = ATApply c (map as_unit ts)"
| "as_unit (ATPrimitive p) = ATPrimitive p"
| "as_unit (ATCore c) = ATCore c"
| "as_unit (ATNative n) = ATNative n"
| "as_unit (ATVar i) = ATVar i"
| "as_unit (ATResource r) = ATResource r"

lemma abi_text_as_unit: "abi_text (as_unit t) = abi_text t"
  by (induction t rule: as_unit.induct) (auto simp: comp_def cong: map_cong)

text \<open>How a text starts: with a word of the list, with a parenthesis or with a dollar sign.\<close>

fun lead_of :: "AbiType \<Rightarrow> string" where
  "lead_of (ATList e) = ''List''"
| "lead_of (ATMap k v) = ''Map''"
| "lead_of (ATApply c ts) = constructor_text c"
| "lead_of (ATResource r) = ''HostResource''"
| "lead_of (ATTuple ts) = []"
| "lead_of (ATVar i) = []"
| "lead_of (ATPrimitive p) = (if p = Prim_Unit then [] else primitive_text p)"
| "lead_of (ATCore c) = core_text c"
| "lead_of (ATNative n) = native_text n"

section \<open>Numbers\<close>

definition digit_value :: "char \<Rightarrow> nat" where
  "digit_value c = of_char c - 48"

lemma digit_value_dec: "d < 10 \<Longrightarrow> digit_value (dec_digit d) = d"
  by (simp add: digit_value_def dec_digit_def)

definition dec_value :: "string \<Rightarrow> nat" where
  "dec_value s = foldl (\<lambda>a c. 10 * a + digit_value c) 0 s"

lemma dec_value_str: "dec_value (dec_str n) = n"
proof (induction n rule: dec_str.induct)
  case (1 n)
  show ?case
  proof (cases "n < 10")
    case True
    then show ?thesis by (simp add: dec_str.simps [of n] dec_value_def digit_value_dec)
  next
    case False
    then have "dec_value (dec_str n) = 10 * dec_value (dec_str (n div 10)) + digit_value (dec_digit (n mod 10))"
      by (simp add: dec_str.simps [of n] dec_value_def)
    then show ?thesis using 1 False by (simp add: digit_value_dec)
  qed
qed

definition is_digit :: "char \<Rightarrow> bool" where
  "is_digit c \<longleftrightarrow> 48 \<le> (of_char c :: nat) \<and> (of_char c :: nat) < 58"

lemma dec_str_digits: "list_all is_digit (dec_str n)"
proof (induction n rule: dec_str.induct)
  case (1 n)
  have "is_digit (dec_digit d)" if "d < 10" for d using that by (simp add: is_digit_def dec_digit_def)
  then show ?case using 1 by (subst dec_str.simps) auto
qed

lemma stops_no_digit: "stops r \<Longrightarrow> r = [] \<or> \<not> is_digit (hd r)"
  by (auto simp: stops_def is_digit_def)

text \<open>A run of characters that satisfy a predicate ends at the first that does not.\<close>

lemma run_split:
  assumes "list_all P w" and "list_all P w'" and "r = [] \<or> \<not> P (hd r)" and "r' = [] \<or> \<not> P (hd r')" and "w @ r = w' @ r'"
  shows "w = w' \<and> r = r'"
proof -
  have "takeWhile P (w @ r) = w" using assms(1,3) by (cases r) (auto simp: list_all_iff takeWhile_append2 takeWhile_eq_all_conv)
  moreover have "takeWhile P (w' @ r') = w'" using assms(2,4) by (cases r') (auto simp: list_all_iff takeWhile_append2 takeWhile_eq_all_conv)
  ultimately have "w = w'" using assms(5) by simp
  then show ?thesis using assms(5) by simp
qed

lemma dec_split: "dec_str m @ r = dec_str n @ r' \<Longrightarrow> stops r \<Longrightarrow> stops r' \<Longrightarrow> m = n \<and> r = r'"
  using run_split [of is_digit "dec_str m" "dec_str n" r r'] dec_str_digits stops_no_digit dec_value_str by metis

lemma hex_digit_inj: "a < 16 \<Longrightarrow> b < 16 \<Longrightarrow> hex_digit a = hex_digit b \<longleftrightarrow> a = b"
proof -
  assume "a < 16" "b < 16"
  have v: "(of_char (hex_digit d) :: nat) = (if d < 10 then 48 + d else 87 + d)" if "d < 16" for d
    using that by (simp add: hex_digit_def)
  show ?thesis
  proof
    assume "hex_digit a = hex_digit b"
    then have "(of_char (hex_digit a) :: nat) = of_char (hex_digit b)" by simp
    then show "a = b" using v [OF \<open>a < 16\<close>] v [OF \<open>b < 16\<close>] \<open>a < 16\<close> \<open>b < 16\<close> by (auto split: if_splits)
  qed simp
qed

lemma u8_bound: "unat (b :: u8) < 256"
  using unsigned_less [of b] by simp

lemma hex_byte_inj: "hex_byte a = hex_byte b \<longleftrightarrow> a = b"
proof
  assume "hex_byte a = hex_byte b"
  moreover have "unat a div 16 < 16" "unat a mod 16 < 16" "unat b div 16 < 16" "unat b mod 16 < 16" using u8_bound [of a] u8_bound [of b] by auto
  ultimately have "unat a div 16 = unat b div 16" "unat a mod 16 = unat b mod 16" by (simp_all add: hex_byte_def hex_digit_inj)
  then have "unat a = unat b" by (metis div_mult_mod_eq)
  then show "a = b" by (simp add: word_unat_eq_iff)
qed simp

lemma hex_concat_inj: "concat (map hex_byte xs) = concat (map hex_byte ys) \<Longrightarrow> xs = ys"
proof (induction xs arbitrary: ys)
  case Nil
  then show ?case by (cases ys) (auto simp: hex_byte_def)
next
  case (Cons x xs)
  then obtain y zs where ys: "ys = y # zs" by (cases ys) (auto simp: hex_byte_def)
  have "length (hex_byte x) = length (hex_byte y)" by (simp add: hex_byte_def)
  then have "hex_byte x = hex_byte y" "concat (map hex_byte xs) = concat (map hex_byte zs)" using Cons.prems ys by simp_all
  then show ?case using Cons.IH ys hex_byte_inj by blast
qed

lemma hex_no_close: "list_all (\<lambda>c. c \<noteq> CHR '']'') (concat (map hex_byte xs))"
proof -
  have "hex_digit d \<noteq> CHR '']''" if "d < 16" for d
  proof
    assume "hex_digit d = CHR '']''"
    then have "(of_char (hex_digit d) :: nat) = 93" by simp
    then show False using that by (auto simp: hex_digit_def split: if_splits)
  qed
  moreover have "unat b div 16 < 16" for b :: u8 using u8_bound [of b] by auto
  ultimately show ?thesis by (auto simp: list_all_iff hex_byte_def)
qed

lemma hex_split:
  assumes "concat (map hex_byte xs) @ CHR '']'' # r = concat (map hex_byte ys) @ CHR '']'' # r'"
  shows "xs = ys \<and> r = r'"
  using run_split [OF hex_no_close hex_no_close _ _ assms] hex_concat_inj by auto

section \<open>The text is a prefix code\<close>

fun tidy :: "AbiType \<Rightarrow> bool" where
  "tidy (ATTuple ts) \<longleftrightarrow> ts \<noteq> [] \<and> list_all tidy ts"
| "tidy (ATList e) \<longleftrightarrow> tidy e"
| "tidy (ATMap k v) \<longleftrightarrow> tidy k \<and> tidy v"
| "tidy (ATApply c ts) \<longleftrightarrow> list_all tidy ts"
| "tidy (ATPrimitive p) \<longleftrightarrow> True"
| "tidy (ATCore c) \<longleftrightarrow> True"
| "tidy (ATNative n) \<longleftrightarrow> True"
| "tidy (ATVar i) \<longleftrightarrow> True"
| "tidy (ATResource r) \<longleftrightarrow> True"

lemma tidy_as_unit: "tidy (as_unit t)"
  by (induction t rule: as_unit.induct) (auto simp: list_all_iff)

lemma atom_text:
  assumes "a \<in> set atoms"
  shows "abi_text a \<notin> {''List'', ''Map'', ''Option'', ''Result'', ''HostResource''}" "abi_text a \<noteq> []" "list_all word_char (abi_text a)"
    "b \<in> set atoms \<Longrightarrow> abi_text a = abi_text b \<Longrightarrow> a = b"
proof -
  have d: "distinct (map abi_text atoms)" "set (map abi_text atoms) \<inter> set [''List'', ''Map'', ''Option'', ''Result'', ''HostResource''] = {}"
    using word_names_distinct unfolding word_names_def distinct_append by blast+
  show "abi_text a \<notin> {''List'', ''Map'', ''Option'', ''Result'', ''HostResource''}"
    using d(2) imageI [OF assms, of abi_text] by auto
  show "abi_text a \<noteq> []" "list_all word_char (abi_text a)"
    using word_names_nonempty word_names_words assms by (auto simp: word_names_def list_all_iff)
  assume "b \<in> set atoms" "abi_text a = abi_text b"
  then show "a = b" using d(1) assms by (auto simp: distinct_map dest: inj_onD)
qed

lemmas atom_facts = core_atom native_atom prim_atom

lemma constructor_word: "list_all word_char (constructor_text c)" "constructor_text c \<noteq> []"
  "constructor_text c \<in> {''Option'', ''Result''}" "constructor_text c = constructor_text d \<longleftrightarrow> c = d"
  by ((cases c; simp add: word_char_def), (cases c; simp), (cases c; simp), (cases c; cases d; simp))

lemma lead_text: "stops r \<Longrightarrow> lead (abi_text t @ r) = lead_of t"
proof (cases t)
  case (ATPrimitive p)
  assume "stops r"
  show ?thesis
  proof (cases "p = Prim_Unit")
    case True
    then show ?thesis by (simp add: ATPrimitive lead_def word_char_def)
  next
    case False
    from atom_text(3) [OF prim_atom [OF False]] show ?thesis
      using lead_word [OF _ stops_no_word [OF \<open>stops r\<close>]] False by (simp add: ATPrimitive)
  qed
next
  case (ATCore c)
  assume "stops r"
  then show ?thesis using lead_word [OF _ stops_no_word] atom_text(3) [OF core_atom [of c]] by (simp add: ATCore)
next
  case (ATNative n)
  assume "stops r"
  then show ?thesis using lead_word [OF _ stops_no_word] atom_text(3) [OF native_atom [of n]] by (simp add: ATNative)
next
  case (ATApply c ts)
  then show ?thesis using lead_word [OF constructor_word(1), of "CHR ''['' # u" for u] by (simp add: word_char_def)
qed (simp_all add: lead_def word_char_def)

lemma text_hd: "abi_text t \<noteq> [] \<and> hd (abi_text t) \<notin> set '',)]''"
proof -
  have w: "w \<noteq> [] \<Longrightarrow> list_all word_char w \<Longrightarrow> hd w \<notin> set '',)]''" for w
    by (cases w) (auto simp: word_char_def)
  show ?thesis
  proof (cases t)
    case (ATPrimitive p)
    then show ?thesis using w atom_text(2,3) [OF prim_atom, of p] by (cases "p = Prim_Unit") auto
  next
    case (ATCore c)
    then show ?thesis using w atom_text(2,3) [OF core_atom [of c]] by auto
  next
    case (ATNative n)
    then show ?thesis using w atom_text(2,3) [OF native_atom [of n]] by auto
  next
    case (ATApply c ts)
    then show ?thesis using w [OF constructor_word(2,1)] constructor_word(2) [of c] by (auto simp: hd_append)
  qed simp_all
qed

text \<open>Two types whose texts start alike have the same outermost form.\<close>

inductive same_form :: "AbiType \<Rightarrow> AbiType \<Rightarrow> bool" where
  "same_form t t"
| "same_form (ATList e) (ATList e')"
| "same_form (ATMap k v) (ATMap k' v')"
| "same_form (ATApply c ts) (ATApply c ts')"
| "same_form (ATResource r) (ATResource r')"

inductive_cases same_formE: "same_form t t'"

lemma lead_atom: "a \<in> set atoms \<Longrightarrow> lead_of a = abi_text a"
  by (auto simp: atoms_def)

lemma atom_or: "t \<in> set atoms \<or> (\<exists>e. t = ATList e) \<or> (\<exists>k v. t = ATMap k v) \<or> (\<exists>c ts. t = ATApply c ts) \<or> (\<exists>r. t = ATResource r) \<or>
    t = ATPrimitive Prim_Unit \<or> (\<exists>ts. t = ATTuple ts) \<or> (\<exists>i. t = ATVar i)"
  using atom_facts by (cases t) auto

lemma lead_no_atom: "t \<notin> set atoms \<Longrightarrow> lead_of t \<in> {[], ''List'', ''Map'', ''Option'', ''Result'', ''HostResource''}"
proof -
  assume "t \<notin> set atoms"
  then show ?thesis
    using atom_or [of t] by (elim disjE exE; simp) (use constructor_word(3) in blast)
qed

lemma lead_of_atom: "a \<in> set atoms \<Longrightarrow> lead_of t = lead_of a \<Longrightarrow> t = a"
proof -
  assume a: "a \<in> set atoms" "lead_of t = lead_of a"
  then have t: "t \<in> set atoms" using lead_no_atom [of t] atom_text(1,2) [OF a(1)] lead_atom [OF a(1)] by auto
  then show ?thesis using atom_text(4) [OF t a(1)] a lead_atom by simp
qed

lemma lead_same:
  assumes "lead_of t = lead_of t'" and "lead_of t \<noteq> []"
  shows "same_form t t'"
proof (cases "t \<in> set atoms \<or> t' \<in> set atoms")
  case True
  then have "t = t'" using lead_of_atom [of t t'] lead_of_atom [of t' t] assms(1) by auto
  then show ?thesis by (simp add: same_form.intros)
next
  case False
  have c: "constructor_text c \<noteq> ''List''" "constructor_text c \<noteq> ''Map''" "constructor_text c \<noteq> ''HostResource''" for c
    by (cases c; simp)+
  from False have "t \<notin> set atoms" "t' \<notin> set atoms" by auto
  with atom_or [of t] atom_or [of t'] assms c c [symmetric] constructor_word(4) show ?thesis
    by (elim disjE exE) (simp_all add: same_form.intros)
qed

lemma join_Cons: "join sep (s # ss) = s @ (if ss = [] then [] else sep @ join sep ss)"
  by (cases ss) simp_all

definition prefix_code :: "AbiType \<Rightarrow> bool" where
  "prefix_code t \<longleftrightarrow>
     (\<forall>t' r r'. tidy t' \<longrightarrow> stops r \<longrightarrow> stops r' \<longrightarrow> abi_text t @ r = abi_text t' @ r' \<longrightarrow> t = t' \<and> r = r')"

lemma prefix_codeD: "prefix_code t \<Longrightarrow> abi_text t @ r = abi_text t' @ r' \<Longrightarrow> tidy t' \<Longrightarrow> stops r \<Longrightarrow> stops r' \<Longrightarrow> t = t' \<and> r = r'"
  unfolding prefix_code_def by blast

lemma join_split:
  assumes "\<forall>t \<in> set ts. prefix_code t" and "list_all tidy ts'" and close: "close = CHR '']'' \<or> close = CHR '')''"
    and "join '', '' (map abi_text ts) @ close # r = join '', '' (map abi_text ts') @ close # r'"
  shows "ts = ts' \<and> r = r'"
  using assms(1,2,4)
proof (induction ts arbitrary: ts')
  case Nil
  show ?case
  proof (cases ts')
    case (Cons t' us)
    then show ?thesis using Nil(3) text_hd [of t'] close by (cases "abi_text t'") (auto simp: join_Cons)
  qed (use Nil in simp)
next
  case (Cons t ts)
  show ?case
  proof (cases ts')
    case Nil
    then show ?thesis using Cons.prems(3) text_hd [of t] close by (cases "abi_text t") (auto simp: join_Cons)
  next
    case (Cons t' us)
    let ?rest = "\<lambda>ts r. (if ts = [] then [] else '', '' @ join '', '' (map abi_text ts)) @ close # r"
    have stop: "stops (?rest ts r)" for ts r using close by (auto simp: stops_def)
    have "abi_text t @ ?rest ts r = abi_text t' @ ?rest us r'" using Cons.prems(3) Cons by (simp add: join_Cons)
    then have t: "t = t'" and rest: "?rest ts r = ?rest us r'"
      using prefix_codeD [OF _ _ _ stop stop, of t _ _ t'] Cons.prems(1,2) Cons by auto
    show ?thesis
    proof (cases "ts = [] \<or> us = []")
      case True
      then show ?thesis using rest close t Cons by (auto split: if_splits)
    next
      case False
      then have "join '', '' (map abi_text ts) @ close # r = join '', '' (map abi_text us) @ close # r'" using rest by simp
      then show ?thesis using Cons.IH [of us] Cons.prems(1,2) Cons t by auto
    qed
  qed
qed

lemma same_lead: "abi_text t @ r = abi_text t' @ r' \<Longrightarrow> stops r \<Longrightarrow> stops r' \<Longrightarrow> lead_of t = lead_of t'"
  using lead_text by metis

lemma prefix_codeI:
  "(\<And>t' r r'. tidy t' \<Longrightarrow> abi_text t @ r = abi_text t' @ r' \<Longrightarrow> lead_of t = lead_of t' \<Longrightarrow> stops r \<Longrightarrow> stops r' \<Longrightarrow> t = t' \<and> r = r') \<Longrightarrow>
     prefix_code t"
  unfolding prefix_code_def using same_lead by blast

lemma atom_prefix_code: "a \<in> set atoms \<Longrightarrow> prefix_code a"
proof (rule prefix_codeI)
  fix t' r r' assume a: "a \<in> set atoms" "lead_of a = lead_of t'" "abi_text a @ r = abi_text t' @ r'"
  then have "t' = a" using lead_of_atom by simp
  then show "a = t' \<and> r = r'" using a(3) by simp
qed

lemma lead_empty: "lead_of t = [] \<Longrightarrow> t = ATPrimitive Prim_Unit \<or> (\<exists>ts. t = ATTuple ts) \<or> (\<exists>i. t = ATVar i)"
  using atom_or [of t] lead_atom [of t] atom_text(2) [of t] constructor_word(2) by auto

lemma tuple_not_unit:
  assumes "tidy (ATTuple ts)"
  shows "abi_text (ATTuple ts) @ r \<noteq> abi_text (ATPrimitive Prim_Unit) @ r'"
proof -
  obtain u us where "ts = u # us" using assms by (cases ts) auto
  then show ?thesis using text_hd [of u] by (cases "abi_text u") (auto simp: join_Cons)
qed

lemma lead_form: "lead_of (ATList e) = lead_of t' \<Longrightarrow> \<exists>e'. t' = ATList e'"
  "lead_of (ATMap k v) = lead_of t' \<Longrightarrow> \<exists>k' v'. t' = ATMap k' v'"
  "lead_of (ATApply c ts) = lead_of t' \<Longrightarrow> \<exists>ts'. t' = ATApply c ts'"
  "lead_of (ATResource x) = lead_of t' \<Longrightarrow> \<exists>x'. t' = ATResource x'"
proof -
  show "\<exists>e'. t' = ATList e'" if "lead_of (ATList e) = lead_of t'"
    using lead_same [OF that] by (auto elim: same_formE)
  show "\<exists>k' v'. t' = ATMap k' v'" if "lead_of (ATMap k v) = lead_of t'"
    using lead_same [OF that] by (auto elim: same_formE)
  show "\<exists>ts'. t' = ATApply c ts'" if "lead_of (ATApply c ts) = lead_of t'"
    using lead_same [OF that] constructor_word(2) by (auto elim: same_formE)
  show "\<exists>x'. t' = ATResource x'" if "lead_of (ATResource x) = lead_of t'"
    using lead_same [OF that] by (auto elim: same_formE)
qed

lemma stops_close: "stops (CHR '']'' # r)" "stops (CHR '')'' # r)" "stops (CHR '','' # r)"
  by (simp_all add: stops_def)

lemma text_prefix_code: "tidy t \<Longrightarrow> prefix_code t"
proof (induction t)
  case (ATPrimitive p)
  show ?case
  proof (cases "p = Prim_Unit")
    case True
    show ?thesis
    proof (rule prefix_codeI)
      fix t' r r' assume a: "tidy t'" "abi_text (ATPrimitive p) @ r = abi_text t' @ r'" "lead_of (ATPrimitive p) = lead_of t'"
      then have "t' = ATPrimitive Prim_Unit \<or> (\<exists>ts. t' = ATTuple ts) \<or> (\<exists>i. t' = ATVar i)" using True by (intro lead_empty) simp
      moreover have "t' \<noteq> ATTuple ts" for ts using a(1,2) True tuple_not_unit [of ts r' r] by auto
      ultimately show "ATPrimitive p = t' \<and> r = r'" using a(2) True by auto
    qed
  qed (simp add: atom_prefix_code prim_atom)
next
  case (ATVar i)
  show ?case
  proof (rule prefix_codeI)
    fix t' r r' assume a: "tidy t'" "abi_text (ATVar i) @ r = abi_text t' @ r'" "lead_of (ATVar i) = lead_of t'" "stops r" "stops r'"
    then have "t' = ATPrimitive Prim_Unit \<or> (\<exists>ts. t' = ATTuple ts) \<or> (\<exists>i. t' = ATVar i)" by (intro lead_empty) simp
    then obtain j where j: "t' = ATVar j" using a(2) by auto
    then show "ATVar i = t' \<and> r = r'" using a(2,4,5) dec_split [of "unat i" r "unat j" r'] by (simp add: word_unat_eq_iff)
  qed
next
  case (ATList t)
  show ?case
  proof (rule prefix_codeI)
    fix t' r r' assume a: "tidy t'" "abi_text (ATList t) @ r = abi_text t' @ r'" "lead_of (ATList t) = lead_of t'"
    obtain e where e: "t' = ATList e" using lead_form(1) [OF a(3)] by blast
    have "abi_text t @ CHR '']'' # r = abi_text e @ CHR '']'' # r'" using a(2) e by simp
    then show "ATList t = t' \<and> r = r'"
      using prefix_codeD [of t _ e] ATList a(1) e stops_close by auto
  qed
next
  case (ATMap k v)
  show ?case
  proof (rule prefix_codeI)
    fix t' r r' assume a: "tidy t'" "abi_text (ATMap k v) @ r = abi_text t' @ r'" "lead_of (ATMap k v) = lead_of t'"
    obtain k' v' where e: "t' = ATMap k' v'" using lead_form(2) [OF a(3)] by blast
    have eq: "abi_text k @ CHR '','' # CHR '' '' # abi_text v @ CHR '']'' # r = abi_text k' @ CHR '','' # CHR '' '' # abi_text v' @ CHR '']'' # r'"
      using a(2) e by simp
    have "prefix_code k" "tidy k'" using ATMap a(1) e by auto
    from prefix_codeD [OF this(1) eq this(2) stops_close(3,3)]
    have "k = k'" "abi_text v @ CHR '']'' # r = abi_text v' @ CHR '']'' # r'" by simp_all
    then show "ATMap k v = t' \<and> r = r'" using prefix_codeD [of v _ v'] ATMap a(1) e stops_close by auto
  qed
next
  case (ATTuple ts)
  show ?case
  proof (rule prefix_codeI)
    fix t' r r' assume a: "tidy t'" "abi_text (ATTuple ts) @ r = abi_text t' @ r'" "lead_of (ATTuple ts) = lead_of t'"
    then have "t' = ATPrimitive Prim_Unit \<or> (\<exists>ts. t' = ATTuple ts) \<or> (\<exists>i. t' = ATVar i)" by (intro lead_empty) simp
    then obtain us where us: "t' = ATTuple us" using a(2) tuple_not_unit [OF ATTuple.prems] by auto
    have "join '', '' (map abi_text ts) @ CHR '')'' # r = join '', '' (map abi_text us) @ CHR '')'' # r'" using a(2) us by simp
    then show "ATTuple ts = t' \<and> r = r'"
      using join_split [of ts us "CHR '')''" r r'] ATTuple a(1) us by (auto simp: list_all_iff)
  qed
next
  case (ATApply c ts)
  show ?case
  proof (rule prefix_codeI)
    fix t' r r' assume a: "tidy t'" "abi_text (ATApply c ts) @ r = abi_text t' @ r'" "lead_of (ATApply c ts) = lead_of t'"
    obtain us where us: "t' = ATApply c us" using lead_form(3) [OF a(3)] by blast
    have "join '', '' (map abi_text ts) @ CHR '']'' # r = join '', '' (map abi_text us) @ CHR '']'' # r'" using a(2) us by simp
    then show "ATApply c ts = t' \<and> r = r'"
      using join_split [of ts us "CHR '']''" r r'] ATApply a(1) us by (auto simp: list_all_iff)
  qed
next
  case (ATResource x)
  show ?case
  proof (rule prefix_codeI)
    fix t' r r' assume a: "abi_text (ATResource x) @ r = abi_text t' @ r'" "lead_of (ATResource x) = lead_of t'"
    obtain y where y: "t' = ATResource y" using lead_form(4) [OF a(2)] by blast
    then show "ATResource x = t' \<and> r = r'" using a(1) hex_split [of x r y r'] by simp
  qed
qed (simp_all add: atom_prefix_code core_atom native_atom)

text \<open>Two types have one text exactly when they agree up to empty tuples.\<close>

lemma abi_text_eq_iff: "abi_text t = abi_text t' \<longleftrightarrow> as_unit t = as_unit t'"
proof
  assume "abi_text t = abi_text t'"
  then have "abi_text (as_unit t) @ [] = abi_text (as_unit t') @ []" by (simp add: abi_text_as_unit)
  from prefix_codeD [OF text_prefix_code [OF tidy_as_unit] this tidy_as_unit] show "as_unit t = as_unit t'" by (simp add: stops_def)
next
  assume "as_unit t = as_unit t'"
  then show "abi_text t = abi_text t'" by (metis abi_text_as_unit)
qed

section \<open>Length-prefixed fields\<close>

definition fits :: "'a list \<Rightarrow> bool" where
  "fits xs \<longleftrightarrow> length xs < 2 ^ 64"

lemma le_bytes_u64_inj: "le_bytes 8 (a :: u64) = le_bytes 8 b \<longleftrightarrow> a = b"
  by (metis from_le_bytes_u64)

lemma of_nat_u64_inj: "m < 2 ^ 64 \<Longrightarrow> n < 2 ^ 64 \<Longrightarrow> (of_nat m :: u64) = of_nat n \<longleftrightarrow> m = n"
  by (simp add: word_of_nat_eq_iff take_bit_nat_eq_self)

lemma id_field_split:
  assumes "id_field a @ r = id_field b @ r'" and "fits a" and "fits b"
  shows "a = b \<and> r = r'"
proof -
  have eq: "le_bytes 8 (of_nat (length a) :: u64) @ a @ r = le_bytes 8 (of_nat (length b) :: u64) @ b @ r'"
    using assms(1) by (simp add: id_field_def)
  then have "le_bytes 8 (of_nat (length a) :: u64) = le_bytes 8 (of_nat (length b) :: u64)" and rest: "a @ r = b @ r'"
    by (simp_all add: append_eq_append_conv)
  then have "length a = length b"
    unfolding le_bytes_u64_inj using of_nat_u64_inj assms(2,3) by (simp add: fits_def)
  then show ?thesis using rest by (simp add: append_eq_append_conv)
qed

lemma as_bytes_inj: "as_bytes s = as_bytes t \<longleftrightarrow> s = t"
proof -
  have "inj (of_char :: char \<Rightarrow> u8)"
  proof (rule injI)
    fix c d :: char assume "(of_char c :: u8) = of_char d"
    then have "(of_nat (of_char c :: nat) :: u8) = of_nat (of_char d :: nat)" by (simp only: of_nat_of_char)
    moreover have "take_bit 8 (of_char x :: nat) = of_char x" for x by (simp add: take_bit_eq_mod)
    ultimately have "(of_char c :: nat) = of_char d" by (simp add: word_of_nat_eq_iff)
    then show "c = d" by simp
  qed
  then show ?thesis unfolding as_bytes_def by (auto simp: inj_map_eq_map)
qed

lemma text_field_eq:
  assumes "fits a" and "fits b"
  shows "text_field a @ r = text_field b @ r' \<longleftrightarrow> a = b \<and> r = r'"
proof
  assume "text_field a @ r = text_field b @ r'"
  moreover have "fits (as_bytes a)" "fits (as_bytes b)" using assms by (simp_all add: fits_def as_bytes_def)
  ultimately show "a = b \<and> r = r'" unfolding text_field_def using id_field_split as_bytes_inj by blast
qed simp

lemma text_field_last: "fits a \<Longrightarrow> fits b \<Longrightarrow> text_field a = text_field b \<longleftrightarrow> a = b"
  using text_field_eq [of a b "[]" "[]"] by simp

lemma count_field_eq:
  assumes "m < 2 ^ 64" and "n < 2 ^ 64"
  shows "count_field m @ r = count_field n @ r' \<longleftrightarrow> m = n \<and> r = r'"
proof
  assume "count_field m @ r = count_field n @ r'"
  then have "le_bytes 8 (of_nat m :: u64) = le_bytes 8 (of_nat n :: u64) \<and> r = r'"
    unfolding count_field_def by (rule id_field_split) (simp_all add: fits_def)
  then show "m = n \<and> r = r'" unfolding le_bytes_u64_inj using of_nat_u64_inj [OF assms] by simp
qed simp

definition type_fields :: "AbiType list \<Rightarrow> u8 list" where
  "type_fields ps = concat (map (\<lambda>p. text_field (abi_text p)) ps)"

lemma type_fields_eq:
  "length ps = length qs \<Longrightarrow> \<forall>p \<in> set ps. fits (abi_text p) \<Longrightarrow> \<forall>p \<in> set qs. fits (abi_text p) \<Longrightarrow>
   type_fields ps @ r = type_fields qs @ r' \<longleftrightarrow> map as_unit ps = map as_unit qs \<and> r = r'"
  by (induction ps qs rule: list_induct2) (auto simp: type_fields_def text_field_eq abi_text_eq_iff)

section \<open>Operation identities\<close>

definition op_fits :: "OpDef \<Rightarrow> bool" where
  "op_fits d \<longleftrightarrow> fits (od_group d) \<and> fits (od_member d) \<and> fits (od_params d) \<and> (\<forall>p \<in> set (od_params d). fits (abi_text p)) \<and>
     fits (abi_text (od_reply d)) \<and> fits (od_schema d)"

definition same_op :: "OpDef \<Rightarrow> OpDef \<Rightarrow> bool" where
  "same_op d e \<longleftrightarrow> od_group d = od_group e \<and> od_member d = od_member e \<and> od_kind d = od_kind e \<and>
     map as_unit (od_params d) = map as_unit (od_params e) \<and> as_unit (od_reply d) = as_unit (od_reply e) \<and>
     od_schema d = od_schema e \<and> od_snapshot d = od_snapshot e"

lemma tag_inj: "op_kind_tag k = op_kind_tag l \<longleftrightarrow> k = l" "snapshot_class_tag a = snapshot_class_tag b \<longleftrightarrow> a = b"
  "fits (op_kind_tag k)" "fits (snapshot_class_tag a)"
  by ((cases k; cases l; simp), (cases a; cases b; simp), (cases k; simp add: fits_def), (cases a; simp add: fits_def))

text \<open>C19: the input that is hashed into an operation identity holds the whole definition. As long as no field
  reaches \<open>2\<^sup>6\<^sup>4\<close> bytes, two definitions have one input exactly when they have the same qualified name and agree
  in every field, where an empty tuple type counts as the unit type.\<close>
theorem identity_input_iff:
  assumes "fits name" and "fits name'" and "op_fits d" and "op_fits e"
  shows "identity_input name d = identity_input name' e \<longleftrightarrow> name = name' \<and> same_op d e"
proof -
  have f: "fits (od_group d)" "fits (od_member d)" "length (od_params d) < 2 ^ 64" "\<forall>p \<in> set (od_params d). fits (abi_text p)"
    "fits (abi_text (od_reply d))" "fits (od_schema d)" "fits (od_group e)" "fits (od_member e)" "length (od_params e) < 2 ^ 64"
    "\<forall>p \<in> set (od_params e). fits (abi_text p)" "fits (abi_text (od_reply e))" "fits (od_schema e)"
    using assms(3,4) by (simp_all add: op_fits_def fits_def)
  have w: "fits (if b then ''wait'' else ''direct'')" "((if a then ''wait'' else ''direct'') = (if b then ''wait'' else ''direct'')) = (a = b)" for a b
    by (simp_all add: fits_def)
  note tf = type_fields_eq [OF _ f(4,10)]
  have "identity_input name d = identity_input name' e \<longleftrightarrow>
      name = name' \<and> od_group d = od_group e \<and> od_member d = od_member e \<and> od_kind d = od_kind e \<and>
      length (od_params d) = length (od_params e) \<and> map as_unit (od_params d) = map as_unit (od_params e) \<and>
      as_unit (od_reply d) = as_unit (od_reply e) \<and> od_schema d = od_schema e \<and> od_snapshot d = od_snapshot e \<and> wait_source d = wait_source e"
    unfolding identity_input_def append_assoc same_append_eq type_fields_def [symmetric]
    by (simp only: text_field_eq count_field_eq tf text_field_last assms(1,2) f tag_inj abi_text_eq_iff w cong: conj_cong)
  moreover have "wait_source d = wait_source e" if "od_group d = od_group e" "od_member d = od_member e"
    unfolding wait_source_def that ..
  ultimately show ?thesis unfolding same_op_def using map_eq_imp_length_eq by blast
qed

definition sample_op :: "AbiType \<Rightarrow> OpDef" where
  "sample_op reply = \<lparr>od_group = ''Io'', od_member = ''Write'', od_kind = Fixed, od_params = [AT_BYTES], od_reply = reply,
     od_schema = [], od_snapshot = MachineState\<rparr>"

lemma sample_op_fits: "op_fits (sample_op (ATTuple []))" "op_fits (sample_op AT_UNIT)" "op_fits (sample_op AT_INT)"
  by (simp_all add: op_fits_def fits_def sample_op_def abi_type_defs)

theorem identity_input_iff_witness:
  "identity_input ''Io.Write'' (sample_op AT_INT) \<noteq> identity_input ''Io.Write'' (sample_op AT_UNIT) \<and>
   identity_input ''Io.Write'' (sample_op (ATTuple [])) = identity_input ''Io.Write'' (sample_op AT_UNIT)"
proof -
  have "fits ''Io.Write''" by (simp add: fits_def)
  note i = identity_input_iff [OF this this]
  show ?thesis
    unfolding i [OF sample_op_fits(3,2)] i [OF sample_op_fits(1,2)] by (simp add: same_op_def sample_op_def abi_type_defs)
qed

end
