(* ===== verification/Abi_Bundle.thy ===== *)
theory Abi_Bundle
  imports Abi_Manifest "HOL-Library.Char_ord" "HOL-Library.List_Lexorder" "HOL-Library.Product_Lexorder"
begin

text \<open>
  The operation bundles of \<^verbatim>\<open>crates/lm-abi/src/bundle.rs\<close>: the records, the lookups of a
  completed bundle and the checked builder that extends the standard manifest. Names and
  digests are compared in byte order, as Rust compares strings and arrays. The content hash
  is a parameter.
\<close>

section \<open>Records\<close>

datatype BoundaryMode = BmCopy | BmMove

primrec boundary_mode_tag :: "BoundaryMode \<Rightarrow> string" where
  "boundary_mode_tag BmCopy = ''copy''"
| "boundary_mode_tag BmMove = ''move''"

record BundleOp =
  bo_name :: string
  bo_group :: string
  bo_member :: string
  bo_version :: u32
  bo_kind :: OpKind
  bo_params :: "AbiType list"
  bo_reply :: AbiType
  bo_param_modes :: "BoundaryMode list"
  bo_reply_mode :: BoundaryMode
  bo_schema :: string
  bo_snapshot :: SnapshotClass
  bo_wait_source :: bool

definition bundle_op_suspends :: "BundleOp \<Rightarrow> bool" where
  "bundle_op_suspends b \<longleftrightarrow> bo_snapshot b = HostAttachment"

record BundleGroup =
  bg_name :: string
  bg_members :: "string list"

record ResourceDescriptor =
  rd_name :: string
  rd_version :: u32
  rd_snapshot :: SnapshotClass

definition host_attachment :: "string \<Rightarrow> ResourceDescriptor" where
  "host_attachment name = \<lparr>rd_name = name, rd_version = 1, rd_snapshot = HostAttachment\<rparr>"

definition resource_input :: "ResourceDescriptor \<Rightarrow> u8 list" where
  "resource_input r =
     domain_tag ''lm-bundle-resource-v1'' @ text_field (rd_name r) @ id_field (le_bytes 4 (rd_version r)) @
     text_field (snapshot_class_tag (rd_snapshot r))"

definition resource_identity :: "hash_fun \<Rightarrow> ResourceDescriptor \<Rightarrow> u8 list" where
  "resource_identity hash r = hash (resource_input r)"

definition resource_abi_type :: "hash_fun \<Rightarrow> ResourceDescriptor \<Rightarrow> AbiType" where
  "resource_abi_type hash r = ATResource (resource_identity hash r)"

definition resource_version :: "ResourceDescriptor \<Rightarrow> u32 \<Rightarrow> ResourceDescriptor" where
  "resource_version r version = r\<lparr>rd_version := version\<rparr>"

record OperationSpec =
  os_group :: string
  os_member :: string
  os_version :: u32
  os_params :: "AbiType list"
  os_reply :: AbiType
  os_param_modes :: "BoundaryMode list"
  os_reply_mode :: BoundaryMode
  os_snapshot :: SnapshotClass
  os_wait_source :: bool

definition spec_fixed :: "string \<Rightarrow> string \<Rightarrow> AbiType list \<Rightarrow> AbiType \<Rightarrow> OperationSpec" where
  "spec_fixed grp member params reply =
     \<lparr>os_group = grp, os_member = member, os_version = 1, os_params = params, os_reply = reply,
      os_param_modes = replicate (length params) BmCopy, os_reply_mode = BmCopy, os_snapshot = MachineState,
      os_wait_source = False\<rparr>"

definition spec_version :: "OperationSpec \<Rightarrow> u32 \<Rightarrow> OperationSpec" where
  "spec_version s version = s\<lparr>os_version := version\<rparr>"

definition spec_suspending :: "OperationSpec \<Rightarrow> OperationSpec" where
  "spec_suspending s = s\<lparr>os_snapshot := HostAttachment\<rparr>"

definition spec_wait_source :: "OperationSpec \<Rightarrow> OperationSpec" where
  "spec_wait_source s = s\<lparr>os_wait_source := True\<rparr>"

definition spec_boundary_modes :: "OperationSpec \<Rightarrow> BoundaryMode list \<Rightarrow> BoundaryMode \<Rightarrow> OperationSpec" where
  "spec_boundary_modes s params reply = s\<lparr>os_param_modes := params, os_reply_mode := reply\<rparr>"

record AbiBundleBuilder =
  ab_groups :: "BundleGroup list"
  ab_operations :: "OperationSpec list"
  ab_resources :: "ResourceDescriptor list"

text \<open>A group before construction has the fields of the group it becomes.\<close>

definition group_namespace :: "string \<Rightarrow> BundleGroup" where
  "group_namespace name = \<lparr>bg_name = name, bg_members = []\<rparr>"

definition group_effect_set :: "string \<Rightarrow> string list \<Rightarrow> BundleGroup" where
  "group_effect_set name members = \<lparr>bg_name = name, bg_members = members\<rparr>"

definition builder_new :: AbiBundleBuilder where
  "builder_new = \<lparr>ab_groups = [], ab_operations = [], ab_resources = []\<rparr>"

definition add_group :: "AbiBundleBuilder \<Rightarrow> BundleGroup \<Rightarrow> AbiBundleBuilder" where
  "add_group self grp = self\<lparr>ab_groups := ab_groups self @ [grp]\<rparr>"

definition add_operation :: "AbiBundleBuilder \<Rightarrow> OperationSpec \<Rightarrow> AbiBundleBuilder" where
  "add_operation self operation = self\<lparr>ab_operations := ab_operations self @ [operation]\<rparr>"

definition add_resource :: "AbiBundleBuilder \<Rightarrow> ResourceDescriptor \<Rightarrow> AbiBundleBuilder" where
  "add_resource self resource = self\<lparr>ab_resources := ab_resources self @ [resource]\<rparr>"

text \<open>A slot table is the list of its pairs with the latest entry of a name first.\<close>

record AbiBundle =
  bu_operations :: "BundleOp list"
  bu_groups :: "BundleGroup list"
  bu_resources :: "ResourceDescriptor list"
  bu_operation_slots :: "(string \<times> u32) list"
  bu_group_slots :: "(string \<times> u32) list"
  bu_resource_slots :: "(string \<times> u32) list"
  bu_resource_identities :: "(u8 list \<times> u32) list"
  bu_group_bits :: "bool list list"
  bu_groups_by_operation :: "u32 list list"
  bu_digest :: "u8 list"

section \<open>Lookups\<close>

definition bundle_op :: "AbiBundle \<Rightarrow> u32 \<Rightarrow> BundleOp option" where
  "bundle_op b slot = get_opt (bu_operations b) (unat slot)"

definition bundle_op_name :: "AbiBundle \<Rightarrow> u32 \<Rightarrow> string option" where
  "bundle_op_name b slot = map_option bo_name (bundle_op b slot)"

definition bundle_op_by_name :: "AbiBundle \<Rightarrow> string \<Rightarrow> u32 option" where
  "bundle_op_by_name b name = map_of (bu_operation_slots b) name"

definition bundle_fixed_member :: "AbiBundle \<Rightarrow> string \<Rightarrow> string \<Rightarrow> u32 option" where
  "bundle_fixed_member b grp member =
     Option.bind (bundle_op_by_name b (grp @ ''.'' @ member)) (\<lambda>slot.
     Option.bind (bundle_op b slot) (\<lambda>operation. if bo_kind operation = Fixed then Some slot else None))"

definition bundle_group_by_name :: "AbiBundle \<Rightarrow> string \<Rightarrow> u32 option" where
  "bundle_group_by_name b name = map_of (bu_group_slots b) name"

definition bundle_group_name :: "AbiBundle \<Rightarrow> u32 \<Rightarrow> string option" where
  "bundle_group_name b slot = map_option bg_name (get_opt (bu_groups b) (unat slot))"

definition is_upper :: "char \<Rightarrow> bool" where
  "is_upper c \<longleftrightarrow> CHR ''A'' \<le> c \<and> c \<le> CHR ''Z''"

definition is_name_char :: "char \<Rightarrow> bool" where
  "is_name_char c \<longleftrightarrow>
     is_upper c \<or> (CHR ''a'' \<le> c \<and> c \<le> CHR ''z'') \<or> (CHR ''0'' \<le> c \<and> c \<le> CHR ''9'') \<or> c = CHR ''_''"

definition to_lower :: "char \<Rightarrow> char" where
  "to_lower c = (if is_upper c then char_of (of_char c + 32 :: nat) else c)"

definition surface_chars :: "nat \<Rightarrow> char \<Rightarrow> string" where
  "surface_chars i c =
     (if c = CHR ''.'' then ''_''
      else if is_upper c then (if i \<noteq> 0 then ''_'' else []) @ [to_lower c]
      else [c])"

definition group_surface_name :: "string \<Rightarrow> string" where
  "group_surface_name name = concat (map (\<lambda>(i, c). surface_chars i c) (enumerate 0 name))"

definition bundle_surface_group :: "AbiBundle \<Rightarrow> string \<Rightarrow> string option" where
  "bundle_surface_group b surface =
     map_option bg_name (find (\<lambda>g. group_surface_name (bg_name g) = surface) (bu_groups b))"

definition bundle_group_contains_op :: "AbiBundle \<Rightarrow> u32 \<Rightarrow> u32 \<Rightarrow> bool" where
  "bundle_group_contains_op b grp operation =
     (case Option.bind (get_opt (bu_group_bits b) (unat grp)) (\<lambda>row. get_opt row (unat operation)) of
        None \<Rightarrow> False | Some included \<Rightarrow> included)"

definition bundle_group_operations :: "AbiBundle \<Rightarrow> u32 \<Rightarrow> u32 list option" where
  "bundle_group_operations b grp = map_option set_bits (get_opt (bu_group_bits b) (unat grp))"

definition bundle_groups_containing_op :: "AbiBundle \<Rightarrow> u32 \<Rightarrow> u32 list option" where
  "bundle_groups_containing_op b operation = get_opt (bu_groups_by_operation b) (unat operation)"

definition bundle_row_name_operations :: "AbiBundle \<Rightarrow> string \<Rightarrow> u32 list option" where
  "bundle_row_name_operations b name =
     (case bundle_op_by_name b name of
        Some operation \<Rightarrow> Some [operation]
      | None \<Rightarrow> Option.bind (bundle_group_by_name b name) (bundle_group_operations b))"

definition bundle_row_name_included :: "AbiBundle \<Rightarrow> string \<Rightarrow> string \<Rightarrow> bool" where
  "bundle_row_name_included b name expected \<longleftrightarrow>
     name = expected \<or> ops_included (bundle_row_name_operations b name) (bundle_row_name_operations b expected)"

definition bundle_row_name_valid :: "AbiBundle \<Rightarrow> string \<Rightarrow> bool" where
  "bundle_row_name_valid b name \<longleftrightarrow> bundle_op_by_name b name \<noteq> None \<or> bundle_group_by_name b name \<noteq> None"

definition bundle_resource_by_name :: "AbiBundle \<Rightarrow> string \<Rightarrow> u32 option" where
  "bundle_resource_by_name b name = map_of (bu_resource_slots b) name"

definition bundle_resource_by_identity :: "AbiBundle \<Rightarrow> u8 list \<Rightarrow> u32 option" where
  "bundle_resource_by_identity b identity = map_of (bu_resource_identities b) identity"

section \<open>Identities\<close>

definition operation_input :: "BundleOp \<Rightarrow> u8 list" where
  "operation_input b =
     domain_tag ''lm-bundle-operation-v1'' @ text_field (bo_name b) @ text_field (bo_group b) @ text_field (bo_member b) @
     id_field (le_bytes 4 (bo_version b)) @ text_field (op_kind_tag (bo_kind b)) @ count_field (length (bo_params b)) @
     concat (map (\<lambda>(p, mode). text_field (abi_text p) @ text_field (boundary_mode_tag mode)) (zip (bo_params b) (bo_param_modes b))) @
     text_field (abi_text (bo_reply b)) @ text_field (boundary_mode_tag (bo_reply_mode b)) @ text_field (bo_schema b) @
     text_field (snapshot_class_tag (bo_snapshot b)) @ text_field (if bo_wait_source b then ''wait'' else ''direct'')"

definition operation_identity :: "hash_fun \<Rightarrow> BundleOp \<Rightarrow> u8 list" where
  "operation_identity hash b = hash (operation_input b)"

definition bundle_digest :: "hash_fun \<Rightarrow> BundleGroup list \<Rightarrow> BundleOp list \<Rightarrow> ResourceDescriptor list \<Rightarrow> u8 list" where
  "bundle_digest hash groups operations resources =
     hash (domain_tag ''lm-abi-bundle-v1'' @ groups_input (map (\<lambda>g. (bg_name g, bg_members g)) groups) @
       concat (map (operation_identity hash) operations) @
       concat (map (\<lambda>r. text_field (rd_name r) @ id_field (le_bytes 4 (rd_version r)) @
         text_field (snapshot_class_tag (rd_snapshot r))) resources))"

definition standard_operation :: "OpDef \<Rightarrow> BundleOp" where
  "standard_operation d =
     \<lparr>bo_name = op_def_name d, bo_group = od_group d, bo_member = od_member d, bo_version = 1, bo_kind = od_kind d,
      bo_params = od_params d, bo_reply = od_reply d, bo_param_modes = replicate (length (od_params d)) BmCopy,
      bo_reply_mode = BmCopy, bo_schema = od_schema d, bo_snapshot = od_snapshot d, bo_wait_source = wait_source d\<rparr>"

section \<open>Checks\<close>

fun extension_type_supported :: "u8 list list \<Rightarrow> AbiType \<Rightarrow> bool" where
  "extension_type_supported rs (ATPrimitive p) \<longleftrightarrow>
     p \<in> {Prim_Unit, Prim_Bool, Prim_Int, Prim_Float, Prim_String, Prim_Bytes}"
| "extension_type_supported rs (ATList e) \<longleftrightarrow> extension_type_supported rs e"
| "extension_type_supported rs (ATTuple ts) \<longleftrightarrow> list_all (extension_type_supported rs) ts"
| "extension_type_supported rs (ATApply c ts) \<longleftrightarrow> abi_valid (ATApply c ts) \<and> list_all (extension_type_supported rs) ts"
| "extension_type_supported rs (ATResource r) \<longleftrightarrow> r \<in> set rs"
| "extension_type_supported rs (ATCore c) \<longleftrightarrow> False"
| "extension_type_supported rs (ATNative n) \<longleftrightarrow> False"
| "extension_type_supported rs (ATVar i) \<longleftrightarrow> False"
| "extension_type_supported rs (ATMap k v) \<longleftrightarrow> False"

fun type_contains_resource :: "AbiType \<Rightarrow> bool" where
  "type_contains_resource (ATResource r) \<longleftrightarrow> True"
| "type_contains_resource (ATList e) \<longleftrightarrow> type_contains_resource e"
| "type_contains_resource (ATTuple ts) \<longleftrightarrow> list_ex type_contains_resource ts"
| "type_contains_resource (ATApply c ts) \<longleftrightarrow> list_ex type_contains_resource ts"
| "type_contains_resource (ATMap k v) \<longleftrightarrow> type_contains_resource k \<or> type_contains_resource v"
| "type_contains_resource (ATPrimitive p) \<longleftrightarrow> False"
| "type_contains_resource (ATCore c) \<longleftrightarrow> False"
| "type_contains_resource (ATNative n) \<longleftrightarrow> False"
| "type_contains_resource (ATVar i) \<longleftrightarrow> False"

text \<open>\<open>str::split\<close> with one character.\<close>

fun split_on :: "char \<Rightarrow> string \<Rightarrow> string list" where
  "split_on sep [] = [[]]"
| "split_on sep (c # cs) =
     (if c = sep then [] # split_on sep cs
      else case split_on sep cs of p # ps \<Rightarrow> (c # p) # ps | [] \<Rightarrow> [[c]])"

datatype BundleError =
    BadName string string
  | BadMember string
  | RepeatedGroup string
  | ResourceVersionZero string
  | RepeatedResource string
  | ResourceNotAttached string
  | ResourceIdentityClash
  | UnknownOpGroup string string
  | RepeatedOperation string
  | OpCollidesWithGroup string
  | OpVersionZero string
  | OpModeCount string
  | OpMustMove string
  | OpUnsupportedType string
  | WaitSlotLimit string
  | WaitArgumentLimit string
  | RepeatedMember string string
  | UnknownSetMember string string
  | SetCycle string
  | BundlePanic

definition validate_qualified_name :: "string \<Rightarrow> string \<Rightarrow> BundleError + unit" where
  "validate_qualified_name name what =
     e_if (\<not> (name = [] \<or> list_ex (\<lambda>p. p = [] \<or> \<not> list_all is_name_char p) (split_on (CHR ''.'') name))) (BadName what name)"

definition validate_member_name :: "string \<Rightarrow> BundleError + unit" where
  "validate_member_name name = e_if (\<not> (name = [] \<or> \<not> list_all is_name_char name)) (BadMember name)"

section \<open>The builder\<close>

definition slot_table :: "'a list \<Rightarrow> ('a \<times> u32) list" where
  "slot_table names = rev (zip names (map of_nat [0..<length names]))"

definition standard_groups :: "BundleGroup list" where
  "standard_groups = map (\<lambda>(name, members). \<lparr>bg_name = name, bg_members = members\<rparr>) (zip GROUPS GROUP_MEMBERS)"

text \<open>The names seen so far are those of the groups collected so far, the standard ones included.\<close>

primrec add_groups :: "BundleGroup list \<Rightarrow> BundleGroup list \<Rightarrow> BundleError + BundleGroup list" where
  "add_groups groups [] = Inr groups"
| "add_groups groups (g # gs) =
     e_bind (validate_qualified_name (bg_name g) ''group'') (\<lambda>_.
     e_bind (e_if (\<not> (bg_name g \<in> set GROUPS \<or> bg_name g \<in> set (map bg_name groups))) (RepeatedGroup (bg_name g))) (\<lambda>_.
     add_groups (groups @ [g]) gs))"

primrec check_resources ::
  "hash_fun \<Rightarrow> nat \<Rightarrow> string list \<Rightarrow> (u8 list \<times> u32) list \<Rightarrow> ResourceDescriptor list \<Rightarrow> BundleError + (u8 list \<times> u32) list" where
  "check_resources hash slot names ids [] = Inr ids"
| "check_resources hash slot names ids (r # rs) =
     e_bind (validate_qualified_name (rd_name r) ''resource'') (\<lambda>_.
     e_bind (e_if (rd_version r \<noteq> 0) (ResourceVersionZero (rd_name r))) (\<lambda>_.
     e_bind (e_if (rd_name r \<notin> set names) (RepeatedResource (rd_name r))) (\<lambda>_.
     e_bind (e_if (\<not> rd_snapshot r \<noteq> HostAttachment) (ResourceNotAttached (rd_name r))) (\<lambda>_.
     let identity = resource_identity hash r in
     e_bind (e_if (map_of ids identity = None) ResourceIdentityClash) (\<lambda>_.
     check_resources hash (Suc slot) (rd_name r # names) ((identity, of_nat slot) # ids) rs)))))"

definition spec_name :: "OperationSpec \<Rightarrow> string" where
  "spec_name s = os_group s @ ''.'' @ os_member s"

definition spec_op :: "OperationSpec \<Rightarrow> BundleOp" where
  "spec_op s =
     \<lparr>bo_name = spec_name s, bo_group = os_group s, bo_member = os_member s, bo_version = os_version s, bo_kind = Fixed,
      bo_params = os_params s, bo_reply = os_reply s, bo_param_modes = os_param_modes s, bo_reply_mode = os_reply_mode s,
      bo_schema = [], bo_snapshot = os_snapshot s, bo_wait_source = os_wait_source s\<rparr>"

text \<open>One operation: the names seen so far start with the standard ones.\<close>

definition check_operation ::
  "string list \<Rightarrow> u8 list list \<Rightarrow> string list \<Rightarrow> string list \<Rightarrow> OperationSpec \<Rightarrow> BundleError + BundleOp" where
  "check_operation group_names known standard seen s =
     e_bind (validate_qualified_name (os_group s) ''operation group'') (\<lambda>_.
     e_bind (validate_member_name (os_member s)) (\<lambda>_.
     e_bind (e_if (os_group s \<in> set group_names) (UnknownOpGroup (spec_name s) (os_group s))) (\<lambda>_.
     e_bind (e_if (\<not> (spec_name s \<in> set standard \<or> spec_name s \<in> set seen)) (RepeatedOperation (spec_name s))) (\<lambda>_.
     e_bind (e_if (spec_name s \<notin> set group_names) (OpCollidesWithGroup (spec_name s))) (\<lambda>_.
     e_bind (e_if (os_version s \<noteq> 0) (OpVersionZero (spec_name s))) (\<lambda>_.
     e_bind (e_if (length (os_param_modes s) = length (os_params s)) (OpModeCount (spec_name s))) (\<lambda>_.
     e_bind (e_if (\<not> (type_contains_resource (os_reply s) \<and> os_reply_mode s \<noteq> BmMove)) (OpMustMove (spec_name s))) (\<lambda>_.
     e_bind (e_if (\<not> (list_ex (\<lambda>t. \<not> extension_type_supported known t) (os_params s) \<or>
                       \<not> extension_type_supported known (os_reply s))) (OpUnsupportedType (spec_name s))) (\<lambda>_.
     Inr (spec_op s))))))))))"

primrec add_operations ::
  "string list \<Rightarrow> u8 list list \<Rightarrow> string list \<Rightarrow> string list \<Rightarrow> OperationSpec list \<Rightarrow> BundleError + BundleOp list" where
  "add_operations group_names known standard seen [] = Inr []"
| "add_operations group_names known standard seen (s # ss) =
     e_bind (check_operation group_names known standard seen s) (\<lambda>b.
     e_bind (add_operations group_names known standard (bo_name b # seen) ss) (\<lambda>bs. Inr (b # bs)))"

primrec check_waits :: "nat \<Rightarrow> BundleOp list \<Rightarrow> BundleError + unit" where
  "check_waits slot [] = Inr ()"
| "check_waits slot (b # bs) =
     e_bind (e_if (\<not> (bo_wait_source b \<and> int slot > 65535)) (WaitSlotLimit (bo_name b))) (\<lambda>_.
     e_bind (e_if (\<not> (bo_wait_source b \<and> int (length (bo_params b)) > 65535)) (WaitArgumentLimit (bo_name b))) (\<lambda>_.
     check_waits (Suc slot) bs))"

primrec check_set_members ::
  "(string \<times> u32) list \<Rightarrow> (string \<times> u32) list \<Rightarrow> string \<Rightarrow> string list \<Rightarrow> string list \<Rightarrow> BundleError + unit" where
  "check_set_members group_slots operation_slots name seen [] = Inr ()"
| "check_set_members group_slots operation_slots name seen (m # ms) =
     e_bind (e_if (m \<notin> set seen) (RepeatedMember name m)) (\<lambda>_.
     e_bind (e_if (\<not> (map_of group_slots m = None \<and> map_of operation_slots m = None)) (UnknownSetMember name m)) (\<lambda>_.
     check_set_members group_slots operation_slots name (m # seen) ms))"

definition bundle_slot :: "(string \<times> u32) list \<Rightarrow> string \<Rightarrow> nat option" where
  "bundle_slot group_slots name = map_option unat (map_of group_slots name)"

definition bundle_members :: "BundleGroup list \<Rightarrow> nat \<Rightarrow> string list" where
  "bundle_members groups g = (case get_opt groups g of Some grp \<Rightarrow> bg_members grp | None \<Rightarrow> [])"

definition validate_group_members ::
  "BundleGroup list \<Rightarrow> (string \<times> u32) list \<Rightarrow> (string \<times> u32) list \<Rightarrow> BundleError + unit" where
  "validate_group_members groups group_slots operation_slots =
     e_bind (e_all (\<lambda>g. check_set_members group_slots operation_slots (bg_name g) [] (bg_members g)) groups) (\<lambda>_.
     case visit_all (bundle_members groups) (bundle_slot group_slots) (Suc (length groups)) (replicate (length groups) 0) [0..<length groups] of
       None \<Rightarrow> Inl BundlePanic
     | Some (Inl g) \<Rightarrow> (case get_opt groups g of None \<Rightarrow> Inl BundlePanic | Some grp \<Rightarrow> Inl (SetCycle (bg_name grp)))
     | Some (Inr _) \<Rightarrow> Inr ())"

definition bundle_contains :: "BundleGroup list \<Rightarrow> (string \<times> u32) list \<Rightarrow> nat \<Rightarrow> BundleOp \<Rightarrow> bool option" where
  "bundle_contains groups group_slots g b =
     map_option fst (contains_group (\<lambda>g. map_option bg_name (get_opt groups g) = Some (bo_group b)) (bo_name b)
       (bundle_members groups) (bundle_slot group_slots) (Suc (length groups)) (replicate (length groups) False) g)"

definition build_group_bits :: "BundleGroup list \<Rightarrow> (string \<times> u32) list \<Rightarrow> BundleOp list \<Rightarrow> BundleError + bool list list" where
  "build_group_bits groups group_slots operations =
     e_all (\<lambda>g. e_all (\<lambda>b. e_opt BundlePanic (bundle_contains groups group_slots g b)) operations) [0..<length groups]"

text \<open>The last part of \<open>build\<close>: the tables of the completed lists.\<close>

definition finish_bundle ::
  "hash_fun \<Rightarrow> BundleGroup list \<Rightarrow> BundleOp list \<Rightarrow> ResourceDescriptor list \<Rightarrow> (u8 list \<times> u32) list \<Rightarrow> BundleError + AbiBundle" where
  "finish_bundle hash groups operations resources ids =
     (let operation_slots = slot_table (map bo_name operations); group_slots = slot_table (map bg_name groups) in
     e_bind (validate_group_members groups group_slots operation_slots) (\<lambda>_.
     e_bind (build_group_bits groups group_slots operations) (\<lambda>bits.
     Inr \<lparr>bu_operations = operations, bu_groups = groups, bu_resources = resources, bu_operation_slots = operation_slots,
       bu_group_slots = group_slots, bu_resource_slots = slot_table (map rd_name resources), bu_resource_identities = ids,
       bu_group_bits = bits,
       bu_groups_by_operation =
         map (\<lambda>i. map of_nat (filter (\<lambda>g. bits ! g ! i) [0..<length groups])) [0..<length operations],
       bu_digest = bundle_digest hash groups operations resources\<rparr>)))"

definition build :: "hash_fun \<Rightarrow> AbiBundleBuilder \<Rightarrow> BundleError + AbiBundle" where
  "build hash self =
     e_bind (add_groups standard_groups (sort_key bg_name (ab_groups self))) (\<lambda>groups.
     let standard = map standard_operation OPS; resources = sort_key rd_name (ab_resources self) in
     e_bind (check_resources hash 0 [] [] resources) (\<lambda>ids.
     e_bind (add_operations (map bg_name groups) (map fst ids) (map bo_name standard) [] (ab_operations self)) (\<lambda>extension.
     let operations = standard @ sort_key (\<lambda>b. (operation_identity hash b, bo_name b)) extension in
     e_bind (check_waits 0 operations) (\<lambda>_.
     finish_bundle hash groups operations resources ids))))"

definition standard_bundle :: "hash_fun \<Rightarrow> AbiBundle option" where
  "standard_bundle hash = (case build hash builder_new of Inr b \<Rightarrow> Some b | Inl _ \<Rightarrow> None)"

end
