(* ===== verification/Bundle_Correct.thy ===== *)
theory Bundle_Correct
  imports Abi_Bundle "HOL-Library.Multiset"
begin

text \<open>
  Correctness of the bundle builder of \<^verbatim>\<open>crates/lm-abi/src/bundle.rs\<close> and of the manifest check
  of \<^verbatim>\<open>crates/lm-abi/src/lib.rs\<close>: the order in which extensions are added does not matter, the group
  closure is reachability, and the compiled manifest passes its check.
\<close>

section \<open>The parts of the builder\<close>

definition group_ok :: "BundleGroup \<Rightarrow> bool" where
  "group_ok g \<longleftrightarrow> validate_qualified_name (bg_name g) ''group'' = Inr ()"

lemma add_groups_Inr:
  "add_groups groups gs = Inr out \<longleftrightarrow>
     out = groups @ gs \<and> list_all group_ok gs \<and> distinct (map bg_name gs) \<and>
     set (map bg_name gs) \<inter> (set GROUPS \<union> set (map bg_name groups)) = {}"
proof (induction gs arbitrary: groups)
  case (Cons g gs)
  have "add_groups groups (g # gs) = Inr out \<longleftrightarrow>
      group_ok g \<and> bg_name g \<notin> set GROUPS \<and> bg_name g \<notin> set (map bg_name groups) \<and> add_groups (groups @ [g]) gs = Inr out"
    by (simp add: e_simps group_ok_def)
  also have "\<dots> \<longleftrightarrow> out = groups @ g # gs \<and> list_all group_ok (g # gs) \<and> distinct (map bg_name (g # gs)) \<and>
      set (map bg_name (g # gs)) \<inter> (set GROUPS \<union> set (map bg_name groups)) = {}"
    unfolding Cons.IH by auto
  finally show ?case .
qed auto

lemma check_resources_distinct:
  "check_resources hash slot names ids rs = Inr ids' \<Longrightarrow> distinct (map rd_name rs) \<and> set (map rd_name rs) \<inter> set names = {}"
proof (induction rs arbitrary: slot names ids)
  case (Cons r rs)
  then have "rd_name r \<notin> set names" and "\<exists>slot ids. check_resources hash slot (rd_name r # names) ids rs = Inr ids'"
    by (auto simp: e_simps Let_def)
  then show ?case using Cons.IH by fastforce
qed simp

definition spec_ok :: "string list \<Rightarrow> u8 list list \<Rightarrow> OperationSpec \<Rightarrow> bool" where
  "spec_ok group_names known s \<longleftrightarrow>
     validate_qualified_name (os_group s) ''operation group'' = Inr () \<and> validate_member_name (os_member s) = Inr () \<and>
     os_group s \<in> set group_names \<and> spec_name s \<notin> set group_names \<and> os_version s \<noteq> 0 \<and>
     length (os_param_modes s) = length (os_params s) \<and> (type_contains_resource (os_reply s) \<longrightarrow> os_reply_mode s = BmMove) \<and>
     list_all (extension_type_supported known) (os_params s) \<and> extension_type_supported known (os_reply s)"

lemma check_operation_Inr:
  "check_operation group_names known standard seen s = Inr b \<longleftrightarrow>
     b = spec_op s \<and> spec_ok group_names known s \<and> spec_name s \<notin> set standard \<and> spec_name s \<notin> set seen"
  unfolding check_operation_def e_simps spec_ok_def list_ex_iff list_all_iff by (simp add: e_simps) blast

lemma spec_op_name [simp]: "bo_name (spec_op s) = spec_name s"
  by (simp add: spec_op_def)

lemma add_operations_Inr:
  "add_operations group_names known standard seen ss = Inr bs \<longleftrightarrow>
     bs = map spec_op ss \<and> list_all (spec_ok group_names known) ss \<and> distinct (map spec_name ss) \<and>
     set (map spec_name ss) \<inter> (set standard \<union> set seen) = {}"
proof (induction ss arbitrary: seen bs)
  case (Cons s ss)
  have "add_operations group_names known standard seen (s # ss) = Inr bs \<longleftrightarrow>
      (\<exists>cs. bs = spec_op s # cs \<and> spec_ok group_names known s \<and> spec_name s \<notin> set standard \<and> spec_name s \<notin> set seen \<and>
         add_operations group_names known standard (spec_name s # seen) ss = Inr cs)"
    by (auto simp: e_simps check_operation_Inr)
  also have "\<dots> \<longleftrightarrow> bs = map spec_op (s # ss) \<and> list_all (spec_ok group_names known) (s # ss) \<and>
      distinct (map spec_name (s # ss)) \<and> set (map spec_name (s # ss)) \<inter> (set standard \<union> set seen) = {}"
    unfolding Cons.IH by auto
  finally show ?case .
qed auto

section \<open>Order independence\<close>

lemma sort_key_mset:
  assumes "mset xs = mset ys" and "inj_on f (set xs)"
  shows "sort_key f xs = sort_key f ys"
proof (rule sort_key_inj_key_eq)
  show "mset xs = mset (sort_key f ys)" using assms(1) by simp
qed (use assms(2) in simp_all)

lemma mset_map_eq: "mset xs = mset ys \<Longrightarrow> mset (map f xs) = mset (map f ys)"
  by simp

lemma build_mset:
  assumes g: "mset (ab_groups x) = mset (ab_groups y)" and o: "mset (ab_operations x) = mset (ab_operations y)"
    and r: "mset (ab_resources x) = mset (ab_resources y)" and b: "build hash x = Inr b"
  shows "build hash y = Inr b"
proof -
  let ?std = "map standard_operation OPS"
  obtain groups ids ext where
    groups: "add_groups standard_groups (sort_key bg_name (ab_groups x)) = Inr groups"
    and ids: "check_resources hash 0 [] [] (sort_key rd_name (ab_resources x)) = Inr ids"
    and ext: "add_operations (map bg_name groups) (map fst ids) (map bo_name ?std) [] (ab_operations x) = Inr ext"
    and rest: "check_waits 0 (?std @ sort_key (\<lambda>b. (operation_identity hash b, bo_name b)) ext) = Inr ()"
      "finish_bundle hash groups (?std @ sort_key (\<lambda>b. (operation_identity hash b, bo_name b)) ext) (sort_key rd_name (ab_resources x)) ids = Inr b"
    using b unfolding build_def Let_def by (auto simp: e_simps)
  have "distinct (map bg_name (ab_groups x))"
    using groups [unfolded add_groups_Inr] by (metis distinct_map mset_eq_imp_distinct_iff mset_map_eq mset_sort)
  then have gs: "sort_key bg_name (ab_groups y) = sort_key bg_name (ab_groups x)"
    using g by (metis distinct_map sort_key_mset)
  have "distinct (map rd_name (ab_resources x))"
    using check_resources_distinct [OF ids] by (metis mset_eq_imp_distinct_iff mset_map_eq mset_sort)
  then have rs: "sort_key rd_name (ab_resources y) = sort_key rd_name (ab_resources x)"
    using r by (metis distinct_map sort_key_mset)
  note e = ext [unfolded add_operations_Inr]
  have ext': "add_operations (map bg_name groups) (map fst ids) (map bo_name ?std) [] (ab_operations y) = Inr (map spec_op (ab_operations y))"
    unfolding add_operations_Inr using e o
    by (metis list_all_iff mset_eq_imp_distinct_iff mset_eq_setD mset_map_eq)
  have "inj_on (\<lambda>b. (operation_identity hash b, bo_name b)) (set ext)"
    using e by (auto simp: inj_on_def distinct_map)
  moreover have "mset ext = mset (map spec_op (ab_operations y))" using e mset_map_eq [OF o, of spec_op] by simp
  ultimately have os: "sort_key (\<lambda>b. (operation_identity hash b, bo_name b)) (map spec_op (ab_operations y)) =
      sort_key (\<lambda>b. (operation_identity hash b, bo_name b)) ext"
    by (rule sort_key_mset [symmetric, rotated])
  show ?thesis
    unfolding build_def Let_def gs rs using groups ids ext' rest os by (simp add: e_bind_value)
qed

text \<open>C13: the order in which groups, operations and resources are added to a builder does not matter: builders
  that hold the same extensions build the same bundle, slots and digest included, or both fail.\<close>
theorem build_order_independent:
  assumes "mset (ab_groups x) = mset (ab_groups y)" and "mset (ab_operations x) = mset (ab_operations y)"
    and "mset (ab_resources x) = mset (ab_resources y)"
  shows "build hash x = Inr b \<longleftrightarrow> build hash y = Inr b"
  using build_mset [of x y hash b] build_mset [of y x hash b] assms by metis

definition sample_builder :: "bool \<Rightarrow> AbiBundleBuilder" where
  "sample_builder swap =
     (let ev = spec_fixed ''Telemetry'' ''Event'' [AT_STR, AT_INT] AT_UNIT; cnt = spec_fixed ''Telemetry'' ''Count'' [AT_STR] AT_INT;
        start = add_group builder_new (group_namespace ''Telemetry'') in
      if swap then add_operation (add_operation start cnt) ev else add_operation (add_operation start ev) cnt)"

lemmas builder_defs = builder_new_def add_group_def add_operation_def add_resource_def group_namespace_def group_effect_set_def

theorem build_order_independent_witness:
  "sample_builder False \<noteq> sample_builder True \<and> (\<forall>hash b. build hash (sample_builder False) = Inr b \<longleftrightarrow> build hash (sample_builder True) = Inr b)"
proof -
  have "mset (ab_groups (sample_builder False)) = mset (ab_groups (sample_builder True))"
    "mset (ab_operations (sample_builder False)) = mset (ab_operations (sample_builder True))"
    "mset (ab_resources (sample_builder False)) = mset (ab_resources (sample_builder True))"
    by (simp_all add: sample_builder_def builder_defs Let_def)
  from build_order_independent [OF this] show ?thesis by (simp add: sample_builder_def builder_defs Let_def spec_fixed_def)
qed

end
