(* ===== verification/Manifest_Tables.thy ===== *)
theory Manifest_Tables
  imports Abi_Manifest
begin

text \<open>
  Evaluated facts about the tables of the operation manifest of \<^verbatim>\<open>crates/lm-abi/src/lib.rs\<close>.
\<close>

section \<open>Facts about the tables\<close>

lemma groups_distinct: "distinct GROUPS"
  by (simp add: GROUPS_def)

lemma groups_lengths: "length GROUPS = 32" "length GROUP_MEMBERS = 32"
  by (simp_all add: GROUPS_def GROUP_MEMBERS_def)

lemma length_OPS: "length OPS = 149"
  by (simp add: OPS_def OPS_parts)

lemma ops_groups: "list_all (\<lambda>d. od_group d \<in> set GROUPS) OPS"
  by code_simp

lemma ops_types: "list_all (\<lambda>d. abi_valid (od_reply d) \<and> list_all abi_valid (od_params d)) OPS"
  by (simp add: OPS_def OPS_parts abi_type_defs)

text \<open>The qualified names of the operations, written out.\<close>

definition op_names :: "string list" where
  "op_names =
    [''Io.ReadBytes'', ''Io.Write'', ''Io.WriteError'', ''Clock.Now'', ''Clock.Monotonic'', ''Clock.Sleep'',
     ''Rand.Int'', ''Vm.New'', ''Vm.Activate'', ''Vm.Run'', ''Vm.Step'', ''Vm.Drive'', ''Vm.Answer'', ''Vm.Reject'',
     ''Vm.Dispatch'', ''Vm.Table'', ''Proc.Run'', ''Proc.Spawn'', ''Proc.Send'', ''Proc.Close'', ''Proc.Recv'',
     ''Proc.Done'', ''Proc.Pause'', ''Proc.Resume'', ''Vm.SnapshotHeld'', ''Vm.SnapshotSelf'', ''Vm.LoadSnapshot'',
     ''Vm.Restore'', ''Fs.Open'', ''Fs.Read'', ''Fs.Write'', ''Fs.Seek'', ''Fs.Flush'', ''Fs.Close'',
     ''Vm.Handles'', ''Vm.Resource'', ''Vm.ServeFile'', ''Vm.ResourceIsOpen'', ''Vm.ResourceClose'',
     ''Vm.ResourceKind'', ''Proc.SnapshotWait'', ''Vm.ResourceSame'', ''Vm.DriveWait'', ''Proc.RecvWait'',
     ''Wait.Wait'', ''Wait.Choose'', ''Wait.Cancel'', ''Vm.DriveFor'', ''Vm.SnapshotWaitHeld'', ''Dns.Resolve'',
     ''Tcp.Connect'', ''Tcp.Listen'', ''Tcp.Accept'', ''Tcp.Read'', ''Tcp.Write'', ''Tcp.Shutdown'',
     ''Tcp.LocalAddress'', ''Tcp.PeerAddress'', ''Tcp.Close'', ''Vm.ServeTcpStream'', ''Vm.ServeTcpListener'',
     ''Tls.Handshake'', ''Tls.Read'', ''Tls.Write'', ''Tls.Shutdown'', ''Tls.LocalAddress'', ''Tls.PeerAddress'',
     ''Tls.Close'', ''Vm.ServeTlsStream'', ''Choose.Pick'', ''Vm.Artifact'', ''Compiler.Verify'', ''Vm.Install'',
     ''Vm.InstanceEntry'', ''Vm.InstanceFunction'', ''Vm.InstanceSlotFor'', ''Vm.InstanceSlotSpec'',
     ''Vm.ActivateDef'', ''Vm.ReplaceFunction'', ''Vm.InstallWith'', ''Compiler.Compile'',
     ''Compiler.CompileSyntax'', ''Reflect.ParseSyntax'', ''Vm.InstanceClass'', ''Vm.ReplaceClass'',
     ''Vm.ReplaceValue'', ''Vm.ReplaceProcess'', ''Vm.SnapshotVm'', ''Vm.RestoreVm'', ''Vm.ActivateOrFault'',
     ''Vm.ModuleEntryCode'', ''Vm.ModuleFunctionCode'', ''Vm.ModuleClassCode'', ''Vm.InstanceEntryBinding'',
     ''Vm.InstanceFunctionBinding'', ''Vm.InstanceClassBinding'', ''Vm.BindingSlot'', ''Vm.BindingSpec'',
     ''Vm.BindingInstance'', ''Vm.BindingFunctionTarget'', ''Vm.BindingClassTarget'', ''Vm.ChangeFunction'',
     ''Vm.ChangeClass'', ''Vm.ChangeValue'', ''Vm.ChangeProcess'', ''Vm.ReplaceAll'', ''Vm.RunSnapshotBytes'',
     ''Vm.SnapshotBytes'', ''Env.Get'', ''Fs.CurrentDir'', ''Entropy.Bytes'', ''Args.Get'', ''Tty.IsTerminal'',
     ''Tty.Size'', ''Tty.EnterRaw'', ''Tty.ExitRaw'', ''Signal.Open'', ''Signal.Next'', ''Signal.Close'',
     ''Fs.Stat'', ''Fs.ReadDir'', ''Fs.CreateDir'', ''Fs.RemoveFile'', ''Fs.RemoveDir'', ''Fs.Rename'', ''Fs.Sync'',
     ''Fs.SyncDir'', ''Pipe.Open'', ''Pipe.Read'', ''Pipe.Write'', ''Pipe.Close'', ''Exec.Spawn'', ''Exec.Wait'',
     ''Exec.Terminate'', ''Exec.Kill'', ''Exec.Close'', ''Tls.ServerHandshake'', ''Udp.Bind'', ''Udp.SendTo'',
     ''Udp.RecvFrom'', ''Udp.LocalAddress'', ''Udp.Close'', ''Proc.RunClosure'', ''Vm.Branch'', ''Wait.Any'',
     ''Vm.BranchAnswer'', ''Vm.RestoreDynamic'', ''Vm.Stack'', ''Vm.Link'']"

lemma op_names: "map op_def_name OPS = op_names"
  by (simp add: OPS_def OPS_parts op_def_name_def op_names_def)

lemma op_names_no_group: "list_all (\<lambda>n. n \<notin> set GROUPS) op_names"
  by code_simp

lemma op_names_distinct: "distinct op_names"
  by (simp add: op_names_def)

lemma ops_params: "list_all (\<lambda>d. length (od_params d) < 8) OPS"
  by (simp add: OPS_def OPS_parts)

lemma members_distinct: "list_all distinct GROUP_MEMBERS"
  by code_simp

text \<open>The members are groups or operations of the network groups.\<close>

definition network_names :: "string list" where
  "network_names = take 19 (drop 49 op_names) @ drop 136 op_names"

lemma members_network: "list_all (list_all (\<lambda>m. m \<in> set GROUPS \<or> m \<in> set network_names)) GROUP_MEMBERS"
  by code_simp

lemma members_known: "list_all (list_all (\<lambda>m. m \<in> set GROUPS \<or> m \<in> set op_names)) GROUP_MEMBERS"
  using members_network unfolding network_names_def list_all_iff set_append by (blast dest: in_set_takeD in_set_dropD)

text \<open>A rank that falls along every edge: the http sets, then the client and server sets, then the rest.\<close>

definition group_rank :: "nat \<Rightarrow> nat" where
  "group_rank g = (if g \<in> {16, 20} then 2 else if g \<in> {14, 15, 19, 29, 30} then 1 else 0)"

lemma ranks_fall:
  "list_all (\<lambda>g. list_all (\<lambda>m. case member_slot m of None \<Rightarrow> True | Some c \<Rightarrow> group_rank c < group_rank g) (members_at g)) [0..<32]"
  by code_simp

end
