(* ===== verification/Manifest_Check.thy ===== *)
theory Manifest_Check
  imports Manifest_Tables
begin

text \<open>
  The compiled operation manifest of \<^verbatim>\<open>crates/lm-abi/src/lib.rs\<close> passes \<^verbatim>\<open>validate_manifest\<close>: each
  check is shown to decide a fact about the tables, and the facts hold.
\<close>

section \<open>The checks decide them\<close>

lemma op_name_match:
  "length name = length (od_group d) + length (od_member d) + 1 \<and> starts_with name (od_group d) \<and>
   get_opt name (length (od_group d)) = Some (CHR ''.'') \<and> ends_with name (od_member d) \<longleftrightarrow> op_def_name d = name"
  (is "?L \<longleftrightarrow> ?R")
proof
  assume l: ?L
  let ?n = "length (od_group d)"
  have "name = take ?n name @ drop ?n name" by simp
  also have "drop ?n name = name ! ?n # drop (Suc ?n) name" using l by (simp add: Cons_nth_drop_Suc)
  also have "take ?n name = od_group d" using l by (simp add: starts_with_def)
  also have "name ! ?n = CHR ''.''" using l by (simp add: get_opt_Some_iff)
  also have "drop (Suc ?n) name = od_member d"
  proof -
    have eq: "length name - length (od_member d) = Suc ?n" using l by simp
    have "drop (length name - length (od_member d)) name = od_member d" using l unfolding ends_with_def by blast
    then show ?thesis unfolding eq .
  qed
  finally show ?R by (simp add: op_def_name_def)
next
  assume ?R
  then have "name = od_group d @ CHR ''.'' # od_member d" by (simp add: op_def_name_def)
  then show ?L by (simp add: starts_with_def ends_with_def get_opt_def)
qed

lemma op_by_name_position: "op_by_name name = map_option of_nat (position (\<lambda>d. op_def_name d = name) OPS)"
  unfolding op_by_name_def op_name_match ..

lemma op_by_name_None: "op_by_name name = None \<longleftrightarrow> name \<notin> set op_names"
  unfolding op_by_name_position op_names [symmetric] by (auto simp: position_None_iff)

lemma group_by_name_None: "group_by_name name = None \<longleftrightarrow> name \<notin> set GROUPS"
  by (auto simp: group_by_name_def position_None_iff)

text \<open>The qualified name of a slot leads back to the slot.\<close>

lemma op_name_roundtrip: "i < 149 \<Longrightarrow> op_by_name (op_def_name (OPS ! i)) = Some (of_nat i)"
proof -
  assume i: "i < 149"
  have "position (\<lambda>d. op_def_name d = op_def_name (OPS ! i)) OPS = Some i"
    unfolding position_Some_iff using i op_names_distinct
    by (auto simp: length_OPS op_names [symmetric] distinct_conv_nth)
  then show ?thesis by (simp add: op_by_name_position)
qed

lemma check_groups_Inr: "check_groups seen gs = Inr () \<longleftrightarrow> distinct gs \<and> set gs \<inter> set seen = {}"
  by (induction gs arbitrary: seen) auto

lemma check_ops_Inr:
  "check_ops slot seen ds = Inr () \<longleftrightarrow>
     list_all (\<lambda>d. od_group d \<in> set GROUPS) ds \<and> list_all (\<lambda>d. abi_valid (od_reply d) \<and> list_all abi_valid (od_params d)) ds \<and>
     distinct (map op_def_name ds) \<and> set (map op_def_name ds) \<inter> set seen = {} \<and> list_all (\<lambda>n. n \<notin> set GROUPS) (map op_def_name ds)"
proof (induction ds arbitrary: slot seen)
  case (Cons d ds)
  have "check_ops slot seen (d # ds) = Inr () \<longleftrightarrow>
      od_group d \<in> set GROUPS \<and> (abi_valid (od_reply d) \<and> list_all abi_valid (od_params d)) \<and> op_def_name d \<notin> set seen \<and>
      op_def_name d \<notin> set GROUPS \<and> check_ops (Suc slot) (op_def_name d # seen) ds = Inr ()"
    using group_by_name_None [of "od_group d"] group_by_name_None [of "op_def_name d"]
    by (simp add: e_simps Let_def list_ex_iff list_all_iff)
  then show ?case unfolding Cons.IH by auto
qed simp

lemma check_members_Inr:
  "check_members g seen ms = Inr () \<longleftrightarrow> distinct ms \<and> set ms \<inter> set seen = {} \<and> list_all (\<lambda>m. m \<in> set GROUPS \<or> m \<in> set op_names) ms"
proof (induction ms arbitrary: seen)
  case (Cons m ms)
  have "check_members g seen (m # ms) = Inr () \<longleftrightarrow>
      m \<notin> set seen \<and> (m \<in> set GROUPS \<or> m \<in> set op_names) \<and> check_members g (m # seen) ms = Inr ()"
    using op_by_name_None [of m] group_by_name_None [of m] by (auto simp: e_simps)
  then show ?case unfolding Cons.IH by auto
qed simp

lemma check_all_members_Inr:
  "check_all_members ps = Inr () \<longleftrightarrow> (\<forall>p \<in> set ps. check_members (fst p) [] (snd p) = Inr ())"
  by (induction ps) (auto simp: e_simps)

lemma member_slot_less: "member_slot m = Some c \<Longrightarrow> c < 32"
  by (auto simp: member_slot_def group_by_name_def position_Some_iff groups_lengths unat_of_nat take_bit_nat_eq_self)

lemma edge_rank: "edge members_at member_slot g c \<Longrightarrow> group_rank c < group_rank g"
proof -
  assume e: "edge members_at member_slot g c"
  then obtain m where m: "m \<in> set (members_at g)" "member_slot m = Some c" by (auto simp: edge_def)
  then have "g < 32" by (cases "g < 32") (auto simp: members_at_def get_opt_def groups_lengths)
  then show ?thesis using ranks_fall m by (fastforce simp: list_all_iff)
qed

lemma edges_acyclic: "\<not> (edge members_at member_slot)\<^sup>+\<^sup>+ g g"
proof
  assume "(edge members_at member_slot)\<^sup>+\<^sup>+ g g"
  moreover have "group_rank c < group_rank b" if "(edge members_at member_slot)\<^sup>+\<^sup>+ b c" for b c
    using that by (induction rule: tranclp_induct) (auto dest: edge_rank)
  ultimately show False by blast
qed

lemma validate_manifest_ok: "validate_manifest = Inr ()"
proof -
  have "check_all_members (zip GROUPS GROUP_MEMBERS) = Inr ()"
    unfolding check_all_members_Inr check_members_Inr
    using members_distinct members_known by (auto simp: list_all_iff dest!: set_zip_rightD)
  moreover have "check_ops 0 [] OPS = Inr ()"
    unfolding check_ops_Inr op_names using ops_groups ops_types op_names_distinct op_names_no_group by simp
  moreover obtain state where "visit_all members_at member_slot (Suc 32) (replicate 32 0) [0..<32] = Some (Inr state)"
    using visit_accepts [of member_slot 32 members_at] member_slot_less edges_acyclic by blast
  moreover have "check_groups [] GROUPS = Inr ()" by (simp add: check_groups_Inr groups_distinct)
  ultimately show ?thesis
    by (simp add: validate_manifest_def e_bind_value e_if_def groups_lengths GROUP_COUNT_def)
qed

end
