(* ===== verification/Bundle_Closure.thy ===== *)
theory Bundle_Closure
  imports Bundle_Correct Manifest_Check
begin

text \<open>
  What a built bundle of \<^verbatim>\<open>crates/lm-abi/src/bundle.rs\<close> answers: the cached group bits are the
  transitive membership of the effect sets, the inverse table agrees with them, row inclusion is
  inclusion of the operations, and the bundle without extensions builds.
\<close>

section \<open>Slot tables\<close>

lemma slot_table_Some:
  assumes "distinct names"
  shows "map_of (slot_table names) n = Some s \<longleftrightarrow> (\<exists>i < length names. names ! i = n \<and> s = of_nat i)"
proof -
  have keys: "map fst (slot_table names) = rev names" by (simp add: slot_table_def flip: rev_map)
  have "map_of (slot_table names) n = Some s \<longleftrightarrow> (n, s) \<in> set (slot_table names)"
    using assms by (intro map_of_eq_Some_iff) (simp add: keys)
  then show ?thesis by (auto simp: slot_table_def set_zip)
qed

lemma slot_table_None: "map_of (slot_table names) n = None \<longleftrightarrow> n \<notin> set names"
proof -
  have "fst ` set (slot_table names) = set names"
    unfolding slot_table_def set_rev list.set_map [symmetric] by simp
  then show ?thesis by (simp add: map_of_eq_None_iff)
qed

lemma option_eqI: "(\<And>i. x = Some i \<longleftrightarrow> y = Some i) \<Longrightarrow> x = y"
  by (cases x; cases y) auto

lemma unat_u32: "i < 4294967296 \<Longrightarrow> unat (of_nat i :: u32) = i"
  by (simp add: unat_of_nat take_bit_nat_eq_self)

lemma bundle_slot_Some:
  assumes "distinct names" and "length names \<le> 4294967296"
  shows "bundle_slot (slot_table names) n = Some i \<longleftrightarrow> i < length names \<and> names ! i = n"
  using assms by (auto simp: bundle_slot_def slot_table_Some unat_u32)

section \<open>Transitive membership\<close>

text \<open>An effect set carries an operation when it is its namespace group, names it, or names a set that carries it.\<close>

inductive carries :: "BundleGroup list \<Rightarrow> BundleOp \<Rightarrow> nat \<Rightarrow> bool" for groups bop where
  carries_own: "g < length groups \<Longrightarrow> bg_name (groups ! g) = bo_group bop \<Longrightarrow> carries groups bop g"
| carries_exact: "g < length groups \<Longrightarrow> bo_name bop \<in> set (bg_members (groups ! g)) \<Longrightarrow> carries groups bop g"
| carries_nested: "g < length groups \<Longrightarrow> bg_name (groups ! h) \<in> set (bg_members (groups ! g)) \<Longrightarrow> carries groups bop h \<Longrightarrow> carries groups bop g"

lemma carries_less: "carries groups bop g \<Longrightarrow> g < length groups"
  by (induction rule: carries.induct)

abbreviation own_group :: "BundleGroup list \<Rightarrow> BundleOp \<Rightarrow> nat \<Rightarrow> bool" where
  "own_group groups bop g \<equiv> map_option bg_name (get_opt groups g) = Some (bo_group bop)"

abbreviation set_edge :: "BundleGroup list \<Rightarrow> nat \<Rightarrow> nat \<Rightarrow> bool" where
  "set_edge groups \<equiv> edge (bundle_members groups) (bundle_slot (slot_table (map bg_name groups)))"

lemma bundle_members_nth: "g < length groups \<Longrightarrow> bundle_members groups g = bg_members (groups ! g)"
  by (simp add: bundle_members_def get_opt_def)

lemma set_edge_iff:
  assumes "distinct (map bg_name groups)" and "length groups \<le> 4294967296"
  shows "set_edge groups g h \<longleftrightarrow> g < length groups \<and> h < length groups \<and> bg_name (groups ! h) \<in> set (bg_members (groups ! g))"
proof (cases "g < length groups")
  case True
  then show ?thesis using assms by (auto simp: edge_def bundle_slot_Some bundle_members_nth)
next
  case False
  then show ?thesis by (simp add: edge_def bundle_members_def get_opt_def)
qed

lemma holds_iff:
  "holds (own_group groups bop) (bo_name bop) (bundle_members groups) g \<longleftrightarrow>
     g < length groups \<and> (bg_name (groups ! g) = bo_group bop \<or> bo_name bop \<in> set (bg_members (groups ! g)))"
  by (cases "g < length groups") (auto simp: holds_def bundle_members_def get_opt_def)

lemma carries_reach:
  assumes "distinct (map bg_name groups)" and "length groups \<le> 4294967296"
  shows "(\<exists>x. (set_edge groups)\<^sup>*\<^sup>* g x \<and> holds (own_group groups bop) (bo_name bop) (bundle_members groups) x) \<longleftrightarrow> carries groups bop g"
proof
  assume "\<exists>x. (set_edge groups)\<^sup>*\<^sup>* g x \<and> holds (own_group groups bop) (bo_name bop) (bundle_members groups) x"
  then obtain x where path: "(set_edge groups)\<^sup>*\<^sup>* g x" and x: "holds (own_group groups bop) (bo_name bop) (bundle_members groups) x" by blast
  from path show "carries groups bop g"
  proof (induction rule: converse_rtranclp_induct)
    case base
    then show ?case using x unfolding holds_iff by (blast intro: carries.intros)
  next
    case (step y z)
    then show ?case unfolding set_edge_iff [OF assms] by (blast intro: carries_nested)
  qed
next
  assume "carries groups bop g"
  then show "\<exists>x. (set_edge groups)\<^sup>*\<^sup>* g x \<and> holds (own_group groups bop) (bo_name bop) (bundle_members groups) x"
  proof (induction rule: carries.induct)
    case (carries_nested g h)
    then have "set_edge groups g h" unfolding set_edge_iff [OF assms] using carries_less by blast
    then show ?case using carries_nested.IH by (blast intro: converse_rtranclp_into_rtranclp)
  qed (use holds_iff in blast)+
qed

lemma bundle_contains_carries:
  assumes "distinct (map bg_name groups)" and "length groups \<le> 4294967296" and "g < length groups"
  shows "bundle_contains groups (slot_table (map bg_name groups)) g bop = Some (carries groups bop g)"
proof -
  have slots: "\<forall>m c. bundle_slot (slot_table (map bg_name groups)) m = Some c \<longrightarrow> c < length groups"
    using bundle_slot_Some [of "map bg_name groups"] assms by simp
  obtain b seen where
    run: "contains_group (own_group groups bop) (bo_name bop) (bundle_members groups) (bundle_slot (slot_table (map bg_name groups)))
      (Suc (length groups)) (replicate (length groups) False) g = Some (b, seen)"
    and b: "b \<longleftrightarrow> (\<exists>x. (set_edge groups)\<^sup>*\<^sup>* g x \<and> holds (own_group groups bop) (bo_name bop) (bundle_members groups) x)"
    using contains_decides [OF slots assms(3), of "own_group groups bop" "bo_name bop" "bundle_members groups"] by blast
  then show ?thesis unfolding bundle_contains_def carries_reach [OF assms(1,2)] by simp
qed

section \<open>The tables of a built bundle\<close>

definition bundle_built :: "hash_fun \<Rightarrow> AbiBundle \<Rightarrow> bool" where
  "bundle_built hash b \<longleftrightarrow> (\<exists>x. build hash x = Inr b)"

lemma standard_group_names: "map bg_name standard_groups = GROUPS"
proof -
  have "map bg_name standard_groups = map fst (zip GROUPS GROUP_MEMBERS)" by (auto simp: standard_groups_def)
  then show ?thesis by (simp add: groups_lengths)
qed

lemma build_finish:
  assumes "build hash x = Inr b"
  obtains groups operations resources ids where "finish_bundle hash groups operations resources ids = Inr b"
    and "distinct (map bg_name groups)" and "distinct (map bo_name operations)"
proof -
  let ?std = "map standard_operation OPS"
  let ?key = "\<lambda>b. (operation_identity hash b, bo_name b)"
  obtain groups ids ext where
    groups: "add_groups standard_groups (sort_key bg_name (ab_groups x)) = Inr groups"
    and ext: "add_operations (map bg_name groups) (map fst ids) (map bo_name ?std) [] (ab_operations x) = Inr ext"
    and fin: "finish_bundle hash groups (?std @ sort_key ?key ext) (sort_key rd_name (ab_resources x)) ids = Inr b"
    using assms unfolding build_def Let_def by (auto simp: e_simps)
  have std: "map bo_name ?std = op_names" unfolding op_names [symmetric] by (simp add: standard_operation_def)
  have "distinct (map bg_name groups)"
    using groups [unfolded add_groups_Inr] groups_distinct by (simp add: standard_group_names Int_commute)
  moreover have "distinct (map bo_name (?std @ sort_key ?key ext))"
  proof -
    have e: "distinct (map bo_name ext)" "set (map bo_name ext) \<inter> set op_names = {}"
      using ext [unfolded add_operations_Inr std] by (simp_all add: o_def)
    have "distinct (map bo_name (sort_key ?key ext))"
      using e(1) by (simp add: distinct_map)
    then show ?thesis unfolding map_append distinct_append std using e(2) op_names_distinct by (auto simp del: map_map)
  qed
  ultimately show ?thesis using that fin by blast
qed

lemma build_group_bits_Inr:
  assumes "distinct (map bg_name groups)" and "length groups \<le> 4294967296"
  shows "build_group_bits groups (slot_table (map bg_name groups)) operations =
    Inr (map (\<lambda>g. map (\<lambda>bop. carries groups bop g) operations) [0..<length groups])"
proof -
  have "e_all (\<lambda>b. e_opt BundlePanic (bundle_contains groups (slot_table (map bg_name groups)) g b)) operations =
      Inr (map (\<lambda>bop. carries groups bop g) operations)" if "g < length groups" for g
    unfolding e_all_Inr using bundle_contains_carries [OF assms that] by (simp add: list_all2_conv_all_nth e_opt_def)
  then show ?thesis unfolding build_group_bits_def e_all_Inr by (simp add: list_all2_conv_all_nth)
qed

lemma built_tables:
  assumes "bundle_built hash b" and "length (bu_groups b) \<le> 4294967296"
  shows "bu_group_bits b = map (\<lambda>g. map (\<lambda>bop. carries (bu_groups b) bop g) (bu_operations b)) [0..<length (bu_groups b)]"
    and "bu_groups_by_operation b =
      map (\<lambda>i. map of_nat (filter (carries (bu_groups b) (bu_operations b ! i)) [0..<length (bu_groups b)])) [0..<length (bu_operations b)]"
    and "bu_operation_slots b = slot_table (map bo_name (bu_operations b))"
    and "bu_group_slots b = slot_table (map bg_name (bu_groups b))"
    and "distinct (map bo_name (bu_operations b))" and "distinct (map bg_name (bu_groups b))"
proof -
  obtain x where "build hash x = Inr b" using assms(1) by (auto simp: bundle_built_def)
  then obtain groups operations resources ids where fin: "finish_bundle hash groups operations resources ids = Inr b"
    and dist: "distinct (map bg_name groups)" "distinct (map bo_name operations)"
    by (rule build_finish)
  let ?bits = "map (\<lambda>g. map (\<lambda>bop. carries groups bop g) operations) [0..<length groups]"
  have b: "bu_groups b = groups" "bu_operations b = operations" "bu_operation_slots b = slot_table (map bo_name operations)"
    "bu_group_slots b = slot_table (map bg_name groups)"
    using fin unfolding finish_bundle_def Let_def by (auto simp: e_simps)
  have len: "length groups \<le> 4294967296" using assms(2) b by simp
  have bits: "bu_group_bits b = ?bits" and inv: "bu_groups_by_operation b =
      map (\<lambda>i. map of_nat (filter (\<lambda>g. ?bits ! g ! i) [0..<length groups])) [0..<length operations]"
    using fin unfolding finish_bundle_def Let_def build_group_bits_Inr [OF dist(1) len] by (auto simp: e_simps)
  show "bu_group_bits b = map (\<lambda>g. map (\<lambda>bop. carries (bu_groups b) bop g) (bu_operations b)) [0..<length (bu_groups b)]"
    using bits b by simp
  show "bu_groups_by_operation b =
      map (\<lambda>i. map of_nat (filter (carries (bu_groups b) (bu_operations b ! i)) [0..<length (bu_groups b)])) [0..<length (bu_operations b)]"
    unfolding inv b by (intro map_cong arg_cong [where f = "map of_nat"] filter_cong) auto
  show "bu_operation_slots b = slot_table (map bo_name (bu_operations b))" "bu_group_slots b = slot_table (map bg_name (bu_groups b))"
    "distinct (map bo_name (bu_operations b))" "distinct (map bg_name (bu_groups b))"
    using b dist by simp_all
qed

section \<open>The standard bundle builds\<close>

lemma check_waits_standard: "slot + length bs \<le> 65536 \<Longrightarrow> list_all (\<lambda>b. length (bo_params b) < 8) bs \<Longrightarrow> check_waits slot bs = Inr ()"
  by (induction bs arbitrary: slot) (auto simp: e_simps)

lemma check_set_members_Inr:
  "check_set_members (slot_table gs) (slot_table ps) name seen ms = Inr () \<longleftrightarrow>
     distinct ms \<and> set ms \<inter> set seen = {} \<and> list_all (\<lambda>m. m \<in> set gs \<or> m \<in> set ps) ms"
proof (induction ms arbitrary: seen)
  case (Cons m ms)
  have "check_set_members (slot_table gs) (slot_table ps) name seen (m # ms) = Inr () \<longleftrightarrow>
      m \<notin> set seen \<and> (m \<in> set gs \<or> m \<in> set ps) \<and> check_set_members (slot_table gs) (slot_table ps) name (m # seen) ms = Inr ()"
    using slot_table_None [of gs m] slot_table_None [of ps m] by (auto simp: e_simps)
  then show ?case unfolding Cons.IH by auto
qed simp

lemma position_eq_distinct:
  assumes "distinct xs"
  shows "position (\<lambda>x. x = n) xs = Some i \<longleftrightarrow> i < length xs \<and> xs ! i = n"
  unfolding position_Some_iff using assms by (auto simp: nth_eq_iff_index_eq)

lemma member_slot_Some: "member_slot n = Some i \<longleftrightarrow> i < 32 \<and> GROUPS ! i = n"
proof -
  have "member_slot n = map_option (\<lambda>k. unat (of_nat k :: u32)) (position (\<lambda>g. g = n) GROUPS)"
    by (simp add: member_slot_def group_by_name_def option.map_comp o_def)
  also have "\<dots> = Some i \<longleftrightarrow> (\<exists>k. position (\<lambda>g. g = n) GROUPS = Some k \<and> unat (of_nat k :: u32) = i)"
    by auto
  also have "\<dots> \<longleftrightarrow> i < 32 \<and> GROUPS ! i = n"
    unfolding position_eq_distinct [OF groups_distinct] groups_lengths by (auto simp: unat_u32)
  finally show ?thesis .
qed

lemma standard_slots: "bundle_slot (slot_table GROUPS) = member_slot"
proof
  fix n
  have "bundle_slot (slot_table GROUPS) n = Some i \<longleftrightarrow> member_slot n = Some i" for i
    unfolding member_slot_Some using bundle_slot_Some [OF groups_distinct] by (simp add: groups_lengths)
  then show "bundle_slot (slot_table GROUPS) n = member_slot n" by (rule option_eqI)
qed

lemma standard_members: "bundle_members standard_groups = members_at"
  by (rule ext) (simp add: bundle_members_def members_at_def standard_groups_def get_opt_def groups_lengths)

lemma length_standard_groups: "length standard_groups = 32"
  by (simp add: standard_groups_def groups_lengths)

lemma validate_standard: "validate_group_members standard_groups (slot_table GROUPS) (slot_table op_names) = Inr ()"
proof -
  have "\<exists>ys. e_all (\<lambda>g. check_set_members (slot_table GROUPS) (slot_table op_names) (bg_name g) [] (bg_members g)) standard_groups = Inr ys"
    unfolding e_all_unit using members_distinct members_known
    by (auto simp: check_set_members_Inr standard_groups_def list_all_iff dest!: set_zip_rightD)
  moreover obtain state where "visit_all members_at member_slot (Suc 32) (replicate 32 0) [0..<32] = Some (Inr state)"
    using visit_accepts [of member_slot 32 members_at] member_slot_less edges_acyclic by blast
  ultimately show ?thesis
    by (auto simp: validate_group_members_def e_bind_value standard_slots standard_members length_standard_groups)
qed

lemma standard_builds: "\<exists>b. build hash builder_new = Inr b \<and>
    bu_groups b = standard_groups \<and> bu_operations b = map standard_operation OPS"
proof -
  have std: "map bo_name (map standard_operation OPS) = op_names" unfolding op_names [symmetric] by (simp add: standard_operation_def)
  have "check_waits 0 (map standard_operation OPS) = Inr ()"
    using ops_params by (intro check_waits_standard) (simp_all add: length_OPS list_all_iff standard_operation_def)
  moreover have "\<exists>bits. build_group_bits standard_groups (slot_table GROUPS) (map standard_operation OPS) = Inr bits"
    using build_group_bits_Inr [of standard_groups] groups_distinct by (simp add: standard_group_names length_standard_groups)
  ultimately show ?thesis
    using validate_standard std
    by (auto simp: build_def builder_new_def finish_bundle_def Let_def e_bind_value standard_group_names simp del: map_map)
qed

section \<open>What a built bundle answers\<close>

lemma built_contains:
  assumes "bundle_built hash b" and "length (bu_groups b) \<le> 4294967296" and "length (bu_operations b) \<le> 4294967296"
    and "g < length (bu_groups b)"
  shows "get_opt (bu_group_bits b) (unat (of_nat g :: u32)) = Some (map (\<lambda>bop. carries (bu_groups b) bop g) (bu_operations b))"
  using assms by (simp add: built_tables(1) get_opt_def unat_u32)

lemma built_row_of_operation:
  assumes "bundle_built hash b" and "length (bu_groups b) \<le> 4294967296" and "i < length (bu_operations b)"
  shows "bundle_row_name_operations b (bo_name (bu_operations b ! i)) = Some [of_nat i]"
proof -
  have "map_of (bu_operation_slots b) (bo_name (bu_operations b ! i)) = Some (of_nat i)"
    unfolding built_tables(3) [OF assms(1,2)] slot_table_Some [OF built_tables(5) [OF assms(1,2)]]
    using assms(3) by (intro exI [of _ i]) simp
  then show ?thesis by (simp add: bundle_row_name_operations_def bundle_op_by_name_def)
qed

lemma built_row_of_group:
  assumes "bundle_built hash b" and "length (bu_groups b) \<le> 4294967296" and "length (bu_operations b) \<le> 4294967296"
    and "g < length (bu_groups b)" and "bg_name (bu_groups b ! g) \<notin> bo_name ` set (bu_operations b)"
  shows "bundle_row_name_operations b (bg_name (bu_groups b ! g)) =
    Some (map of_nat (filter (\<lambda>i. carries (bu_groups b) (bu_operations b ! i) g) [0..<length (bu_operations b)]))"
proof -
  let ?bits = "map (\<lambda>bop. carries (bu_groups b) bop g) (bu_operations b)"
  have "map_of (bu_operation_slots b) (bg_name (bu_groups b ! g)) = None"
    unfolding built_tables(3) [OF assms(1,2)] slot_table_None using assms(5) by simp
  moreover have "map_of (bu_group_slots b) (bg_name (bu_groups b ! g)) = Some (of_nat g)"
    unfolding built_tables(4) [OF assms(1,2)] slot_table_Some [OF built_tables(6) [OF assms(1,2)]]
    using assms(4) by (intro exI [of _ g]) simp
  moreover have "set_bits ?bits = map of_nat (filter (\<lambda>i. carries (bu_groups b) (bu_operations b ! i) g) [0..<length (bu_operations b)])"
    unfolding set_bits_def length_map by (intro arg_cong [where f = "map of_nat"] filter_cong) simp_all
  ultimately show ?thesis
    by (simp add: bundle_row_name_operations_def bundle_op_by_name_def bundle_group_by_name_def bundle_group_operations_def
        built_contains [OF assms(1-4)])
qed

lemma ops_included_single: "ops_included (Some [x]) (Some r) \<longleftrightarrow> x \<in> set r"
  by (auto simp: ops_included_def)

lemma of_nat_mem:
  assumes "\<forall>j \<in> set js. j < 4294967296" and "i < 4294967296"
  shows "(of_nat i :: u32) \<in> of_nat ` set js \<longleftrightarrow> i \<in> set js"
  using assms by (metis image_iff unat_u32)

lemma standard_io:
  "bg_name (standard_groups ! 0) = ''Io''" "bo_name (standard_operation (OPS ! 0)) = ''Io.ReadBytes''" "bo_group (standard_operation (OPS ! 0)) = ''Io''"
  by (simp_all add: standard_groups_def GROUPS_def GROUP_MEMBERS_def standard_operation_def OPS_def OPS_parts op_def_name_def)

lemma standard_no_collision:
  "g < 32 \<Longrightarrow> bg_name (standard_groups ! g) \<notin> bo_name ` set (map standard_operation OPS)"
proof -
  assume "g < 32"
  then have "bg_name (standard_groups ! g) \<in> set GROUPS"
    by (metis length_map length_standard_groups nth_map nth_mem standard_group_names)
  moreover have "bo_name ` set (map standard_operation OPS) = set op_names"
    unfolding op_names [symmetric] by (simp add: standard_operation_def image_image)
  ultimately show ?thesis using op_names_no_group by (auto simp: list_all_iff)
qed

text \<open>C4: in every bundle the builder accepts, a group contains an operation exactly when it carries it: it is its
  namespace group, names it, or names a set that carries it. The inverse table lists the same groups.\<close>
theorem bundle_closure:
  assumes "build hash x = Inr b" and "length (bu_groups b) \<le> 4294967296" and "length (bu_operations b) \<le> 4294967296"
    and "g < length (bu_groups b)" and "i < length (bu_operations b)"
  shows "bundle_group_contains_op b (of_nat g) (of_nat i) = carries (bu_groups b) (bu_operations b ! i) g \<and>
    (\<exists>gs. bundle_groups_containing_op b (of_nat i) = Some gs \<and>
      (of_nat g \<in> set gs) = carries (bu_groups b) (bu_operations b ! i) g)"
proof -
  have built: "bundle_built hash b" using assms(1) by (auto simp: bundle_built_def)
  have "bundle_group_contains_op b (of_nat g) (of_nat i) = carries (bu_groups b) (bu_operations b ! i) g"
    unfolding bundle_group_contains_op_def built_contains [OF built assms(2-4)]
    using assms(3,5) by (simp add: get_opt_def unat_u32)
  moreover have "bundle_groups_containing_op b (of_nat i) =
      Some (map of_nat (filter (carries (bu_groups b) (bu_operations b ! i)) [0..<length (bu_groups b)]))"
    using assms(3,5) by (simp add: bundle_groups_containing_op_def built_tables(2) [OF built assms(2)] get_opt_def unat_u32)
  moreover have "(of_nat g :: u32) \<in> of_nat ` set (filter (carries (bu_groups b) (bu_operations b ! i)) [0..<length (bu_groups b)])
      \<longleftrightarrow> carries (bu_groups b) (bu_operations b ! i) g"
    using assms(2,4) by (subst of_nat_mem) auto
  ultimately show ?thesis by simp
qed

theorem bundle_closure_witness:
  "\<forall>hash. \<exists>b. build hash builder_new = Inr b \<and> bundle_group_contains_op b 0 0"
proof
  fix hash
  obtain b where b: "build hash builder_new = Inr b"
    "bu_groups b = standard_groups" "bu_operations b = map standard_operation OPS" using standard_builds [of hash] by blast
  have lens: "length (bu_groups b) = 32" "length (bu_operations b) = 149" by (simp_all add: b length_standard_groups length_OPS)
  have "bundle_group_contains_op b (of_nat 0) (of_nat 0) = carries (bu_groups b) (bu_operations b ! 0) 0"
    using bundle_closure [OF b(1), of 0 0] by (simp add: lens)
  moreover have "carries (bu_groups b) (bu_operations b ! 0) 0"
    by (rule carries_own) (simp_all add: b length_standard_groups length_OPS standard_io)
  ultimately show "\<exists>b. build hash builder_new = Inr b \<and> bundle_group_contains_op b 0 0"
    using b(1) by auto
qed

text \<open>C28: row inclusion in a built bundle is inclusion of operations: an operation is included in a group exactly when the
  group carries it, and a group in a different group exactly when it carries an operation and the other one carries
  all it carries. The names of the groups are not names of operations, which win in a row.\<close>
theorem row_inclusion:
  assumes "build hash x = Inr b" and "length (bu_groups b) \<le> 4294967296" and "length (bu_operations b) \<le> 4294967296"
    and "g < length (bu_groups b)" and "h < length (bu_groups b)" and "i < length (bu_operations b)" and "g \<noteq> h"
    and "bg_name (bu_groups b ! g) \<notin> bo_name ` set (bu_operations b)"
    and "bg_name (bu_groups b ! h) \<notin> bo_name ` set (bu_operations b)"
  shows "bundle_row_name_included b (bo_name (bu_operations b ! i)) (bg_name (bu_groups b ! h)) =
      carries (bu_groups b) (bu_operations b ! i) h \<and>
    bundle_row_name_included b (bg_name (bu_groups b ! g)) (bg_name (bu_groups b ! h)) =
      ((\<exists>bop \<in> set (bu_operations b). carries (bu_groups b) bop g) \<and>
       (\<forall>bop \<in> set (bu_operations b). carries (bu_groups b) bop g \<longrightarrow> carries (bu_groups b) bop h))"
proof -
  have built: "bundle_built hash b" using assms(1) by (auto simp: bundle_built_def)
  let ?ops = "\<lambda>k. filter (\<lambda>i. carries (bu_groups b) (bu_operations b ! i) k) [0..<length (bu_operations b)]"
  have ne: "bg_name (bu_groups b ! g) \<noteq> bg_name (bu_groups b ! h)"
    using built_tables(6) [OF built assms(2)] assms(4,5,7) by (simp add: distinct_map distinct_conv_nth inj_on_def)
  have mem: "(of_nat j :: u32) \<in> of_nat ` set (?ops k) \<longleftrightarrow> j \<in> set (?ops k)" if "j < length (bu_operations b)" for j k
    using assms(3) that by (intro of_nat_mem) auto
  have own: "bo_name (bu_operations b ! i) \<noteq> bg_name (bu_groups b ! h)" using assms(6,9) by (metis image_eqI nth_mem)
  have "bundle_row_name_included b (bo_name (bu_operations b ! i)) (bg_name (bu_groups b ! h)) \<longleftrightarrow> i \<in> set (?ops h)"
    using own mem [OF assms(6)]
    by (simp add: bundle_row_name_included_def built_row_of_operation [OF built assms(2,6)]
        built_row_of_group [OF built assms(2,3,5,9)] ops_included_single del: set_filter)
  moreover have "bundle_row_name_included b (bg_name (bu_groups b ! g)) (bg_name (bu_groups b ! h)) \<longleftrightarrow>
      ?ops g \<noteq> [] \<and> set (?ops g) \<subseteq> set (?ops h)"
  proof -
    have "(\<forall>j \<in> set (?ops g). (of_nat j :: u32) \<in> of_nat ` set (?ops h)) \<longleftrightarrow> set (?ops g) \<subseteq> set (?ops h)"
      using mem by (auto simp del: set_filter) auto
    then show ?thesis
      using ne by (auto simp: bundle_row_name_included_def built_row_of_group [OF built assms(2,3,4,8)]
        built_row_of_group [OF built assms(2,3,5,9)] ops_included_def list_all_iff simp del: set_filter)
  qed
  moreover have "?ops g \<noteq> [] \<longleftrightarrow> (\<exists>bop \<in> set (bu_operations b). carries (bu_groups b) bop g)"
    by (simp add: filter_empty_conv Bex_def in_set_conv_nth) blast
  moreover have "set (?ops g) \<subseteq> set (?ops h) \<longleftrightarrow>
      (\<forall>bop \<in> set (bu_operations b). carries (bu_groups b) bop g \<longrightarrow> carries (bu_groups b) bop h)"
    unfolding all_set_conv_all_nth by auto
  ultimately show ?thesis using assms(6) by simp
qed

theorem row_inclusion_witness:
  "\<forall>hash. \<exists>b. build hash builder_new = Inr b \<and>
     bundle_row_name_included b ''Io.ReadBytes'' ''Io''"
proof
  fix hash
  obtain b where b: "build hash builder_new = Inr b"
    "bu_groups b = standard_groups" "bu_operations b = map standard_operation OPS" using standard_builds [of hash] by blast
  have lens: "length (bu_groups b) = 32" "length (bu_operations b) = 149" by (simp_all add: b length_standard_groups length_OPS)
  have no: "bg_name (bu_groups b ! k) \<notin> bo_name ` set (bu_operations b)" if "k < 32" for k
    unfolding b by (rule standard_no_collision [OF that])
  have "bundle_row_name_included b (bo_name (bu_operations b ! 0)) (bg_name (bu_groups b ! 0)) = carries (bu_groups b) (bu_operations b ! 0) 0"
    using row_inclusion [OF b(1), of 1 0 0] no [of 0] no [of 1] by (simp add: lens)
  moreover have "carries (bu_groups b) (bu_operations b ! 0) 0"
    by (rule carries_own) (simp_all add: b length_standard_groups length_OPS standard_io)
  ultimately show "\<exists>b. build hash builder_new = Inr b \<and> bundle_row_name_included b ''Io.ReadBytes'' ''Io''"
    using b(1) by (auto simp: b(2,3) length_OPS standard_io)
qed

text \<open>C23: the compiled manifest passes its own check, whatever the content hash, and the bundle without extensions
  builds, so that the process-wide standard bundle always exists and holds the 149 operations and 32 groups.\<close>
theorem standard_manifest_valid:
  "validate_manifest = Inr () \<and>
   (\<exists>b. standard_bundle hash = Some b \<and> bu_groups b = standard_groups \<and> bu_operations b = map standard_operation OPS \<and>
      length (bu_groups b) = 32 \<and> length (bu_operations b) = 149)"
  using standard_builds [of hash]
  by (auto simp: validate_manifest_ok standard_bundle_def length_standard_groups length_OPS)

end
