(* ===== verification/Spec2Isabelle.thy ===== *)
theory Spec2Isabelle
  imports Case_Arms Scheduler_Wake Scc_Correct Module_Wf Debug_Correct Syntax_Build
    Abi_Sample Abi_Text Bundle_Closure
begin

text \<open>
  Verification of the Loom language implementation (the crates under \<^verbatim>\<open>src/crates\<close>).

  \<^bold>\<open>The program.\<close> Loom compiles source modules to bytecode and runs them in a virtual machine with procs,
  effect rows and host operations. The parts modelled here are, from the bottom up:

  \<^item> the ABI (\<^verbatim>\<open>lm-abi\<close>): the fixed operation and intrinsic manifests, the bundles that extend them, the fault codes, and
    the syntax records that compiled code carries;
  \<^item> the bytecode (\<^verbatim>\<open>lm-bytecode\<close>): instructions, module tables, debug data and the container that stores them;
  \<^item> the static analyses: pattern usefulness (\<^verbatim>\<open>lm-hir\<close>) and strongly connected components (\<^verbatim>\<open>lm-scc\<close>);
  \<^item> the deterministic scheduler (\<^verbatim>\<open>lm-proc\<close>) and the schedule events and active procs it takes from \<^verbatim>\<open>lm-vm\<close>.

  The ABI names the operations that bytecode and effect rows refer to; the container stores what the checker
  produced; the scheduler drives the procs of the virtual machine.

  \<^bold>\<open>Conventions.\<close> A Rust function is a HOL function of the same name where HOL allows it, with the receiver as an explicit
  argument and the changed state in the result. Integers that can wrap keep their width. An error is the left side
  of a sum, a panic is an error constructor of its own or \<open>None\<close>. Recursion that the source bounds by its data takes
  a budget, and each such budget has a lemma that it is enough. Code outside \<^verbatim>\<open>src\<close> (the content hash, the allocator, the
  sizes of Rust types, the random source, the world behind the scheduler) is a parameter. \<^verbatim>\<open>Loom_Prelude\<close> holds the shared words, byte
  lists, partial list access, the result combinators \<open>e_bind\<close>, \<open>e_if\<close>, \<open>e_opt\<close>, \<open>e_all\<close> and the collections used by \<open>simp\<close>.

  \<^bold>\<open>Pattern analysis.\<close> \<^verbatim>\<open>Exhaust\<close> models \<^verbatim>\<open>lm-hir/src/exhaust.rs\<close> (\<open>useful\<close>, \<open>specialize\<close>, \<open>default_matrix\<close>) and \<open>analyze_arms\<close> of the case check.
  \<^verbatim>\<open>Exhaust_Correct\<close> shows that the analysis decides usefulness on well-typed input at a fixed cost that the budget does or does not
  cover. \<^verbatim>\<open>Case_Arms\<close> gives the resolved patterns of \<^verbatim>\<open>lm-hir/src/hir.rs\<close> their meaning on runtime values, request arguments included, and shows that an
  accepted case is exhaustive, which of its arms are reachable, and that two request arms of one operation are never accepted.

  \<^bold>\<open>Scheduler.\<close> \<^verbatim>\<open>Fault\<close> has the fault codes, \<^verbatim>\<open>Schedule\<close> the event batches, \<^verbatim>\<open>Gen_Map\<close> the generation-checked maps of active procs, \<^verbatim>\<open>Sched_Index\<close>
  the wake, park and task indexes, \<^verbatim>\<open>Scheduler\<close> the operations and one round of the loop. The locales \<open>gen_map\<close>, \<open>wait_index\<close> and
  \<open>waiter_map\<close> state what the scheduler relies on and are interpreted on these definitions. \<^verbatim>\<open>Scheduler_Correct\<close> has the invariant
  of every reachable state, first-in first-out choice and progress; \<^verbatim>\<open>Scheduler_Wake\<close> shows whom a wake reaches and in which order,
  that a blocked task stays reachable through the traffic of others, and two situations in which a task is lost.

  \<^bold>\<open>Components.\<close> \<^verbatim>\<open>Scc\<close> is the iterative walk of \<^verbatim>\<open>lm-scc\<close> with its explicit stack; \<^verbatim>\<open>Scc_Correct\<close> shows that it returns the strongly connected
  components, callees first, for all nodes and for rooted walks.

  \<^bold>\<open>Bytecode.\<close> \<^verbatim>\<open>Bytecode\<close>, \<^verbatim>\<open>Opcodes\<close> and \<^verbatim>\<open>Codec\<close> have the instructions and their bytes; \<^verbatim>\<open>Codec_Correct\<close> and \<^verbatim>\<open>Codec_Stream\<close> the round trip, the
  prefix property and the rejection of truncated input. \<^verbatim>\<open>Wire\<close> and \<^verbatim>\<open>Wire_Rules\<close> are the reader combinators and their rules, \<^verbatim>\<open>Module_Data\<close> the
  module tables, \<^verbatim>\<open>Module_Encode\<close> and \<^verbatim>\<open>Module_Decode\<close> the two directions. \<^verbatim>\<open>Module_Codec\<close>, \<^verbatim>\<open>Module_Roundtrip\<close> and \<^verbatim>\<open>Container\<close> lead to the round trip of the whole
  container and to what its semantic bytes determine: everything but the definition names, slot names and late flags, class
  initialization data, bindings, exports and debug data. \<^verbatim>\<open>Module_Wf\<close> shows that every accepted module is well formed and its constants bounded in
  memory and depth. \<^verbatim>\<open>Debug_Info\<close> and \<^verbatim>\<open>Debug_Correct\<close> do the same for the debug section, its origin cache and its relocation.

  \<^bold>\<open>Syntax records.\<close> \<^verbatim>\<open>Syntax_View\<close> models \<^verbatim>\<open>lm-abi/src/syntax.rs\<close>. \<^verbatim>\<open>Syntax_Correct\<close> has the round trip, \<^verbatim>\<open>Syntax_Detach\<close> shows that an extracted subtree is the
  requested tree, \<^verbatim>\<open>Syntax_Build\<close> that built nodes show their parts and that no input makes the code panic, underflow of plain subtraction included.

  \<^bold>\<open>Operation manifest and bundles.\<close> \<^verbatim>\<open>Abi_Types\<close> has the type language and the tables of \<^verbatim>\<open>lm-abi/src/lib.rs\<close>, \<^verbatim>\<open>Abi_Manifest\<close> its lookups, encodings, sampler and check,
  \<^verbatim>\<open>Abi_Bundle\<close> the builder and lookups of \<^verbatim>\<open>bundle.rs\<close>, \<^verbatim>\<open>Group_Walk\<close> the membership and cycle walks both share. \<^verbatim>\<open>Manifest_Tables\<close> evaluates facts about the
  tables and \<^verbatim>\<open>Manifest_Check\<close> derives that they pass the check. \<^verbatim>\<open>Abi_Text\<close> shows what an operation identity determines, \<^verbatim>\<open>Abi_Sample\<close> that the sampler
  returns each value on equally many word sequences, \<^verbatim>\<open>Bundle_Correct\<close> that the order of extensions does not matter, \<^verbatim>\<open>Bundle_Closure\<close> that the cached closure is
  transitive membership, that row inclusion is inclusion of operations, and that the standard bundle builds.

  \<^bold>\<open>Budgets.\<close> The walks over groups take one level per group, since each level marks a group that was not marked. The component walk
  and the syntax extraction take a step count derived from nodes and edges. The pattern analysis has a
  finite cost; a budget below it is reported as exceeded and never changes the answer. The sampler loop is a partial function; it is shown to return as
  soon as the source gives an accepted word.

  \<^bold>\<open>Not modelled.\<close> The interpreter, heap, snapshots and native code generator work on unsafe memory or external code
  generators; the host services, driver and command line are input and output; the parallel scheduler is threads
  and locks. The parser, the rest of the checker, the type store, the linker, the bytecode verifier, artifacts and definition
  identities are pure enough to be modelled and are not yet. Bounds that only the address space gives, such as lists
  longer than \<open>2\<^sup>6\<^sup>4\<close>, appear as hypotheses.
\<close>

end
